(* ===== verification/JsPrelude.thy ===== *)
theory JsPrelude
  imports Complex_Main "HOL-Library.List_Lexorder" "HOL-Library.Char_ord" "HOL-Library.Product_Lexorder" "HOL-Library.Multiset"
begin

section \<open>What the TypeScript sources use of the language\<close>

text \<open>
  The generic part of the development: the JavaScript operators and library functions that the
  client under \<open>src/web/src\<close> relies on, with the lemmas the component theories share.
  \<^item> A JavaScript string is a \<^typ>\<open>string\<close>, the bytes of its UTF-8 encoding. Literals of the
    sources are ASCII, so a literal is itself. (Lone surrogates have no UTF-8 form and are outside
    the model.)
  \<^item> \<open>undefined\<close> and \<open>null\<close> are \<^const>\<open>None\<close>; \<open>x || d\<close> is \<open>str_or\<close> and \<open>x ?? d\<close> is \<open>nullish\<close>.
  \<^item> \<open>Array.prototype.sort\<close> is \<open>js_sort\<close>, a stable sort by a comparator; for a comparator
    that is a total preorder the specification of the language leaves no other result.
  \<^item> \<open>findIndex\<close>, \<open>find\<close>, \<open>slice\<close>, \<open>split\<close> and \<open>join\<close> are the functions below.
\<close>

named_theorems js_simps \<open>unfolding rules of the JavaScript operators\<close>

type_synonym 'a arr = "'a list"

subsection \<open>Falsy values and defaults\<close>

definition str_or :: "string option \<Rightarrow> string \<Rightarrow> string" where
  "str_or x d = (case x of None \<Rightarrow> d | Some s \<Rightarrow> if s = [] then d else s)"

definition nullish :: "'a option \<Rightarrow> 'a \<Rightarrow> 'a" where
  "nullish x d = (case x of None \<Rightarrow> d | Some v \<Rightarrow> v)"

definition truthy :: "string option \<Rightarrow> bool" where
  "truthy x = (case x of None \<Rightarrow> False | Some s \<Rightarrow> s \<noteq> [])"

lemma str_or_simps [simp, js_simps]:
  "str_or None d = d" "str_or (Some []) d = d" "str_or (Some (c # s)) d = c # s"
  by (simp_all add: str_or_def)

lemma str_or_Some [simp]: "s \<noteq> [] \<Longrightarrow> str_or (Some s) d = s"
  by (simp add: str_or_def)

lemma nullish_simps [simp, js_simps]: "nullish None d = d" "nullish (Some v) d = v"
  by (simp_all add: nullish_def)

lemma truthy_simps [simp, js_simps]: "\<not> truthy None" "truthy (Some s) \<longleftrightarrow> s \<noteq> []"
  by (simp_all add: truthy_def)

subsection \<open>Prefixes: \<open>startsWith\<close> and \<open>slice\<close>\<close>

fun startsWith :: "string \<Rightarrow> string \<Rightarrow> bool" where
  "startsWith s [] = True"
| "startsWith [] (p # ps) = False"
| "startsWith (c # s) (p # ps) = (c = p \<and> startsWith s ps)"

lemma startsWith_append [simp]: "startsWith (p @ s) p"
  by (induction p) auto

lemma startsWith_iff: "startsWith s p \<longleftrightarrow> (\<exists>t. s = p @ t)"
  by (induction s p rule: startsWith.induct) auto

lemma startsWith_append_same [simp]: "startsWith (p @ s) (p @ q) = startsWith s q"
  by (induction p) auto

lemma startsWith_split: "startsWith s p \<Longrightarrow> s = p @ drop (length p) s"
  by (auto simp: startsWith_iff)

subsection \<open>Searching arrays\<close>

text \<open>\<open>findIndex\<close> as an option: \<^const>\<open>None\<close> is the JavaScript result \<open>-1\<close>.\<close>

fun find_index :: "('a \<Rightarrow> bool) \<Rightarrow> 'a list \<Rightarrow> nat option" where
  "find_index P [] = None"
| "find_index P (x # xs) = (if P x then Some 0 else map_option Suc (find_index P xs))"

lemma find_index_None: "find_index P xs = None \<longleftrightarrow> (\<forall>x \<in> set xs. \<not> P x)"
  by (induction xs) auto

lemma find_index_Some:
  "find_index P xs = Some i \<longleftrightarrow> i < length xs \<and> P (xs ! i) \<and> (\<forall>j < i. \<not> P (xs ! j))"
proof (induction xs arbitrary: i)
  case Nil
  then show ?case by simp
next
  case (Cons x xs)
  show ?case
  proof (cases i)
    case 0
    then show ?thesis by (auto split: if_splits)
  next
    case (Suc k)
    show ?thesis
      unfolding Suc using Cons.IH[of k] by (auto simp: All_less_Suc2)
  qed
qed

lemma find_index_SomeD:
  assumes "find_index P xs = Some i"
  shows "i < length xs" "P (xs ! i)" "\<And>j. j < i \<Longrightarrow> \<not> P (xs ! j)"
  using assms by (auto simp: find_index_Some)

lemma find_Some_in: "List.find P xs = Some x \<Longrightarrow> x \<in> set xs \<and> P x"
  by (induction xs) (auto split: if_splits)

subsection \<open>\<open>split\<close> and \<open>join\<close> on one character\<close>

fun split_on :: "'a \<Rightarrow> 'a list \<Rightarrow> 'a list list" where
  "split_on sep [] = [[]]"
| "split_on sep (c # cs) =
     (if c = sep then [] # split_on sep cs
      else (case split_on sep cs of [] \<Rightarrow> [[c]] | w # ws \<Rightarrow> (c # w) # ws))"

fun join_with :: "'a list \<Rightarrow> 'a list list \<Rightarrow> 'a list" where
  "join_with sep [] = []"
| "join_with sep [w] = w"
| "join_with sep (w # v # ws) = w @ sep @ join_with sep (v # ws)"

lemma split_on_ne [simp]: "split_on sep s \<noteq> []"
  by (induction s) (auto split: list.splits)

lemma split_on_no_sep [simp]: "sep \<notin> set w \<Longrightarrow> split_on sep w = [w]"
  by (induction w) auto

lemma split_on_append_sep [simp]:
  "sep \<notin> set w \<Longrightarrow> split_on sep (w @ sep # s) = w # split_on sep s"
  by (induction w) auto

lemma split_join:
  "ws \<noteq> [] \<Longrightarrow> \<forall>w \<in> set ws. sep \<notin> set w \<Longrightarrow> split_on sep (join_with [sep] ws) = ws"
  by (induction "[sep]" ws rule: join_with.induct) auto

lemma join_split: "join_with [sep] (split_on sep s) = s"
proof (induction s)
  case Nil
  then show ?case by simp
next
  case (Cons c s)
  obtain w ws where "split_on sep s = w # ws"
    by (cases "split_on sep s") auto
  with Cons.IH show ?case by (cases ws) auto
qed

lemma split_on_no_sep_in: "w \<in> set (split_on sep s) \<Longrightarrow> sep \<notin> set w"
  by (induction s arbitrary: w) (auto split: if_splits list.splits)

lemma set_join_with: "set (join_with sep ws) \<subseteq> (\<Union>w \<in> set ws. set w) \<union> set sep"
  by (induction sep ws rule: join_with.induct) auto

lemma map_of_rev_distinct: "distinct (map fst ps) \<Longrightarrow> map_of (List.rev ps) = map_of ps"
  by (rule map_of_inject_set[THEN iffD2]) (simp_all add: rev_map[symmetric])

text \<open>The text before and after the first occurrence of a character.\<close>

definition cut_first :: "'a \<Rightarrow> 'a list \<Rightarrow> 'a list \<times> 'a list" where
  "cut_first sep s = (takeWhile (\<lambda>c. c \<noteq> sep) s, drop 1 (dropWhile (\<lambda>c. c \<noteq> sep) s))"

lemma cut_first_append [simp]: "sep \<notin> set w \<Longrightarrow> cut_first sep (w @ sep # s) = (w, s)"
proof -
  assume "sep \<notin> set w"
  then have "\<forall>c \<in> set w. c \<noteq> sep" by auto
  then show ?thesis
    by (simp add: cut_first_def takeWhile_append2 dropWhile_append2)
qed

subsection \<open>\<open>trim\<close>\<close>

text \<open>
  The white space of the language, each character by its UTF-8 bytes; Go's \<open>strings.TrimSpace\<close> has
  the next-line character in place of the byte order mark. Both strip what they can at both ends.
\<close>

definition utf8 :: "nat list \<Rightarrow> string" where
  "utf8 = map char_of"

definition SPACES :: "string list" where
  "SPACES = map utf8
     ([[9], [10], [11], [12], [13], [32], [194, 160], [225, 154, 128]] @
      map (\<lambda>k. [226, 128, 128 + k]) [0..<11] @
      [[226, 128, 168], [226, 128, 169], [226, 128, 175], [226, 129, 159], [227, 128, 128]])"

definition JS_SPACES :: "string list" where
  "JS_SPACES = utf8 [239, 187, 191] # SPACES"

definition GO_SPACES :: "string list" where
  "GO_SPACES = utf8 [194, 133] # SPACES"

fun strip_start :: "string list \<Rightarrow> nat \<Rightarrow> string \<Rightarrow> string" where
  "strip_start ws 0 s = s"
| "strip_start ws (Suc n) s =
     (case List.find (startsWith s) ws of None \<Rightarrow> s | Some w \<Rightarrow> strip_start ws n (drop (length w) s))"

definition trim_spaces :: "string list \<Rightarrow> string \<Rightarrow> string" where
  "trim_spaces ws s =
     (let t = strip_start ws (length s) s
      in List.rev (strip_start (map List.rev ws) (length t) (List.rev t)))"

definition js_trim :: "string \<Rightarrow> string" where
  "js_trim = trim_spaces JS_SPACES"

definition go_trim :: "string \<Rightarrow> string" where
  "go_trim = trim_spaces GO_SPACES"

subsection \<open>\<open>Array.prototype.sort\<close>\<close>

text \<open>
  A comparator returns a negative, zero or positive number. \<open>sort_insert\<close> puts an element in
  front of the first one it does not exceed, and the elements are inserted from the last to the
  first, so equal elements keep their order: the sort is stable.
\<close>

fun sort_insert :: "('a \<Rightarrow> 'a \<Rightarrow> int) \<Rightarrow> 'a \<Rightarrow> 'a list \<Rightarrow> 'a list" where
  "sort_insert cmp x [] = [x]"
| "sort_insert cmp x (y # ys) =
     (if cmp x y \<le> 0 then x # y # ys else y # sort_insert cmp x ys)"

definition js_sort :: "('a \<Rightarrow> 'a \<Rightarrow> int) \<Rightarrow> 'a list \<Rightarrow> 'a list" where
  "js_sort cmp xs = foldr (sort_insert cmp) xs []"

lemma js_sort_simps [simp]:
  "js_sort cmp [] = []" "js_sort cmp (x # xs) = sort_insert cmp x (js_sort cmp xs)"
  by (simp_all add: js_sort_def)

lemma mset_sort_insert [simp]: "mset (sort_insert cmp x xs) = add_mset x (mset xs)"
  by (induction xs) auto

lemma mset_js_sort [simp]: "mset (js_sort cmp xs) = mset xs"
  by (induction xs) auto

lemma set_js_sort [simp]: "set (js_sort cmp xs) = set xs"
  by (metis mset_js_sort set_mset_mset)

lemma length_js_sort [simp]: "length (js_sort cmp xs) = length xs"
  by (metis mset_js_sort size_mset)

lemma js_sort_Nil_iff [simp]: "js_sort cmp xs = [] \<longleftrightarrow> xs = []"
  by (metis length_js_sort length_0_conv)

lemma set_sort_insert [simp]: "set (sort_insert cmp x xs) = insert x (set xs)"
  by (induction xs) auto

lemma distinct_js_sort [simp]: "distinct (js_sort cmp xs) = distinct xs"
  by (metis mset_eq_imp_distinct_iff mset_js_sort)

text \<open>Sorting by the difference of a numeric key is the library's stable \<^const>\<open>sort_key\<close>.\<close>

lemma sort_insert_key:
  "sort_insert (\<lambda>a b. (f a :: int) - f b) x ys = insort_key f x ys"
  by (induction ys) auto

lemma js_sort_key: "js_sort (\<lambda>a b. (f a :: int) - f b) xs = sort_key f xs"
  by (induction xs) (auto simp: sort_insert_key)

text \<open>
  The contract of a comparator: it is a total preorder. A comparator that is one is sorted by,
  and leaves elements that it does not separate in their order.
\<close>

locale comparator =
  fixes cmp :: "'a \<Rightarrow> 'a \<Rightarrow> int"
  assumes total: "cmp a b \<le> 0 \<or> cmp b a \<le> 0"
    and trans: "cmp a b \<le> 0 \<Longrightarrow> cmp b c \<le> 0 \<Longrightarrow> cmp a c \<le> 0"
begin

lemma refl: "cmp a a \<le> 0"
  using total[of a a] by simp

lemma sorted_insert:
  "sorted_wrt (\<lambda>a b. cmp a b \<le> 0) xs \<Longrightarrow> sorted_wrt (\<lambda>a b. cmp a b \<le> 0) (sort_insert cmp x xs)"
proof (induction xs)
  case Nil
  then show ?case by simp
next
  case (Cons y ys)
  then show ?case using total[of x y] by (auto intro: trans)
qed

lemma sorted_sort: "sorted_wrt (\<lambda>a b. cmp a b \<le> 0) (js_sort cmp xs)"
  by (induction xs) (auto intro: sorted_insert)

lemma filter_insert:
  assumes "\<And>a b. P a \<Longrightarrow> P b \<Longrightarrow> cmp a b \<le> 0" and "P x"
  shows "filter P (sort_insert cmp x xs) = x # filter P xs"
  using assms by (induction xs) auto

lemma filter_insert_other: "\<not> P x \<Longrightarrow> filter P (sort_insert cmp x xs) = filter P xs"
  by (induction xs) auto

lemma sort_stable:
  assumes "\<And>a b. P a \<Longrightarrow> P b \<Longrightarrow> cmp a b \<le> 0"
  shows "filter P (js_sort cmp xs) = filter P xs"
proof (induction xs)
  case Nil
  then show ?case by simp
next
  case (Cons x xs)
  show ?case
  proof (cases "P x")
    case True
    with Cons filter_insert[of P x, OF assms True] show ?thesis by simp
  next
    case False
    with Cons show ?thesis by (simp add: filter_insert_other)
  qed
qed

lemma sort_sorted: "sorted_wrt (\<lambda>a b. cmp a b \<le> 0) xs \<Longrightarrow> js_sort cmp xs = xs"
proof (induction xs)
  case Nil
  then show ?case by simp
next
  case (Cons x xs)
  then have "js_sort cmp xs = xs" by simp
  with Cons.prems show ?case by (cases xs) auto
qed

end

text \<open>
  Comparators of the sources compare a key: \<open>x || y\<close> on numbers falls back on the second comparison,
  and the whole is the lexicographic order of the keys.
\<close>

definition cmp_or :: "int \<Rightarrow> int \<Rightarrow> int" where
  "cmp_or x y = (if x = 0 then y else x)"

definition cmp_lin :: "'a :: linorder \<Rightarrow> 'a \<Rightarrow> int" where
  "cmp_lin x y = (if x < y then - 1 else if x = y then 0 else 1)"

lemma cmp_lin_simps [simp]:
  "cmp_lin x y \<le> 0 \<longleftrightarrow> x \<le> y" "cmp_lin x y = 0 \<longleftrightarrow> x = y" "cmp_lin x y < 0 \<longleftrightarrow> x < y"
  by (auto simp: cmp_lin_def)

lemma cmp_or_lin [simp]: "cmp_or (cmp_lin x y) c \<le> 0 \<longleftrightarrow> x < y \<or> x = y \<and> c \<le> 0"
  by (auto simp: cmp_or_def cmp_lin_def)

definition compares :: "('a \<Rightarrow> 'a \<Rightarrow> int) \<Rightarrow> ('a \<Rightarrow> 'b :: linorder) \<Rightarrow> bool" where
  "compares cmp k \<longleftrightarrow> (\<forall>a b. cmp a b \<le> 0 \<longleftrightarrow> k a \<le> k b)"

lemma comparator_key: "compares cmp k \<Longrightarrow> comparator cmp"
  by unfold_locales (auto simp: compares_def)

lemma js_sort_by: "compares cmp k \<Longrightarrow> js_sort cmp xs = sort_key k xs"
proof -
  assume c: "compares cmp k"
  have "sort_insert cmp x ys = insort_key k x ys" for x ys
    using c by (induction ys) (auto simp: compares_def)
  then show ?thesis by (induction xs) auto
qed

text \<open>The instances every component uses: by a number or a text, and by one key after another.\<close>

lemma compares_lin: "compares (\<lambda>a b. cmp_lin (k a) (k b)) k"
  by (simp add: compares_def)

lemma compares_diff: "compares (\<lambda>a b. (k a :: int) - k b) k"
  by (simp add: compares_def)

lemma compares_or:
  "compares (\<lambda>a b. c a b) l \<Longrightarrow> compares (\<lambda>a b. cmp_or (cmp_lin (k a) (k b)) (c a b)) (\<lambda>a. (k a, l a))"
  by (auto simp: compares_def)

text \<open>
  The same sort by insertion from the left, which is what an engine does with a comparator that is
  not a preorder: each element goes behind all those it is not strictly smaller than.
\<close>

fun insert_left :: "('a \<Rightarrow> 'a \<Rightarrow> int) \<Rightarrow> 'a \<Rightarrow> 'a list \<Rightarrow> 'a list" where
  "insert_left cmp x [] = [x]"
| "insert_left cmp x (y # ys) = (if cmp x y < 0 then x # y # ys else y # insert_left cmp x ys)"

definition js_sort_left :: "('a \<Rightarrow> 'a \<Rightarrow> int) \<Rightarrow> 'a list \<Rightarrow> 'a list" where
  "js_sort_left cmp xs = foldl (\<lambda>ys x. insert_left cmp x ys) [] xs"

lemma mset_insert_left [simp]: "mset (insert_left cmp x ys) = add_mset x (mset ys)"
  by (induction ys) auto

lemma js_sort_left_snoc [simp]: "js_sort_left cmp (xs @ [x]) = insert_left cmp x (js_sort_left cmp xs)"
  by (simp add: js_sort_left_def)

lemma js_sort_left_by:
  assumes k: "\<And>x y. cmp x y < 0 \<longleftrightarrow> k x < k y"
  shows "js_sort_left cmp xs = sort_key k xs"
proof -
  have srt: "sorted (map k ys) \<Longrightarrow> sorted (map k (insert_left cmp x ys))" for x ys
  proof (induction ys)
    case (Cons y ys)
    have "set (insert_left cmp x ys) = insert x (set ys)" by (metis mset_insert_left set_mset_add_mset_insert set_mset_mset)
    with Cons show ?case by (auto simp: k not_less)
  qed simp
  have fl: "sorted (map k ys) \<Longrightarrow> filter (\<lambda>y. c = k y) (insert_left cmp x ys) =
      filter (\<lambda>y. c = k y) ys @ (if c = k x then [x] else [])" for c x ys
  proof (induction ys)
    case (Cons y ys)
    have "filter (\<lambda>z. k x = k z) (y # ys) = []" if "k x < k y"
      using Cons.prems that by (auto simp: filter_empty_conv)
    with Cons show ?case by (auto simp: k)
  qed simp
  have "mset (js_sort_left cmp xs) = mset xs \<and> sorted (map k (js_sort_left cmp xs)) \<and>
      (\<forall>c. filter (\<lambda>y. c = k y) (js_sort_left cmp xs) = filter (\<lambda>y. c = k y) xs)"
  proof (induction xs rule: rev_induct)
    case Nil
    then show ?case by (simp add: js_sort_left_def)
  qed (simp add: srt fl)
  then show ?thesis by (intro sym[OF properties_for_sort_key]) auto
qed

subsection \<open>A \<open>Map\<close> of arrays\<close>

text \<open>
  The grouping idiom of the sources: push onto the array of a key, creating it at the end of the map
  on its first use. A \<open>Map\<close> keeps the order of insertion; it is an association list.
\<close>

fun map_push :: "('k \<times> 'v list) list \<Rightarrow> 'k \<Rightarrow> 'v \<Rightarrow> ('k \<times> 'v list) list" where
  "map_push [] k v = [(k, [v])]"
| "map_push ((j, l) # m) k v = (if j = k then (j, l @ [v]) # m else (j, l) # map_push m k v)"

definition group_by :: "('a \<Rightarrow> 'k) \<Rightarrow> ('a \<Rightarrow> 'v) \<Rightarrow> 'a list \<Rightarrow> ('k \<times> 'v list) list" where
  "group_by k f xs = foldl (\<lambda>m x. map_push m (k x) (f x)) [] xs"

lemma group_by_snoc [simp]: "group_by k f (xs @ [x]) = map_push (group_by k f xs) (k x) (f x)"
  by (simp add: group_by_def)

lemma group_by_Nil [simp]: "group_by k f [] = []"
  by (simp add: group_by_def)

lemma keys_map_push: "fst ` set (map_push m k v) = insert k (fst ` set m)"
  by (induction m k v rule: map_push.induct) auto

lemma distinct_map_push: "distinct (map fst m) \<Longrightarrow> distinct (map fst (map_push m k v))"
proof (induction m k v rule: map_push.induct)
  case (2 j l m k v)
  then show ?case using keys_map_push[of m k v] by (auto simp del: set_map simp: set_map[symmetric])
qed simp

lemma map_of_map_push:
  "map_of (map_push m k v) j = (if j = k then Some (nullish (map_of m k) [] @ [v]) else map_of m j)"
  by (induction m k v rule: map_push.induct) auto

lemma map_of_group_by:
  "map_of (group_by k f xs) j =
    (if j \<in> k ` set xs then Some (map f (filter (\<lambda>x. k x = j) xs)) else None)"
  by (induction xs rule: rev_induct) (auto simp: map_of_map_push filter_empty_conv, metis imageI)

lemma distinct_group_by: "distinct (map fst (group_by k f xs))"
  by (induction xs rule: rev_induct) (simp_all add: distinct_map_push)

lemma keys_group_by: "fst ` set (group_by k f xs) = k ` set xs"
  by (induction xs rule: rev_induct) (auto simp: keys_map_push)

lemma group_by_entry:
  "(j, l) \<in> set (group_by k f xs) \<longleftrightarrow> j \<in> k ` set xs \<and> l = map f (filter (\<lambda>x. k x = j) xs)"
  using map_of_group_by[of k f xs j] distinct_group_by[of k f xs]
  by (metis (no_types, lifting) map_of_eq_Some_iff option.distinct(1) option.inject)

lemma mset_map_push: "mset (concat (map snd (map_push m k v))) = add_mset v (mset (concat (map snd m)))"
  by (induction m k v rule: map_push.induct) auto

lemma mset_group_by: "mset (concat (map snd (group_by k f xs))) = image_mset f (mset xs)"
  by (induction xs rule: rev_induct) (simp_all add: mset_map_push)

lemma map_snd_keys: "distinct (map fst g) \<Longrightarrow> map (\<lambda>k. the (map_of g k)) (map fst g) = map snd g"
  by (auto simp: map_of_is_SomeI)

text \<open>What a concatenation holds depends on the multiset of the pieces only.\<close>

lemma mset_concat_map: "mset (concat (map f xs)) = \<Sum>\<^sub># (image_mset (\<lambda>x. mset (f x)) (mset xs))"
  by (induction xs) simp_all

end
