(* ===== verification/JsUrl.thy ===== *)
theory JsUrl
  imports JsPrelude
begin

section \<open>URL encodings of the browser\<close>

text \<open>
  \<open>encodeURIComponent\<close>, \<open>decodeURIComponent\<close> and \<open>URLSearchParams\<close>, which every permalink, card
  token and request path of the client goes through. Both percent-encodings work on the UTF-8 bytes
  of a string, which is what a \<^typ>\<open>string\<close> of this development holds. The query list of a
  \<open>URLSearchParams\<close> is a list of pairs, in order, with duplicates.
\<close>

subsection \<open>UTF-8\<close>

text \<open>
  The decoder of the URL standard replaces an ill-formed sequence with U+FFFD. Its state is the
  output, the bytes of the sequence so far, how many continuation bytes are missing, and the range
  the next one must be in. A string is well formed when decoding changes nothing.
\<close>

definition utf8_lead :: "nat \<Rightarrow> (nat \<times> nat \<times> nat) option" where
  "utf8_lead b =
     (if b < 128 then Some (0, 128, 191)
      else if 194 \<le> b \<and> b \<le> 223 then Some (1, 128, 191)
      else if b = 224 then Some (2, 160, 191)
      else if b = 237 then Some (2, 128, 159)
      else if 225 \<le> b \<and> b \<le> 239 then Some (2, 128, 191)
      else if b = 240 then Some (3, 144, 191)
      else if 241 \<le> b \<and> b \<le> 243 then Some (3, 128, 191)
      else if b = 244 then Some (3, 128, 143)
      else None)"

definition fffd :: string where
  "fffd = [char_of (239::nat), char_of (191::nat), char_of (189::nat)]"

type_synonym utf8_state = "string \<times> string \<times> nat \<times> nat \<times> nat"

definition utf8_begin :: "string \<Rightarrow> char \<Rightarrow> utf8_state" where
  "utf8_begin out c =
     (case utf8_lead (of_char c) of
        Some (k, lo, hi) \<Rightarrow> if k = 0 then (out @ [c], [], 0, 128, 191) else (out, [c], k, lo, hi)
      | None \<Rightarrow> (out @ fffd, [], 0, 128, 191))"

fun utf8_step :: "utf8_state \<Rightarrow> char \<Rightarrow> utf8_state" where
  "utf8_step (out, acc, n, lo, hi) c =
     (if n = 0 then utf8_begin out c
      else if lo \<le> of_char c \<and> of_char c \<le> hi then
        (if n = 1 then (out @ acc @ [c], [], 0, 128, 191)
         else (out, acc @ [c], n - 1, 128, 191))
      else utf8_begin (out @ fffd) c)"

definition utf8_fix :: "string \<Rightarrow> string" where
  "utf8_fix s = (case foldl utf8_step ([], [], 0, 128, 191) s of
     (out, acc, n, lo, hi) \<Rightarrow> if n = 0 then out else out @ fffd)"

definition utf8_valid :: "string \<Rightarrow> bool" where
  "utf8_valid s \<longleftrightarrow> utf8_fix s = s"

definition ascii :: "string \<Rightarrow> bool" where
  "ascii s \<longleftrightarrow> (\<forall>c \<in> set s. of_char c < (128::nat))"

lemma utf8_run_ascii:
  "ascii s \<Longrightarrow> foldl utf8_step (out, [], 0, 128, 191) s = (out @ s, [], 0, 128, 191)"
  by (induction s arbitrary: out) (auto simp: ascii_def utf8_lead_def utf8_begin_def)

lemma utf8_valid_ascii [simp, intro]: "ascii s \<Longrightarrow> utf8_valid s"
  by (simp add: utf8_valid_def utf8_fix_def utf8_run_ascii)

lemma utf8_fix_valid [simp]: "utf8_valid s \<Longrightarrow> utf8_fix s = s"
  by (simp add: utf8_valid_def)

lemma utf8_valid_Nil [simp]: "utf8_valid []"
  by (simp add: utf8_valid_def utf8_fix_def)

subsection \<open>Percent encoding of a byte\<close>

definition hex_digit :: "nat \<Rightarrow> char" where
  "hex_digit n = char_of (if n < 10 then 48 + n else 55 + n)"

definition hex_val :: "char \<Rightarrow> nat option" where
  "hex_val c = (let b = of_char c in
     if 48 \<le> b \<and> b \<le> 57 then Some (b - 48)
     else if 65 \<le> b \<and> b \<le> 70 then Some (b - 55)
     else if 97 \<le> b \<and> b \<le> 102 then Some (b - 87)
     else None)"

definition pct :: "char \<Rightarrow> string" where
  "pct c = (let b = of_char c in [CHR ''%'', hex_digit (b div 16), hex_digit (b mod 16)])"

lemma hex_val_digit [simp]: "n < 16 \<Longrightarrow> hex_val (hex_digit n) = Some n"
  by (auto simp: hex_val_def hex_digit_def Let_def)

lemma of_char_lt [simp]: "of_char (c::char) < (256::nat)"
  by (metis char_of_eq_iff nat_of_char_less_256)

fun pct_decode :: "string \<Rightarrow> string" where
  "pct_decode [] = []"
| "pct_decode (c # cs) =
     (if c = CHR ''%'' then
        (case cs of
           h # l # rest \<Rightarrow>
             (case (hex_val h, hex_val l) of
                (Some a, Some b) \<Rightarrow> char_of (16 * a + b) # pct_decode rest
              | _ \<Rightarrow> c # pct_decode cs)
         | _ \<Rightarrow> c # pct_decode cs)
      else c # pct_decode cs)"

fun pct_strict :: "string \<Rightarrow> string option" where
  "pct_strict [] = Some []"
| "pct_strict (c # cs) =
     (if c = CHR ''%'' then
        (case cs of
           h # l # rest \<Rightarrow>
             (case (hex_val h, hex_val l) of
                (Some a, Some b) \<Rightarrow> map_option ((#) (char_of (16 * a + b))) (pct_strict rest)
              | _ \<Rightarrow> None)
         | _ \<Rightarrow> None)
      else map_option ((#) c) (pct_strict cs))"

lemma pct_decode_pct [simp]: "pct_decode (pct c @ s) = c # pct_decode s"
proof -
  have "of_char c div 16 < (16::nat)"
    using of_char_lt[of c] by (simp add: less_mult_imp_div_less)
  then show ?thesis by (simp add: pct_def Let_def)
qed

lemma pct_strict_pct [simp]: "pct_strict (pct c @ s) = map_option ((#) c) (pct_strict s)"
proof -
  have "of_char c div 16 < (16::nat)"
    using of_char_lt[of c] by (simp add: less_mult_imp_div_less)
  then show ?thesis by (simp add: pct_def Let_def)
qed

subsection \<open>Character classes\<close>

definition is_alnum :: "char \<Rightarrow> bool" where
  "is_alnum c = (let b = (of_char c :: nat) in
     (48 \<le> b \<and> b \<le> 57) \<or> (65 \<le> b \<and> b \<le> 90) \<or> (97 \<le> b \<and> b \<le> 122))"

text \<open>The characters \<open>encodeURIComponent\<close> leaves alone, and those a form encoding leaves alone.\<close>

definition uri_unreserved :: "char \<Rightarrow> bool" where
  "uri_unreserved c \<longleftrightarrow> is_alnum c \<or> c \<in> set ''-_.!~*'' \<or> c = CHR 0x27 \<or> c \<in> set ''()''"

definition form_unreserved :: "char \<Rightarrow> bool" where
  "form_unreserved c \<longleftrightarrow> is_alnum c \<or> c \<in> set ''*-._''"

text \<open>What the output of an encoding consists of: \<open>%\<close>, digits and unreserved characters.\<close>

lemma hex_digit_alnum: "n < 16 \<Longrightarrow> is_alnum (hex_digit n)"
  by (auto simp: hex_digit_def is_alnum_def Let_def)

lemma pct_chars: "x \<in> set (pct c) \<Longrightarrow> x = CHR ''%'' \<or> is_alnum x"
  using of_char_lt[of c]
  by (auto simp: pct_def Let_def less_mult_imp_div_less intro: hex_digit_alnum)

subsection \<open>\<open>encodeURIComponent\<close> and \<open>decodeURIComponent\<close>\<close>

definition encodeURIComponent :: "string \<Rightarrow> string" where
  "encodeURIComponent s = concat (map (\<lambda>c. if uri_unreserved c then [c] else pct c) s)"

text \<open>\<open>decodeURIComponent\<close> throws on a malformed escape or on bytes that are not UTF-8.\<close>

definition decodeURIComponent :: "string \<Rightarrow> string option" where
  "decodeURIComponent s =
     (case pct_strict s of
        None \<Rightarrow> None
      | Some b \<Rightarrow> if utf8_valid b then Some b else None)"

lemma pct_strict_encode: "pct_strict (encodeURIComponent s) = Some s"
proof (induction s)
  case Nil
  then show ?case by (simp add: encodeURIComponent_def)
next
  case (Cons c s)
  have "c \<noteq> CHR ''%''" if "uri_unreserved c"
    using that by (auto simp: uri_unreserved_def is_alnum_def)
  with Cons show ?case by (auto simp: encodeURIComponent_def)
qed

lemma decode_encode_URIComponent:
  "utf8_valid s \<Longrightarrow> decodeURIComponent (encodeURIComponent s) = Some s"
  by (simp add: decodeURIComponent_def pct_strict_encode)

lemma set_encodeURIComponent:
  "c \<in> set (encodeURIComponent s) \<Longrightarrow> uri_unreserved c \<or> c = CHR ''%''"
  by (auto simp: encodeURIComponent_def uri_unreserved_def dest!: pct_chars split: if_splits)

lemma encodeURIComponent_Nil_iff [simp]: "encodeURIComponent s = [] \<longleftrightarrow> s = []"
  by (cases s) (auto simp: encodeURIComponent_def pct_def Let_def)

lemma encodeURIComponent_inj: "encodeURIComponent s = encodeURIComponent t \<Longrightarrow> s = t"
  by (metis option.inject pct_strict_encode)

subsection \<open>The form encoding\<close>

definition form_encode :: "string \<Rightarrow> string" where
  "form_encode s = concat (map (\<lambda>c. if c = CHR '' '' then ''+''
     else if form_unreserved c then [c] else pct c) s)"

definition form_decode :: "string \<Rightarrow> string" where
  "form_decode s = utf8_fix (pct_decode (map (\<lambda>c. if c = CHR ''+'' then CHR '' '' else c) s))"

definition form_char :: "char \<Rightarrow> bool" where
  "form_char c \<longleftrightarrow> is_alnum c \<or> c \<in> set ''*-._%+''"

lemma set_form_encode: "c \<in> set (form_encode s) \<Longrightarrow> form_char c"
  by (auto simp: form_encode_def form_char_def form_unreserved_def dest!: pct_chars
      split: if_splits)

lemma form_char_sep [simp]: "\<not> form_char (CHR ''&'')" "\<not> form_char (CHR ''='')"
  by (auto simp: form_char_def is_alnum_def)

lemma form_encode_no_sep [simp]:
  "CHR ''&'' \<notin> set (form_encode s)" "CHR ''='' \<notin> set (form_encode s)"
  using set_form_encode[of "CHR ''&''" s] set_form_encode[of "CHR ''=''" s] by auto

lemma pct_no_plus: "map (\<lambda>c. if c = CHR ''+'' then CHR '' '' else c) (pct c) = pct c"
proof -
  have "x \<noteq> CHR ''+''" if "x \<in> set (pct c)" for x
    using pct_chars[OF that] by (auto simp: is_alnum_def)
  then show ?thesis by (auto simp: map_idI)
qed

lemma pct_decode_form:
  "pct_decode (map (\<lambda>c. if c = CHR ''+'' then CHR '' '' else c) (form_encode s)) = s"
proof (induction s)
  case Nil
  then show ?case by (simp add: form_encode_def)
next
  case (Cons c s)
  have "c \<noteq> CHR ''%'' \<and> c \<noteq> CHR ''+''" if "form_unreserved c"
    using that by (auto simp: form_unreserved_def is_alnum_def)
  with Cons show ?case by (auto simp: form_encode_def pct_no_plus)
qed

lemma form_decode_encode [simp]: "utf8_valid s \<Longrightarrow> form_decode (form_encode s) = s"
  by (simp add: form_decode_def pct_decode_form)

subsection \<open>\<open>URLSearchParams\<close>\<close>

type_synonym params = "(string \<times> string) list"

fun sp_set :: "string \<Rightarrow> string \<Rightarrow> params \<Rightarrow> params" where
  "sp_set k v [] = [(k, v)]"
| "sp_set k v ((k', v') # ps) =
     (if k' = k then (k, v) # filter (\<lambda>p. fst p \<noteq> k) ps else (k', v') # sp_set k v ps)"

definition sp_append :: "string \<Rightarrow> string \<Rightarrow> params \<Rightarrow> params" where
  "sp_append k v ps = ps @ [(k, v)]"

definition sp_get :: "params \<Rightarrow> string \<Rightarrow> string option" where
  "sp_get ps k = map_of ps k"

definition sp_getAll :: "params \<Rightarrow> string \<Rightarrow> string list" where
  "sp_getAll ps k = map snd (filter (\<lambda>p. fst p = k) ps)"

definition sp_toString :: "params \<Rightarrow> string" where
  "sp_toString ps = join_with ''&'' (map (\<lambda>(k, v). form_encode k @ ''='' @ form_encode v) ps)"

definition sp_parse :: "string \<Rightarrow> params" where
  "sp_parse s = map (\<lambda>w. case cut_first (CHR ''='') w of (k, v) \<Rightarrow> (form_decode k, form_decode v))
     (filter (\<lambda>w. w \<noteq> []) (split_on (CHR ''&'') s))"

lemma sp_set_new [simp]: "k \<notin> fst ` set ps \<Longrightarrow> sp_set k v ps = ps @ [(k, v)]"
  by (induction ps) (auto split: prod.splits)

lemma map_of_filter_ne:
  "map_of (filter (\<lambda>p. fst p \<noteq> k) qs) k' = (if k' = k then None else map_of qs k')"
  by (induction qs) auto

lemma sp_get_set: "sp_get (sp_set k v ps) k' = (if k' = k then Some v else sp_get ps k')"
  by (induction k v ps rule: sp_set.induct) (auto simp: sp_get_def map_of_filter_ne)

definition sp_valid :: "params \<Rightarrow> bool" where
  "sp_valid ps \<longleftrightarrow> (\<forall>(k, v) \<in> set ps. utf8_valid k \<and> utf8_valid v)"

lemma sp_valid_simps [simp]:
  "sp_valid []" "sp_valid ((k, v) # ps) \<longleftrightarrow> utf8_valid k \<and> utf8_valid v \<and> sp_valid ps"
  by (auto simp: sp_valid_def)

theorem sp_parse_toString: "sp_valid ps \<Longrightarrow> sp_parse (sp_toString ps) = ps"
proof (cases "ps = []")
  case True
  then show ?thesis by (simp add: sp_toString_def sp_parse_def)
next
  case False
  assume val: "sp_valid ps"
  let ?w = "\<lambda>(k, v). form_encode k @ ''='' @ form_encode v"
  have sep: "split_on (CHR ''&'') (join_with [CHR ''&''] (map ?w ps)) = map ?w ps"
    using False by (intro split_join) auto
  have ne: "filter (\<lambda>w. w \<noteq> []) (map ?w ps) = map ?w ps"
    by (auto simp: filter_id_conv)
  have each: "(case cut_first (CHR ''='') (?w p) of (k, v) \<Rightarrow> (form_decode k, form_decode v)) = p"
    if "p \<in> set ps" for p
    using val that by (auto simp: sp_valid_def split: prod.splits)
  show ?thesis
    unfolding sp_parse_def sp_toString_def sep ne
    using each by (simp add: map_idI)
qed

text \<open>The characters a rendered query consists of.\<close>

definition query_char :: "char \<Rightarrow> bool" where
  "query_char c \<longleftrightarrow> form_char c \<or> c = CHR ''&'' \<or> c = CHR ''=''"

lemma query_char_toString: "c \<in> set (sp_toString ps) \<Longrightarrow> query_char c"
  using set_join_with[of "''&''" "map (\<lambda>(k, v). form_encode k @ ''='' @ form_encode v) ps"]
  by (auto simp: sp_toString_def query_char_def dest!: set_form_encode)

lemma sp_toString_Nil_iff: "sp_toString ps = [] \<longleftrightarrow> ps = []"
proof (cases ps)
  case Nil
  then show ?thesis by (simp add: sp_toString_def)
next
  case (Cons p qs)
  then show ?thesis by (cases qs) (auto simp: sp_toString_def split: prod.splits)
qed

end
