(* ===== verification/TokenScan.thy ===== *)
theory TokenScan
  imports JsUrl
begin

section \<open>Finding reference tokens in text\<close>

text \<open>
  Chat bodies, task bodies and wiki text carry references as pseudo-URLs, \<open>fls:<scheme>?<query>\<close>.
  Three places split text at them with the same loop over \<open>matchAll\<close> of a regular expression
  \<open>/fls:(?:s1|s2|...)\?[A-Za-z0-9*\-._%&=+]+/g\<close>: \<open>splitRefTokens\<close> (\<open>components/reftokens.ts\<close>),
  \<open>splitDocRefs\<close> (\<open>doccard/docref.ts\<close>) and \<open>splitMentions\<close> (\<open>notifications/mentions.ts\<close>). This
  theory holds the matcher and the loop, for any list of schemes and any parser; the components
  instantiate them.
\<close>

subsection \<open>The matcher\<close>

definition tok_char :: "char \<Rightarrow> bool" where
  "tok_char c \<longleftrightarrow> is_alnum c \<or> c \<in> set ''*-._%&=+''"

definition tok_prefix :: "string \<Rightarrow> string" where
  "tok_prefix sc = ''fls:'' @ sc @ ''?''"

text \<open>The length of the match that starts here, if one does.\<close>

definition token_at :: "string list \<Rightarrow> string \<Rightarrow> nat option" where
  "token_at scs s =
     (case List.find (\<lambda>sc. startsWith s (tok_prefix sc)) scs of
        None \<Rightarrow> None
      | Some sc \<Rightarrow>
          let body = takeWhile tok_char (drop (length (tok_prefix sc)) s)
          in if body = [] then None else Some (length (tok_prefix sc) + length body))"

lemma token_at_le:
  assumes "token_at scs s = Some n"
  shows "0 < n" "n \<le> length s"
proof -
  from assms obtain sc where
    st: "startsWith s (tok_prefix sc)" and
    n: "n = length (tok_prefix sc) + length (takeWhile tok_char (drop (length (tok_prefix sc)) s))"
    by (auto simp: token_at_def Let_def dest!: find_Some_in split: option.splits if_splits)
  then show "0 < n" by (simp add: tok_prefix_def)
  from st have "length (tok_prefix sc) \<le> length s"
    by (auto simp: startsWith_iff)
  moreover have "length (takeWhile tok_char (drop (length (tok_prefix sc)) s))
    \<le> length (drop (length (tok_prefix sc)) s)"
    by (rule length_takeWhile_le)
  ultimately show "n \<le> length s" using n by simp
qed

text \<open>\<open>matchAll\<close>: the matches with their start indices, leftmost first, without overlap.\<close>

function match_all :: "string list \<Rightarrow> string \<Rightarrow> nat \<Rightarrow> (nat \<times> string) list" where
  "match_all scs s i =
     (case s of
        [] \<Rightarrow> []
      | c # cs \<Rightarrow>
          (case token_at scs s of
             Some n \<Rightarrow> (i, take n s) # match_all scs (drop n s) (i + n)
           | None \<Rightarrow> match_all scs cs (i + 1)))"
  by pat_completeness auto
termination
  by (relation "measure (\<lambda>(scs, s, i). length s)") (auto dest: token_at_le)

declare match_all.simps [simp del]

lemma match_all_Nil [simp]: "match_all scs [] i = []"
  by (subst match_all.simps) simp

lemma match_all_None: "token_at scs (c # cs) = None \<Longrightarrow>
    match_all scs (c # cs) i = match_all scs cs (Suc i)"
  by (subst match_all.simps) simp

lemma match_all_Some: "token_at scs s = Some n \<Longrightarrow>
    match_all scs s i = (i, take n s) # match_all scs (drop n s) (i + n)"
  using token_at_le[of scs s n] by (subst match_all.simps) (auto split: list.splits)

subsection \<open>The loop\<close>

datatype 'r part = Txt string | Ref 'r

definition slice :: "nat \<Rightarrow> nat \<Rightarrow> string \<Rightarrow> string" where
  "slice a b s = take (b - a) (drop a s)"

fun split_loop ::
    "(string \<Rightarrow> 'r option) \<Rightarrow> string \<Rightarrow> (nat \<times> string) list \<Rightarrow> nat \<Rightarrow> 'r part list \<Rightarrow> 'r part list" where
  "split_loop parse text [] pos parts =
     (let parts' = (if pos < length text then parts @ [Txt (drop pos text)] else parts)
      in if parts' = [] then [Txt text] else parts')"
| "split_loop parse text ((ix, m) # ms) pos parts =
     (case parse m of
        None \<Rightarrow> split_loop parse text ms pos parts
      | Some r \<Rightarrow>
          let parts' = (if pos < ix then parts @ [Txt (slice pos ix text)] else parts)
          in split_loop parse text ms (ix + length m) (parts' @ [Ref r]))"

definition split_tokens :: "string list \<Rightarrow> (string \<Rightarrow> 'r option) \<Rightarrow> string \<Rightarrow> 'r part list" where
  "split_tokens scs parse text = split_loop parse text (match_all scs text 0) 0 []"

subsection \<open>Nothing is lost\<close>

text \<open>The matches lie in the text, one after the other.\<close>

fun matches_ok :: "string \<Rightarrow> nat \<Rightarrow> (nat \<times> string) list \<Rightarrow> bool" where
  "matches_ok text k [] = (k \<le> length text)"
| "matches_ok text k ((ix, m) # ms) =
     (k \<le> ix \<and> m \<noteq> [] \<and> m = take (length m) (drop ix text) \<and> ix + length m \<le> length text \<and>
      matches_ok text (ix + length m) ms)"

lemma matches_ok_mono: "matches_ok text k ms \<Longrightarrow> j \<le> k \<Longrightarrow> matches_ok text j ms"
  by (cases ms) auto

lemma matches_ok_match_all:
  "s = drop i text \<Longrightarrow> i \<le> length text \<Longrightarrow> matches_ok text i (match_all scs s i)"
proof (induction scs s i rule: match_all.induct)
  case (1 scs s i)
  show ?case
  proof (cases s)
    case Nil
    with "1.prems" show ?thesis by simp
  next
    case (Cons c cs)
    show ?thesis
    proof (cases "token_at scs s")
      case None
      have "cs = drop (i + 1) text"
        using Cons "1.prems"(1) by (metis Suc_eq_plus1 drop_Suc list.sel(3) tl_drop)
      moreover have "i + 1 \<le> length text"
        using Cons "1.prems" by (metis Suc_eq_plus1 Suc_leI drop_all linorder_not_less list.distinct(1))
      ultimately have "matches_ok text (i + 1) (match_all scs cs (i + 1))"
        using "1.IH"(1)[OF Cons None] by simp
      with None Cons show ?thesis by (simp add: match_all_None matches_ok_mono)
    next
      case (Some n)
      note le = token_at_le[OF Some]
      have "drop n s = drop (i + n) text" "i + n \<le> length text"
        using "1.prems" le by (simp_all add: add.commute)
      with "1.IH"(2)[OF Cons Some] have "matches_ok text (i + n) (match_all scs (drop n s) (i + n))"
        by simp
      with Some le "1.prems" show ?thesis by (auto simp: match_all_Some)
    qed
  qed
qed

text \<open>
  A piece pairs a part with the text it stands for. \<open>covers\<close> is what splitting promises: the pieces
  put together are the text, a text part is its own text, and a reference is what the parser makes
  of its text.
\<close>

definition piece_ok :: "(string \<Rightarrow> 'r option) \<Rightarrow> string \<times> 'r part \<Rightarrow> bool" where
  "piece_ok parse p = (case snd p of Txt s \<Rightarrow> s = fst p | Ref r \<Rightarrow> parse (fst p) = Some r)"

definition covers :: "(string \<Rightarrow> 'r option) \<Rightarrow> string \<Rightarrow> 'r part list \<Rightarrow> bool" where
  "covers parse text parts \<longleftrightarrow>
     (\<exists>ps. concat (map fst ps) = text \<and> map snd ps = parts \<and> (\<forall>p \<in> set ps. piece_ok parse p))"

lemma covers_Nil [simp]: "covers parse [] []"
  by (auto simp: covers_def)

lemma covers_snoc_Txt: "covers parse t parts \<Longrightarrow> covers parse (t @ s) (parts @ [Txt s])"
  unfolding covers_def
  by (elim exE conjE, rename_tac ps, rule_tac x = "ps @ [(s, Txt s)]" in exI)
    (auto simp: piece_ok_def)

lemma covers_snoc_Ref:
  "covers parse t parts \<Longrightarrow> parse s = Some r \<Longrightarrow> covers parse (t @ s) (parts @ [Ref r])"
  unfolding covers_def
  by (elim exE conjE, rename_tac ps, rule_tac x = "ps @ [(s, Ref r)]" in exI)
    (auto simp: piece_ok_def)

lemma take_slice: "a \<le> b \<Longrightarrow> take a s @ slice a b s = take b s"
  by (metis le_add_diff_inverse slice_def take_add)

lemma split_loop_covers:
  assumes "covers parse (take pos text) parts" "pos \<le> length text" "matches_ok text pos ms"
  shows "covers parse text (split_loop parse text ms pos parts)"
  using assms
proof (induction ms arbitrary: pos parts)
  case Nil
  have one: "covers parse text [Txt text]"
    using covers_snoc_Txt[OF covers_Nil, of parse "text"] by simp
  from Nil.prems(1) have "covers parse text (parts @ [Txt (drop pos text)])"
    using covers_snoc_Txt[of parse "take pos text" parts "drop pos text"] by simp
  with Nil one show ?case by (auto simp: Let_def)
next
  case (Cons a ms)
  obtain ix m where a: "a = (ix, m)" by (cases a)
  from Cons.prems(3) have ok: "pos \<le> ix" "m = take (length m) (drop ix text)"
    "ix + length m \<le> length text" "matches_ok text (ix + length m) ms"
    by (auto simp: a)
  show ?case
  proof (cases "parse m")
    case None
    have "matches_ok text pos ms" using ok(1,4) by (auto intro: matches_ok_mono)
    with Cons.IH[OF Cons.prems(1,2)] None show ?thesis by (simp add: a)
  next
    case (Some r)
    let ?parts = "if pos < ix then parts @ [Txt (slice pos ix text)] else parts"
    have "covers parse (take ix text) ?parts"
      using Cons.prems(1) ok(1) covers_snoc_Txt[OF Cons.prems(1), of "slice pos ix text"]
      by (cases "pos < ix") (auto simp: take_slice)
    then have "covers parse (take ix text @ m) (?parts @ [Ref r])"
      using Some by (rule covers_snoc_Ref)
    moreover have "take ix text @ m = take (ix + length m) text"
      using ok(2) by (metis take_add)
    ultimately have "covers parse (take (ix + length m) text) (?parts @ [Ref r])" by simp
    from Cons.IH[OF this ok(3,4)] Some show ?thesis by (simp add: a Let_def)
  qed
qed

theorem split_tokens_covers: "covers parse text (split_tokens scs parse text)"
  unfolding split_tokens_def
  by (rule split_loop_covers) (auto intro: matches_ok_match_all)


subsection \<open>What is put in is found again\<close>

text \<open>A run of text in which no token can start.\<close>

fun clean :: "string \<Rightarrow> bool" where
  "clean [] = True"
| "clean (c # cs) = (\<not> startsWith (c # cs) ''fls:'' \<and> clean cs)"

lemma not_starts_fls: "\<not> startsWith s ''fls:'' \<Longrightarrow> token_at scs s = None"
  by (auto simp: token_at_def tok_prefix_def startsWith_iff dest!: find_Some_in split: option.splits)

lemma list_cases3: "xs = [] \<or> (\<exists>a. xs = [a]) \<or> (\<exists>a b. xs = [a, b]) \<or> (\<exists>a b c ys. xs = a # b # c # ys)"
  by (cases xs; cases "tl xs"; cases "tl (tl xs)") auto

lemma token_at_tail: "cs = [] \<or> startsWith cs ''fls:'' \<Longrightarrow> clean (d # ds) \<Longrightarrow>
    token_at scs ((d # ds) @ cs) = None"
  using list_cases3[of ds] by (intro not_starts_fls) (auto simp: startsWith_iff)

lemma match_all_clean:
  assumes "cs = [] \<or> startsWith cs ''fls:''"
  shows "clean s \<Longrightarrow> match_all scs (s @ cs) i = match_all scs cs (i + length s)"
proof (induction s arbitrary: i)
  case Nil
  then show ?case by simp
next
  case (Cons d ds)
  with token_at_tail[OF assms Cons.prems, of scs] show ?case by (simp add: match_all_None)
qed

lemma tok_prefix_inj:
  assumes "CHR ''?'' \<notin> set a" "CHR ''?'' \<notin> set b" "startsWith (tok_prefix a @ s) (tok_prefix b)"
  shows "a = b"
proof -
  from assms(3) obtain t where "a @ CHR ''?'' # s = b @ CHR ''?'' # t"
    by (auto simp: tok_prefix_def startsWith_iff)
  then have "cut_first (CHR ''?'') (a @ CHR ''?'' # s) = cut_first (CHR ''?'') (b @ CHR ''?'' # t)"
    by simp
  with assms(1,2) show ?thesis by simp
qed

lemma token_at_token:
  assumes "sc \<in> set scs" "\<forall>sc \<in> set scs. CHR ''?'' \<notin> set sc" "body \<noteq> []"
    "\<forall>c \<in> set body. tok_char c" "post = [] \<or> \<not> tok_char (hd post)"
  shows "token_at scs ((tok_prefix sc @ body) @ post) = Some (length (tok_prefix sc @ body))"
proof -
  let ?s = "tok_prefix sc @ body @ post"
  have "List.find (\<lambda>x. startsWith ?s (tok_prefix x)) scs = Some sc"
  proof (cases "List.find (\<lambda>x. startsWith ?s (tok_prefix x)) scs")
    case None
    with assms(1) have "\<not> startsWith ?s (tok_prefix sc)" by (auto simp: find_None_iff)
    then show ?thesis by simp
  next
    case (Some x)
    with assms(1,2) tok_prefix_inj[of sc x] show ?thesis by (auto dest!: find_Some_in)
  qed
  moreover have "takeWhile tok_char (body @ post) = body"
    using assms(4,5) by (cases post) (auto simp: takeWhile_append)
  ultimately show ?thesis using assms(3) by (simp add: token_at_def Let_def)
qed

text \<open>The text a list of parts stands for, and the lists that can be told from their text.\<close>

fun render :: "('r \<Rightarrow> string) \<Rightarrow> 'r part list \<Rightarrow> string" where
  "render enc [] = []"
| "render enc (Txt s # ps) = s @ render enc ps"
| "render enc (Ref r # ps) = enc r @ render enc ps"

fun canon :: "('r \<Rightarrow> bool) \<Rightarrow> 'r part list \<Rightarrow> bool" where
  "canon ok [] = True"
| "canon ok (Txt s # ps) =
     (s \<noteq> [] \<and> clean s \<and> (case ps of Txt t # _ \<Rightarrow> False | _ \<Rightarrow> True) \<and> canon ok ps)"
| "canon ok (Ref r # ps) =
     (ok r \<and> (case ps of [] \<Rightarrow> True | Txt s # _ \<Rightarrow> s \<noteq> [] \<and> \<not> tok_char (hd s) | Ref _ # _ \<Rightarrow> False)
      \<and> canon ok ps)"

text \<open>
  The contract of a family of reference tokens: how one is written, that its parser reads it back
  up to \<open>norm\<close> (the defaults a parser fills in), for the references that are \<open>ok\<close>.
\<close>

locale token_family =
  fixes schemes :: "string list" and scheme_of :: "'r \<Rightarrow> string"
    and fields :: "'r \<Rightarrow> params" and enc :: "'r \<Rightarrow> string"
    and dec :: "string \<Rightarrow> 'r option" and norm :: "'r \<Rightarrow> 'r" and ok :: "'r \<Rightarrow> bool"
  assumes enc: "enc r = tok_prefix (scheme_of r) @ sp_toString (fields r)"
    and fields_ne: "fields r \<noteq> []"
    and scheme_in: "scheme_of r \<in> set schemes"
    and schemes_ok: "sc \<in> set schemes \<Longrightarrow> CHR ''?'' \<notin> set sc"
    and dec_enc: "ok r \<Longrightarrow> dec (enc r) = Some (norm r)"
begin

lemma fields_tok: "\<forall>c \<in> set (sp_toString (fields r)). tok_char c"
  by (auto dest!: query_char_toString simp: query_char_def form_char_def tok_char_def)

lemma token_at_enc:
  "post = [] \<or> \<not> tok_char (hd post) \<Longrightarrow> token_at schemes (enc r @ post) = Some (length (enc r))"
  unfolding enc
  by (rule token_at_token) (auto simp: scheme_in schemes_ok sp_toString_Nil_iff fields_ne fields_tok
      dest: fields_tok[rule_format])

lemma enc_fls [simp]: "startsWith (enc r @ s) ''fls:''"
  by (simp add: enc tok_prefix_def)

lemma render_head:
  "canon ok (Txt s # ps) \<Longrightarrow> render enc ps = [] \<or> startsWith (render enc ps) ''fls:''"
  by (cases ps) (auto split: part.splits elim: canon.elims)

lemma render_post:
  "canon ok (Ref r # ps) \<Longrightarrow> render enc ps = [] \<or> \<not> tok_char (hd (render enc ps))"
  by (cases ps) (auto split: part.splits)

text \<open>The loop, started in the middle of a text that still has the parts \<open>ps\<close> to come.\<close>

lemma split_loop_render:
  assumes "canon ok ps" "text = pre @ render enc ps" "i = length pre"
  shows "split_loop dec text (match_all schemes (render enc ps) i) i parts =
    (if parts = [] \<and> ps = [] then [Txt text] else parts @ map (map_part norm) ps)"
  using assms
proof (induction ps arbitrary: pre i parts rule: measure_induct_rule[where f = length])
  case (less ps)
  consider "ps = []" | r qs where "ps = Ref r # qs" | s where "ps = [Txt s]"
    | s r qs where "ps = Txt s # Ref r # qs" | s t qs where "ps = Txt s # Txt t # qs"
    by (metis part.exhaust neq_Nil_conv)
  then show ?case
  proof cases
    case 1
    with less.prems show ?thesis by (simp add: Let_def)
  next
    case 2
    with less.prems(1) have ok: "ok r" "canon ok qs" by auto
    have "token_at schemes (enc r @ render enc qs) = Some (length (enc r))"
      using less.prems(1) 2 by (intro token_at_enc render_post[of r qs]) simp
    with less.IH[of qs "pre @ enc r" "i + length (enc r)"] ok less.prems 2 show ?thesis
      by (simp add: match_all_Some dec_enc Let_def)
  next
    case 3
    with less.prems match_all_clean[of "[]" s schemes i] show ?thesis
      by (auto simp: Let_def)
  next
    case 4
    with less.prems(1) have ok: "ok r" "canon ok qs" "clean s" "s \<noteq> []" by auto
    have tok: "token_at schemes (enc r @ render enc qs) = Some (length (enc r))"
      using ok less.prems(1) 4 by (intro token_at_enc render_post[of r qs]) simp
    have m: "match_all schemes (s @ enc r @ render enc qs) i =
        match_all schemes (enc r @ render enc qs) (i + length s)"
      by (rule match_all_clean) (simp_all add: ok)
    have sl: "slice i (i + length s) text = s"
      using less.prems(2,3) 4 by (simp add: slice_def)
    from less.IH[of qs "pre @ s @ enc r" "i + length s + length (enc r)"] ok less.prems 4 tok m sl
    show ?thesis
      by (simp add: match_all_Some dec_enc Let_def add.assoc)
  next
    case 5
    with less.prems(1) show ?thesis by simp
  qed
qed

theorem split_render:
  assumes "canon ok ps" "ps \<noteq> []"
  shows "split_tokens schemes dec (render enc ps) = map (map_part norm) ps"
  using split_loop_render[of ps "render enc ps" "[]" 0 "[]"] assms by (simp add: split_tokens_def)

end

end
