(* ===== verification/ApiTypes.thy ===== *)
theory ApiTypes
  imports JsPrelude
begin

section \<open>Data transfer objects\<close>

text \<open>
  The TypeScript mirrors of the server's DTOs that the modelled components pass around
  (\<open>api/types.ts\<close>, \<open>whiteboards/types.ts\<close>). An optional field is an option; the field names carry
  the type's initials, because a field of an Isabelle record is a global constant.
\<close>

record item =
  it_id :: string
  it_name :: string
  it_kind :: string
  it_altId :: "string option"
  it_webUrl :: "string option"
  it_isContainer :: bool
  it_componentVersionId :: "string option"
  it_subtype :: "string option"
  it_modifiedOn :: "string option"
  it_slug :: "string option"

text \<open>An object literal that gives the required fields only (the optional ones are absent).\<close>

definition mk_item :: "string \<Rightarrow> string \<Rightarrow> string \<Rightarrow> bool \<Rightarrow> item" where
  "mk_item i n k c = \<lparr>it_id = i, it_name = n, it_kind = k, it_altId = None, it_webUrl = None,
     it_isContainer = c, it_componentVersionId = None, it_subtype = None,
     it_modifiedOn = None, it_slug = None\<rparr>"

lemma mk_item_simps [simp]:
  "it_id (mk_item i n k c) = i" "it_name (mk_item i n k c) = n"
  "it_kind (mk_item i n k c) = k" "it_isContainer (mk_item i n k c) = c"
  "it_altId (mk_item i n k c) = None"
  by (simp_all add: mk_item_def)

definition FUSION_NATIVE_KINDS :: "string list" where
  "FUSION_NATIVE_KINDS =
     [''design'', ''configured'', ''drawing'', ''schematic'', ''pcb'', ''ecad'']"

definition INSERTABLE_KINDS :: "string list" where
  "INSERTABLE_KINDS = [''design'', ''configured'']"

definition kindFromTypename :: "string option \<Rightarrow> string option" where
  "kindFromTypename typename =
     (if typename = Some ''DesignItem'' then Some ''design''
      else if typename = Some ''DrawingItem'' then Some ''drawing''
      else if typename = Some ''ConfiguredDesignItem'' then Some ''configured''
      else if typename = Some ''BasicItem'' then Some ''unknown''
      else None)"

record version_summary =
  vs_number :: int
  vs_createdOn :: "string option"
  vs_createdBy :: "string option"
  vs_createdById :: "string option"
  vs_comment :: "string option"
  vs_rootComponentVersionId :: "string option"
  vs_isMilestone :: "bool option"
  vs_milestoneName :: "string option"
  vs_revision :: "string option"
  vs_publicShare :: "bool option"

record history_change =
  hc_type :: string
  hc_createdOn :: "string option"
  hc_createdBy :: "string option"
  hc_createdById :: "string option"
  hc_comment :: "string option"

record history_save =
  hs_createdOn :: "string option"
  hs_milestone :: "string option"
  hs_revision :: "string option"

record folder_ref =
  fr_id :: string
  fr_name :: string

record location =
  loc_hubId :: string
  loc_projectId :: string
  loc_projectAltId :: "string option"
  loc_projectName :: string
  loc_folderPath :: "folder_ref list"

record upload_job =
  uj_id :: string
  uj_fileName :: string
  uj_size :: int
  uj_bytesSent :: int
  uj_status :: string
  uj_error :: "string option"
  uj_hubId :: "string option"
  uj_projectId :: "string option"
  uj_folderId :: "string option"
  uj_dmProjectId :: "string option"
  uj_folderPath :: "string list"
  uj_itemId :: "string option"
  uj_versionId :: "string option"
  uj_createdOn :: "string option"

record archive_job =
  aj_id :: string
  aj_docName :: string
  aj_fileName :: "string option"
  aj_fileType :: "string option"
  aj_status :: string
  aj_error :: "string option"
  aj_errorCode :: "string option"
  aj_hubId :: "string option"
  aj_projectId :: "string option"
  aj_dmProjectId :: "string option"
  aj_itemId :: "string option"
  aj_versionId :: "string option"
  aj_createdOn :: "string option"

record pin =
  pin_id :: string
  pin_name :: string
  pin_kind :: string
  pin_hub_id :: "string option"
  pin_project_id :: "string option"
  pin_project_alt_id :: "string option"
  pin_folder_path :: "folder_ref list option"
  pin_ref :: "string option"
  pin_project_name :: "string option"
  pin_pinned_at :: "string option"

record whiteboard_user =
  wu_id :: string
  wu_name :: "string option"
  wu_email :: "string option"

record whiteboard =
  wb_id :: string
  wb_num :: int
  wb_projectId :: string
  wb_hubId :: string
  wb_projectName :: string
  wb_name :: string
  wb_createdBy :: whiteboard_user
  wb_createdAt :: string
  wb_updatedAt :: string
  wb_updatedBy :: whiteboard_user
  wb_snapshotBytes :: int
  wb_docRev :: int

end
