(* ===== verification/RefTokens.thy ===== *)
theory RefTokens
  imports TokenScan ApiTypes
begin

section \<open>Reference tokens\<close>

text \<open>
  The codecs of the pseudo-URLs that chat messages, wiki pages, task bodies and pins store instead
  of the thing they point at: documents (\<open>doccard/docref.ts\<close>), tasks (\<open>taskcard/taskref.ts\<close>), jobs
  and batches (\<open>productioncard/prodref.ts\<close>), whiteboards (\<open>whiteboardcard/wbref.ts\<close>), images
  (\<open>imgcard/imgref.ts\<close>), channels (\<open>chatcard/chanref.ts\<close>) and mentions (\<open>notifications/mentions.ts\<close>),
  and the three splitters (\<open>splitRefTokens\<close>, \<open>splitDocRefs\<close>, \<open>splitMentions\<close>), as instances of the
  loop of \<open>TokenScan\<close>. Every codec is an instance of the contract \<open>token_family\<close>.
\<close>

named_theorems ref_defs \<open>the codecs, unfolded\<close>

subsection \<open>Documents\<close>

record doc_ref =
  dr_hubId :: string
  dr_itemId :: string
  dr_name :: string
  dr_kind :: string

definition DOC_REF_PREFIX :: string where "DOC_REF_PREFIX = ''fls:doc?''"

definition encodeDocRef :: "doc_ref \<Rightarrow> string" where
  "encodeDocRef ref = DOC_REF_PREFIX @ sp_toString
     (sp_set ''kind'' (dr_kind ref)
     (sp_set ''name'' (dr_name ref)
     (sp_set ''itemId'' (dr_itemId ref)
     (sp_set ''hubId'' (dr_hubId ref) []))))"

definition parseDocRef :: "string \<Rightarrow> doc_ref option" where
  "parseDocRef url =
     (if \<not> startsWith url DOC_REF_PREFIX then None
      else let sp = sp_parse (drop (length DOC_REF_PREFIX) url);
               hubId = nullish (sp_get sp ''hubId'') [];
               itemId = nullish (sp_get sp ''itemId'') []
           in if hubId = [] \<or> itemId = [] then None
              else Some \<lparr>dr_hubId = hubId, dr_itemId = itemId,
                         dr_name = str_or (sp_get sp ''name'') ''document'',
                         dr_kind = str_or (sp_get sp ''kind'') ''unknown''\<rparr>)"

definition docRefFromItem :: "string \<Rightarrow> item \<Rightarrow> doc_ref" where
  "docRefFromItem hubId it =
     \<lparr>dr_hubId = hubId, dr_itemId = it_id it, dr_name = it_name it, dr_kind = it_kind it\<rparr>"

definition strip_brackets :: "string \<Rightarrow> string" where
  "strip_brackets s = filter (\<lambda>c. c \<noteq> CHR ''['' \<and> c \<noteq> CHR '']'') s"

definition docRefMarkdown :: "doc_ref \<Rightarrow> string" where
  "docRefMarkdown ref = ''['' @ strip_brackets (dr_name ref) @ '']('' @ encodeDocRef ref @ '')''"

definition splitDocRefs :: "string \<Rightarrow> doc_ref part list" where
  "splitDocRefs text = split_tokens [''doc''] parseDocRef text"

subsection \<open>Tasks\<close>

record task_ref =
  tkr_hubId :: string
  tkr_projectId :: string
  tkr_taskId :: string
  tkr_title :: string

definition TASK_REF_PREFIX :: string where "TASK_REF_PREFIX = ''fls:task?''"

definition encodeTaskRef :: "task_ref \<Rightarrow> string" where
  "encodeTaskRef ref = TASK_REF_PREFIX @ sp_toString
     (sp_set ''title'' (tkr_title ref)
     (sp_set ''taskId'' (tkr_taskId ref)
     (sp_set ''projectId'' (tkr_projectId ref)
     (sp_set ''hubId'' (tkr_hubId ref) []))))"

definition parseTaskRef :: "string \<Rightarrow> task_ref option" where
  "parseTaskRef url =
     (if \<not> startsWith url TASK_REF_PREFIX then None
      else let sp = sp_parse (drop (length TASK_REF_PREFIX) url);
               projectId = nullish (sp_get sp ''projectId'') [];
               taskId = nullish (sp_get sp ''taskId'') []
           in if projectId = [] \<or> taskId = [] then None
              else Some \<lparr>tkr_hubId = nullish (sp_get sp ''hubId'') [],
                         tkr_projectId = projectId, tkr_taskId = taskId,
                         tkr_title = str_or (sp_get sp ''title'') ''task''\<rparr>)"

definition taskRefMarkdown :: "task_ref \<Rightarrow> string" where
  "taskRefMarkdown ref = ''['' @ strip_brackets (tkr_title ref) @ '']('' @ encodeTaskRef ref @ '')''"

subsection \<open>Jobs and batches\<close>

record job_ref =
  jr_hubId :: string
  jr_projectId :: string
  jr_projectName :: string
  jr_jobId :: string
  jr_jobName :: string

record batch_ref = job_ref +
  br_batchId :: string
  br_batchName :: string

definition JOB_REF_PREFIX :: string where "JOB_REF_PREFIX = ''fls:job?''"
definition BATCH_REF_PREFIX :: string where "BATCH_REF_PREFIX = ''fls:batch?''"

definition encodeJobRef :: "job_ref \<Rightarrow> string" where
  "encodeJobRef ref = JOB_REF_PREFIX @ sp_toString
     (sp_set ''jobName'' (jr_jobName ref)
     (sp_set ''jobId'' (jr_jobId ref)
     (sp_set ''projectName'' (jr_projectName ref)
     (sp_set ''projectId'' (jr_projectId ref)
     (sp_set ''hubId'' (jr_hubId ref) [])))))"

definition encodeBatchRef :: "batch_ref \<Rightarrow> string" where
  "encodeBatchRef ref = BATCH_REF_PREFIX @ sp_toString
     (sp_set ''batchName'' (br_batchName ref)
     (sp_set ''batchId'' (br_batchId ref)
     (sp_set ''jobName'' (jr_jobName ref)
     (sp_set ''jobId'' (jr_jobId ref)
     (sp_set ''projectName'' (jr_projectName ref)
     (sp_set ''projectId'' (jr_projectId ref)
     (sp_set ''hubId'' (jr_hubId ref) [])))))))"

definition parseJobRef :: "string \<Rightarrow> job_ref option" where
  "parseJobRef url =
     (if \<not> startsWith url JOB_REF_PREFIX then None
      else let sp = sp_parse (drop (length JOB_REF_PREFIX) url);
               projectId = nullish (sp_get sp ''projectId'') [];
               jobId = nullish (sp_get sp ''jobId'') []
           in if projectId = [] \<or> jobId = [] then None
              else Some \<lparr>jr_hubId = nullish (sp_get sp ''hubId'') [],
                         jr_projectId = projectId,
                         jr_projectName = str_or (sp_get sp ''projectName'') ''project'',
                         jr_jobId = jobId,
                         jr_jobName = str_or (sp_get sp ''jobName'') ''job''\<rparr>)"

definition parseBatchRef :: "string \<Rightarrow> batch_ref option" where
  "parseBatchRef url =
     (if \<not> startsWith url BATCH_REF_PREFIX then None
      else let sp = sp_parse (drop (length BATCH_REF_PREFIX) url);
               projectId = nullish (sp_get sp ''projectId'') [];
               jobId = nullish (sp_get sp ''jobId'') [];
               batchId = nullish (sp_get sp ''batchId'') []
           in if projectId = [] \<or> jobId = [] \<or> batchId = [] then None
              else Some \<lparr>jr_hubId = nullish (sp_get sp ''hubId'') [],
                         jr_projectId = projectId,
                         jr_projectName = str_or (sp_get sp ''projectName'') ''project'',
                         jr_jobId = jobId,
                         jr_jobName = str_or (sp_get sp ''jobName'') ''job'',
                         br_batchId = batchId,
                         br_batchName = str_or (sp_get sp ''batchName'') ''batch''\<rparr>)"

text \<open>
  \<open>jobRefFromJob\<close> takes any object with these five fields (the production job has them);
  \<open>batchRefFromBatch\<close> spreads the job reference and adds the batch's two.
\<close>

definition jobRefFromJob :: "string \<Rightarrow> string \<Rightarrow> string \<Rightarrow> string \<Rightarrow> string \<Rightarrow> job_ref" where
  "jobRefFromJob hubId projectId projectName i n =
     \<lparr>jr_hubId = hubId, jr_projectId = projectId, jr_projectName = projectName,
      jr_jobId = i, jr_jobName = n\<rparr>"

definition batchRefFromBatch :: "job_ref \<Rightarrow> string \<Rightarrow> string \<Rightarrow> batch_ref" where
  "batchRefFromBatch job i n = job_ref.extend job \<lparr>br_batchId = i, br_batchName = n\<rparr>"

definition jobRefMarkdown :: "job_ref \<Rightarrow> string" where
  "jobRefMarkdown ref = ''['' @ strip_brackets (jr_jobName ref) @ '']('' @ encodeJobRef ref @ '')''"

definition batchRefMarkdown :: "batch_ref \<Rightarrow> string" where
  "batchRefMarkdown ref =
     ''['' @ strip_brackets (br_batchName ref) @ '']('' @ encodeBatchRef ref @ '')''"

subsection \<open>Whiteboards\<close>

record whiteboard_ref =
  wr_hubId :: string
  wr_projectId :: string
  wr_projectName :: string
  wr_boardId :: string
  wr_name :: string

definition WHITEBOARD_REF_PREFIX :: string where
  "WHITEBOARD_REF_PREFIX = ''fls:whiteboard?''"

definition encodeWhiteboardRef :: "whiteboard_ref \<Rightarrow> string" where
  "encodeWhiteboardRef ref = WHITEBOARD_REF_PREFIX @ sp_toString
     (sp_set ''name'' (wr_name ref)
     (sp_set ''boardId'' (wr_boardId ref)
     (sp_set ''projectName'' (wr_projectName ref)
     (sp_set ''projectId'' (wr_projectId ref)
     (sp_set ''hubId'' (wr_hubId ref) [])))))"

definition parseWhiteboardRef :: "string \<Rightarrow> whiteboard_ref option" where
  "parseWhiteboardRef url =
     (if \<not> startsWith url WHITEBOARD_REF_PREFIX then None
      else let sp = sp_parse (drop (length WHITEBOARD_REF_PREFIX) url);
               projectId = nullish (sp_get sp ''projectId'') [];
               boardId = nullish (sp_get sp ''boardId'') []
           in if projectId = [] \<or> boardId = [] then None
              else Some \<lparr>wr_hubId = nullish (sp_get sp ''hubId'') [],
                         wr_projectId = projectId,
                         wr_projectName = nullish (sp_get sp ''projectName'') [],
                         wr_boardId = boardId,
                         wr_name = str_or (sp_get sp ''name'') ''whiteboard''\<rparr>)"

definition whiteboardRefFromBoard :: "whiteboard \<Rightarrow> whiteboard_ref" where
  "whiteboardRefFromBoard b =
     \<lparr>wr_hubId = wb_hubId b, wr_projectId = wb_projectId b, wr_projectName = wb_projectName b,
      wr_boardId = wb_id b, wr_name = wb_name b\<rparr>"

definition whiteboardRefMarkdown :: "whiteboard_ref \<Rightarrow> string" where
  "whiteboardRefMarkdown ref =
     ''['' @ strip_brackets (wr_name ref) @ '']('' @ encodeWhiteboardRef ref @ '')''"

subsection \<open>Images\<close>

record img_ref =
  ir_dmProjectId :: string
  ir_itemId :: string
  ir_name :: string

definition IMG_REF_PREFIX :: string where "IMG_REF_PREFIX = ''fls:img?''"

definition encodeImgRef :: "img_ref \<Rightarrow> string" where
  "encodeImgRef ref = IMG_REF_PREFIX @ sp_toString
     (sp_set ''name'' (ir_name ref)
     (sp_set ''itemId'' (ir_itemId ref)
     (sp_set ''dmProjectId'' (ir_dmProjectId ref) [])))"

definition parseImgRef :: "string \<Rightarrow> img_ref option" where
  "parseImgRef url =
     (if \<not> startsWith url IMG_REF_PREFIX then None
      else let sp = sp_parse (drop (length IMG_REF_PREFIX) url);
               dmProjectId = nullish (sp_get sp ''dmProjectId'') [];
               itemId = nullish (sp_get sp ''itemId'') []
           in if dmProjectId = [] \<or> itemId = [] then None
              else Some \<lparr>ir_dmProjectId = dmProjectId, ir_itemId = itemId,
                         ir_name = str_or (sp_get sp ''name'') ''image''\<rparr>)"

subsection \<open>Channels\<close>

record channel_ref =
  cr_hubId :: string
  cr_projectId :: string
  cr_projectName :: string
  cr_channelId :: string
  cr_name :: string

definition CHANNEL_REF_PREFIX :: string where "CHANNEL_REF_PREFIX = ''fls:channel?''"

definition encodeChannelRef :: "channel_ref \<Rightarrow> string" where
  "encodeChannelRef ref = CHANNEL_REF_PREFIX @ sp_toString
     (sp_set ''name'' (cr_name ref)
     (sp_set ''channelId'' (cr_channelId ref)
     (sp_set ''projectName'' (cr_projectName ref)
     (sp_set ''projectId'' (cr_projectId ref)
     (sp_set ''hubId'' (cr_hubId ref) [])))))"

definition parseChannelRef :: "string \<Rightarrow> channel_ref option" where
  "parseChannelRef url =
     (if \<not> startsWith url CHANNEL_REF_PREFIX then None
      else let sp = sp_parse (drop (length CHANNEL_REF_PREFIX) url);
               projectId = nullish (sp_get sp ''projectId'') [];
               channelId = nullish (sp_get sp ''channelId'') []
           in if projectId = [] \<or> channelId = [] then None
              else Some \<lparr>cr_hubId = nullish (sp_get sp ''hubId'') [],
                         cr_projectId = projectId,
                         cr_projectName = nullish (sp_get sp ''projectName'') [],
                         cr_channelId = channelId,
                         cr_name = str_or (sp_get sp ''name'') ''channel''\<rparr>)"

definition channelRefFrom :: "string \<Rightarrow> string \<Rightarrow> string \<Rightarrow> string \<Rightarrow> string \<Rightarrow> channel_ref" where
  "channelRefFrom hubId projectId projectName i n =
     \<lparr>cr_hubId = hubId, cr_projectId = projectId, cr_projectName = projectName,
      cr_channelId = i, cr_name = n\<rparr>"

subsection \<open>Mentions\<close>

record mention_ref =
  mr_userId :: string
  mr_name :: string

definition MENTION_PREFIX :: string where "MENTION_PREFIX = ''fls:user?''"

definition encodeMention :: "mention_ref \<Rightarrow> string" where
  "encodeMention m = MENTION_PREFIX @ sp_toString
     (sp_set ''name'' (mr_name m) (sp_set ''id'' (mr_userId m) []))"

definition parseMention :: "string \<Rightarrow> mention_ref option" where
  "parseMention token =
     (if \<not> startsWith token MENTION_PREFIX then None
      else let sp = sp_parse (drop (length MENTION_PREFIX) token);
               userId = nullish (sp_get sp ''id'') []
           in if userId = [] then None
              else Some \<lparr>mr_userId = userId, mr_name = str_or (sp_get sp ''name'') []\<rparr>)"

definition splitMentions :: "string \<Rightarrow> mention_ref part list" where
  "splitMentions text = split_tokens [''user''] parseMention text"

subsection \<open>All card schemes together\<close>

datatype ref_card =
    RDoc doc_ref | RTask task_ref | RJob job_ref | RBatch batch_ref
  | RWhiteboard whiteboard_ref | RImg img_ref

definition parse_card :: "string \<Rightarrow> ref_card option" where
  "parse_card m =
     (case parseDocRef m of Some d \<Rightarrow> Some (RDoc d) | None \<Rightarrow>
     (case parseTaskRef m of Some t \<Rightarrow> Some (RTask t) | None \<Rightarrow>
     (case parseBatchRef m of Some b \<Rightarrow> Some (RBatch b) | None \<Rightarrow>
     (case parseJobRef m of Some j \<Rightarrow> Some (RJob j) | None \<Rightarrow>
     (case parseWhiteboardRef m of Some w \<Rightarrow> Some (RWhiteboard w) | None \<Rightarrow>
     (case parseImgRef m of Some i \<Rightarrow> Some (RImg i) | None \<Rightarrow> None))))))"

definition CARD_SCHEMES :: "string list" where
  "CARD_SCHEMES = [''doc'', ''task'', ''batch'', ''job'', ''whiteboard'', ''img'']"

definition splitRefTokens :: "string \<Rightarrow> ref_card part list" where
  "splitRefTokens text = split_tokens CARD_SCHEMES parse_card text"

lemmas [ref_defs] = sp_get_def Let_def ascii_def
  DOC_REF_PREFIX_def encodeDocRef_def parseDocRef_def
  TASK_REF_PREFIX_def encodeTaskRef_def parseTaskRef_def
  JOB_REF_PREFIX_def encodeJobRef_def parseJobRef_def
  BATCH_REF_PREFIX_def encodeBatchRef_def parseBatchRef_def
  WHITEBOARD_REF_PREFIX_def encodeWhiteboardRef_def parseWhiteboardRef_def
  IMG_REF_PREFIX_def encodeImgRef_def parseImgRef_def
  CHANNEL_REF_PREFIX_def encodeChannelRef_def parseChannelRef_def
  MENTION_PREFIX_def encodeMention_def parseMention_def

subsection \<open>Which references survive, and as what\<close>

text \<open>
  A parser refuses a token without its ids and fills in a default for an empty name. \<open>valid_*\<close> are
  the references with ids, of well-formed text; \<open>shown_*\<close> is what comes back for one.
\<close>

definition valid_doc :: "doc_ref \<Rightarrow> bool" where
  "valid_doc r \<longleftrightarrow> dr_hubId r \<noteq> [] \<and> dr_itemId r \<noteq> [] \<and> utf8_valid (dr_hubId r) \<and>
     utf8_valid (dr_itemId r) \<and> utf8_valid (dr_name r) \<and> utf8_valid (dr_kind r)"

definition shown_doc :: "doc_ref \<Rightarrow> doc_ref" where
  "shown_doc r = r\<lparr>dr_name := str_or (Some (dr_name r)) ''document'',
                   dr_kind := str_or (Some (dr_kind r)) ''unknown''\<rparr>"

definition valid_task :: "task_ref \<Rightarrow> bool" where
  "valid_task r \<longleftrightarrow> tkr_projectId r \<noteq> [] \<and> tkr_taskId r \<noteq> [] \<and> utf8_valid (tkr_hubId r) \<and>
     utf8_valid (tkr_projectId r) \<and> utf8_valid (tkr_taskId r) \<and> utf8_valid (tkr_title r)"

definition shown_task :: "task_ref \<Rightarrow> task_ref" where
  "shown_task r = r\<lparr>tkr_title := str_or (Some (tkr_title r)) ''task''\<rparr>"

definition valid_job :: "'a job_ref_scheme \<Rightarrow> bool" where
  "valid_job r \<longleftrightarrow> jr_projectId r \<noteq> [] \<and> jr_jobId r \<noteq> [] \<and> utf8_valid (jr_hubId r) \<and>
     utf8_valid (jr_projectId r) \<and> utf8_valid (jr_projectName r) \<and> utf8_valid (jr_jobId r) \<and>
     utf8_valid (jr_jobName r)"

definition shown_job :: "'a job_ref_scheme \<Rightarrow> 'a job_ref_scheme" where
  "shown_job r = r\<lparr>jr_projectName := str_or (Some (jr_projectName r)) ''project'',
                   jr_jobName := str_or (Some (jr_jobName r)) ''job''\<rparr>"

definition valid_batch :: "batch_ref \<Rightarrow> bool" where
  "valid_batch r \<longleftrightarrow> valid_job r \<and> br_batchId r \<noteq> [] \<and> utf8_valid (br_batchId r) \<and>
     utf8_valid (br_batchName r)"

definition shown_batch :: "batch_ref \<Rightarrow> batch_ref" where
  "shown_batch r = (shown_job r)\<lparr>br_batchName := str_or (Some (br_batchName r)) ''batch''\<rparr>"

definition valid_whiteboard :: "whiteboard_ref \<Rightarrow> bool" where
  "valid_whiteboard r \<longleftrightarrow> wr_projectId r \<noteq> [] \<and> wr_boardId r \<noteq> [] \<and> utf8_valid (wr_hubId r) \<and>
     utf8_valid (wr_projectId r) \<and> utf8_valid (wr_projectName r) \<and> utf8_valid (wr_boardId r) \<and>
     utf8_valid (wr_name r)"

definition shown_whiteboard :: "whiteboard_ref \<Rightarrow> whiteboard_ref" where
  "shown_whiteboard r = r\<lparr>wr_name := str_or (Some (wr_name r)) ''whiteboard''\<rparr>"

definition valid_img :: "img_ref \<Rightarrow> bool" where
  "valid_img r \<longleftrightarrow> ir_dmProjectId r \<noteq> [] \<and> ir_itemId r \<noteq> [] \<and> utf8_valid (ir_dmProjectId r) \<and>
     utf8_valid (ir_itemId r) \<and> utf8_valid (ir_name r)"

definition shown_img :: "img_ref \<Rightarrow> img_ref" where
  "shown_img r = r\<lparr>ir_name := str_or (Some (ir_name r)) ''image''\<rparr>"

definition valid_channel :: "channel_ref \<Rightarrow> bool" where
  "valid_channel r \<longleftrightarrow> cr_projectId r \<noteq> [] \<and> cr_channelId r \<noteq> [] \<and> utf8_valid (cr_hubId r) \<and>
     utf8_valid (cr_projectId r) \<and> utf8_valid (cr_projectName r) \<and> utf8_valid (cr_channelId r) \<and>
     utf8_valid (cr_name r)"

definition shown_channel :: "channel_ref \<Rightarrow> channel_ref" where
  "shown_channel r = r\<lparr>cr_name := str_or (Some (cr_name r)) ''channel''\<rparr>"

definition valid_mention :: "mention_ref \<Rightarrow> bool" where
  "valid_mention m \<longleftrightarrow> mr_userId m \<noteq> [] \<and> utf8_valid (mr_userId m) \<and> utf8_valid (mr_name m)"

lemmas valid_ref_defs = valid_doc_def valid_task_def valid_job_def valid_batch_def
  valid_whiteboard_def valid_img_def valid_channel_def valid_mention_def

lemmas shown_ref_defs = shown_doc_def shown_task_def shown_job_def shown_batch_def
  shown_whiteboard_def shown_img_def shown_channel_def

subsection \<open>The parsers read back what the encoders write\<close>

lemma parse_encode_doc: "valid_doc r \<Longrightarrow> parseDocRef (encodeDocRef r) = Some (shown_doc r)"
  by (simp add: ref_defs valid_ref_defs shown_ref_defs sp_parse_toString)

lemma parse_encode_task: "valid_task r \<Longrightarrow> parseTaskRef (encodeTaskRef r) = Some (shown_task r)"
  by (simp add: ref_defs valid_ref_defs shown_ref_defs sp_parse_toString)

lemma parse_encode_job: "valid_job r \<Longrightarrow> parseJobRef (encodeJobRef r) = Some (shown_job r)"
  by (simp add: ref_defs valid_ref_defs shown_ref_defs sp_parse_toString)

lemma parse_encode_batch: "valid_batch r \<Longrightarrow> parseBatchRef (encodeBatchRef r) = Some (shown_batch r)"
  by (simp add: ref_defs valid_ref_defs shown_ref_defs sp_parse_toString)

lemma parse_encode_whiteboard:
  "valid_whiteboard r \<Longrightarrow> parseWhiteboardRef (encodeWhiteboardRef r) = Some (shown_whiteboard r)"
  by (simp add: ref_defs valid_ref_defs shown_ref_defs sp_parse_toString)

lemma parse_encode_img: "valid_img r \<Longrightarrow> parseImgRef (encodeImgRef r) = Some (shown_img r)"
  by (simp add: ref_defs valid_ref_defs shown_ref_defs sp_parse_toString)

lemma parse_encode_channel:
  "valid_channel r \<Longrightarrow> parseChannelRef (encodeChannelRef r) = Some (shown_channel r)"
  by (simp add: ref_defs valid_ref_defs shown_ref_defs sp_parse_toString)

lemma parse_encode_mention: "valid_mention m \<Longrightarrow> parseMention (encodeMention m) = Some m"
  by (cases "mr_name m") (simp_all add: ref_defs valid_ref_defs sp_parse_toString)


subsection \<open>The codecs are token families\<close>

definition doc_fields :: "doc_ref \<Rightarrow> params" where
  "doc_fields r =
    [(''hubId'', dr_hubId r), (''itemId'', dr_itemId r), (''name'', dr_name r),
     (''kind'', dr_kind r)]"

lemma encode_doc: "encodeDocRef r = tok_prefix ''doc'' @ sp_toString (doc_fields r)"
  by (simp add: doc_fields_def ref_defs tok_prefix_def)

interpretation doc_tok: token_family "[''doc'']" "\<lambda>_. ''doc''" doc_fields encodeDocRef parseDocRef
  shown_doc valid_doc
  by (unfold_locales, rule encode_doc, simp add: doc_fields_def, simp, simp,
      simp add: parse_encode_doc)

definition task_fields :: "task_ref \<Rightarrow> params" where
  "task_fields r =
    [(''hubId'', tkr_hubId r), (''projectId'', tkr_projectId r), (''taskId'', tkr_taskId r),
     (''title'', tkr_title r)]"

lemma encode_task: "encodeTaskRef r = tok_prefix ''task'' @ sp_toString (task_fields r)"
  by (simp add: task_fields_def ref_defs tok_prefix_def)

interpretation task_tok: token_family "[''task'']" "\<lambda>_. ''task''" task_fields encodeTaskRef parseTaskRef
  shown_task valid_task
  by (unfold_locales, rule encode_task, simp add: task_fields_def, simp, simp,
      simp add: parse_encode_task)

definition job_fields :: "job_ref \<Rightarrow> params" where
  "job_fields r =
    [(''hubId'', jr_hubId r), (''projectId'', jr_projectId r), (''projectName'', jr_projectName r),
     (''jobId'', jr_jobId r), (''jobName'', jr_jobName r)]"

lemma encode_job: "encodeJobRef r = tok_prefix ''job'' @ sp_toString (job_fields r)"
  by (simp add: job_fields_def ref_defs tok_prefix_def)

interpretation job_tok: token_family "[''job'']" "\<lambda>_. ''job''" job_fields encodeJobRef parseJobRef
  shown_job valid_job
  by (unfold_locales, rule encode_job, simp add: job_fields_def, simp, simp,
      simp add: parse_encode_job)

definition batch_fields :: "batch_ref \<Rightarrow> params" where
  "batch_fields r =
    [(''hubId'', jr_hubId r), (''projectId'', jr_projectId r), (''projectName'', jr_projectName r),
     (''jobId'', jr_jobId r), (''jobName'', jr_jobName r), (''batchId'', br_batchId r),
     (''batchName'', br_batchName r)]"

lemma encode_batch: "encodeBatchRef r = tok_prefix ''batch'' @ sp_toString (batch_fields r)"
  by (simp add: batch_fields_def ref_defs tok_prefix_def)

interpretation batch_tok: token_family "[''batch'']" "\<lambda>_. ''batch''" batch_fields encodeBatchRef parseBatchRef
  shown_batch valid_batch
  by (unfold_locales, rule encode_batch, simp add: batch_fields_def, simp, simp,
      simp add: parse_encode_batch)

definition whiteboard_fields :: "whiteboard_ref \<Rightarrow> params" where
  "whiteboard_fields r =
    [(''hubId'', wr_hubId r), (''projectId'', wr_projectId r), (''projectName'', wr_projectName r),
     (''boardId'', wr_boardId r), (''name'', wr_name r)]"

lemma encode_whiteboard: "encodeWhiteboardRef r = tok_prefix ''whiteboard'' @ sp_toString (whiteboard_fields r)"
  by (simp add: whiteboard_fields_def ref_defs tok_prefix_def)

interpretation whiteboard_tok: token_family "[''whiteboard'']" "\<lambda>_. ''whiteboard''" whiteboard_fields encodeWhiteboardRef parseWhiteboardRef
  shown_whiteboard valid_whiteboard
  by (unfold_locales, rule encode_whiteboard, simp add: whiteboard_fields_def, simp, simp,
      simp add: parse_encode_whiteboard)

definition img_fields :: "img_ref \<Rightarrow> params" where
  "img_fields r =
    [(''dmProjectId'', ir_dmProjectId r), (''itemId'', ir_itemId r), (''name'', ir_name r)]"

lemma encode_img: "encodeImgRef r = tok_prefix ''img'' @ sp_toString (img_fields r)"
  by (simp add: img_fields_def ref_defs tok_prefix_def)

interpretation img_tok: token_family "[''img'']" "\<lambda>_. ''img''" img_fields encodeImgRef parseImgRef
  shown_img valid_img
  by (unfold_locales, rule encode_img, simp add: img_fields_def, simp, simp,
      simp add: parse_encode_img)

definition channel_fields :: "channel_ref \<Rightarrow> params" where
  "channel_fields r =
    [(''hubId'', cr_hubId r), (''projectId'', cr_projectId r), (''projectName'', cr_projectName r),
     (''channelId'', cr_channelId r), (''name'', cr_name r)]"

lemma encode_channel: "encodeChannelRef r = tok_prefix ''channel'' @ sp_toString (channel_fields r)"
  by (simp add: channel_fields_def ref_defs tok_prefix_def)

interpretation channel_tok: token_family "[''channel'']" "\<lambda>_. ''channel''" channel_fields encodeChannelRef parseChannelRef
  shown_channel valid_channel
  by (unfold_locales, rule encode_channel, simp add: channel_fields_def, simp, simp,
      simp add: parse_encode_channel)

definition mention_fields :: "mention_ref \<Rightarrow> params" where
  "mention_fields r =
    [(''id'', mr_userId r), (''name'', mr_name r)]"

lemma encode_mention: "encodeMention r = tok_prefix ''user'' @ sp_toString (mention_fields r)"
  by (simp add: mention_fields_def ref_defs tok_prefix_def)

interpretation mention_tok: token_family "[''user'']" "\<lambda>_. ''user''" mention_fields encodeMention parseMention
  id valid_mention
  by (unfold_locales, rule encode_mention, simp add: mention_fields_def, simp, simp,
      simp add: parse_encode_mention)


text \<open>All card schemes together: the first parser that accepts is the only one that does.\<close>

fun scheme_card :: "ref_card \<Rightarrow> string" where
  "scheme_card (RDoc r) = ''doc''"
| "scheme_card (RTask r) = ''task''"
| "scheme_card (RJob r) = ''job''"
| "scheme_card (RBatch r) = ''batch''"
| "scheme_card (RWhiteboard r) = ''whiteboard''"
| "scheme_card (RImg r) = ''img''"

fun card_fields :: "ref_card \<Rightarrow> params" where
  "card_fields (RDoc r) = doc_fields r"
| "card_fields (RTask r) = task_fields r"
| "card_fields (RJob r) = job_fields r"
| "card_fields (RBatch r) = batch_fields r"
| "card_fields (RWhiteboard r) = whiteboard_fields r"
| "card_fields (RImg r) = img_fields r"

fun encode_card :: "ref_card \<Rightarrow> string" where
  "encode_card (RDoc r) = encodeDocRef r"
| "encode_card (RTask r) = encodeTaskRef r"
| "encode_card (RJob r) = encodeJobRef r"
| "encode_card (RBatch r) = encodeBatchRef r"
| "encode_card (RWhiteboard r) = encodeWhiteboardRef r"
| "encode_card (RImg r) = encodeImgRef r"

fun shown_card :: "ref_card \<Rightarrow> ref_card" where
  "shown_card (RDoc r) = RDoc (shown_doc r)"
| "shown_card (RTask r) = RTask (shown_task r)"
| "shown_card (RJob r) = RJob (shown_job r)"
| "shown_card (RBatch r) = RBatch (shown_batch r)"
| "shown_card (RWhiteboard r) = RWhiteboard (shown_whiteboard r)"
| "shown_card (RImg r) = RImg (shown_img r)"

fun valid_card :: "ref_card \<Rightarrow> bool" where
  "valid_card (RDoc r) = valid_doc r"
| "valid_card (RTask r) = valid_task r"
| "valid_card (RJob r) = valid_job r"
| "valid_card (RBatch r) = valid_batch r"
| "valid_card (RWhiteboard r) = valid_whiteboard r"
| "valid_card (RImg r) = valid_img r"

lemma prefix_mismatch:
  "\<not> startsWith s DOC_REF_PREFIX \<Longrightarrow> parseDocRef s = None"
  "\<not> startsWith s TASK_REF_PREFIX \<Longrightarrow> parseTaskRef s = None"
  "\<not> startsWith s JOB_REF_PREFIX \<Longrightarrow> parseJobRef s = None"
  "\<not> startsWith s BATCH_REF_PREFIX \<Longrightarrow> parseBatchRef s = None"
  "\<not> startsWith s WHITEBOARD_REF_PREFIX \<Longrightarrow> parseWhiteboardRef s = None"
  "\<not> startsWith s IMG_REF_PREFIX \<Longrightarrow> parseImgRef s = None"
  by (simp_all add: parseDocRef_def parseTaskRef_def parseJobRef_def parseBatchRef_def
      parseWhiteboardRef_def parseImgRef_def)

lemmas ref_prefixes = DOC_REF_PREFIX_def TASK_REF_PREFIX_def JOB_REF_PREFIX_def
  BATCH_REF_PREFIX_def WHITEBOARD_REF_PREFIX_def IMG_REF_PREFIX_def tok_prefix_def

lemma parse_encode_card:
  assumes "valid_card r"
  shows "parse_card (encode_card r) = Some (shown_card r)"
proof (cases r)
  case (RDoc x)
  with assms show ?thesis by (simp add: parse_card_def parse_encode_doc)
next
  case (RTask x)
  have "parseDocRef (encodeTaskRef x) = None"
    by (rule prefix_mismatch) (simp add: encode_task ref_prefixes)
  with RTask assms show ?thesis by (simp add: parse_card_def parse_encode_task)
next
  case (RJob x)
  have "parseDocRef (encodeJobRef x) = None" "parseTaskRef (encodeJobRef x) = None"
    "parseBatchRef (encodeJobRef x) = None"
    by (rule prefix_mismatch, simp add: encode_job ref_prefixes)+
  with RJob assms show ?thesis by (simp add: parse_card_def parse_encode_job)
next
  case (RBatch x)
  have "parseDocRef (encodeBatchRef x) = None" "parseTaskRef (encodeBatchRef x) = None"
    by (rule prefix_mismatch, simp add: encode_batch ref_prefixes)+
  with RBatch assms show ?thesis by (simp add: parse_card_def parse_encode_batch)
next
  case (RWhiteboard x)
  have "parseDocRef (encodeWhiteboardRef x) = None" "parseTaskRef (encodeWhiteboardRef x) = None"
    "parseBatchRef (encodeWhiteboardRef x) = None" "parseJobRef (encodeWhiteboardRef x) = None"
    by (rule prefix_mismatch, simp add: encode_whiteboard ref_prefixes)+
  with RWhiteboard assms show ?thesis by (simp add: parse_card_def parse_encode_whiteboard)
next
  case (RImg x)
  have "parseDocRef (encodeImgRef x) = None" "parseTaskRef (encodeImgRef x) = None"
    "parseBatchRef (encodeImgRef x) = None" "parseJobRef (encodeImgRef x) = None"
    "parseWhiteboardRef (encodeImgRef x) = None"
    by (rule prefix_mismatch, simp add: encode_img ref_prefixes)+
  with RImg assms show ?thesis by (simp add: parse_card_def parse_encode_img)
qed

lemmas card_cases = encode_doc encode_task encode_job encode_batch encode_whiteboard encode_img
lemmas card_fields_defs = doc_fields_def task_fields_def job_fields_def batch_fields_def
  whiteboard_fields_def img_fields_def

interpretation card_tok: token_family CARD_SCHEMES scheme_card card_fields encode_card parse_card
  shown_card valid_card
proof
  show "encode_card r = tok_prefix (scheme_card r) @ sp_toString (card_fields r)" for r
    by (cases r) (simp_all add: card_cases)
  show "card_fields r \<noteq> []" for r
    by (cases r) (simp_all add: card_fields_defs)
  show "scheme_card r \<in> set CARD_SCHEMES" for r
    by (cases r) (simp_all add: CARD_SCHEMES_def)
qed (auto simp: CARD_SCHEMES_def parse_encode_card)

subsection \<open>Properties of the tokens\<close>

text \<open>
  C1. A message put together from plain runs and card tokens is split back into exactly those runs
  and cards. The runs contain no \<open>fls:\<close> themselves and a run after a token does not begin with a
  character of the token alphabet; a card comes back with the parser's default in place of an empty
  display name, and with every id intact.
\<close>

theorem splitRefTokens_render:
  assumes "canon valid_card ps" "ps \<noteq> []"
  shows "splitRefTokens (render encode_card ps) = map (map_part shown_card) ps"
  unfolding splitRefTokens_def using assms by (rule card_tok.split_render)

definition sample_doc :: doc_ref where
  "sample_doc = \<lparr>dr_hubId = ''hub&1'', dr_itemId = ''urn:x=1'', dr_name = [], dr_kind = ''design''\<rparr>"

definition sample_task :: task_ref where
  "sample_task = \<lparr>tkr_hubId = [], tkr_projectId = ''p 1'', tkr_taskId = ''t7'', tkr_title = ''Fit+''\<rparr>"

definition sample_parts :: "ref_card part list" where
  "sample_parts =
    [Txt ''see '', Ref (RDoc sample_doc), Txt '', and '', Ref (RTask sample_task), Txt ''!'']"

lemma splitRefTokens_render_witness:
  "splitRefTokens (render encode_card sample_parts) =
     [Txt ''see '', Ref (RDoc (sample_doc\<lparr>dr_name := ''document''\<rparr>)), Txt '', and '',
      Ref (RTask sample_task), Txt ''!'']"
proof -
  have "canon valid_card sample_parts"
    by (simp add: sample_parts_def sample_doc_def sample_task_def valid_ref_defs ascii_def
        tok_char_def is_alnum_def)
  moreover have "sample_parts \<noteq> []" by (simp add: sample_parts_def)
  ultimately show ?thesis
    by (simp add: splitRefTokens_render[of sample_parts])
      (simp add: sample_parts_def sample_doc_def sample_task_def shown_doc_def shown_task_def)
qed

text \<open>
  Splitting loses nothing, on any text at all: the parts, put back together, are the message,
  each plain part is its own text, and each card is what the parser makes of its token's text. So a
  malformed token stays in the message as text.
\<close>

theorem splitRefTokens_lossless: "covers parse_card text (splitRefTokens text)"
  unfolding splitRefTokens_def by (rule split_tokens_covers)

end
