(* ===== verification/NavUrl.thy ===== *)
theory NavUrl
  imports JsUrl ApiTypes
begin

section \<open>Permalinks\<close>

text \<open>
  The navigation state of \<open>state/nav.tsx\<close> and its form in the address bar: \<open>navToSearch\<close>,
  \<open>searchToNav\<close> and \<open>shouldPush\<close> of \<open>state/navUrl.ts\<close>, and the add-in's deep links of
  \<open>state/dmDeepLink.ts\<close>. \<open>permalink_view\<close> says what a permalink promises to carry.
\<close>

subsection \<open>The navigation state\<close>

datatype AppKind = Browser | TasksApp | ProductionApp

record nav_state =
  app :: AppKind
  hubId :: "string option"
  hubName :: "string option"
  project :: "item option"
  folderStack :: "item list"
  selected :: "item option"
  selectedTab :: "string option"
  projectTab :: "string option"
  boardId :: "string option"
  channelId :: "string option"

definition initialState :: nav_state where
  "initialState = \<lparr>app = Browser, hubId = None, hubName = None, project = None, folderStack = [],
     selected = None, selectedTab = None, projectTab = None, boardId = None, channelId = None\<rparr>"

subsection \<open>Encoding\<close>

definition SEP :: char where "SEP = CHR 0x7E"

definition enc :: "string list \<Rightarrow> string" where
  "enc parts = join_with [SEP] (map encodeURIComponent parts)"

definition dec :: "string \<Rightarrow> string list" where
  "dec s = map (\<lambda>p. case decodeURIComponent p of Some d \<Rightarrow> d | None \<Rightarrow> p) (split_on SEP s)"

definition app_param :: "AppKind \<Rightarrow> string option" where
  "app_param a = (case a of Browser \<Rightarrow> None | TasksApp \<Rightarrow> Some ''tasks''
     | ProductionApp \<Rightarrow> Some ''production'')"

definition set_hub :: "nav_state \<Rightarrow> params \<Rightarrow> params" where
  "set_hub s p = (case hubId s of
       Some h \<Rightarrow> if h \<noteq> [] then sp_set ''hub'' (enc [h, nullish (hubName s) []]) p else p
     | None \<Rightarrow> p)"

definition set_project :: "nav_state \<Rightarrow> params \<Rightarrow> params" where
  "set_project s p = (case project s of
       Some pr \<Rightarrow> sp_set ''proj'' (enc [it_id pr, it_name pr]) p
     | None \<Rightarrow> p)"

definition add_folders :: "nav_state \<Rightarrow> params \<Rightarrow> params" where
  "add_folders s p = foldl (\<lambda>p f. sp_append ''f'' (enc [it_id f, it_name f]) p) p (folderStack s)"

definition set_selected :: "nav_state \<Rightarrow> params \<Rightarrow> params" where
  "set_selected s p = (case selected s of
       Some d \<Rightarrow>
         (let p = sp_set ''sel'' (enc [it_id d, it_name d, it_kind d]) p
          in if truthy (selectedTab s) then sp_set ''dtab'' (the (selectedTab s)) p else p)
     | None \<Rightarrow> p)"

definition set_tab :: "nav_state \<Rightarrow> params \<Rightarrow> params" where
  "set_tab s p =
     (if project s \<noteq> None \<and> selected s = None \<and> folderStack s = [] \<and> truthy (projectTab s)
      then
        (let p = sp_set ''ptab'' (the (projectTab s)) p;
             p = (if projectTab s = Some ''whiteboards'' \<and> truthy (boardId s)
                  then sp_set ''board'' (the (boardId s)) p else p)
         in if projectTab s = Some ''chat'' \<and> truthy (channelId s)
            then sp_set ''chan'' (the (channelId s)) p else p)
      else p)"

definition nav_params :: "nav_state \<Rightarrow> params" where
  "nav_params s =
     (case app_param (app s) of
        Some a \<Rightarrow> set_hub s (sp_set ''app'' a [])
      | None \<Rightarrow> set_tab s (set_selected s (add_folders s (set_project s (set_hub s [])))))"

definition navToSearch :: "nav_state \<Rightarrow> string" where
  "navToSearch s = sp_toString (nav_params s)"

subsection \<open>Decoding\<close>

text \<open>\<open>or_null x\<close> is \<open>x || null\<close> on strings; a destructured array gives \<open>undefined\<close> past its end.\<close>

definition or_null :: "string option \<Rightarrow> string option" where
  "or_null x = (if truthy x then x else None)"

definition nth_part :: "string list \<Rightarrow> nat \<Rightarrow> string option" where
  "nth_part xs i = (if i < length xs then Some (xs ! i) else None)"

definition parse_hub :: "params \<Rightarrow> string option \<times> string option" where
  "parse_hub p =
     (if truthy (sp_get p ''hub'')
      then (let d = dec (the (sp_get p ''hub'')) in (nth_part d 0, nth_part d 1))
      else (None, None))"

definition parse_project :: "params \<Rightarrow> item option" where
  "parse_project p =
     (if truthy (sp_get p ''proj'')
      then (let d = dec (the (sp_get p ''proj'')) in
            if truthy (nth_part d 0)
            then Some (mk_item (the (nth_part d 0)) (nullish (nth_part d 1) []) ''project'' True)
            else None)
      else None)"

definition parse_folders :: "params \<Rightarrow> item list" where
  "parse_folders p =
     filter (\<lambda>f. it_id f \<noteq> [])
       (map (\<lambda>raw. let d = dec raw in
               mk_item (nullish (nth_part d 0) []) (nullish (nth_part d 1) []) ''folder'' True)
         (sp_getAll p ''f''))"

definition parse_selected :: "params \<Rightarrow> item option" where
  "parse_selected p =
     (if truthy (sp_get p ''sel'')
      then (let d = dec (the (sp_get p ''sel'')) in
            if truthy (nth_part d 0)
            then Some (mk_item (the (nth_part d 0)) (nullish (nth_part d 1) [])
                        (nullish (nth_part d 2) ''unknown'') False)
            else None)
      else None)"

definition parse_nav :: "params \<Rightarrow> nav_state" where
  "parse_nav p =
     (let appRaw = sp_get p ''app'';
          a = (if appRaw = Some ''tasks'' then TasksApp
               else if appRaw = Some ''production'' then ProductionApp else Browser);
          hub = parse_hub p;
          pr = parse_project p;
          fs = parse_folders p;
          sel = parse_selected p;
          atProjectRoot = (pr \<noteq> None \<and> sel = None \<and> fs = []);
          ptab = (if atProjectRoot then or_null (sp_get p ''ptab'') else None)
      in \<lparr>app = a, hubId = or_null (fst hub), hubName = or_null (snd hub), project = pr,
          folderStack = fs, selected = sel,
          selectedTab = (if sel \<noteq> None then or_null (sp_get p ''dtab'') else None),
          projectTab = ptab,
          boardId = (if ptab = Some ''whiteboards'' then or_null (sp_get p ''board'') else None),
          channelId = (if ptab = Some ''chat'' then or_null (sp_get p ''chan'') else None)\<rparr>)"

definition searchToNav :: "string \<Rightarrow> nav_state" where
  "searchToNav search =
     parse_nav (sp_parse (if startsWith search ''?'' then drop 1 search else search))"

subsection \<open>History entries\<close>

definition shouldPush :: "nav_state \<Rightarrow> nav_state \<Rightarrow> bool" where
  "shouldPush prev next =
     (if app prev \<noteq> app next then True
      else if hubId prev \<noteq> hubId next then True
      else if map_option it_id (project prev) \<noteq> map_option it_id (project next) then True
      else if length (folderStack prev) \<noteq> length (folderStack next) then True
      else if list_ex (\<lambda>i. it_id (folderStack prev ! i) \<noteq> it_id (folderStack next ! i))
                [0..<length (folderStack prev)] then True
      else if map_option it_id (selected prev) \<noteq> map_option it_id (selected next) then True
      else False)"

subsection \<open>Deep links of the Fusion add-in\<close>

record dm_deep_link =
  dl_dmHubId :: string
  dl_dmProjectId :: string
  dl_projectName :: string

definition readDmDeepLink :: "string \<Rightarrow> dm_deep_link option" where
  "readDmDeepLink search =
     (let p = sp_parse (if startsWith search ''?'' then drop 1 search else search);
          h = nullish (sp_get p ''dmHubId'') [];
          pr = nullish (sp_get p ''dmProjectId'') []
      in if h = [] \<or> pr = [] then None
         else Some \<lparr>dl_dmHubId = h, dl_dmProjectId = pr,
                    dl_projectName = nullish (sp_get p ''projectName'') []\<rparr>)"

record resolved_for_permalink =
  rp_hubId :: string
  rp_hubName :: string
  rp_projectId :: string
  rp_projectName :: string
  rp_projectAltId :: string

definition resolved_state :: "resolved_for_permalink \<Rightarrow> nav_state" where
  "resolved_state r =
     \<lparr>app = Browser, hubId = Some (rp_hubId r), hubName = Some (rp_hubName r),
      project = Some ((mk_item (rp_projectId r) (rp_projectName r) ''project'' True)
                  \<lparr>it_altId := Some (rp_projectAltId r)\<rparr>),
      folderStack = [], selected = None, selectedTab = None, projectTab = None,
      boardId = None, channelId = None\<rparr>"

definition resolvedPermalink :: "resolved_for_permalink \<Rightarrow> string" where
  "resolvedPermalink r =
     (let search = navToSearch (resolved_state r) in if search \<noteq> [] then ''/?'' @ search else ''/'')"

subsection \<open>What a permalink carries\<close>

definition hint :: "string \<Rightarrow> bool \<Rightarrow> item \<Rightarrow> item" where
  "hint kind container it = mk_item (it_id it) (it_name it) kind container"

text \<open>
  \<open>permalink_view\<close> is the part of a state a permalink carries: in a cross-project screen only the
  hub; in the browser the hub, the project, the folders, the document and its tab, or at a
  project's root the project's tab with the board or the channel it shows. An item keeps its id,
  its name and, for the document, its kind.
\<close>

definition permalink_view :: "nav_state \<Rightarrow> nav_state" where
  "permalink_view s =
     (let hub = or_null (hubId s);
          hubn = (if hub = None then None else or_null (hubName s));
          ptab = (if project s \<noteq> None \<and> selected s = None \<and> folderStack s = []
                  then or_null (projectTab s) else None)
      in if app s \<noteq> Browser then initialState\<lparr>app := app s, hubId := hub, hubName := hubn\<rparr>
         else \<lparr>app = Browser, hubId = hub, hubName = hubn,
               project = map_option (hint ''project'' True) (project s),
               folderStack = map (hint ''folder'' True) (folderStack s),
               selected = map_option (\<lambda>d. hint (it_kind d) False d) (selected s),
               selectedTab = (if selected s \<noteq> None then or_null (selectedTab s) else None),
               projectTab = ptab,
               boardId = (if ptab = Some ''whiteboards'' then or_null (boardId s) else None),
               channelId = (if ptab = Some ''chat'' then or_null (channelId s) else None)\<rparr>)"

text \<open>The states a permalink can carry: ids are not empty, and no part contains the separator.\<close>

definition part_ok :: "string \<Rightarrow> bool" where
  "part_ok s \<longleftrightarrow> utf8_valid s \<and> SEP \<notin> set s"

definition opt_ok :: "(string \<Rightarrow> bool) \<Rightarrow> string option \<Rightarrow> bool" where
  "opt_ok P x \<longleftrightarrow> (case x of None \<Rightarrow> True | Some s \<Rightarrow> P s)"

definition item_ok :: "item \<Rightarrow> bool" where
  "item_ok it \<longleftrightarrow> it_id it \<noteq> [] \<and> part_ok (it_id it) \<and> part_ok (it_name it) \<and> part_ok (it_kind it)"

definition nav_ok :: "nav_state \<Rightarrow> bool" where
  "nav_ok s \<longleftrightarrow> opt_ok part_ok (hubId s) \<and> opt_ok part_ok (hubName s) \<and>
     (case project s of None \<Rightarrow> True | Some p \<Rightarrow> item_ok p) \<and> list_all item_ok (folderStack s) \<and>
     (case selected s of None \<Rightarrow> True | Some d \<Rightarrow> item_ok d) \<and>
     opt_ok utf8_valid (selectedTab s) \<and> opt_ok utf8_valid (projectTab s) \<and>
     opt_ok utf8_valid (boardId s) \<and> opt_ok utf8_valid (channelId s)"

lemma or_null_simps [simp]: "or_null None = None" "or_null (Some s) = (if s = [] then None else Some s)"
  by (simp_all add: or_null_def)

lemma nth_part_simps [simp]:
  "nth_part (x # xs) 0 = Some x" "nth_part (x # xs) (Suc n) = nth_part xs n" "nth_part [] n = None"
  by (simp_all add: nth_part_def)

subsection \<open>Joining and splitting the parts\<close>

lemma SEP_encode: "SEP \<notin> set s \<Longrightarrow> SEP \<notin> set (encodeURIComponent s)"
proof (induction s)
  case Nil
  then show ?case by (simp add: encodeURIComponent_def)
next
  case (Cons c s)
  have "SEP \<notin> set (pct c)"
    using pct_chars[of SEP c] by (auto simp: SEP_def is_alnum_def)
  with Cons show ?case by (auto simp: encodeURIComponent_def)
qed

lemma dec_enc:
  assumes "parts \<noteq> []" "\<forall>p \<in> set parts. part_ok p"
  shows "dec (enc parts) = parts"
proof -
  have "split_on SEP (enc parts) = map encodeURIComponent parts"
    unfolding enc_def using assms by (intro split_join) (auto simp: part_ok_def SEP_encode)
  with assms show ?thesis
    by (auto simp: dec_def part_ok_def decode_encode_URIComponent intro!: map_idI)
qed

lemma enc_Nil_iff: "enc (a # b # bs) \<noteq> []"
  by (cases bs) (simp_all add: enc_def)

lemma ascii_encodeURIComponent [simp]: "ascii (encodeURIComponent s)"
proof -
  have "of_char c < (128::nat)" if "uri_unreserved c \<or> c = CHR ''%''" for c
    using that by (auto simp: uri_unreserved_def is_alnum_def Let_def)
  then show ?thesis by (auto simp: ascii_def dest: set_encodeURIComponent)
qed

lemma ascii_enc [simp]: "ascii (enc parts)"
proof -
  have "set (enc parts) \<subseteq> (\<Union>w \<in> set (map encodeURIComponent parts). set w) \<union> set [SEP]"
    unfolding enc_def by (rule set_join_with)
  moreover have "of_char c < (128::nat)" if "c \<in> set (encodeURIComponent s)" for c s
    using ascii_encodeURIComponent[of s] that by (simp add: ascii_def)
  ultimately show ?thesis by (auto simp: ascii_def SEP_def)
qed

subsection \<open>The parameters as one list\<close>

definition hub_ps :: "nav_state \<Rightarrow> params" where
  "hub_ps s = (if truthy (hubId s) then [(''hub'', enc [the (hubId s), nullish (hubName s) []])] else [])"

definition proj_ps :: "nav_state \<Rightarrow> params" where
  "proj_ps s = (case project s of None \<Rightarrow> [] | Some p \<Rightarrow> [(''proj'', enc [it_id p, it_name p])])"

definition f_ps :: "nav_state \<Rightarrow> params" where
  "f_ps s = map (\<lambda>f. (''f'', enc [it_id f, it_name f])) (folderStack s)"

definition opt_ps :: "string \<Rightarrow> string option \<Rightarrow> params" where
  "opt_ps k x = (if truthy x then [(k, the x)] else [])"

definition sel_ps :: "nav_state \<Rightarrow> params" where
  "sel_ps s = (case selected s of None \<Rightarrow> []
     | Some d \<Rightarrow> (''sel'', enc [it_id d, it_name d, it_kind d]) # opt_ps ''dtab'' (selectedTab s))"

definition tab_ps :: "nav_state \<Rightarrow> params" where
  "tab_ps s =
     (if project s \<noteq> None \<and> selected s = None \<and> folderStack s = []
      then opt_ps ''ptab'' (projectTab s) @
        (if projectTab s = Some ''whiteboards'' then opt_ps ''board'' (boardId s) else []) @
        (if projectTab s = Some ''chat'' then opt_ps ''chan'' (channelId s) else [])
      else [])"

lemma foldl_append_f: "foldl (\<lambda>p f. sp_append k (g f) p) p fs = p @ map (\<lambda>f. (k, g f)) fs"
  by (induction fs arbitrary: p) (auto simp: sp_append_def)

lemma keys_ps:
  "fst ` set (hub_ps s) \<subseteq> {''hub''}" "fst ` set (proj_ps s) \<subseteq> {''proj''}"
  "fst ` set (f_ps s) \<subseteq> {''f''}" "fst ` set (sel_ps s) \<subseteq> {''sel'', ''dtab''}"
  by (auto simp: hub_ps_def proj_ps_def f_ps_def sel_ps_def opt_ps_def split: option.splits if_splits)

lemma not_in_keys: "A \<subseteq> B \<Longrightarrow> k \<notin> B \<Longrightarrow> k \<notin> A"
  by blast

lemma set_hub_ps: "''hub'' \<notin> fst ` set ps \<Longrightarrow> set_hub s ps = ps @ hub_ps s"
  using sp_set_new[of "''hub''" ps] by (cases "hubId s") (simp_all add: set_hub_def hub_ps_def)

lemma set_project_ps: "set_project s (hub_ps s) = hub_ps s @ proj_ps s"
proof (cases "project s")
  case None
  then show ?thesis by (simp add: set_project_def proj_ps_def)
next
  case (Some pr)
  have "''proj'' \<notin> fst ` set (hub_ps s)" by (rule not_in_keys[OF keys_ps(1)]) simp
  with Some show ?thesis by (simp add: set_project_def proj_ps_def)
qed

lemma add_folders_ps: "add_folders s ps = ps @ f_ps s"
  by (simp add: add_folders_def foldl_append_f f_ps_def)

lemma set_selected_ps:
  assumes k: "fst ` set ps \<subseteq> {''hub'', ''proj'', ''f''}"
  shows "set_selected s ps = ps @ sel_ps s"
proof (cases "selected s")
  case None
  then show ?thesis by (simp add: set_selected_def sel_ps_def)
next
  case (Some d)
  have "''sel'' \<notin> fst ` set ps" by (rule not_in_keys[OF k]) simp
  then have 1: "sp_set ''sel'' v ps = ps @ [(''sel'', v)]" for v by (rule sp_set_new)
  have "fst ` set (ps @ [(''sel'', v)]) \<subseteq> {''hub'', ''proj'', ''f'', ''sel''}" for v using k by auto
  then have "''dtab'' \<notin> fst ` set (ps @ [(''sel'', v)])" for v by (rule not_in_keys) simp
  then have 2: "sp_set ''dtab'' w (ps @ [(''sel'', v)]) = (ps @ [(''sel'', v)]) @ [(''dtab'', w)]" for v w
    by (rule sp_set_new)
  show ?thesis unfolding set_selected_def Some Let_def option.case 1 2
    by (simp add: sel_ps_def opt_ps_def Some)
qed

lemma set_tab_ps:
  assumes "fst ` set ps \<subseteq> {''hub'', ''proj'', ''f'', ''sel'', ''dtab''}"
  shows "set_tab s ps = ps @ tab_ps s"
proof -
  have "''ptab'' \<notin> fst ` set ps" by (rule not_in_keys[OF assms]) simp
  then have 1: "sp_set ''ptab'' v ps = ps @ [(''ptab'', v)]" for v by (rule sp_set_new)
  have k: "fst ` set (ps @ [(''ptab'', v)]) \<subseteq> {''hub'', ''proj'', ''f'', ''sel'', ''dtab'', ''ptab''}" for v
    using assms by auto
  have "''board'' \<notin> fst ` set (ps @ [(''ptab'', v)])" for v by (rule not_in_keys[OF k]) simp
  then have 2: "sp_set ''board'' w (ps @ [(''ptab'', v)]) = (ps @ [(''ptab'', v)]) @ [(''board'', w)]" for v w
    by (rule sp_set_new)
  have "''chan'' \<notin> fst ` set (ps @ [(''ptab'', v)])" for v by (rule not_in_keys[OF k]) simp
  then have 3: "sp_set ''chan'' w (ps @ [(''ptab'', v)]) = (ps @ [(''ptab'', v)]) @ [(''chan'', w)]" for v w
    by (rule sp_set_new)
  show ?thesis
    unfolding set_tab_def tab_ps_def opt_ps_def Let_def 1 2 3
    by (cases "projectTab s = Some ''whiteboards''"; cases "projectTab s = Some ''chat''")
      (simp_all add: 2 3)
qed

lemma nav_params_browser:
  assumes "app s = Browser"
  shows "nav_params s = hub_ps s @ proj_ps s @ f_ps s @ sel_ps s @ tab_ps s"
proof -
  have k: "fst ` set ((hub_ps s @ proj_ps s) @ f_ps s) \<subseteq> {''hub'', ''proj'', ''f''}"
    unfolding set_append image_Un by (intro Un_least; rule subset_trans, rule keys_ps, simp)
  have k': "fst ` set (((hub_ps s @ proj_ps s) @ f_ps s) @ sel_ps s) \<subseteq> {''hub'', ''proj'', ''f'', ''sel'', ''dtab''}"
    unfolding set_append image_Un by (intro Un_least; rule subset_trans, rule keys_ps, simp)
  show ?thesis
    by (simp only: nav_params_def assms app_param_def AppKind.case option.case
        set_hub_ps[of "[]", simplified] set_project_ps add_folders_ps set_selected_ps[OF k]
        set_tab_ps[OF k']) (simp only: append_assoc)
qed

lemma nav_params_screen:
  assumes "app_param (app s) = Some a"
  shows "nav_params s = (''app'', a) # hub_ps s"
  using assms by (simp add: nav_params_def set_hub_ps)

lemma sp_get_append: "sp_get (ps @ qs) k = (case sp_get ps k of None \<Rightarrow> sp_get qs k | Some v \<Rightarrow> Some v)"
  by (auto simp: sp_get_def map_add_def split: option.splits)

lemma sp_get_Cons: "sp_get ((k, v) # ps) k' = (if k = k' then Some v else sp_get ps k')"
  by (simp add: sp_get_def)

lemma sp_get_Nil [simp]: "sp_get [] k = None"
  by (simp add: sp_get_def)

lemma sp_getAll_append: "sp_getAll (ps @ qs) k = sp_getAll ps k @ sp_getAll qs k"
  by (simp add: sp_getAll_def)

lemma sp_get_hub_ps: "sp_get (hub_ps s) k =
    (if k = ''hub'' \<and> truthy (hubId s) then Some (enc [the (hubId s), nullish (hubName s) []]) else None)"
  by (auto simp: hub_ps_def sp_get_Cons)

lemma sp_get_proj_ps: "sp_get (proj_ps s) k =
    (if k = ''proj'' then map_option (\<lambda>p. enc [it_id p, it_name p]) (project s) else None)"
  by (auto simp: proj_ps_def sp_get_Cons split: option.splits)

lemma sp_get_f_ps: "k \<noteq> ''f'' \<Longrightarrow> sp_get (f_ps s) k = None"
  by (auto simp: sp_get_def f_ps_def map_of_eq_None_iff)

lemma sp_get_opt_ps: "sp_get (opt_ps k x) k' = (if k = k' then or_null x else None)"
  by (auto simp: opt_ps_def or_null_def sp_get_Cons) (cases x; simp)

lemma sp_get_sel_ps: "sp_get (sel_ps s) k = (case selected s of None \<Rightarrow> None
    | Some d \<Rightarrow> if k = ''sel'' then Some (enc [it_id d, it_name d, it_kind d])
                else if k = ''dtab'' then or_null (selectedTab s) else None)"
  by (auto simp: sel_ps_def sp_get_Cons sp_get_opt_ps split: option.splits)

lemma sp_get_tab_ps: "sp_get (tab_ps s) k =
    (if project s \<noteq> None \<and> selected s = None \<and> folderStack s = []
     then (if k = ''ptab'' then or_null (projectTab s)
           else if k = ''board'' \<and> projectTab s = Some ''whiteboards'' then or_null (boardId s)
           else if k = ''chan'' \<and> projectTab s = Some ''chat'' then or_null (channelId s) else None)
     else None)"
  by (auto simp: tab_ps_def sp_get_append sp_get_opt_ps split: option.splits)

lemmas sp_get_ps = sp_get_append sp_get_hub_ps sp_get_proj_ps sp_get_f_ps sp_get_sel_ps sp_get_tab_ps

lemma sp_getAll_none: "fst ` set ps \<subseteq> K \<Longrightarrow> k \<notin> K \<Longrightarrow> sp_getAll ps k = []"
  by (auto simp: sp_getAll_def filter_empty_conv)

lemma keys_tab_ps: "fst ` set (tab_ps s) \<subseteq> {''ptab'', ''board'', ''chan''}"
  by (auto simp: tab_ps_def opt_ps_def split: if_splits)

lemma sp_getAll_ps:
  "sp_getAll (hub_ps s) ''f'' = []" "sp_getAll (proj_ps s) ''f'' = []"
  "sp_getAll (sel_ps s) ''f'' = []" "sp_getAll (tab_ps s) ''f'' = []"
  "sp_getAll (f_ps s) ''f'' = map (\<lambda>f. enc [it_id f, it_name f]) (folderStack s)"
proof -
  show "sp_getAll (hub_ps s) ''f'' = []" by (rule sp_getAll_none[OF keys_ps(1)]) simp
  show "sp_getAll (proj_ps s) ''f'' = []" by (rule sp_getAll_none[OF keys_ps(2)]) simp
  show "sp_getAll (sel_ps s) ''f'' = []" by (rule sp_getAll_none[OF keys_ps(4)]) simp
  show "sp_getAll (tab_ps s) ''f'' = []" by (rule sp_getAll_none[OF keys_tab_ps]) simp
  show "sp_getAll (f_ps s) ''f'' = map (\<lambda>f. enc [it_id f, it_name f]) (folderStack s)"
    by (simp add: sp_getAll_def f_ps_def filter_map o_def)
qed

subsection \<open>Reading a permalink back\<close>

lemma nav_ok_hub: "nav_ok s \<Longrightarrow> hubId s = Some h \<Longrightarrow> part_ok h \<and> part_ok (nullish (hubName s) [])"
  by (cases "hubName s") (auto simp: nav_ok_def opt_ok_def part_ok_def)

lemma dec_enc2: "part_ok a \<Longrightarrow> part_ok b \<Longrightarrow> dec (enc [a, b]) = [a, b]"
  by (simp add: dec_enc)

lemma dec_enc3: "part_ok a \<Longrightarrow> part_ok b \<Longrightarrow> part_ok c \<Longrightarrow> dec (enc [a, b, c]) = [a, b, c]"
  by (simp add: dec_enc)

lemma parse_hub_ps:
  assumes "nav_ok s" "sp_get p ''hub'' = sp_get (hub_ps s) ''hub''"
  shows "or_null (fst (parse_hub p)) = or_null (hubId s)"
    "or_null (snd (parse_hub p)) = (if or_null (hubId s) = None then None else or_null (hubName s))"
proof -
  have "or_null (fst (parse_hub p)) = or_null (hubId s) \<and>
    or_null (snd (parse_hub p)) = (if or_null (hubId s) = None then None else or_null (hubName s))"
  proof (cases "truthy (hubId s)")
    case True
    then obtain h where h: "hubId s = Some h" "h \<noteq> []" by (cases "hubId s") auto
    then have "dec (enc [h, nullish (hubName s) []]) = [h, nullish (hubName s) []]"
      using nav_ok_hub[OF assms(1)] by (intro dec_enc2) auto
    then show ?thesis
      using h assms(2) by (cases "hubName s")
        (auto simp: parse_hub_def sp_get_hub_ps Let_def enc_Nil_iff)
  next
    case False
    with assms(2) show ?thesis by (cases "hubId s") (auto simp: parse_hub_def sp_get_hub_ps)
  qed
  then show "or_null (fst (parse_hub p)) = or_null (hubId s)"
    "or_null (snd (parse_hub p)) = (if or_null (hubId s) = None then None else or_null (hubName s))"
    by auto
qed

lemma parse_project_ps:
  assumes "nav_ok s" "sp_get p ''proj'' = sp_get (proj_ps s) ''proj''"
  shows "parse_project p = map_option (hint ''project'' True) (project s)"
proof (cases "project s")
  case None
  with assms(2) show ?thesis by (simp add: parse_project_def sp_get_proj_ps)
next
  case (Some pr)
  with assms(1) have ok: "item_ok pr" by (simp add: nav_ok_def)
  then have "dec (enc [it_id pr, it_name pr]) = [it_id pr, it_name pr]"
    by (intro dec_enc2) (auto simp: item_ok_def)
  with Some assms(2) ok show ?thesis
    by (simp add: parse_project_def sp_get_proj_ps enc_Nil_iff hint_def item_ok_def)
qed

lemma parse_selected_ps:
  assumes "nav_ok s" "sp_get p ''sel'' = sp_get (sel_ps s) ''sel''"
  shows "parse_selected p = map_option (\<lambda>d. hint (it_kind d) False d) (selected s)"
proof (cases "selected s")
  case None
  with assms(2) show ?thesis by (simp add: parse_selected_def sp_get_sel_ps)
next
  case (Some d)
  with assms(1) have ok: "item_ok d" by (simp add: nav_ok_def)
  then have "dec (enc [it_id d, it_name d, it_kind d]) = [it_id d, it_name d, it_kind d]"
    by (intro dec_enc3) (auto simp: item_ok_def)
  with Some assms(2) ok show ?thesis
    by (simp add: parse_selected_def sp_get_sel_ps enc_Nil_iff hint_def item_ok_def numeral_2_eq_2)
qed

lemma parse_folders_ps:
  assumes "nav_ok s" "sp_getAll p ''f'' = sp_getAll (f_ps s) ''f''"
  shows "parse_folders p = map (hint ''folder'' True) (folderStack s)"
proof -
  have ok: "\<forall>f \<in> set (folderStack s). item_ok f"
    using assms(1) by (simp add: nav_ok_def list_all_iff)
  have "(let d = dec (enc [it_id f, it_name f]) in
      mk_item (nullish (nth_part d 0) []) (nullish (nth_part d 1) []) ''folder'' True) =
      hint ''folder'' True f" if "f \<in> set (folderStack s)" for f
  proof -
    have "dec (enc [it_id f, it_name f]) = [it_id f, it_name f]"
      using ok that by (intro dec_enc2) (auto simp: item_ok_def)
    then show ?thesis by (simp add: hint_def Let_def)
  qed
  then have "map (\<lambda>raw. let d = dec raw in
      mk_item (nullish (nth_part d 0) []) (nullish (nth_part d 1) []) ''folder'' True)
      (map (\<lambda>f. enc [it_id f, it_name f]) (folderStack s)) = map (hint ''folder'' True) (folderStack s)"
    by simp
  moreover have "filter (\<lambda>f. it_id f \<noteq> []) (map (hint ''folder'' True) (folderStack s)) =
      map (hint ''folder'' True) (folderStack s)"
    using ok by (auto simp: filter_id_conv hint_def item_ok_def)
  ultimately show ?thesis
    unfolding parse_folders_def assms(2) sp_getAll_ps by (simp only:)
qed

lemma parse_nav_params:
  assumes "nav_ok s"
  shows "parse_nav (nav_params s) = permalink_view s"
proof (cases "app_param (app s)")
  case (Some a)
  note ps = nav_params_screen[OF Some]
  have a: "app s \<noteq> Browser" using Some by (auto simp: app_param_def)
  have "or_null (sp_get (nav_params s) ''app'') = Some a \<and> sp_get (nav_params s) ''app'' = Some a"
    using Some by (auto simp: ps sp_get_Cons app_param_def split: AppKind.splits)
  moreover have "parse_project (nav_params s) = None" "parse_selected (nav_params s) = None"
    by (simp_all add: parse_project_def parse_selected_def ps sp_get_Cons sp_get_hub_ps)
  moreover have "sp_getAll (nav_params s) ''f'' = []"
    using sp_getAll_ps(1)[of s] by (simp add: ps sp_getAll_def)
  moreover have "sp_get (nav_params s) ''hub'' = sp_get (hub_ps s) ''hub''"
    by (simp add: ps sp_get_Cons)
  ultimately show ?thesis
    using Some a parse_hub_ps[OF assms, of "nav_params s"]
    by (auto simp: parse_nav_def permalink_view_def Let_def initialState_def parse_folders_def
        app_param_def split: AppKind.splits)
next
  case None
  then have a: "app s = Browser" by (auto simp: app_param_def split: AppKind.splits)
  note ps = nav_params_browser[OF a]
  have g: "sp_get (nav_params s) ''app'' = None"
    "sp_get (nav_params s) ''hub'' = sp_get (hub_ps s) ''hub''"
    "sp_get (nav_params s) ''proj'' = sp_get (proj_ps s) ''proj''"
    "sp_get (nav_params s) ''sel'' = sp_get (sel_ps s) ''sel''"
    "sp_get (nav_params s) ''dtab'' = sp_get (sel_ps s) ''dtab''"
    "sp_get (nav_params s) ''ptab'' = sp_get (tab_ps s) ''ptab''"
    "sp_get (nav_params s) ''board'' = sp_get (tab_ps s) ''board''"
    "sp_get (nav_params s) ''chan'' = sp_get (tab_ps s) ''chan''"
    by (simp_all add: ps sp_get_ps split: option.splits)
  have f: "sp_getAll (nav_params s) ''f'' = sp_getAll (f_ps s) ''f''"
    by (simp add: ps sp_getAll_append sp_getAll_ps)
  show ?thesis
    unfolding parse_nav_def Let_def g(1,5-8) parse_hub_ps[OF assms g(2)]
      parse_project_ps[OF assms g(3)] parse_selected_ps[OF assms g(4)]
      parse_folders_ps[OF assms f]
    using a by (simp add: permalink_view_def Let_def sp_get_sel_ps sp_get_tab_ps
        or_null_def split: option.splits)
qed

lemma sp_valid_append [simp]: "sp_valid (ps @ qs) \<longleftrightarrow> sp_valid ps \<and> sp_valid qs"
  by (auto simp: sp_valid_def)

lemma sp_valid_opt_ps: "ascii k \<Longrightarrow> opt_ok utf8_valid x \<Longrightarrow> sp_valid (opt_ps k x)"
  by (cases x) (auto simp: opt_ps_def opt_ok_def)

lemma sp_valid_nav_params:
  assumes "nav_ok s"
  shows "sp_valid (nav_params s)"
proof -
  have lit: "ascii ''app''" "ascii ''hub''" "ascii ''proj''" "ascii ''f''" "ascii ''sel''"
    "ascii ''dtab''" "ascii ''ptab''" "ascii ''board''" "ascii ''chan''"
    "ascii ''tasks''" "ascii ''production''"
    by (simp_all add: ascii_def)
  have hub: "sp_valid (hub_ps s)" using lit by (simp add: hub_ps_def)
  have proj: "sp_valid (proj_ps s)" using lit by (simp add: proj_ps_def split: option.splits)
  have f: "sp_valid (f_ps s)" using lit by (auto simp: f_ps_def sp_valid_def)
  have opts: "opt_ok utf8_valid (selectedTab s)" "opt_ok utf8_valid (projectTab s)"
    "opt_ok utf8_valid (boardId s)" "opt_ok utf8_valid (channelId s)"
    using assms by (simp_all add: nav_ok_def)
  have sel: "sp_valid (sel_ps s)"
    using lit opts by (auto simp: sel_ps_def sp_valid_opt_ps split: option.splits)
  have tab: "sp_valid (tab_ps s)"
    using lit opts by (simp add: tab_ps_def sp_valid_opt_ps)
  show ?thesis
  proof (cases "app_param (app s)")
    case (Some a)
    then have "utf8_valid a" using lit by (auto simp: app_param_def split: AppKind.splits)
    with Some hub lit show ?thesis by (simp add: nav_params_screen)
  next
    case None
    then have "app s = Browser" by (auto simp: app_param_def split: AppKind.splits)
    with hub proj f sel tab show ?thesis by (simp add: nav_params_browser)
  qed
qed

lemma no_question_mark: "\<not> startsWith (sp_toString ps) ''?''"
proof
  assume "startsWith (sp_toString ps) ''?''"
  then have "CHR ''?'' \<in> set (sp_toString ps)" by (auto simp: startsWith_iff)
  then have "query_char (CHR ''?'')" by (rule query_char_toString)
  then show False by (simp add: query_char_def form_char_def is_alnum_def)
qed

lemma searchToNav_navToSearch: "sp_valid (nav_params s) \<Longrightarrow> searchToNav (navToSearch s) = parse_nav (nav_params s)"
  by (simp add: searchToNav_def navToSearch_def no_question_mark sp_parse_toString)

lemma searchToNav_question: "searchToNav (CHR ''?'' # navToSearch s) = searchToNav (navToSearch s)"
  by (simp add: searchToNav_def navToSearch_def no_question_mark)

lemma permalink_roundtrip_aux: "nav_ok s \<Longrightarrow> searchToNav (navToSearch s) = permalink_view s"
  by (simp add: searchToNav_navToSearch sp_valid_nav_params parse_nav_params)

text \<open>
  C2. A permalink reopens the place it was made at: reading back the search string of a state whose
  ids are non-empty and whose ids, names and kinds contain no tilde gives that state's
  \<open>permalink_view\<close> - the hub, and in the browser also the project, the whole folder path, the
  selected document with its tab, or the project tab with its board or channel. It does so with or
  without the leading question mark.
\<close>

theorem permalink_roundtrip:
  assumes "nav_ok s"
  shows "searchToNav (navToSearch s) = permalink_view s \<and>
    searchToNav (''?'' @ navToSearch s) = permalink_view s"
  using assms
  by (simp add: searchToNav_question permalink_roundtrip_aux)

definition sample_nav :: nav_state where
  "sample_nav = initialState
     \<lparr>hubId := Some ''b.1'', hubName := Some ''R&D hub'',
      project := Some (mk_item ''urn:p=1'' ''Fixture 50%'' ''project'' True),
      folderStack := [mk_item ''urn:f/1'' ''a b'' ''folder'' True],
      selected := Some (mk_item ''urn:d'' ''Part+1'' ''design'' False),
      selectedTab := Some ''history'', projectTab := Some ''chat''\<rparr>"

lemma permalink_roundtrip_witness:
  "searchToNav (navToSearch sample_nav) = sample_nav\<lparr>projectTab := None\<rparr>"
proof -
  have "nav_ok sample_nav"
    by (simp add: nav_ok_def sample_nav_def initialState_def opt_ok_def item_ok_def part_ok_def
        ascii_def SEP_def)
  then have "searchToNav (navToSearch sample_nav) = permalink_view sample_nav"
    by (rule permalink_roundtrip[THEN conjunct1])
  also have "\<dots> = sample_nav\<lparr>projectTab := None\<rparr>"
    by (simp add: permalink_view_def sample_nav_def initialState_def hint_def)
  finally show ?thesis .
qed

subsection \<open>Names with a tilde\<close>

text \<open>
  \<open>encodeURIComponent\<close> leaves the tilde alone, so a name that has one is taken apart at it.
\<close>

lemma encodeURIComponent_append [simp]:
  "encodeURIComponent (a @ b) = encodeURIComponent a @ encodeURIComponent b"
  by (simp add: encodeURIComponent_def)

lemma encodeURIComponent_SEP [simp]: "encodeURIComponent (SEP # s) = SEP # encodeURIComponent s"
  by (simp add: encodeURIComponent_def uri_unreserved_def SEP_def)

lemma enc_tilde_mid: "enc [i, a @ SEP # b, k] = enc [i, a, b, k]"
  by (simp add: enc_def)

text \<open>
  The tilde is not escaped by the encoding of a permalink's parts, so a selected document
  called \<open>a~b\<close> reopens as one called \<open>a\<close> whose kind is \<open>b\<close>.
\<close>

theorem permalink_tilde:
  assumes "app s = Browser" "selected s = Some d" "it_name d = a @ SEP # b"
    and "part_ok (it_id d)" "it_id d \<noteq> []" "part_ok a" "part_ok b" "part_ok (it_kind d)"
    and "sp_valid (nav_params s)"
  shows "selected (searchToNav (navToSearch s)) = Some (mk_item (it_id d) a b False)"
proof -
  have "sp_get (nav_params s) ''sel'' = Some (enc [it_id d, a, b, it_kind d])"
    by (simp add: nav_params_browser[OF assms(1)] sp_get_ps assms(2,3) enc_tilde_mid)
  moreover have "dec (enc [it_id d, a, b, it_kind d]) = [it_id d, a, b, it_kind d]"
    using assms by (intro dec_enc) auto
  ultimately have "parse_selected (nav_params s) = Some (mk_item (it_id d) a b False)"
    using assms(5) by (simp add: parse_selected_def enc_Nil_iff numeral_2_eq_2)
  then show ?thesis
    using assms(9) by (simp add: searchToNav_navToSearch parse_nav_def Let_def)
qed

lemma permalink_tilde_witness:
  "selected (searchToNav (navToSearch (initialState\<lparr>selected :=
     Some (mk_item ''urn:d'' (''Fit'' @ SEP # ''2'') ''design'' False)\<rparr>))) =
   Some (mk_item ''urn:d'' ''Fit'' ''2'' False)"
proof -
  let ?d = "mk_item ''urn:d'' (''Fit'' @ SEP # ''2'') ''design'' False"
  let ?s = "initialState\<lparr>selected := Some ?d\<rparr>"
  have "nav_params ?s = [(''sel'', enc [it_id ?d, it_name ?d, it_kind ?d])]"
    by (simp add: nav_params_browser initialState_def hub_ps_def proj_ps_def f_ps_def sel_ps_def
        tab_ps_def opt_ps_def)
  then have "sp_valid (nav_params ?s)" by (simp add: ascii_def[of "''sel''"])
  then show ?thesis
    using permalink_tilde[of ?s ?d "''Fit''" "''2''"]
    by (simp add: initialState_def part_ok_def ascii_def SEP_def)
qed

subsection \<open>History\<close>

text \<open>Where a state is, as far as the back button is concerned.\<close>

definition nav_place :: "nav_state \<Rightarrow> AppKind \<times> string option \<times> string option \<times> string list \<times> string option" where
  "nav_place s = (app s, hubId s, map_option it_id (project s), map it_id (folderStack s),
     map_option it_id (selected s))"

lemma ids_differ:
  "length xs = length ys \<Longrightarrow>
    list_ex (\<lambda>i. it_id (xs ! i) \<noteq> it_id (ys ! i)) [0..<length xs] \<longleftrightarrow> map it_id xs \<noteq> map it_id ys"
  unfolding list_ex_iff list_eq_iff_nth_eq[of "map it_id xs" "map it_id ys"] by (simp add: Bex_def)

text \<open>
  A new history entry is made exactly when the place changes: the app, the hub, the project,
  the folder path or the selected document. A tab, a name corrected by a backstop, or a board
  replaces the entry.
\<close>

theorem shouldPush_iff: "shouldPush prev next \<longleftrightarrow> nav_place prev \<noteq> nav_place next"
proof (cases "length (folderStack prev) = length (folderStack next)")
  case True
  show ?thesis unfolding shouldPush_def nav_place_def ids_differ[OF True] using True by simp
next
  case False
  then have "map it_id (folderStack prev) \<noteq> map it_id (folderStack next)"
    using map_eq_imp_length_eq by blast
  with False show ?thesis by (simp add: shouldPush_def nav_place_def)
qed

text \<open>The canonical form of a place: what a permalink carries has the same permalink.\<close>

lemma permalink_view_params:
  assumes "nav_ok s"
  shows "nav_params (permalink_view s) = nav_params s"
proof (cases "app_param (app s)")
  case (Some a)
  then have a: "app s \<noteq> Browser" by (auto simp: app_param_def)
  have "app (permalink_view s) = app s" using a by (simp add: permalink_view_def Let_def)
  moreover have "hub_ps (permalink_view s) = hub_ps s"
    using a by (cases "hubId s"; cases "hubName s")
      (auto simp: permalink_view_def Let_def hub_ps_def initialState_def)
  ultimately show ?thesis using Some by (simp add: nav_params_screen)
next
  case None
  then have a: "app s = Browser" by (auto simp: app_param_def split: AppKind.splits)
  have v: "app (permalink_view s) = Browser" using a by (simp add: permalink_view_def Let_def)
  have hub: "hub_ps (permalink_view s) = hub_ps s"
    using a by (cases "hubId s"; cases "hubName s")
      (auto simp: permalink_view_def Let_def hub_ps_def)
  have proj: "proj_ps (permalink_view s) = proj_ps s"
    using a by (cases "project s") (auto simp: permalink_view_def Let_def proj_ps_def hint_def)
  have f: "f_ps (permalink_view s) = f_ps s"
    using a by (simp add: permalink_view_def Let_def f_ps_def hint_def)
  have sel: "sel_ps (permalink_view s) = sel_ps s"
    using a by (cases "selected s"; cases "selectedTab s")
      (auto simp: permalink_view_def Let_def sel_ps_def hint_def opt_ps_def)
  have tab: "tab_ps (permalink_view s) = tab_ps s"
    using a by (cases "project s"; cases "projectTab s"; cases "boardId s"; cases "channelId s")
      (auto simp: permalink_view_def Let_def tab_ps_def opt_ps_def)
  show ?thesis by (simp add: nav_params_browser a v hub proj f sel tab)
qed

end
