(* ===== verification/Nav.thy ===== *)
theory Nav
  imports NavUrl
begin

section \<open>Navigation\<close>

text \<open>
  The reducer of \<open>state/nav.tsx\<close>, the two effects of \<open>NavProvider\<close> that keep it and the address bar
  in step, its two backstops, and the flows of \<open>state/goto.ts\<close> that build its actions. The browser's
  session history is a current entry between a back and a forward stack; an entry is a search
  string without its question mark (an empty one is the bare path).
\<close>

subsection \<open>The reducer\<close>

record project_app_selection =
  pas_boardId :: "string option"
  pas_channelId :: "string option"

datatype nav_action =
    Hydrate nav_state
  | PatchProject item
  | SetApp AppKind
  | SelectHub string string
  | SelectProject item
  | EnterFolder item
  | SelectItem item
  | ClearProject
  | GotoProjectRoot
  | GotoFolder int
  | Navigate item "item list" "item option" "string option"
  | OpenProjectApp item string "project_app_selection option"
  | SetProjectTab string
  | SelectBoard "string option"
  | SelectChannel "string option"

text \<open>\<open>xs.slice(0, e)\<close>: a negative end counts from the end of the array.\<close>

definition slice_to :: "int \<Rightarrow> 'a list \<Rightarrow> 'a list" where
  "slice_to e xs = take (nat (if e < 0 then max 0 (int (length xs) + e) else e)) xs"

definition project_id :: "nav_state \<Rightarrow> string option" where
  "project_id s = map_option it_id (project s)"

fun reducer :: "nav_state \<Rightarrow> nav_action \<Rightarrow> nav_state" where
  "reducer s (Hydrate t) = t"
| "reducer s (PatchProject p) =
     (if project s = None \<or> project_id s \<noteq> Some (it_id p) then s else s\<lparr>project := Some p\<rparr>)"
| "reducer s (SetApp a) = (if app s = a then s else s\<lparr>app := a\<rparr>)"
| "reducer s (SelectHub i n) =
     (if hubId s = Some i then s
      else initialState\<lparr>app := app s, hubId := Some i, hubName := Some n\<rparr>)"
| "reducer s (SelectProject p) =
     s\<lparr>project := Some p, folderStack := [], selected := None, selectedTab := None,
       boardId := None, channelId := None\<rparr>"
| "reducer s (EnterFolder f) =
     s\<lparr>folderStack := folderStack s @ [f], selected := None, selectedTab := None\<rparr>"
| "reducer s (SelectItem it) = s\<lparr>selected := Some it, selectedTab := None\<rparr>"
| "reducer s ClearProject =
     s\<lparr>project := None, folderStack := [], selected := None, selectedTab := None,
       boardId := None, channelId := None\<rparr>"
| "reducer s GotoProjectRoot = s\<lparr>folderStack := [], selected := None, selectedTab := None\<rparr>"
| "reducer s (GotoFolder i) =
     s\<lparr>folderStack := slice_to (i + 1) (folderStack s), selected := None, selectedTab := None\<rparr>"
| "reducer s (Navigate p fs sel tab) =
     (let crossed = (project_id s \<noteq> Some (it_id p)) in
      s\<lparr>app := Browser, project := Some p, folderStack := fs, selected := sel, selectedTab := tab,
        boardId := (if crossed then None else boardId s),
        channelId := (if crossed then None else channelId s)\<rparr>)"
| "reducer s (OpenProjectApp p tab sel) =
     s\<lparr>app := Browser, project := Some p, folderStack := [], selected := None, selectedTab := None,
       projectTab := Some tab,
       boardId := Option.bind sel pas_boardId, channelId := Option.bind sel pas_channelId\<rparr>"
| "reducer s (SetProjectTab tab) = (if projectTab s = Some tab then s else s\<lparr>projectTab := Some tab\<rparr>)"
| "reducer s (SelectBoard i) = (if boardId s = i then s else s\<lparr>boardId := i\<rparr>)"
| "reducer s (SelectChannel i) = (if channelId s = i then s else s\<lparr>channelId := i\<rparr>)"

definition currentFolderId :: "nav_state \<Rightarrow> string option" where
  "currentFolderId s = (if folderStack s = [] then None else Some (it_id (last (folderStack s))))"

subsection \<open>Actions of the other flows\<close>

definition location_project :: "location \<Rightarrow> item" where
  "location_project loc =
     (mk_item (loc_projectId loc) (loc_projectName loc) ''project'' True)\<lparr>it_altId := loc_projectAltId loc\<rparr>"

definition location_folders :: "location \<Rightarrow> item list" where
  "location_folders loc = map (\<lambda>f. mk_item (fr_id f) (fr_name f) ''folder'' True) (loc_folderPath loc)"

record goto_target =
  gt_itemId :: string
  gt_name :: string
  gt_kind :: string
  gt_componentVersionId :: "string option"

text \<open>\<open>useGoToDocument\<close>: nothing without a hub or an item id, else a jump once the location is known.\<close>

definition gotoDocument :: "nav_state \<Rightarrow> goto_target \<Rightarrow> string option \<Rightarrow> location \<Rightarrow> nav_action option" where
  "gotoDocument s t tab loc =
     (if \<not> truthy (hubId s) \<or> gt_itemId t = [] then None
      else Some (Navigate (location_project loc) (location_folders loc)
             (Some ((mk_item (gt_itemId t) (gt_name t) (gt_kind t) False)
                \<lparr>it_componentVersionId := gt_componentVersionId t\<rparr>)) tab))"

definition gotoWhiteboard :: "string \<Rightarrow> string \<Rightarrow> string \<Rightarrow> nav_action option" where
  "gotoWhiteboard projectId projectName board =
     (if projectId = [] \<or> board = [] then None
      else Some (OpenProjectApp (mk_item projectId projectName ''project'' True) ''whiteboards''
             (Some \<lparr>pas_boardId = Some board, pas_channelId = None\<rparr>)))"

definition gotoChannel :: "string \<Rightarrow> string \<Rightarrow> string \<Rightarrow> nav_action option" where
  "gotoChannel projectId projectName channel =
     (if projectId = [] \<or> channel = [] then None
      else Some (OpenProjectApp (mk_item projectId projectName ''project'' True) ''chat''
             (Some \<lparr>pas_boardId = None, pas_channelId = Some channel\<rparr>)))"

subsection \<open>Backstops\<close>

text \<open>
  When each backstop asks the server, and the action its answer dispatches. The state the first one
  read when it asked supplies the selection and the tab.
\<close>

definition backstopA_asks :: "nav_state \<Rightarrow> string option \<Rightarrow> bool" where
  "backstopA_asks s reconciled =
     (truthy (hubId s) \<and> truthy (map_option it_id (selected s)) \<and>
      \<not> truthy (Option.bind (project s) it_altId) \<and>
      reconciled \<noteq> map_option it_id (selected s))"

definition backstopA_action :: "nav_state \<Rightarrow> location \<Rightarrow> nav_action" where
  "backstopA_action asked loc =
     Navigate (location_project loc) (location_folders loc) (selected asked) (selectedTab asked)"

definition backstopB_asks :: "nav_state \<Rightarrow> bool" where
  "backstopB_asks s =
     (truthy (hubId s) \<and> truthy (project_id s) \<and>
      \<not> truthy (Option.bind (project s) it_altId) \<and> \<not> truthy (map_option it_id (selected s)))"

definition backstopB_action :: "nav_state \<Rightarrow> item list \<Rightarrow> nav_action option" where
  "backstopB_action asked ps =
     (case List.find (\<lambda>pr. Some (it_id pr) = project_id asked) ps of
        None \<Rightarrow> None
      | Some full \<Rightarrow> if truthy (it_altId full) then Some (PatchProject full) else None)"

subsection \<open>The browser's history\<close>

record browser =
  br_back :: "string list"
  br_cur :: string
  br_fwd :: "string list"

definition pushState :: "string \<Rightarrow> browser \<Rightarrow> browser" where
  "pushState url b = \<lparr>br_back = br_cur b # br_back b, br_cur = url, br_fwd = []\<rparr>"

definition replaceState :: "string \<Rightarrow> browser \<Rightarrow> browser" where
  "replaceState url b = b\<lparr>br_cur := url\<rparr>"

fun go_back :: "browser \<Rightarrow> browser option" where
  "go_back b = (case br_back b of [] \<Rightarrow> None
     | u # us \<Rightarrow> Some \<lparr>br_back = us, br_cur = u, br_fwd = br_cur b # br_fwd b\<rparr>)"

fun go_forward :: "browser \<Rightarrow> browser option" where
  "go_forward b = (case br_fwd b of [] \<Rightarrow> None
     | u # us \<Rightarrow> Some \<lparr>br_back = br_cur b # br_back b, br_cur = u, br_fwd = us\<rparr>)"

record nav_env =
  ne_state :: nav_state
  ne_prev :: nav_state
  ne_browser :: browser

text \<open>The effect that runs after every render whose state changed.\<close>

definition sync_url :: "nav_env \<Rightarrow> nav_env" where
  "sync_url e =
     (let search = navToSearch (ne_state e);
          b = (if search \<noteq> br_cur (ne_browser e)
               then (if shouldPush (ne_prev e) (ne_state e)
                     then pushState search (ne_browser e) else replaceState search (ne_browser e))
               else ne_browser e)
      in e\<lparr>ne_browser := b, ne_prev := ne_state e\<rparr>)"

definition dispatch :: "nav_action \<Rightarrow> nav_env \<Rightarrow> nav_env" where
  "dispatch a e = sync_url (e\<lparr>ne_state := reducer (ne_state e) a\<rparr>)"

text \<open>The listener for back and forward: it reads the entry the browser moved to.\<close>

definition on_pop :: "browser \<Rightarrow> nav_env \<Rightarrow> nav_env" where
  "on_pop b e =
     (let next = searchToNav (br_cur b)
      in sync_url (e\<lparr>ne_browser := b, ne_prev := next, ne_state := reducer (ne_state e) (Hydrate next)\<rparr>))"

definition nav_start :: "browser \<Rightarrow> nav_env" where
  "nav_start b =
     (let s = searchToNav (br_cur b) in sync_url \<lparr>ne_state = s, ne_prev = s, ne_browser = b\<rparr>)"

inductive nav_step :: "nav_env \<Rightarrow> nav_env \<Rightarrow> bool" where
  act: "nav_step e (dispatch a e)"
| pop_back: "go_back (ne_browser e) = Some b \<Longrightarrow> nav_step e (on_pop b e)"
| pop_forward: "go_forward (ne_browser e) = Some b \<Longrightarrow> nav_step e (on_pop b e)"

inductive_cases nav_stepE: "nav_step e e'"

inductive nav_reach :: "nav_env \<Rightarrow> bool" where
  start: "nav_reach (nav_start b)"
| step: "nav_reach e \<Longrightarrow> nav_step e e' \<Longrightarrow> nav_reach e'"

subsection \<open>The address bar follows the state\<close>

lemma sync_url_state [simp]: "ne_state (sync_url e) = ne_state e"
  by (simp add: sync_url_def Let_def)

lemma sync_url_cur [simp]: "br_cur (ne_browser (sync_url e)) = navToSearch (ne_state e)"
  by (simp add: sync_url_def Let_def pushState_def replaceState_def)

lemma sync_url_prev [simp]: "ne_prev (sync_url e) = ne_state e"
  by (simp add: sync_url_def Let_def)

lemma sync_url_idle:
  "br_cur (ne_browser e) = navToSearch (ne_state e) \<Longrightarrow> ne_browser (sync_url e) = ne_browser e"
  by (simp add: sync_url_def Let_def)



text \<open>
  Going back never disturbs the history: when the entry behind was written for a state a
  permalink can carry, going back only moves the browser (nothing is pushed or replaced), the state
  is the part of the old one that a permalink carries, and going forward then returns to the entry
  it came from with both stacks as they were.
\<close>

theorem back_is_clean:
  assumes "go_back (ne_browser e) = Some b" "br_cur b = navToSearch s" "nav_ok s"
  shows "ne_browser (on_pop b e) = b \<and> ne_state (on_pop b e) = permalink_view s \<and>
    go_forward (ne_browser (on_pop b e)) = Some (ne_browser e)"
proof -
  have st: "searchToNav (br_cur b) = permalink_view s"
    using assms(2) permalink_roundtrip_aux[OF assms(3)] by simp
  have idle: "ne_browser (on_pop b e) = b"
    unfolding on_pop_def Let_def st
    by (subst sync_url_idle) (simp_all add: assms(2) navToSearch_def permalink_view_params[OF assms(3)])
  moreover have "ne_state (on_pop b e) = permalink_view s"
    by (simp add: on_pop_def Let_def st)
  moreover have "go_forward b = Some (ne_browser e)"
    using assms(1) by (cases "ne_browser e") (auto split: list.splits)
  ultimately show ?thesis by simp
qed

lemma back_is_clean_witness:
  "let s1 = initialState\<lparr>app := TasksApp\<rparr>; s2 = initialState\<lparr>app := ProductionApp\<rparr>;
       b = \<lparr>br_back = [navToSearch s1], br_cur = navToSearch s2, br_fwd = []\<rparr>;
       e = \<lparr>ne_state = s2, ne_prev = s2, ne_browser = b\<rparr>;
       b' = \<lparr>br_back = [], br_cur = navToSearch s1, br_fwd = [navToSearch s2]\<rparr>
   in ne_browser (on_pop b' e) = b' \<and> go_forward (ne_browser (on_pop b' e)) = Some b"
proof -
  let ?s1 = "initialState\<lparr>app := TasksApp\<rparr>" and ?s2 = "initialState\<lparr>app := ProductionApp\<rparr>"
  let ?e = "\<lparr>ne_state = ?s2, ne_prev = ?s2,
      ne_browser = \<lparr>br_back = [navToSearch ?s1], br_cur = navToSearch ?s2, br_fwd = []\<rparr>\<rparr>"
  let ?b' = "\<lparr>br_back = [], br_cur = navToSearch ?s1, br_fwd = [navToSearch ?s2]\<rparr>"
  have "nav_ok ?s1" by (simp add: nav_ok_def initialState_def opt_ok_def)
  then show ?thesis using back_is_clean[of ?e ?b' ?s1] by (simp add: Let_def)
qed

subsection \<open>A board or channel belongs to the project on screen\<close>

text \<open>
  Board and channel ids are numbered per project, so one that outlived its project would silently
  name another project's record. The specification tracks, beside the state, the project each of
  the two was selected in.
\<close>

record owners =
  own_board :: "string option"
  own_channel :: "string option"

fun own_step :: "nav_state \<Rightarrow> owners \<Rightarrow> nav_action \<Rightarrow> owners" where
  "own_step s w (Hydrate t) = \<lparr>own_board = project_id t, own_channel = project_id t\<rparr>"
| "own_step s w (OpenProjectApp p tab sel) =
     \<lparr>own_board = Some (it_id p), own_channel = Some (it_id p)\<rparr>"
| "own_step s w (SelectBoard i) = w\<lparr>own_board := project_id s\<rparr>"
| "own_step s w (SelectChannel i) = w\<lparr>own_channel := project_id s\<rparr>"
| "own_step s w _ = w"

fun run_owned :: "nav_action list \<Rightarrow> nav_state \<times> owners \<Rightarrow> nav_state \<times> owners" where
  "run_owned [] sw = sw"
| "run_owned (a # as) (s, w) = run_owned as (reducer s a, own_step s w a)"

definition owned :: "nav_state \<times> owners \<Rightarrow> bool" where
  "owned sw = (case sw of (s, w) \<Rightarrow>
     (boardId s = None \<or> own_board w = project_id s) \<and>
     (channelId s = None \<or> own_channel w = project_id s))"

lemma owned_step: "owned (s, w) \<Longrightarrow> owned (reducer s a, own_step s w a)"
  by (cases a) (auto simp: owned_def project_id_def initialState_def Let_def split: if_splits)

lemma owned_run: "owned sw \<Longrightarrow> owned (run_owned as sw)"
proof (induction as arbitrary: sw)
  case Nil
  then show ?case by simp
next
  case (Cons a as)
  then show ?case by (cases sw) (simp add: owned_step)
qed

text \<open>
  Through any sequence of actions, a selected board (or channel) was selected in the project
  that is on screen: no action carries one into another project.
\<close>

theorem sub_selection_owned:
  "owned (run_owned as (s, \<lparr>own_board = project_id s, own_channel = project_id s\<rparr>))"
  by (rule owned_run) (simp add: owned_def)

text \<open>Stepping into a document of the same project and back keeps the board.\<close>

lemma navigate_same_project:
  "project_id s = Some (it_id p) \<Longrightarrow> boardId (reducer s (Navigate p fs sel tab)) = boardId s"
  by (simp add: Let_def)

subsection \<open>Folders\<close>

text \<open>
  The breadcrumb and the drill-down agree: after entering folders one by one, going to the
  breadcrumb at position \<open>i\<close> shows exactly the folder that was on screen when it was the last one
  entered, with nothing selected.
\<close>

theorem breadcrumb_returns:
  assumes "i < length fs"
  shows "reducer (foldl reducer s (map EnterFolder fs)) (GotoFolder (int (length (folderStack s) + i)))
    = foldl reducer s (map EnterFolder (take (Suc i) fs))"
proof -
  have enter: "foldl reducer s (map EnterFolder gs) =
      s\<lparr>folderStack := folderStack s @ gs, selected := None, selectedTab := None\<rparr>" if "gs \<noteq> []" for gs
    using that
  proof (induction gs rule: rev_induct)
    case Nil
    then show ?case by simp
  next
    case (snoc g gs)
    then show ?case by (cases "gs = []") auto
  qed
  have "slice_to (int (length (folderStack s) + i) + 1) (folderStack s @ fs) =
      folderStack s @ take (Suc i) fs"
    by (simp add: slice_to_def nat_add_distrib nat_int_add)
  then show ?thesis using assms by (subst (1 2) enter) auto
qed

lemma breadcrumb_returns_witness:
  "folderStack (reducer (foldl reducer initialState
     (map EnterFolder [mk_item ''a'' ''A'' ''folder'' True, mk_item ''b'' ''B'' ''folder'' True]))
     (GotoFolder 0)) = [mk_item ''a'' ''A'' ''folder'' True]"
  using breadcrumb_returns[of 0 "[mk_item ''a'' ''A'' ''folder'' True, mk_item ''b'' ''B'' ''folder'' True]"
      initialState]
  by (simp add: initialState_def)

subsection \<open>The backstops\<close>

text \<open>
  The first backstop keeps the document and its tab and fills in where it is; the second changes
  the project's details only.
\<close>

lemma backstopA_effect:
  "selected (reducer s (backstopA_action asked loc)) = selected asked"
  "selectedTab (reducer s (backstopA_action asked loc)) = selectedTab asked"
  "project_id (reducer s (backstopA_action asked loc)) = Some (loc_projectId loc)"
  by (simp_all add: backstopA_action_def Let_def project_id_def location_project_def)

lemma backstopB_effect:
  assumes "backstopB_action asked ps = Some a"
  shows "nav_place (reducer s a) = nav_place s"
  using assms
  by (auto simp: backstopB_action_def nav_place_def project_id_def split: option.splits if_splits)

text \<open>
  The answer of the first backstop puts the browser on screen even when the user went to a
  cross-project screen while the request was under way: opening such a screen changes neither the
  hub, the selection nor the project, so the request is not cancelled.
\<close>

theorem backstop_leaves_screen:
  assumes "backstopA_asks s r"
  shows "app (reducer (reducer s (SetApp a)) (backstopA_action s loc)) = Browser \<and>
    backstopA_asks (reducer s (SetApp a)) r"
  using assms by (simp add: backstopA_action_def backstopA_asks_def Let_def)

definition cold_state :: nav_state where
  "cold_state = initialState\<lparr>hubId := Some ''h'', selected := Some (mk_item ''d'' ''D'' ''design'' False)\<rparr>"

lemma backstop_leaves_screen_witness:
  "app (reducer (reducer cold_state (SetApp TasksApp)) (backstopA_action cold_state
     \<lparr>loc_hubId = ''h'', loc_projectId = ''p'', loc_projectAltId = Some ''a'', loc_projectName = ''P'',
      loc_folderPath = []\<rparr>)) = Browser"
proof -
  have "backstopA_asks cold_state None"
    by (simp add: backstopA_asks_def cold_state_def initialState_def)
  from backstop_leaves_screen[OF this] show ?thesis by blast
qed

end
