(* ===== verification/WbProtocol.thy ===== *)
theory WbProtocol
  imports JsPrelude "HOL-Library.AList"
begin

section \<open>Whiteboard patches\<close>

text \<open>
  \<open>whiteboards/sync/protocol.ts\<close>: the wire form of a change, the squashing of a queue of changes,
  and the two functions that order the frames of a board's stream. A JavaScript object keyed by
  record ids is an association list without duplicate keys; a record is opaque (\<open>'v\<close>).
\<close>

subsection \<open>Types\<close>

record 'v wire_patch =
  wp_put :: "(string \<times> 'v) list"
  wp_remove :: "string list"

record 'v records_diff =
  rd_added :: "(string \<times> 'v) list"
  rd_updated :: "(string \<times> 'v \<times> 'v) list"
  rd_removed :: "(string \<times> 'v) list"

record 'v patch_frame =
  pf_rev :: int
  pf_clientId :: string
  pf_patch :: "'v wire_patch"

datatype frame_action = Skip | Apply | Resync

subsection \<open>Operations\<close>

definition emptyPatch :: "'v wire_patch" where
  "emptyPatch = \<lparr>wp_put = [], wp_remove = []\<rparr>"

definition isEmptyPatch :: "'v wire_patch \<Rightarrow> bool" where
  "isEmptyPatch p = (length (wp_put p) = 0 \<and> length (wp_remove p) = 0)"

definition put_rec :: "'v wire_patch \<Rightarrow> string \<times> 'v \<Rightarrow> 'v wire_patch" where
  "put_rec out e = out\<lparr>wp_put := AList.update (fst e) (snd e) (wp_put out)\<rparr>"

definition diffToPatch :: "'v records_diff \<Rightarrow> 'v wire_patch" where
  "diffToPatch d =
     (let out = foldl put_rec emptyPatch (rd_added d);
          out = foldl (\<lambda>out (i, pair). put_rec out (i, snd pair)) out (rd_updated d)
      in foldl (\<lambda>out i. out\<lparr>wp_remove := wp_remove out @ [i]\<rparr>) out (map fst (rd_removed d)))"

text \<open>The two accumulators of \<open>squash\<close>: the object \<open>out.put\<close> and the insertion-ordered set \<open>removed\<close>.\<close>

definition set_add :: "'a \<Rightarrow> 'a list \<Rightarrow> 'a list" where
  "set_add x xs = (if x \<in> set xs then xs else xs @ [x])"

definition squash_put :: "(string \<times> 'v) list \<times> string list \<Rightarrow> string \<times> 'v \<Rightarrow> (string \<times> 'v) list \<times> string list" where
  "squash_put acc e = (AList.update (fst e) (snd e) (fst acc), removeAll (fst e) (snd acc))"

definition squash_remove :: "(string \<times> 'v) list \<times> string list \<Rightarrow> string \<Rightarrow> (string \<times> 'v) list \<times> string list" where
  "squash_remove acc i = (AList.delete i (fst acc), set_add i (snd acc))"

definition squash_one :: "(string \<times> 'v) list \<times> string list \<Rightarrow> 'v wire_patch \<Rightarrow> (string \<times> 'v) list \<times> string list" where
  "squash_one acc p = foldl squash_remove (foldl squash_put acc (wp_put p)) (wp_remove p)"

definition squash :: "'v wire_patch list \<Rightarrow> 'v wire_patch" where
  "squash patches =
     (let acc = foldl squash_one ([], []) patches in \<lparr>wp_put = fst acc, wp_remove = snd acc\<rparr>)"

definition classifyFrame :: "int \<Rightarrow> string \<Rightarrow> int \<Rightarrow> string \<Rightarrow> frame_action" where
  "classifyFrame frev clientId appliedRev myClientId =
     (if frev \<le> appliedRev then Skip
      else if frev > appliedRev + 1 then Resync
      else if clientId = myClientId then Skip
      else Apply)"

definition nextRev :: "frame_action \<Rightarrow> int \<Rightarrow> int \<Rightarrow> int" where
  "nextRev action frev appliedRev = (if action = Resync then appliedRev else max appliedRev frev)"

subsection \<open>What a patch does to a document\<close>

text \<open>
  The document a store holds is a map from record ids to records. Applying a patch writes the puts
  and then takes the removed records out, in the order \<open>onFrame\<close> does.
\<close>

type_synonym 'v doc = "string \<Rightarrow> 'v option"

definition apply_patch :: "'v doc \<Rightarrow> 'v wire_patch \<Rightarrow> 'v doc" where
  "apply_patch d p = (d ++ map_of (rev (wp_put p))) |` (- set (wp_remove p))"

lemma apply_patch_lookup:
  "apply_patch d p k =
     (if k \<in> set (wp_remove p) then None
      else case map_of (rev (wp_put p)) k of Some v \<Rightarrow> Some v | None \<Rightarrow> d k)"
  by (simp add: apply_patch_def restrict_map_def map_add_def)

subsection \<open>Squashing a queue is applying it in order\<close>

definition acc_patch :: "(string \<times> 'v) list \<times> string list \<Rightarrow> 'v wire_patch" where
  "acc_patch acc = \<lparr>wp_put = fst acc, wp_remove = snd acc\<rparr>"

definition acc_ok :: "(string \<times> 'v) list \<times> string list \<Rightarrow> bool" where
  "acc_ok acc \<longleftrightarrow> distinct (map fst (fst acc)) \<and> distinct (snd acc) \<and>
     dom (map_of (fst acc)) \<inter> set (snd acc) = {}"

lemma acc_lookup:
  "acc_ok acc \<Longrightarrow> apply_patch d (acc_patch acc) k =
     (if k \<in> set (snd acc) then None
      else case map_of (fst acc) k of Some v \<Rightarrow> Some v | None \<Rightarrow> d k)"
  by (simp add: apply_patch_lookup acc_patch_def acc_ok_def map_of_rev_distinct)

lemma acc_ok_put: "acc_ok acc \<Longrightarrow> acc_ok (squash_put acc e)"
  by (auto simp: acc_ok_def squash_put_def distinct_update distinct_removeAll update_conv' split: if_splits)

lemma acc_ok_remove: "acc_ok acc \<Longrightarrow> acc_ok (squash_remove acc i)"
  by (auto simp: acc_ok_def squash_remove_def set_add_def distinct_delete delete_conv' split: if_splits)

lemma apply_squash_put:
  assumes "acc_ok acc"
  shows "apply_patch d (acc_patch (squash_put acc e)) = (apply_patch d (acc_patch acc))(fst e \<mapsto> snd e)"
proof
  fix k
  show "apply_patch d (acc_patch (squash_put acc e)) k = ((apply_patch d (acc_patch acc))(fst e \<mapsto> snd e)) k"
    using assms acc_ok_put[OF assms, of e]
    by (simp add: acc_lookup) (simp add: squash_put_def update_conv')
qed

lemma apply_squash_remove:
  assumes "acc_ok acc"
  shows "apply_patch d (acc_patch (squash_remove acc i)) = (apply_patch d (acc_patch acc))(i := None)"
proof
  fix k
  show "apply_patch d (acc_patch (squash_remove acc i)) k = ((apply_patch d (acc_patch acc))(i := None)) k"
    using assms acc_ok_remove[OF assms, of i]
    by (simp add: acc_lookup) (auto simp: squash_remove_def set_add_def delete_conv')
qed

lemma foldl_put:
  "acc_ok acc \<Longrightarrow> acc_ok (foldl squash_put acc es) \<and>
    apply_patch d (acc_patch (foldl squash_put acc es)) =
      apply_patch d (acc_patch acc) ++ map_of (rev es)"
  by (induction es arbitrary: acc) (simp_all add: acc_ok_put apply_squash_put map_add_assoc[symmetric] map_add_upd_left)

lemma foldl_remove:
  "acc_ok acc \<Longrightarrow> acc_ok (foldl squash_remove acc is) \<and>
    apply_patch d (acc_patch (foldl squash_remove acc is)) =
      apply_patch d (acc_patch acc) |` (- set is)"
proof (induction "is" arbitrary: acc)
  case Nil
  then show ?case by (simp add: restrict_map_def)
next
  case (Cons i "is")
  then show ?case
    by (auto simp: acc_ok_remove apply_squash_remove restrict_map_def fun_eq_iff)
qed

lemma squash_one_ok:
  "acc_ok acc \<Longrightarrow> acc_ok (squash_one acc p) \<and>
    apply_patch d (acc_patch (squash_one acc p)) = apply_patch (apply_patch d (acc_patch acc)) p"
  using foldl_put[of acc "wp_put p" d]
    foldl_remove[of "foldl squash_put acc (wp_put p)" "wp_remove p" d]
  by (simp add: squash_one_def apply_patch_def)

lemma squash_acc:
  "acc_ok acc \<Longrightarrow> acc_ok (foldl squash_one acc ps) \<and>
    apply_patch d (acc_patch (foldl squash_one acc ps)) = foldl apply_patch (apply_patch d (acc_patch acc)) ps"
  by (induction ps arbitrary: acc) (simp_all add: squash_one_ok)

lemma squash_ok: "distinct (map fst (wp_put (squash ps))) \<and> distinct (wp_remove (squash ps)) \<and>
    dom (map_of (wp_put (squash ps))) \<inter> set (wp_remove (squash ps)) = {}"
  using squash_acc[of "([], [])" ps] by (simp add: squash_def acc_ok_def Let_def)

lemma apply_squash: "apply_patch d (squash ps) = foldl apply_patch d ps"
proof -
  have "apply_patch d (acc_patch ([], [])) = d"
    by (simp add: apply_patch_def acc_patch_def restrict_map_def)
  then show ?thesis
    using squash_acc[of "([], [])" ps d] by (simp add: squash_def acc_patch_def acc_ok_def Let_def)
qed

text \<open>
  C6. Sending a queue of changes as one request is sending them one after the other: the squashed
  patch does to any document what the queued patches do in order, it names each record once, and it
  never both writes and removes a record (so the server, which removes before it writes, agrees).
\<close>

theorem squash_sequential:
  "apply_patch d (squash ps) = foldl apply_patch d ps \<and>
    distinct (map fst (wp_put (squash ps)) @ wp_remove (squash ps))"
  using apply_squash[of d ps] squash_ok[of ps] by (auto simp: dom_map_of_conv_image_fst)

subsection \<open>Folding a store change\<close>

text \<open>The change from one document to another, as the editor's store reports it.\<close>

definition is_diff :: "'v doc \<Rightarrow> 'v doc \<Rightarrow> 'v records_diff \<Rightarrow> bool" where
  "is_diff s t d \<longleftrightarrow>
     distinct (map fst (rd_added d) @ map fst (rd_updated d) @ map fst (rd_removed d)) \<and>
     (\<forall>(i, v) \<in> set (rd_added d). s i = None \<and> t i = Some v) \<and>
     (\<forall>(i, a, b) \<in> set (rd_updated d). s i = Some a \<and> t i = Some b) \<and>
     (\<forall>(i, v) \<in> set (rd_removed d). s i = Some v \<and> t i = None) \<and>
     (\<forall>i. i \<notin> fst ` set (rd_added d) \<union> fst ` set (rd_updated d) \<union> fst ` set (rd_removed d) \<longrightarrow> s i = t i)"

lemma foldl_put_rec: "foldl put_rec out es = out\<lparr>wp_put := foldl (\<lambda>al e. AList.update (fst e) (snd e) al) (wp_put out) es\<rparr>"
  by (induction es arbitrary: out) (simp_all add: put_rec_def)

lemma foldl_put_rec_upd: "foldl (\<lambda>out (i, pair). put_rec out (i, snd pair)) out es =
    foldl put_rec out (map (\<lambda>e. (fst e, snd (snd e))) es)"
  by (induction es arbitrary: out) (auto simp: put_rec_def split: prod.splits)

lemma foldl_snoc_remove: "foldl (\<lambda>out i. out\<lparr>wp_remove := wp_remove out @ [i]\<rparr>) out is =
    out\<lparr>wp_remove := wp_remove out @ is\<rparr>"
  by (induction "is" arbitrary: out) simp_all

lemma foldl_update_new:
  "distinct (map fst es) \<Longrightarrow> fst ` set es \<inter> fst ` set al = {} \<Longrightarrow>
    foldl (\<lambda>al e. AList.update (fst e) (snd e) al) al es = al @ es"
proof (induction es arbitrary: al)
  case Nil
  then show ?case by simp
next
  case (Cons e es)
  have "AList.update (fst e) (snd e) al = al @ [e]"
    using Cons.prems(2) by (induction al) auto
  with Cons show ?case by (auto simp: image_iff)
qed

lemma diffToPatch_parts:
  assumes "distinct (map fst (rd_added d) @ map fst (rd_updated d))"
  shows "wp_put (diffToPatch d) = rd_added d @ map (\<lambda>e. (fst e, snd (snd e))) (rd_updated d)"
    "wp_remove (diffToPatch d) = map fst (rd_removed d)"
proof -
  let ?u = "map (\<lambda>e. (fst e, snd (snd e))) (rd_updated d)"
  have fstu: "map fst ?u = map fst (rd_updated d)" by simp
  have "foldl (\<lambda>al e. AList.update (fst e) (snd e) al) (rd_added d) ?u = rd_added d @ ?u"
    using assms by (intro foldl_update_new) (auto simp: o_def image_image)
  moreover have "foldl (\<lambda>al e. AList.update (fst e) (snd e) al) [] (rd_added d) = rd_added d"
    using assms foldl_update_new[of "rd_added d" "[]"] by simp
  ultimately show "wp_put (diffToPatch d) = rd_added d @ ?u"
    "wp_remove (diffToPatch d) = map fst (rd_removed d)"
    by (simp_all add: diffToPatch_def Let_def foldl_put_rec foldl_put_rec_upd foldl_snoc_remove
        emptyPatch_def)
qed

lemma diffToPatch_correct:
  assumes "is_diff s t d"
  shows "apply_patch s (diffToPatch d) = t"
proof
  fix k
  let ?u = "map (\<lambda>e. (fst e, snd (snd e))) (rd_updated d)"
  have dist: "distinct (map fst (rd_added d) @ map fst (rd_updated d))"
    using assms by (auto simp: is_diff_def)
  note parts = diffToPatch_parts[OF dist]
  have fstu: "map fst ?u = map fst (rd_updated d)" by simp
  have "distinct (map fst (rd_added d @ ?u))" using dist fstu by (simp add: o_def)
  then have put: "map_of (rev (wp_put (diffToPatch d))) = map_of (rd_added d @ ?u)"
    unfolding parts by (rule map_of_rev_distinct)
  have lk: "apply_patch s (diffToPatch d) k =
      (if k \<in> fst ` set (rd_removed d) then None
       else case map_of (rd_added d @ ?u) k of Some v \<Rightarrow> Some v | None \<Rightarrow> s k)"
    by (simp only: apply_patch_lookup put parts(2) set_map)
  show "apply_patch s (diffToPatch d) k = t k"
  proof (cases "k \<in> fst ` set (rd_removed d)")
    case True
    then have "t k = None" using assms by (auto simp: is_diff_def)
    with True show ?thesis by (simp only: lk if_True)
  next
    case notrem: False
    show ?thesis
    proof (cases "map_of (rd_added d @ ?u) k")
      case None
      then have "k \<notin> fst ` set (rd_added d) \<union> fst ` set (rd_updated d)"
        by (force simp: map_of_eq_None_iff)
      with notrem assms have "s k = t k" by (auto simp: is_diff_def)
      with notrem show ?thesis by (simp only: lk None if_False option.case)
    next
      case (Some v)
      then have "(k, v) \<in> set (rd_added d @ ?u)" by (rule map_of_SomeD)
      then have "t k = Some v" using assms by (auto simp: is_diff_def)
      with notrem show ?thesis by (simp only: lk Some if_False option.case)
    qed
  qed
qed

text \<open>
  C7. What the client sends for a change of its store turns the document before the change into
  the document after it.
\<close>

theorem diffToPatch_faithful:
  assumes "is_diff s t d"
  shows "apply_patch s (diffToPatch d) = t"
  using assms by (rule diffToPatch_correct)

definition sample_diff :: "int records_diff" where
  "sample_diff = \<lparr>rd_added = [(''shape:a'', 1)], rd_updated = [(''shape:b'', 2, 3)], rd_removed = [(''shape:c'', 4)]\<rparr>"

lemma diffToPatch_faithful_witness:
  "apply_patch [''shape:b'' \<mapsto> 2, ''shape:c'' \<mapsto> 4] (diffToPatch sample_diff) =
    [''shape:a'' \<mapsto> 1, ''shape:b'' \<mapsto> 3]"
  by (rule diffToPatch_faithful) (auto simp: is_diff_def sample_diff_def)

end
