(* ===== verification/WbRoom.thy ===== *)
theory WbRoom
  imports WbProtocol
begin

section \<open>The server's board room\<close>

text \<open>
  The authority the clients of a board synchronise with: \<open>Room.apply\<close>, \<open>Room.replace\<close> and the checks
  of a submission (\<open>whiteboards/room.go\<close>, \<open>whiteboards/patch.go\<close>). A Go map is an association list;
  its order is not specified in Go and matters here for the order of \<open>rejected\<close> only. The raw JSON of
  a record is opaque; what the server asks of it is gathered in \<open>raw_ops\<close>. Who edited last, when, and
  the room's subscribers belong to persistence and are left out.
\<close>

subsection \<open>State and requests\<close>

record 'v raw_ops =
  raw_len :: "'v \<Rightarrow> int"
  raw_valid :: "'v \<Rightarrow> bool"
  raw_ends :: "'v \<Rightarrow> (string \<times> string) option"

record 'v room =
  rm_records :: "(string \<times> 'v) list"
  rm_rev :: int
  rm_bytes :: int
  rm_tombs :: "(string \<times> int) list"
  rm_lastSeq :: "(string \<times> int) list"
  rm_dirty :: bool

record 'v patch_request =
  pr_clientId :: string
  pr_seq :: int
  pr_baseRev :: int
  pr_patch :: "'v wire_patch"

record 'v applied =
  ap_rev :: int
  ap_patch :: "'v wire_patch"
  ap_rejected :: "string list"

datatype room_error = ErrInvalid | ErrConflict

definition MaxPatchBytes :: int where "MaxPatchBytes = 4 * 2 ^ 20"
definition MaxRecordBytes :: int where "MaxRecordBytes = 2 ^ 20"
definition MaxRecordsPerPatch :: int where "MaxRecordsPerPatch = 2000"
definition MaxTombstones :: nat where "MaxTombstones = 4096"
definition MaxSnapshotBytes :: int where "MaxSnapshotBytes = 24 * 2 ^ 20"

subsection \<open>Record ids\<close>

definition docRecordPrefixes :: "string list" where
  "docRecordPrefixes = [''document:'', ''page:'', ''shape:'', ''asset:'', ''binding:'']"

definition isDocRecord :: "string \<Rightarrow> bool" where
  "isDocRecord i = list_ex (startsWith i) docRecordPrefixes"

definition isStructural :: "string \<Rightarrow> bool" where
  "isStructural i = (startsWith i ''page:'' \<or> startsWith i ''document:'')"

definition isShape :: "string \<Rightarrow> bool" where
  "isShape i = (length i > 6 \<and> take 6 i = ''shape:'')"

definition isBinding :: "string \<Rightarrow> bool" where
  "isBinding i = (length i > 8 \<and> take 8 i = ''binding:'')"

definition bindingTouches :: "'v raw_ops \<Rightarrow> 'v \<Rightarrow> string list \<Rightarrow> bool" where
  "bindingTouches ops v shapeIDs =
     (case raw_ends ops v of
        None \<Rightarrow> False
      | Some (fromId, toId) \<Rightarrow>
          (fromId \<noteq> [] \<and> fromId \<in> set shapeIDs) \<or> (toId \<noteq> [] \<and> toId \<in> set shapeIDs))"

definition checkRecordID :: "string \<Rightarrow> bool" where
  "checkRecordID i = (i \<noteq> [] \<and> isDocRecord i)"

definition rec_bytes :: "'v raw_ops \<Rightarrow> string \<times> 'v \<Rightarrow> int" where
  "rec_bytes ops e = raw_len ops (snd e) + int (length (fst e))"

definition validate :: "'v raw_ops \<Rightarrow> 'v patch_request \<Rightarrow> bool" where
  "validate ops req =
     (let p = pr_patch req in
      pr_clientId req \<noteq> [] \<and> \<not> pr_baseRev req < 0 \<and> \<not> isEmptyPatch p \<and>
      \<not> int (length (wp_put p) + length (wp_remove p)) > MaxRecordsPerPatch \<and>
      list_all (\<lambda>e. checkRecordID (fst e) \<and> \<not> raw_len ops (snd e) > MaxRecordBytes \<and>
        raw_valid ops (snd e)) (wp_put p) \<and>
      list_all checkRecordID (wp_remove p) \<and>
      \<not> sum_list (map (rec_bytes ops) (wp_put p)) + sum_list (map (int \<circ> length) (wp_remove p))
          > MaxPatchBytes)"

subsection \<open>Applying a patch\<close>

text \<open>Taking a record out: out of the map, off the byte count, and remembered as deleted.\<close>

definition remove_record :: "'v raw_ops \<Rightarrow> string \<Rightarrow> 'v room \<Rightarrow> 'v room" where
  "remove_record ops i r =
     (let r = (case map_of (rm_records r) i of
                 Some v \<Rightarrow> r\<lparr>rm_bytes := rm_bytes r - rec_bytes ops (i, v),
                             rm_records := AList.delete i (rm_records r)\<rparr>
               | None \<Rightarrow> r)
      in r\<lparr>rm_tombs := AList.update i (rm_rev r + 1) (rm_tombs r)\<rparr>)"

definition cascade_ids :: "'v raw_ops \<Rightarrow> string list \<Rightarrow> 'v room \<Rightarrow> string list" where
  "cascade_ids ops removedShapes r =
     (if removedShapes = [] then []
      else map fst (filter (\<lambda>e. isBinding (fst e) \<and> bindingTouches ops (snd e) removedShapes) (rm_records r)))"

definition put_live :: "'v raw_ops \<Rightarrow> string \<times> 'v \<Rightarrow> 'v room \<Rightarrow> 'v room" where
  "put_live ops e r =
     r\<lparr>rm_bytes := (case map_of (rm_records r) (fst e) of
                     Some prev \<Rightarrow> rm_bytes r - rec_bytes ops (fst e, prev) | None \<Rightarrow> rm_bytes r)
                   + rec_bytes ops e,
       rm_tombs := AList.delete (fst e) (rm_tombs r),
       rm_records := AList.update (fst e) (snd e) (rm_records r)\<rparr>"

type_synonym 'v put_acc = "'v room \<times> (string \<times> 'v) list \<times> string list"

definition put_record :: "'v raw_ops \<Rightarrow> int \<Rightarrow> 'v put_acc \<Rightarrow> string \<times> 'v \<Rightarrow> 'v put_acc" where
  "put_record ops baseRev acc e =
     (case acc of (r, out, rejected) \<Rightarrow>
      (case map_of (rm_tombs r) (fst e) of
         Some tomb \<Rightarrow> if baseRev < tomb then (r, out, rejected @ [fst e])
                       else (put_live ops e r, out @ [e], rejected)
       | None \<Rightarrow> (put_live ops e r, out @ [e], rejected)))"

definition trimTombs :: "'v room \<Rightarrow> 'v room" where
  "trimTombs r =
     (if length (rm_tombs r) \<le> MaxTombstones then r
      else let oldest = take (length (rm_tombs r) - MaxTombstones) (sort_key snd (rm_tombs r))
           in r\<lparr>rm_tombs := filter (\<lambda>t. fst t \<notin> set (map fst oldest)) (rm_tombs r)\<rparr>)"

definition conflicts :: "'v room \<Rightarrow> 'v patch_request \<Rightarrow> bool" where
  "conflicts r req =
     (pr_baseRev req > rm_rev r \<or>
      list_ex (\<lambda>e. isStructural (fst e) \<and> pr_baseRev req \<noteq> rm_rev r) (wp_put (pr_patch req)) \<or>
      list_ex (\<lambda>i. isStructural i \<and> pr_baseRev req \<noteq> rm_rev r) (wp_remove (pr_patch req)))"

text \<open>The body once the checks have passed: removes, the cascade, then the puts.\<close>

definition fold_removes :: "'v raw_ops \<Rightarrow> string list \<Rightarrow> 'v room \<Rightarrow> 'v room" where
  "fold_removes ops is r = foldl (\<lambda>r i. remove_record ops i r) r is"

definition room_body :: "'v raw_ops \<Rightarrow> 'v room \<Rightarrow> 'v patch_request \<Rightarrow> 'v room \<times> 'v wire_patch \<times> string list" where
  "room_body ops r req =
     (let removes = wp_remove (pr_patch req);
          r1 = fold_removes ops removes r;
          extra = cascade_ids ops (filter isShape removes) r1;
          r2 = fold_removes ops extra r1
      in case foldl (put_record ops (pr_baseRev req)) (r2, [], []) (wp_put (pr_patch req)) of
           (r3, out, rejected) \<Rightarrow> (r3, \<lparr>wp_put = out, wp_remove = removes @ extra\<rparr>, rejected))"

definition room_apply :: "'v raw_ops \<Rightarrow> 'v room \<Rightarrow> 'v patch_request \<Rightarrow> 'v room \<times> (room_error + 'v applied)" where
  "room_apply ops r req =
     (if \<not> validate ops req then (r, Inl ErrInvalid)
      else if (case map_of (rm_lastSeq r) (pr_clientId req) of
                 Some l \<Rightarrow> pr_seq req \<le> l | None \<Rightarrow> False)
      then (r, Inr \<lparr>ap_rev = rm_rev r, ap_patch = emptyPatch, ap_rejected = []\<rparr>)
      else if conflicts r req then (r, Inl ErrConflict)
      else case room_body ops r req of (r3, out, rejected) \<Rightarrow>
        if rm_bytes r3 > MaxSnapshotBytes then (r3, Inl ErrInvalid)
        else
          let r4 = r3\<lparr>rm_lastSeq := AList.update (pr_clientId req) (pr_seq req) (rm_lastSeq r3)\<rparr>
          in if isEmptyPatch out
             then (r4, Inr \<lparr>ap_rev = rm_rev r4, ap_patch = emptyPatch, ap_rejected = rejected\<rparr>)
             else
               let r5 = trimTombs (r4\<lparr>rm_rev := rm_rev r4 + 1, rm_dirty := True\<rparr>)
               in (r5, Inr \<lparr>ap_rev = rm_rev r5,
                            ap_patch = out\<lparr>wp_remove := sort (wp_remove out)\<rparr>,
                            ap_rejected = rejected\<rparr>))"

definition room_replace :: "'v raw_ops \<Rightarrow> 'v room \<Rightarrow> (string \<times> 'v) list \<Rightarrow> 'v room" where
  "room_replace ops r store =
     r\<lparr>rm_records := store, rm_bytes := sum_list (map (rec_bytes ops) store),
       rm_tombs := [], rm_rev := rm_rev r + 1, rm_dirty := True\<rparr>"

definition newRoom :: "'v raw_ops \<Rightarrow> (string \<times> 'v) list \<Rightarrow> int \<Rightarrow> 'v room" where
  "newRoom ops store r =
     \<lparr>rm_records = store, rm_rev = r, rm_bytes = sum_list (map (rec_bytes ops) store),
      rm_tombs = [], rm_lastSeq = [], rm_dirty = False\<rparr>"

subsection \<open>The room's invariant\<close>

text \<open>
  Record ids are distinct, the byte count is that of the records, a deletion is remembered at a
  revision the room has reached, and no live record is remembered as deleted.
\<close>

definition room_doc :: "'v room \<Rightarrow> 'v doc" where
  "room_doc r = map_of (rm_records r)"

definition room_inv :: "'v raw_ops \<Rightarrow> int \<Rightarrow> 'v room \<Rightarrow> bool" where
  "room_inv ops lmt r \<longleftrightarrow>
     distinct (map fst (rm_records r)) \<and> distinct (map fst (rm_tombs r)) \<and>
     rm_bytes r = sum_list (map (rec_bytes ops) (rm_records r)) \<and>
     (\<forall>(i, t) \<in> set (rm_tombs r). t \<le> lmt) \<and>
     fst ` set (rm_records r) \<inter> fst ` set (rm_tombs r) = {}"

lemma sum_rec_delete:
  assumes "distinct (map fst es)" "map_of es i = Some v"
  shows "sum_list (map (rec_bytes ops) (AList.delete i es)) = sum_list (map (rec_bytes ops) es) - rec_bytes ops (i, v)"
  using assms
proof (induction es)
  case Nil
  then show ?case by simp
next
  case (Cons e es)
  show ?case
  proof (cases "fst e = i")
    case True
    with Cons.prems have "i \<notin> fst ` set es" by auto
    then have "AList.delete i es = es" by (simp add: delete_id)
    with True Cons.prems show ?thesis by (cases e) simp
  next
    case False
    with Cons show ?thesis by (cases e) simp
  qed
qed

lemma sum_rec_update:
  assumes "distinct (map fst es)"
  shows "sum_list (map (rec_bytes ops) (AList.update i v es)) =
    (case map_of es i of Some p \<Rightarrow> sum_list (map (rec_bytes ops) es) - rec_bytes ops (i, p)
     | None \<Rightarrow> sum_list (map (rec_bytes ops) es)) + rec_bytes ops (i, v)"
  using assms
proof (induction es)
  case Nil
  then show ?case by simp
next
  case (Cons e es)
  then show ?case by (cases e) (auto split: option.splits)
qed

lemma keys_delete: "fst ` set (AList.delete i es) = fst ` set es - {i}"
  by (metis delete_keys removeAll_filter_not_eq set_map set_removeAll)

lemma keys_update: "fst ` set (AList.update i v es) = insert i (fst ` set es)"
  by (metis dom_map_of_conv_image_fst dom_update insert_is_Un)

lemma remove_record_simps [simp]:
  "rm_rev (remove_record ops i r) = rm_rev r" "rm_lastSeq (remove_record ops i r) = rm_lastSeq r"
  "rm_dirty (remove_record ops i r) = rm_dirty r"
  by (simp_all add: remove_record_def Let_def split: option.splits)

lemma room_doc_remove: "room_doc (remove_record ops i r) = (room_doc r)(i := None)"
  by (auto simp: room_doc_def remove_record_def Let_def delete_conv' fun_eq_iff split: option.splits)

lemma tombs_update_le:
  "\<forall>(k, t) \<in> set ts. t \<le> lmt \<Longrightarrow> s \<le> lmt \<Longrightarrow> (\<forall>(k, t) \<in> set (AList.update i s ts). t \<le> (lmt::int))"
  by (induction ts) auto

lemma inv_remove:
  assumes "room_inv ops lmt r" "rm_rev r + 1 \<le> lmt"
  shows "room_inv ops lmt (remove_record ops i r)"
proof (cases "map_of (rm_records r) i")
  case None
  then have "i \<notin> fst ` set (rm_records r)" by (simp add: map_of_eq_None_iff)
  with assms None show ?thesis
    using tombs_update_le[of "rm_tombs r" lmt "rm_rev r + 1" i]
    by (auto simp: room_inv_def remove_record_def Let_def distinct_update keys_update)
next
  case (Some v)
  with assms show ?thesis
    using tombs_update_le[of "rm_tombs r" lmt "rm_rev r + 1" i]
    by (auto simp: room_inv_def remove_record_def Let_def distinct_update keys_update
        distinct_delete keys_delete sum_rec_delete[OF _ Some])
qed

lemma fold_removes_simps [simp]:
  "rm_rev (fold_removes ops is r) = rm_rev r" "rm_lastSeq (fold_removes ops is r) = rm_lastSeq r"
  "rm_dirty (fold_removes ops is r) = rm_dirty r"
  by (induction "is" arbitrary: r) (simp_all add: fold_removes_def)

lemma room_doc_removes: "room_doc (fold_removes ops is r) = room_doc r |` (- set is)"
proof (induction "is" arbitrary: r)
  case Nil
  then show ?case by (simp add: fold_removes_def restrict_map_def)
next
  case (Cons i "is")
  have "fold_removes ops (i # is) r = fold_removes ops is (remove_record ops i r)"
    by (simp add: fold_removes_def)
  with Cons show ?case
    by (auto simp: room_doc_remove restrict_map_def fun_eq_iff)
qed

lemma inv_removes:
  "room_inv ops lmt r \<Longrightarrow> rm_rev r + 1 \<le> lmt \<Longrightarrow> room_inv ops lmt (fold_removes ops is r)"
  by (induction "is" arbitrary: r) (simp_all add: fold_removes_def inv_remove)

lemma tombs_removes:
  "i \<in> set is \<Longrightarrow> map_of (rm_tombs (fold_removes ops is r)) i = Some (rm_rev r + 1)"
  "i \<notin> set is \<Longrightarrow> map_of (rm_tombs (fold_removes ops is r)) i = map_of (rm_tombs r) i"
proof -
  have one: "map_of (rm_tombs (remove_record ops j r)) =
      (map_of (rm_tombs r))(j \<mapsto> rm_rev r + 1)" for j and r :: "'a room"
    by (simp add: remove_record_def Let_def update_conv' split: option.splits)
  have keep: "i \<notin> set js \<Longrightarrow> map_of (rm_tombs (fold_removes ops js r)) i = map_of (rm_tombs r) i"
    for js and r :: "'a room"
    by (induction js arbitrary: r) (auto simp: fold_removes_def one)
  show "i \<notin> set is \<Longrightarrow> map_of (rm_tombs (fold_removes ops is r)) i = map_of (rm_tombs r) i"
    by (rule keep)
  have "map_of (rm_tombs (fold_removes ops js r)) i =
      (if i \<in> set js then Some (rm_rev r + 1) else map_of (rm_tombs r) i)" for js and r :: "'a room"
    by (induction js arbitrary: r) (auto simp: fold_removes_def one)
  then show "i \<in> set is \<Longrightarrow> map_of (rm_tombs (fold_removes ops is r)) i = Some (rm_rev r + 1)"
    by simp
qed

subsection \<open>The puts\<close>

definition accepts :: "int \<Rightarrow> 'v room \<Rightarrow> string \<times> 'v \<Rightarrow> bool" where
  "accepts baseRev r e = (case map_of (rm_tombs r) (fst e) of Some t \<Rightarrow> \<not> baseRev < t | None \<Rightarrow> True)"

lemma put_record_alt: "put_record ops b (r, out, rej) e =
    (if accepts b r e then (put_live ops e r, out @ [e], rej) else (r, out, rej @ [fst e]))"
  by (simp add: put_record_def accepts_def split: option.splits)

lemma accepts_put_live: "fst e' \<noteq> fst e \<Longrightarrow> accepts b (put_live ops e r) e' = accepts b r e'"
  by (simp add: accepts_def put_live_def delete_conv')

definition fold_puts :: "'v raw_ops \<Rightarrow> (string \<times> 'v) list \<Rightarrow> 'v room \<Rightarrow> 'v room" where
  "fold_puts ops es r = foldl (\<lambda>r e. put_live ops e r) r es"

lemma put_fold:
  "distinct (map fst es) \<Longrightarrow> foldl (put_record ops b) (r, out, rej) es =
    (fold_puts ops (filter (accepts b r) es) r, out @ filter (accepts b r) es,
     rej @ map fst (filter (\<lambda>e. \<not> accepts b r e) es))"
proof (induction es arbitrary: r out rej)
  case Nil
  then show ?case by (simp add: fold_puts_def)
next
  case (Cons e es)
  have eq: "accepts b (put_live ops e r) x = accepts b r x" if "x \<in> set es" for x
  proof (rule accepts_put_live)
    show "fst x \<noteq> fst e" using Cons.prems that by (metis distinct.simps(2) image_eqI list.simps(9) set_map)
  qed
  have same: "filter (accepts b (put_live ops e r)) es = filter (accepts b r) es"
    "filter (\<lambda>x. \<not> accepts b (put_live ops e r) x) es = filter (\<lambda>x. \<not> accepts b r x) es"
    using eq by (simp_all cong: filter_cong)
  show ?case using Cons by (simp add: put_record_alt same fold_puts_def)
qed

lemma put_live_simps [simp]:
  "rm_rev (put_live ops e r) = rm_rev r" "rm_lastSeq (put_live ops e r) = rm_lastSeq r"
  "rm_dirty (put_live ops e r) = rm_dirty r"
  by (simp_all add: put_live_def)

lemma room_doc_put: "room_doc (put_live ops e r) = (room_doc r)(fst e \<mapsto> snd e)"
  by (simp add: room_doc_def put_live_def update_conv')

lemma inv_put: "room_inv ops lmt r \<Longrightarrow> room_inv ops lmt (put_live ops e r)"
proof -
  assume inv: "room_inv ops lmt r"
  have "set (AList.delete (fst e) (rm_tombs r)) \<subseteq> set (rm_tombs r)" by (auto simp: AList.delete_eq)
  with inv show ?thesis
    by (auto simp: room_inv_def put_live_def distinct_update distinct_delete keys_update keys_delete
        sum_rec_update split: option.splits)
qed

lemma fold_puts_simps [simp]:
  "rm_rev (fold_puts ops es r) = rm_rev r" "rm_lastSeq (fold_puts ops es r) = rm_lastSeq r"
  "rm_dirty (fold_puts ops es r) = rm_dirty r"
  by (induction es arbitrary: r) (simp_all add: fold_puts_def)

lemma room_doc_puts: "room_doc (fold_puts ops es r) = room_doc r ++ map_of (rev es)"
  by (induction es arbitrary: r)
    (simp_all add: fold_puts_def room_doc_put map_add_assoc[symmetric] map_add_upd_left)

lemma inv_puts: "room_inv ops lmt r \<Longrightarrow> room_inv ops lmt (fold_puts ops es r)"
  by (induction es arbitrary: r) (simp_all add: fold_puts_def inv_put)

lemma trimTombs_simps [simp]:
  "rm_records (trimTombs r) = rm_records r" "rm_rev (trimTombs r) = rm_rev r"
  "rm_bytes (trimTombs r) = rm_bytes r"
  by (simp_all add: trimTombs_def Let_def)

lemma inv_trim: "room_inv ops lmt r \<Longrightarrow> room_inv ops lmt (trimTombs r)"
  by (auto simp: room_inv_def trimTombs_def Let_def distinct_map_filter)

subsection \<open>The body\<close>

definition body_mid :: "'v raw_ops \<Rightarrow> 'v room \<Rightarrow> 'v patch_request \<Rightarrow> string list \<times> 'v room" where
  "body_mid ops r req =
     (let removes = wp_remove (pr_patch req);
          r1 = fold_removes ops removes r;
          extra = cascade_ids ops (filter isShape removes) r1
      in (removes @ extra, fold_removes ops extra r1))"

lemma body_mid_facts:
  assumes "body_mid ops r req = (gone, r2)"
  shows "room_doc r2 = room_doc r |` (- set gone)" "rm_rev r2 = rm_rev r"
    "rm_lastSeq r2 = rm_lastSeq r" "rm_dirty r2 = rm_dirty r"
    "i \<in> set gone \<Longrightarrow> map_of (rm_tombs r2) i = Some (rm_rev r + 1)"
    "i \<notin> set gone \<Longrightarrow> map_of (rm_tombs r2) i = map_of (rm_tombs r) i"
    "room_inv ops lmt r \<Longrightarrow> rm_rev r + 1 \<le> lmt \<Longrightarrow> room_inv ops lmt r2"
    "gone = [] \<longleftrightarrow> wp_remove (pr_patch req) = []"
    "gone = [] \<Longrightarrow> r2 = r"
proof -
  define r1 where "r1 = fold_removes ops (wp_remove (pr_patch req)) r"
  define extra where "extra = cascade_ids ops (filter isShape (wp_remove (pr_patch req))) r1"
  have g: "gone = wp_remove (pr_patch req) @ extra" and r2: "r2 = fold_removes ops extra r1"
    using assms by (simp_all add: body_mid_def Let_def r1_def extra_def)
  show "room_doc r2 = room_doc r |` (- set gone)"
    by (auto simp: r2 g r1_def room_doc_removes restrict_map_def)
  show "rm_rev r2 = rm_rev r" "rm_lastSeq r2 = rm_lastSeq r" "rm_dirty r2 = rm_dirty r"
    by (simp_all add: r2 r1_def)
  show "i \<in> set gone \<Longrightarrow> map_of (rm_tombs r2) i = Some (rm_rev r + 1)"
    by (cases "i \<in> set extra") (simp_all add: r2 g r1_def tombs_removes)
  show "i \<notin> set gone \<Longrightarrow> map_of (rm_tombs r2) i = map_of (rm_tombs r) i"
    by (simp add: r2 g r1_def tombs_removes)
  show "room_inv ops lmt r \<Longrightarrow> rm_rev r + 1 \<le> lmt \<Longrightarrow> room_inv ops lmt r2"
    by (simp add: r2 r1_def inv_removes)
  show "gone = [] \<longleftrightarrow> wp_remove (pr_patch req) = []"
    by (auto simp: g extra_def cascade_ids_def)
  show "gone = [] \<Longrightarrow> r2 = r"
    by (auto simp: g r2 r1_def fold_removes_def)
qed

lemma room_body_alt:
  assumes "distinct (map fst (wp_put (pr_patch req)))" "body_mid ops r req = (gone, r2)"
  shows "room_body ops r req =
    (fold_puts ops (filter (accepts (pr_baseRev req) r2) (wp_put (pr_patch req))) r2,
     \<lparr>wp_put = filter (accepts (pr_baseRev req) r2) (wp_put (pr_patch req)), wp_remove = gone\<rparr>,
     map fst (filter (\<lambda>e. \<not> accepts (pr_baseRev req) r2 e) (wp_put (pr_patch req))))"
  using assms by (simp add: room_body_def body_mid_def Let_def put_fold)

lemma room_body_doc:
  assumes "distinct (map fst (wp_put (pr_patch req)))" "room_body ops r req = (r3, out, rej)"
    "pr_baseRev req \<le> rm_rev r"
  shows "room_doc r3 = apply_patch (room_doc r) out"
proof
  fix k
  obtain gone r2 where mid: "body_mid ops r req = (gone, r2)" by (cases "body_mid ops r req")
  let ?acc = "filter (accepts (pr_baseRev req) r2) (wp_put (pr_patch req))"
  note body = room_body_alt[OF assms(1) mid]
  have r3: "r3 = fold_puts ops ?acc r2" and out: "out = \<lparr>wp_put = ?acc, wp_remove = gone\<rparr>"
    using assms(2) by (simp_all add: body)
  have "k \<notin> fst ` set ?acc" if "k \<in> set gone"
    using body_mid_facts(5)[OF mid that] assms(3) by (auto simp: accepts_def)
  then have no: "map_of (rev ?acc) k = None" if "k \<in> set gone"
    using that by (simp add: map_of_eq_None_iff)
  show "room_doc r3 k = apply_patch (room_doc r) out k"
    using no by (auto simp: r3 out room_doc_puts apply_patch_lookup body_mid_facts(1)[OF mid]
        map_add_def restrict_map_def split: option.splits)
qed

subsection \<open>What the room promises\<close>

definition req_ok :: "'v patch_request \<Rightarrow> bool" where
  "req_ok req \<longleftrightarrow> distinct (map fst (wp_put (pr_patch req)))"

lemma room_apply_Inr:
  assumes "room_apply ops r req = (r', Inr a)"
  obtains (retry) "r' = r" "a = \<lparr>ap_rev = rm_rev r, ap_patch = emptyPatch, ap_rejected = []\<rparr>"
      "\<exists>l. map_of (rm_lastSeq r) (pr_clientId req) = Some l \<and> pr_seq req \<le> l"
  | (idle) r3 out where "room_body ops r req = (r3, out, ap_rejected a)" "isEmptyPatch out"
      "\<not> conflicts r req" "rm_bytes r3 \<le> MaxSnapshotBytes"
      "r' = r3\<lparr>rm_lastSeq := AList.update (pr_clientId req) (pr_seq req) (rm_lastSeq r3)\<rparr>"
      "ap_patch a = emptyPatch" "ap_rev a = rm_rev r'"
  | (live) r3 out where "room_body ops r req = (r3, out, ap_rejected a)" "\<not> isEmptyPatch out"
      "\<not> conflicts r req" "rm_bytes r3 \<le> MaxSnapshotBytes"
      "r' = trimTombs (r3\<lparr>rm_lastSeq := AList.update (pr_clientId req) (pr_seq req) (rm_lastSeq r3),
              rm_rev := rm_rev r3 + 1, rm_dirty := True\<rparr>)"
      "ap_patch a = out\<lparr>wp_remove := sort (wp_remove out)\<rparr>" "ap_rev a = rm_rev r'"
  using assms
  by (auto simp: room_apply_def Let_def split: if_splits option.splits prod.splits)

lemma apply_patch_sort [simp]: "apply_patch d (p\<lparr>wp_remove := sort (wp_remove p)\<rparr>) = apply_patch d p"
  by (simp add: apply_patch_def)

lemma apply_patch_empty: "isEmptyPatch p \<Longrightarrow> apply_patch d p = d"
  by (simp add: isEmptyPatch_def apply_patch_def restrict_map_def)

lemma room_body_frame:
  assumes "req_ok req" "room_body ops r req = (r3, out, rej)"
  shows "rm_rev r3 = rm_rev r" "rm_lastSeq r3 = rm_lastSeq r" "rm_dirty r3 = rm_dirty r"
    "room_inv ops (rm_rev r) r \<Longrightarrow> room_inv ops (rm_rev r + 1) r3"
    "isEmptyPatch out \<Longrightarrow> r3 = r"
proof -
  obtain gone r2 where mid: "body_mid ops r req = (gone, r2)" by (cases "body_mid ops r req")
  note facts = body_mid_facts[OF mid]
  have d: "distinct (map fst (wp_put (pr_patch req)))" using assms(1) by (simp add: req_ok_def)
  let ?acc = "filter (accepts (pr_baseRev req) r2) (wp_put (pr_patch req))"
  have r3: "r3 = fold_puts ops ?acc r2" and out: "out = \<lparr>wp_put = ?acc, wp_remove = gone\<rparr>"
    using assms(2) by (simp_all add: room_body_alt[OF d mid])
  show "rm_rev r3 = rm_rev r" "rm_lastSeq r3 = rm_lastSeq r" "rm_dirty r3 = rm_dirty r"
    by (simp_all add: r3 facts)
  show "room_inv ops (rm_rev r + 1) r3" if inv: "room_inv ops (rm_rev r) r"
  proof -
    have "room_inv ops (rm_rev r + 1) r" using inv by (fastforce simp: room_inv_def)
    then show ?thesis by (simp add: r3 inv_puts facts(7))
  qed
  show "r3 = r" if "isEmptyPatch out"
  proof -
    have "gone = []" "?acc = []" using that by (simp_all add: out isEmptyPatch_def)
    then show ?thesis by (simp only: r3 facts(9)) (simp add: fold_puts_def)
  qed
qed

lemma room_apply_broadcast_aux:
  assumes inv: "room_inv ops (rm_rev r) r" and ok: "req_ok req"
    and res: "room_apply ops r req = (r', Inr a)"
  shows "room_inv ops (rm_rev r') r' \<and> room_doc r' = apply_patch (room_doc r) (ap_patch a) \<and>
    ap_rev a = rm_rev r' \<and> rm_rev r' = rm_rev r + (if isEmptyPatch (ap_patch a) then 0 else 1)"
  using res
proof (cases rule: room_apply_Inr)
  case retry
  with inv show ?thesis by (simp add: apply_patch_empty emptyPatch_def isEmptyPatch_def)
next
  case (idle r3 out)
  note fr = room_body_frame[OF ok idle(1)]
  have "r3 = r" using fr(5) idle(2) by simp
  with inv idle show ?thesis
    by (simp add: room_doc_def apply_patch_empty emptyPatch_def isEmptyPatch_def room_inv_def)
next
  case (live r3 out)
  note fr = room_body_frame[OF ok live(1)]
  have base: "pr_baseRev req \<le> rm_rev r" using live(3) by (simp add: conflicts_def)
  have d: "distinct (map fst (wp_put (pr_patch req)))" using ok by (simp add: req_ok_def)
  have "room_doc r' = room_doc r3" by (simp add: live(5) room_doc_def)
  then have doc: "room_doc r' = apply_patch (room_doc r) (ap_patch a)"
    using room_body_doc[OF d live(1) base] by (simp add: live(6))
  have "room_inv ops (rm_rev r + 1) (r3\<lparr>rm_lastSeq := AList.update (pr_clientId req) (pr_seq req) (rm_lastSeq r3),
      rm_rev := rm_rev r3 + 1, rm_dirty := True\<rparr>)"
    using fr(4)[OF inv] by (simp add: room_inv_def)
  then have "room_inv ops (rm_rev r + 1) r'" unfolding live(5) by (rule inv_trim)
  moreover have "rm_rev r' = rm_rev r + 1" by (simp add: live(5) fr(1))
  ultimately show ?thesis using doc live(2,6,7) by (simp add: isEmptyPatch_def)
qed

text \<open>
  C5. An accepted patch is broadcast exactly: what subscribers are told to apply turns the room's
  document before the patch into its document after it (bindings dragged along and refused records
  left out), the revision grows by one exactly when there is something to broadcast, and the room
  stays well formed - ids distinct, byte count exact, no live record remembered as deleted.
\<close>

theorem room_apply_broadcast:
  assumes "room_inv ops (rm_rev r) r" "req_ok req" "room_apply ops r req = (r', Inr a)"
  shows "room_inv ops (rm_rev r') r' \<and> room_doc r' = apply_patch (room_doc r) (ap_patch a) \<and>
    ap_rev a = rm_rev r' \<and> rm_rev r' = rm_rev r + (if isEmptyPatch (ap_patch a) then 0 else 1)"
  using assms by (rule room_apply_broadcast_aux)

text \<open>A concrete room: values are pairs of a length and the ends of a binding.\<close>

definition demo_ops :: "(int \<times> (string \<times> string) option) raw_ops" where
  "demo_ops = \<lparr>raw_len = fst, raw_valid = (\<lambda>_. True), raw_ends = snd\<rparr>"

definition demo_room :: "(int \<times> (string \<times> string) option) room" where
  "demo_room = newRoom demo_ops [(''shape:a'', (5, None)), (''binding:x'', (7, Some (''shape:a'', ''shape:b'')))] 4"

definition demo_req :: "(int \<times> (string \<times> string) option) patch_request" where
  "demo_req = \<lparr>pr_clientId = ''c1'', pr_seq = 1, pr_baseRev = 4,
     pr_patch = \<lparr>wp_put = [(''shape:c'', (3, None))], wp_remove = [''shape:a'']\<rparr>\<rparr>"

lemma demo_inv: "room_inv demo_ops (rm_rev demo_room) demo_room"
  by (simp add: room_inv_def demo_room_def newRoom_def)

lemmas room_eval = room_apply_def validate_def conflicts_def room_body_def fold_removes_def
  remove_record_def cascade_ids_def put_record_def put_live_def trimTombs_def
  isDocRecord_def isStructural_def docRecordPrefixes_def isShape_def isBinding_def
  bindingTouches_def checkRecordID_def rec_bytes_def isEmptyPatch_def MaxPatchBytes_def
  MaxRecordBytes_def MaxRecordsPerPatch_def MaxTombstones_def MaxSnapshotBytes_def Let_def

lemma demo_apply:
  "snd (room_apply demo_ops demo_room demo_req) = Inr \<lparr>ap_rev = 5,
     ap_patch = \<lparr>wp_put = [(''shape:c'', (3, None))], wp_remove = [''binding:x'', ''shape:a'']\<rparr>,
     ap_rejected = []\<rparr>"
  by (simp add: room_eval demo_ops_def demo_room_def demo_req_def newRoom_def)

lemma room_apply_broadcast_witness:
  "rm_rev (fst (room_apply demo_ops demo_room demo_req)) = 5 \<and>
    room_doc (fst (room_apply demo_ops demo_room demo_req)) =
      apply_patch (room_doc demo_room) \<lparr>wp_put = [(''shape:c'', (3, None))], wp_remove = [''binding:x'', ''shape:a'']\<rparr>"
proof -
  have ok: "req_ok demo_req" by (simp add: req_ok_def demo_req_def)
  obtain r' where ap: "room_apply demo_ops demo_room demo_req = (r', Inr \<lparr>ap_rev = 5,
     ap_patch = \<lparr>wp_put = [(''shape:c'', (3, None))], wp_remove = [''binding:x'', ''shape:a'']\<rparr>,
     ap_rejected = []\<rparr>)"
    using demo_apply by (cases "room_apply demo_ops demo_room demo_req") auto
  show ?thesis using room_apply_broadcast[OF demo_inv ok ap] by (simp add: ap)
qed

text \<open>
  C8. Deletion wins: a write to a record that was deleted after the sender last heard of the board
  is refused by name and the record stays away, whatever else the patch does.
\<close>

theorem delete_wins:
  assumes "room_inv ops (rm_rev r) r" "req_ok req" "room_apply ops r req = (r', Inr a)"
    and "map_of (rm_tombs r) i = Some t" "pr_baseRev req < t" "(i, v) \<in> set (wp_put (pr_patch req))"
    and "\<forall>l. map_of (rm_lastSeq r) (pr_clientId req) = Some l \<longrightarrow> l < pr_seq req"
  shows "i \<in> set (ap_rejected a) \<and> room_doc r' i = None"
proof -
  obtain gone r2 where mid: "body_mid ops r req = (gone, r2)" by (cases "body_mid ops r req")
  have d: "distinct (map fst (wp_put (pr_patch req)))" using assms(2) by (simp add: req_ok_def)
  have dead: "\<not> accepts (pr_baseRev req) r2 (i, v)" if "\<not> conflicts r req"
  proof (cases "i \<in> set gone")
    case True
    with that show ?thesis by (simp add: accepts_def body_mid_facts(5)[OF mid] conflicts_def)
  next
    case False
    with assms(4,5) show ?thesis by (simp add: accepts_def body_mid_facts(6)[OF mid])
  qed
  have away: "room_doc r i = None"
  proof -
    from assms(4) have "i \<in> fst ` set (rm_tombs r)" by (force dest: map_of_SomeD)
    with assms(1) show ?thesis by (auto simp: room_inv_def room_doc_def map_of_eq_None_iff)
  qed
  have rej: "i \<in> set (ap_rejected a)" if "room_body ops r req = (r3, out, ap_rejected a)" "\<not> conflicts r req"
    for r3 out
  proof -
    have "ap_rejected a = map fst (filter (\<lambda>e. \<not> accepts (pr_baseRev req) r2 e) (wp_put (pr_patch req)))"
      using that(1) by (simp add: room_body_alt[OF d mid])
    with dead[OF that(2)] assms(6) show ?thesis by (auto intro!: image_eqI[of _ fst "(i, v)"])
  qed
  have key: "wp_put out = filter (accepts (pr_baseRev req) r2) (wp_put (pr_patch req))"
    if "room_body ops r req = (r3, out, rej)" for r3 out rej
    using that by (auto simp: room_body_alt[OF d mid])
  have notput: "map_of (rev (wp_put out)) i = None"
    if "room_body ops r req = (r3, out, rej)" "\<not> conflicts r req" for r3 out rej
  proof -
    have "(i, w) \<notin> set (wp_put out)" for w
    proof
      assume w: "(i, w) \<in> set (wp_put out)"
      then have "(i, w) \<in> set (wp_put (pr_patch req))" by (simp add: key[OF that(1)])
      with assms(6) d have "w = v" by (metis eq_key_imp_eq_value)
      with w dead[OF that(2)] show False by (simp add: key[OF that(1)])
    qed
    then show ?thesis by (auto simp: map_of_eq_None_iff)
  qed
  have doc: "room_doc r' = apply_patch (room_doc r) (ap_patch a)"
    using room_apply_broadcast_aux[OF assms(1-3)] by simp
  from assms(3) show ?thesis
  proof (cases rule: room_apply_Inr)
    case retry
    with assms(7) show ?thesis by auto
  next
    case (idle r3 out)
    have "room_doc r' i = None" using away by (simp add: doc idle(6) apply_patch_lookup emptyPatch_def)
    with rej[OF idle(1,3)] show ?thesis by simp
  next
    case (live r3 out)
    have "room_doc r' i = None"
      using away notput[OF live(1,3)] by (simp add: doc live(6) apply_patch_lookup)
    with rej[OF live(1,3)] show ?thesis by simp
  qed
qed

definition dead_room :: "(int \<times> (string \<times> string) option) room" where
  "dead_room = demo_room\<lparr>rm_rev := 9, rm_tombs := [(''shape:c'', 7)]\<rparr>"

lemma delete_wins_witness:
  "room_doc (fst (room_apply demo_ops dead_room demo_req)) ''shape:c'' = None"
proof -
  have ok: "req_ok demo_req" by (simp add: req_ok_def demo_req_def)
  have inv: "room_inv demo_ops (rm_rev dead_room) dead_room"
    by (simp add: room_inv_def dead_room_def demo_room_def newRoom_def)
  have "\<exists>a. snd (room_apply demo_ops dead_room demo_req) = Inr a"
    by (simp add: room_eval demo_ops_def dead_room_def demo_room_def demo_req_def newRoom_def)
  then obtain r' a where ap: "room_apply demo_ops dead_room demo_req = (r', Inr a)"
    by (cases "room_apply demo_ops dead_room demo_req") auto
  have "''shape:c'' \<in> set (ap_rejected a) \<and> room_doc r' ''shape:c'' = None"
    by (rule delete_wins[OF inv ok ap, of _ 7 "(3, None)"])
      (simp_all add: dead_room_def demo_room_def newRoom_def demo_req_def)
  then show ?thesis by (simp add: ap)
qed

subsection \<open>Two places where the code departs from its comments\<close>

text \<open>
  The removes run first and stamp each record as deleted at the coming revision, which is
  always ahead of what the sender had: so when a patch both removes a record and writes it again,
  the write is refused and the record ends up deleted.
\<close>

theorem remove_and_put_deletes:
  assumes "room_inv ops (rm_rev r) r" "req_ok req" "room_apply ops r req = (r', Inr a)"
    and "i \<in> set (wp_remove (pr_patch req))" "(i, v) \<in> set (wp_put (pr_patch req))"
    and "map_of (rm_lastSeq r) (pr_clientId req) = None"
  shows "i \<in> set (ap_rejected a) \<and> room_doc r' i = None"
proof -
  obtain gone r2 where mid: "body_mid ops r req = (gone, r2)" by (cases "body_mid ops r req")
  have gone: "i \<in> set gone" using mid assms(4) by (auto simp: body_mid_def Let_def)
  have d: "distinct (map fst (wp_put (pr_patch req)))" using assms(2) by (simp add: req_ok_def)
  have doc: "room_doc r' = apply_patch (room_doc r) (ap_patch a)"
    using room_apply_broadcast_aux[OF assms(1-3)] by simp
  from assms(3) show ?thesis
  proof (cases rule: room_apply_Inr)
    case retry
    with assms(6) show ?thesis by auto
  next
    case (idle r3 out)
    then show ?thesis using gone by (auto simp: room_body_alt[OF d mid] isEmptyPatch_def)
  next
    case (live r3 out)
    have "\<not> accepts (pr_baseRev req) r2 (i, v)"
      using body_mid_facts(5)[OF mid gone] live(3) by (simp add: accepts_def conflicts_def)
    moreover have "ap_rejected a = map fst (filter (\<lambda>e. \<not> accepts (pr_baseRev req) r2 e) (wp_put (pr_patch req)))"
      using live(1) by (simp add: room_body_alt[OF d mid])
    ultimately have "i \<in> set (ap_rejected a)"
      using assms(5) by (auto intro!: image_eqI[of _ fst "(i, v)"])
    moreover have "wp_remove out = gone" using live(1) by (auto simp: room_body_alt[OF d mid])
    ultimately show ?thesis using gone by (simp add: doc live(6) apply_patch_lookup)
  qed
qed

definition readd_req :: "(int \<times> (string \<times> string) option) patch_request" where
  "readd_req = \<lparr>pr_clientId = ''c1'', pr_seq = 1, pr_baseRev = 4,
     pr_patch = \<lparr>wp_put = [(''shape:a'', (6, None))], wp_remove = [''shape:a'']\<rparr>\<rparr>"

lemma remove_and_put_deletes_witness:
  "room_doc (fst (room_apply demo_ops demo_room readd_req)) ''shape:a'' = None"
proof -
  have ok: "req_ok readd_req" by (simp add: req_ok_def readd_req_def)
  have "\<exists>a. snd (room_apply demo_ops demo_room readd_req) = Inr a"
    by (simp add: room_eval demo_ops_def demo_room_def readd_req_def newRoom_def)
  then obtain r' a where ap: "room_apply demo_ops demo_room readd_req = (r', Inr a)"
    by (cases "room_apply demo_ops demo_room readd_req") auto
  have "''shape:a'' \<in> set (ap_rejected a) \<and> room_doc r' ''shape:a'' = None"
    by (rule remove_and_put_deletes[OF demo_inv ok ap, of _ "(6, None)"])
      (simp_all add: demo_room_def newRoom_def readd_req_def)
  then show ?thesis by (simp add: ap)
qed

text \<open>
  C10. A patch that would make the board too large is refused only after it has been folded in: the
  sender is told the submission is invalid, but its records are in the room, the revision has not
  moved, nothing is broadcast and the room is not marked for saving.
\<close>

theorem oversize_is_applied:
  assumes "req_ok req" "validate ops req" "\<not> conflicts r req"
    and "map_of (rm_lastSeq r) (pr_clientId req) = None"
    and "room_body ops r req = (r3, out, rej)" "rm_bytes r3 > MaxSnapshotBytes"
  shows "room_apply ops r req = (r3, Inl ErrInvalid) \<and> room_doc r3 = apply_patch (room_doc r) out \<and>
    rm_rev r3 = rm_rev r \<and> rm_dirty r3 = rm_dirty r"
proof -
  have "pr_baseRev req \<le> rm_rev r" using assms(3) by (simp add: conflicts_def)
  then have "room_doc r3 = apply_patch (room_doc r) out"
    using assms(1,5) by (intro room_body_doc) (simp_all add: req_ok_def)
  then show ?thesis
    using assms room_body_frame[OF assms(1,5)] by (simp add: room_apply_def)
qed

definition full_room :: "(int \<times> (string \<times> string) option) room" where
  "full_room = newRoom demo_ops [(''asset:big'', (25165815, None))] 4"

definition big_req :: "(int \<times> (string \<times> string) option) patch_request" where
  "big_req = \<lparr>pr_clientId = ''c1'', pr_seq = 1, pr_baseRev = 4,
     pr_patch = \<lparr>wp_put = [(''shape:c'', (3, None))], wp_remove = []\<rparr>\<rparr>"

lemma oversize_is_applied_witness:
  "snd (room_apply demo_ops full_room big_req) = Inl ErrInvalid \<and>
    room_doc (fst (room_apply demo_ops full_room big_req)) ''shape:c'' = Some (3, None) \<and>
    room_doc full_room ''shape:c'' = None"
proof -
  have ok: "req_ok big_req" by (simp add: req_ok_def big_req_def)
  obtain r3 where body: "room_body demo_ops full_room big_req = (r3, pr_patch big_req, [])"
    and big: "rm_bytes r3 > MaxSnapshotBytes"
    by (simp add: room_eval demo_ops_def full_room_def big_req_def newRoom_def)
  have "room_apply demo_ops full_room big_req = (r3, Inl ErrInvalid) \<and>
      room_doc r3 = apply_patch (room_doc full_room) (pr_patch big_req) \<and>
      rm_rev r3 = rm_rev full_room \<and> rm_dirty r3 = rm_dirty full_room"
    by (rule oversize_is_applied[OF ok _ _ _ body big])
      (simp_all add: room_eval demo_ops_def full_room_def big_req_def newRoom_def)
  then show ?thesis
    by (simp add: apply_patch_lookup big_req_def) (simp add: full_room_def newRoom_def room_doc_def)
qed

end
