(* ===== verification/WbSync.thy ===== *)
theory WbSync
  imports WbRoom
begin

section \<open>Live editing of a board\<close>

text \<open>
  The client half of live editing, \<open>whiteboards/useBoardSync.ts\<close>: one operation per callback of the
  hook, over the editor's document (a map from ids to records, which the hook reaches through
  \<open>store.put\<close>, \<open>store.remove\<close> and \<open>loadSnapshot\<close>). A request is handed out by \<open>send\<close> and its outcome
  comes back through \<open>send_ok\<close>, \<open>send_resync\<close> or \<open>send_failed\<close>; a frame that cannot be placed makes
  the hook re-read the document (\<open>resync_ok\<close>, \<open>resync_failed\<close>). \<open>accepts_recs\<close> stands for the
  editor's own validation of records, which makes \<open>store.put\<close> throw.
\<close>

subsection \<open>The client\<close>

datatype sync_status = Connecting | Live | Offline | SyncError

record 'v board_client =
  bc_id :: string
  bc_doc :: "'v doc"
  bc_rev :: int
  bc_seq :: int
  bc_queue :: "'v wire_patch list"
  bc_sending :: "'v wire_patch list"
  bc_inFlight :: bool
  bc_firstQueuedAt :: int
  bc_timer :: "int option"
  bc_pending :: bool
  bc_status :: sync_status

definition PATCH_DEBOUNCE_MS :: int where "PATCH_DEBOUNCE_MS = 100"
definition PATCH_MAX_WAIT_MS :: int where "PATCH_MAX_WAIT_MS = 400"

definition new_client :: "string \<Rightarrow> 'v doc \<Rightarrow> int \<Rightarrow> 'v board_client" where
  "new_client i d r = \<lparr>bc_id = i, bc_doc = d, bc_rev = r, bc_seq = 0, bc_queue = [], bc_sending = [],
     bc_inFlight = False, bc_firstQueuedAt = 0, bc_timer = None, bc_pending = False,
     bc_status = Connecting\<rparr>"

definition resync_ok :: "'v doc \<Rightarrow> int \<Rightarrow> 'v board_client \<Rightarrow> 'v board_client" where
  "resync_ok d r c = c\<lparr>bc_doc := d, bc_rev := r, bc_queue := [], bc_status := Live\<rparr>"

definition resync_failed :: "'v board_client \<Rightarrow> 'v board_client" where
  "resync_failed c = c\<lparr>bc_status := SyncError\<rparr>"

text \<open>\<open>send\<close> up to the request: the client that waits, and the request if one is made.\<close>

definition send :: "'v board_client \<Rightarrow> 'v board_client \<times> 'v patch_request option" where
  "send c =
     (let c = c\<lparr>bc_timer := None\<rparr>
      in if bc_inFlight c \<or> bc_queue c = [] then (c, None)
         else
           let patch = squash (bc_queue c)
           in if isEmptyPatch patch then (c\<lparr>bc_queue := []\<rparr>, None)
              else
                let c = c\<lparr>bc_sending := bc_queue c, bc_queue := [], bc_inFlight := True,
                          bc_pending := True, bc_seq := bc_seq c + 1\<rparr>
                in (c, Some \<lparr>pr_clientId = bc_id c, pr_seq = bc_seq c, pr_baseRev = bc_rev c,
                             pr_patch = patch\<rparr>))"

text \<open>The \<open>finally\<close> of \<open>send\<close>: whatever is queued by now is sent after another debounce.\<close>

definition send_finally :: "int \<Rightarrow> 'v board_client \<Rightarrow> 'v board_client" where
  "send_finally now c =
     (let c = c\<lparr>bc_inFlight := False, bc_sending := [], bc_pending := bc_queue c \<noteq> []\<rparr>
      in if bc_queue c \<noteq> [] \<and> bc_timer c = None
         then c\<lparr>bc_timer := Some (now + PATCH_DEBOUNCE_MS)\<rparr> else c)"

definition send_ok :: "int \<Rightarrow> int \<Rightarrow> string list \<Rightarrow> 'v board_client \<Rightarrow> 'v board_client" where
  "send_ok now r rejected c =
     send_finally now
       (c\<lparr>bc_rev := max (bc_rev c) r, bc_status := Live,
          bc_doc := (if length rejected > 0 then bc_doc c |` (- set rejected) else bc_doc c)\<rparr>)"

definition send_resync :: "int \<Rightarrow> ('v doc \<times> int) option \<Rightarrow> 'v board_client \<Rightarrow> 'v board_client" where
  "send_resync now reread c =
     send_finally now (case reread of Some (d, r) \<Rightarrow> resync_ok d r c | None \<Rightarrow> resync_failed c)"

definition send_failed :: "int \<Rightarrow> 'v board_client \<Rightarrow> 'v board_client" where
  "send_failed now c =
     send_finally now (c\<lparr>bc_queue := bc_sending c @ bc_queue c, bc_status := Offline\<rparr>)"

text \<open>
  The store's listener on a change the user made: the client, and whether it sends at once (the
  ceiling has been reached) instead of setting the debounce timer.
\<close>

definition on_change :: "int \<Rightarrow> 'v doc \<Rightarrow> 'v records_diff \<Rightarrow> 'v board_client \<Rightarrow> 'v board_client \<times> bool" where
  "on_change now after d c =
     (let c = c\<lparr>bc_doc := after\<rparr>; patch = diffToPatch d
      in if isEmptyPatch patch then (c, False)
         else
           let c = c\<lparr>bc_queue := bc_queue c @ [patch], bc_pending := True\<rparr>;
               c = (if length (bc_queue c) = 1 then c\<lparr>bc_firstQueuedAt := now\<rparr> else c)
           in if now - bc_firstQueuedAt c \<ge> PATCH_MAX_WAIT_MS
              then (c\<lparr>bc_timer := None\<rparr>, True)
              else (c\<lparr>bc_timer := Some (now + PATCH_DEBOUNCE_MS)\<rparr>, False))"

text \<open>A frame of the stream: the client, and whether it has to re-read the document.\<close>

definition onFrame :: "('v wire_patch \<Rightarrow> bool) \<Rightarrow> 'v patch_frame \<Rightarrow> 'v board_client \<Rightarrow> 'v board_client \<times> bool" where
  "onFrame accepts_recs frame c =
     (let action = classifyFrame (pf_rev frame) (pf_clientId frame) (bc_rev c) (bc_id c)
      in if action = Resync then (c, True)
         else if action = Apply \<and> \<not> accepts_recs (pf_patch frame) then (c, True)
         else
           let c = (if action = Apply then c\<lparr>bc_doc := apply_patch (bc_doc c) (pf_patch frame)\<rparr> else c)
           in (c\<lparr>bc_rev := nextRev action (pf_rev frame) (bc_rev c), bc_status := Live\<rparr>, False))"

definition onReplaced :: "int \<Rightarrow> 'v board_client \<Rightarrow> bool" where
  "onReplaced r c = (\<not> r \<le> bc_rev c)"

definition setLive :: "bool \<Rightarrow> 'v board_client \<Rightarrow> 'v board_client" where
  "setLive live c =
     c\<lparr>bc_status := (if live then Live else if bc_status c = SyncError then SyncError else Offline)\<rparr>"

lemmas sync_defs = send_def send_finally_def send_ok_def send_resync_def send_failed_def
  on_change_def onFrame_def resync_ok_def resync_failed_def setLive_def

subsection \<open>Nothing the user drew is dropped by a failed send\<close>

text \<open>The unsent work of a client, as one list of patches in the order they were made.\<close>

definition unsent :: "'v board_client \<Rightarrow> 'v wire_patch list" where
  "unsent c = bc_sending c @ bc_queue c"

text \<open>
  C16. A send that fails loses nothing: however many changes the user makes while the request is
  under way, after it fails the queue holds the changes that were being sent followed by the new
  ones, in order, and a timer is set that will send them.
\<close>

fun more_changes :: "(int \<times> 'v doc \<times> 'v records_diff) list \<Rightarrow> 'v board_client \<Rightarrow> 'v board_client" where
  "more_changes [] c = c"
| "more_changes ((now, d, ch) # es) c =
     (let (c', flush) = on_change now d ch c
      in more_changes es (if flush then fst (send c') else c'))"

definition change_patches :: "(int \<times> 'v doc \<times> 'v records_diff) list \<Rightarrow> 'v wire_patch list" where
  "change_patches es = filter (\<lambda>p. \<not> isEmptyPatch p) (map (\<lambda>e. diffToPatch (snd (snd e))) es)"

lemma send_in_flight: "bc_inFlight c \<Longrightarrow> send c = (c\<lparr>bc_timer := None\<rparr>, None)"
  by (simp add: send_def Let_def)

lemma more_changes_in_flight:
  "bc_inFlight c \<Longrightarrow> bc_inFlight (more_changes es c) \<and> bc_sending (more_changes es c) = bc_sending c \<and>
    bc_queue (more_changes es c) = bc_queue c @ change_patches es"
proof (induction es arbitrary: c)
  case Nil
  then show ?case by (simp add: change_patches_def)
next
  case (Cons e es)
  obtain now d ch where e: "e = (now, d, ch)" by (cases e)
  let ?c = "fst (on_change now d ch c)" and ?f = "snd (on_change now d ch c)"
  have 1: "bc_inFlight ?c = bc_inFlight c" "bc_sending ?c = bc_sending c"
    "bc_queue ?c = bc_queue c @ change_patches [e]"
    by (simp_all add: on_change_def Let_def e change_patches_def)
  let ?c' = "if ?f then fst (send ?c) else ?c"
  have 2: "bc_inFlight ?c'" "bc_sending ?c' = bc_sending c" "bc_queue ?c' = bc_queue c @ change_patches [e]"
    using 1 Cons.prems by (simp_all add: send_in_flight)
  have "change_patches (e # es) = change_patches [e] @ change_patches es"
    by (simp add: change_patches_def)
  moreover have "more_changes (e # es) c = more_changes es ?c'"
    by (simp add: e case_prod_beta)
  ultimately show ?case using Cons.IH[OF 2(1)] 2 by simp
qed

text \<open>
  C9. A failed request loses no work: what it carried is put back in front of whatever was drawn
  while it was on its way, in order, and another attempt is scheduled.
\<close>

theorem failed_send_keeps_work:
  assumes "send c = (c', Some req)"
  shows "let c'' = send_failed now (more_changes es c')
    in bc_queue c'' = bc_queue c @ change_patches es \<and> bc_timer c'' \<noteq> None \<and> \<not> bc_inFlight c'' \<and>
       apply_patch d (pr_patch req) = foldl apply_patch d (bc_queue c)"
proof -
  have "bc_inFlight c'" "bc_sending c' = bc_queue c" "bc_queue c' = []" "bc_queue c \<noteq> []"
    "pr_patch req = squash (bc_queue c)"
    using assms by (auto simp: send_def Let_def split: if_splits)
  with more_changes_in_flight[of c' es] show ?thesis
    by (auto simp: Let_def send_failed_def send_finally_def apply_squash)
qed

definition drawing :: "int board_client" where
  "drawing = (new_client ''c1'' Map.empty 3)\<lparr>bc_queue := [\<lparr>wp_put = [(''shape:a'', 1)], wp_remove = []\<rparr>]\<rparr>"

lemma failed_send_keeps_work_witness:
  "bc_queue (send_failed 50 (fst (send drawing))) = bc_queue drawing"
proof -
  obtain c' req where s: "send drawing = (c', Some req)"
    by (simp add: send_def drawing_def new_client_def squash_def squash_one_def squash_put_def
        isEmptyPatch_def Let_def)
  show ?thesis using failed_send_keeps_work[OF s, of 50 "[]"]
    by (simp add: s Let_def change_patches_def)
qed

subsection \<open>A viewer follows the board\<close>

text \<open>
  The board and one client that only watches (a read-only member, or an editor with nothing
  unsent). The stream may deliver any event that was ever sent, any number of times and in any
  order, and may lose it; a re-read captures the room's document when the server answers and may
  arrive at any later time. \<open>w_hist\<close> is a ghost: the document the room held at each revision.
\<close>

datatype 'v stream_event = Patch "'v patch_frame" | DocChanged int

record 'v world =
  w_room :: "'v room"
  w_hist :: "int \<Rightarrow> 'v doc"
  w_events :: "'v stream_event list"
  w_snaps :: "('v doc \<times> int) list"
  w_viewer :: "'v board_client"

definition publishPatch :: "string \<Rightarrow> 'v applied \<Rightarrow> 'v stream_event list" where
  "publishPatch clientId a =
     (if isEmptyPatch (ap_patch a) then []
      else [Patch \<lparr>pf_rev = ap_rev a, pf_clientId = clientId, pf_patch = ap_patch a\<rparr>])"

inductive world_step :: "'v raw_ops \<Rightarrow> ('v wire_patch \<Rightarrow> bool) \<Rightarrow> 'v world \<Rightarrow> 'v world \<Rightarrow> bool"
  for ops acc where
  accepted: "room_apply ops (w_room w) req = (r, Inr a) \<Longrightarrow> req_ok req \<Longrightarrow>
    pr_clientId req \<noteq> bc_id (w_viewer w) \<Longrightarrow>
    world_step ops acc w (w\<lparr>w_room := r, w_hist := (w_hist w)(rm_rev r := room_doc r),
      w_events := w_events w @ publishPatch (pr_clientId req) a\<rparr>)"
| refused: "room_apply ops (w_room w) req = (w_room w, Inl e) \<Longrightarrow> world_step ops acc w w"
| replaced: "r = room_replace ops (w_room w) store \<Longrightarrow> distinct (map fst store) \<Longrightarrow>
    world_step ops acc w (w\<lparr>w_room := r, w_hist := (w_hist w)(rm_rev r := room_doc r),
      w_events := w_events w @ [DocChanged (rm_rev r)]\<rparr>)"
| frame: "Patch f \<in> set (w_events w) \<Longrightarrow>
    world_step ops acc w (w\<lparr>w_viewer := fst (onFrame acc f (w_viewer w))\<rparr>)"
| stream: "world_step ops acc w (w\<lparr>w_viewer := setLive live (w_viewer w)\<rparr>)"
| reread: "world_step ops acc w (w\<lparr>w_snaps := (room_doc (w_room w), rm_rev (w_room w)) # w_snaps w\<rparr>)"
| reread_done: "(d, r) \<in> set (w_snaps w) \<Longrightarrow>
    world_step ops acc w (w\<lparr>w_viewer := resync_ok d r (w_viewer w)\<rparr>)"
| reread_failed: "world_step ops acc w (w\<lparr>w_viewer := resync_failed (w_viewer w)\<rparr>)"

inductive world_reach :: "'v raw_ops \<Rightarrow> ('v wire_patch \<Rightarrow> bool) \<Rightarrow> 'v world \<Rightarrow> bool" for ops acc where
  init: "room_inv ops (rm_rev r) r \<Longrightarrow> world_reach ops acc
    \<lparr>w_room = r, w_hist = (\<lambda>_. room_doc r), w_events = [], w_snaps = [],
     w_viewer = new_client i (room_doc r) (rm_rev r)\<rparr>"
| step: "world_reach ops acc w \<Longrightarrow> world_step ops acc w w' \<Longrightarrow> world_reach ops acc w'"

definition event_ok :: "'v world \<Rightarrow> 'v stream_event \<Rightarrow> bool" where
  "event_ok w ev \<longleftrightarrow> (case ev of DocChanged r \<Rightarrow> r \<le> rm_rev (w_room w)
     | Patch f \<Rightarrow> pf_rev f \<le> rm_rev (w_room w) \<and> pf_clientId f \<noteq> bc_id (w_viewer w) \<and>
         w_hist w (pf_rev f) = apply_patch (w_hist w (pf_rev f - 1)) (pf_patch f))"

definition world_inv :: "'v raw_ops \<Rightarrow> 'v world \<Rightarrow> bool" where
  "world_inv ops w \<longleftrightarrow>
     room_inv ops (rm_rev (w_room w)) (w_room w) \<and>
     w_hist w (rm_rev (w_room w)) = room_doc (w_room w) \<and>
     (\<forall>ev \<in> set (w_events w). event_ok w ev) \<and>
     (\<forall>(d, r) \<in> set (w_snaps w). d = w_hist w r \<and> r \<le> rm_rev (w_room w)) \<and>
     bc_doc (w_viewer w) = w_hist w (bc_rev (w_viewer w)) \<and>
     bc_rev (w_viewer w) \<le> rm_rev (w_room w)"

lemma world_inv_grow:
  assumes "world_inv ops w" "rm_rev r = rm_rev (w_room w) + 1" "room_inv ops (rm_rev r) r"
    and "\<forall>ev \<in> set evs. event_ok (w\<lparr>w_room := r, w_hist := (w_hist w)(rm_rev r := room_doc r)\<rparr>) ev"
  shows "world_inv ops (w\<lparr>w_room := r, w_hist := (w_hist w)(rm_rev r := room_doc r), w_events := w_events w @ evs\<rparr>)"
  using assms by (fastforce simp: world_inv_def event_ok_def split: stream_event.splits)

lemma world_inv_accepted:
  assumes inv: "world_inv ops w" and ap: "room_apply ops (w_room w) req = (r, Inr a)"
    and ok: "req_ok req" and other: "pr_clientId req \<noteq> bc_id (w_viewer w)"
  shows "world_inv ops (w\<lparr>w_room := r, w_hist := (w_hist w)(rm_rev r := room_doc r),
      w_events := w_events w @ publishPatch (pr_clientId req) a\<rparr>)"
proof -
  have room: "room_inv ops (rm_rev (w_room w)) (w_room w)" and
    hist: "w_hist w (rm_rev (w_room w)) = room_doc (w_room w)"
    using inv by (auto simp: world_inv_def)
  have b: "room_inv ops (rm_rev r) r" "room_doc r = apply_patch (room_doc (w_room w)) (ap_patch a)"
    "ap_rev a = rm_rev r"
    "rm_rev r = rm_rev (w_room w) + (if isEmptyPatch (ap_patch a) then 0 else 1)"
    using room_apply_broadcast_aux[OF room ok ap] by auto
  show ?thesis
  proof (cases "isEmptyPatch (ap_patch a)")
    case True
    then have same: "rm_rev r = rm_rev (w_room w)" "room_doc r = room_doc (w_room w)"
      using b by (simp_all add: apply_patch_empty)
    then have "(w_hist w)(rm_rev r := room_doc r) = w_hist w" using hist by auto
    with inv b(1) same True show ?thesis
      by (auto simp: world_inv_def publishPatch_def event_ok_def split: stream_event.splits)
  next
    case False
    then have "rm_rev r = rm_rev (w_room w) + 1" using b(4) by simp
    then show ?thesis
      using False b hist other
      by (intro world_inv_grow[OF inv]) (auto simp: publishPatch_def event_ok_def)
  qed
qed

lemma classify_apply: "classifyFrame r i a m = Apply \<Longrightarrow> r = a + 1"
  by (auto simp: classifyFrame_def split: if_splits)

lemma world_inv_frame:
  assumes inv: "world_inv ops w" and f: "Patch f \<in> set (w_events w)"
  shows "world_inv ops (w\<lparr>w_viewer := fst (onFrame acc f (w_viewer w))\<rparr>)"
proof -
  let ?c = "w_viewer w"
  have ev: "pf_rev f \<le> rm_rev (w_room w)" "pf_clientId f \<noteq> bc_id ?c"
    "w_hist w (pf_rev f) = apply_patch (w_hist w (pf_rev f - 1)) (pf_patch f)"
    using inv f by (auto simp: world_inv_def event_ok_def split: stream_event.splits)
  have doc: "bc_doc ?c = w_hist w (bc_rev ?c)" and le: "bc_rev ?c \<le> rm_rev (w_room w)"
    using inv by (auto simp: world_inv_def)
  let ?c' = "fst (onFrame acc f ?c)"
  have "bc_id ?c' = bc_id ?c \<and> bc_doc ?c' = w_hist w (bc_rev ?c') \<and> bc_rev ?c' \<le> rm_rev (w_room w)"
    using ev doc le
    by (cases "pf_rev f = bc_rev ?c + 1") (auto simp: onFrame_def Let_def nextRev_def classifyFrame_def)
  with inv show ?thesis
    by (auto simp: world_inv_def event_ok_def split: stream_event.splits)
qed

lemma world_inv_step:
  assumes "world_step ops acc w w'" "world_inv ops w"
  shows "world_inv ops w'"
  using assms
proof cases
  case (accepted req r a)
  then show ?thesis using world_inv_accepted[OF assms(2)] by simp
next
  case (replaced r store)
  have "room_inv ops (rm_rev r) r" using replaced by (simp add: room_inv_def room_replace_def)
  moreover have "rm_rev r = rm_rev (w_room w) + 1" using replaced by (simp add: room_replace_def)
  ultimately show ?thesis
    unfolding replaced(1) by (intro world_inv_grow[OF assms(2)]) (auto simp: event_ok_def)
next
  case (frame f)
  then show ?thesis using world_inv_frame[OF assms(2)] by simp
qed (use assms(2) in \<open>auto simp: world_inv_def event_ok_def setLive_def resync_ok_def resync_failed_def
        split: stream_event.splits\<close>)

lemma world_reach_inv: "world_reach ops acc w \<Longrightarrow> world_inv ops w"
proof (induction rule: world_reach.induct)
  case (init r i)
  then show ?case by (simp add: world_inv_def new_client_def)
next
  case (step w w')
  then show ?case using world_inv_step by blast
qed


definition demo_world :: "(int \<times> (string \<times> string) option) world" where
  "demo_world = \<lparr>w_room = demo_room, w_hist = (\<lambda>_. room_doc demo_room), w_events = [], w_snaps = [],
     w_viewer = new_client ''v'' (room_doc demo_room) (rm_rev demo_room)\<rparr>"


subsection \<open>Frames in order\<close>

text \<open>
  C17. On a healthy stream nobody re-reads: a client at the revision before the first frame that
  is handed consecutive frames of other clients applies every one of them, in order, and ends at
  the last revision without asking for the document.
\<close>

definition consecutive :: "int \<Rightarrow> 'v patch_frame list \<Rightarrow> bool" where
  "consecutive r fs \<longleftrightarrow> map pf_rev fs = map (\<lambda>k. r + 1 + int k) [0..<length fs]"

fun on_frames :: "('v wire_patch \<Rightarrow> bool) \<Rightarrow> 'v patch_frame list \<Rightarrow> 'v board_client \<Rightarrow> 'v board_client \<times> bool" where
  "on_frames acc [] c = (c, False)"
| "on_frames acc (f # fs) c =
     (case onFrame acc f c of (c', resync) \<Rightarrow>
       if resync then (c', True) else on_frames acc fs c')"

lemma consecutive_Cons: "consecutive r (f # fs) \<longleftrightarrow> pf_rev f = r + 1 \<and> consecutive (r + 1) fs"
proof -
  have "map (\<lambda>k. r + 1 + int k) [0..<length (f # fs)] =
      (r + 1) # map (\<lambda>k. r + 1 + 1 + int k) [0..<length fs]"
    by (simp add: map_upt_Suc del: upt_Suc)
  then show ?thesis by (simp add: consecutive_def del: upt_Suc)
qed

text \<open>
  Frames of other clients that arrive in revision order are all applied, with no re-read of the
  board.
\<close>

theorem in_order_delivery:
  assumes "consecutive (bc_rev c) fs" "\<forall>f \<in> set fs. acc (pf_patch f) \<and> pf_clientId f \<noteq> bc_id c"
  shows "\<exists>c'. on_frames acc fs c = (c', False) \<and> bc_rev c' = bc_rev c + int (length fs) \<and>
    bc_doc c' = foldl apply_patch (bc_doc c) (map pf_patch fs)"
  using assms
proof (induction fs arbitrary: c)
  case Nil
  then show ?case by simp
next
  case (Cons f fs)
  let ?c = "c\<lparr>bc_doc := apply_patch (bc_doc c) (pf_patch f), bc_rev := bc_rev c + 1, bc_status := Live\<rparr>"
  have one: "onFrame acc f c = (?c, False)"
    using Cons.prems by (simp add: onFrame_def classifyFrame_def nextRev_def consecutive_Cons Let_def)
  have "consecutive (bc_rev ?c) fs" using Cons.prems(1) by (simp add: consecutive_Cons)
  from Cons.IH[OF this] Cons.prems(2) one show ?case by auto
qed

lemma in_order_delivery_witness:
  "\<exists>c'. on_frames (\<lambda>_. True)
      [\<lparr>pf_rev = 4, pf_clientId = ''c2'', pf_patch = \<lparr>wp_put = [(''shape:a'', 1::int)], wp_remove = []\<rparr>\<rparr>,
       \<lparr>pf_rev = 5, pf_clientId = ''c3'', pf_patch = \<lparr>wp_put = [], wp_remove = [''shape:a'']\<rparr>\<rparr>]
      (new_client ''c1'' Map.empty 3) = (c', False) \<and> bc_rev c' = 5"
  using in_order_delivery[of "new_client ''c1'' Map.empty 3"
    "[\<lparr>pf_rev = 4, pf_clientId = ''c2'', pf_patch = \<lparr>wp_put = [(''shape:a'', 1::int)], wp_remove = []\<rparr>\<rparr>,
      \<lparr>pf_rev = 5, pf_clientId = ''c3'', pf_patch = \<lparr>wp_put = [], wp_remove = [''shape:a'']\<rparr>\<rparr>]"
    "\<lambda>_. True"]
  by (fastforce simp: consecutive_Cons consecutive_def new_client_def)

subsection \<open>Where an editor can drift from the board\<close>

text \<open>
  The answer to a client's own request carries the room's revision and raises the revision the
  client holds, also past frames of other clients it has not been handed yet. Such a frame is then
  old news to it: it is neither applied nor taken for a gap, so the client goes on, live and with
  nothing pending, without that edit.
\<close>

theorem overtaken_frame_is_lost:
  assumes "pf_rev f \<le> r" "bc_queue c = []"
  shows "let c1 = send_ok now r [] c; (c2, reread) = onFrame acc f c1
    in \<not> reread \<and> bc_doc c2 = bc_doc c \<and> bc_rev c2 = max (bc_rev c) r \<and> bc_status c2 = Live \<and>
       \<not> bc_pending c2"
  using assms
  by (auto simp: send_ok_def send_finally_def onFrame_def classifyFrame_def nextRev_def Let_def)

text \<open>
  The run: a peer's shape is accepted as revision 5, then our own as revision 6, our answer arrives
  before the peer's frame. Both clients and the room are at revision 6, and we do not have the shape.
\<close>

definition peer_req :: "(int \<times> (string \<times> string) option) patch_request" where
  "peer_req = \<lparr>pr_clientId = ''c2'', pr_seq = 1, pr_baseRev = 4,
     pr_patch = \<lparr>wp_put = [(''shape:p'', (3, None))], wp_remove = []\<rparr>\<rparr>"

definition our_req :: "(int \<times> (string \<times> string) option) patch_request" where
  "our_req = \<lparr>pr_clientId = ''c1'', pr_seq = 1, pr_baseRev = 4,
     pr_patch = \<lparr>wp_put = [(''shape:q'', (3, None))], wp_remove = []\<rparr>\<rparr>"

definition us :: "(int \<times> (string \<times> string) option) board_client" where
  "us = (new_client ''c1'' ((room_doc demo_room)(''shape:q'' \<mapsto> (3, None))) 4)
     \<lparr>bc_seq := 1, bc_inFlight := True, bc_sending := [pr_patch our_req]\<rparr>"

definition two_rooms :: "(int \<times> (string \<times> string) option) room \<times> (int \<times> (string \<times> string) option) room" where
  "two_rooms = (let r5 = fst (room_apply demo_ops demo_room peer_req)
                in (r5, fst (room_apply demo_ops r5 our_req)))"

lemma overtaken_frame_is_lost_witness:
  "let r6 = snd two_rooms;
       f5 = \<lparr>pf_rev = 5, pf_clientId = ''c2'', pf_patch = pr_patch peer_req\<rparr>;
       c = fst (onFrame (\<lambda>_. True) f5 (send_ok 0 (rm_rev r6) [] us))
   in rm_rev r6 = 6 \<and> bc_rev c = 6 \<and> bc_status c = Live \<and> \<not> bc_pending c \<and>
      room_doc r6 ''shape:p'' = Some (3, None) \<and> bc_doc c ''shape:p'' = None"
proof -
  have room: "rm_rev (snd two_rooms) = 6" "room_doc (snd two_rooms) ''shape:p'' = Some (3, None)"
    by (simp_all add: two_rooms_def room_eval demo_ops_def demo_room_def peer_req_def our_req_def
        newRoom_def room_doc_def)
  have us: "bc_queue us = []" "bc_rev us = 4" "bc_doc us ''shape:p'' = None"
    by (simp_all add: us_def new_client_def room_doc_def demo_room_def newRoom_def)
  let ?f = "\<lparr>pf_rev = 5, pf_clientId = ''c2'', pf_patch = pr_patch peer_req\<rparr>"
  show ?thesis
    using overtaken_frame_is_lost[of ?f "6" us 0 "\<lambda>_. True"] us room
    by (auto simp: Let_def case_prod_beta)
qed

text \<open>
  The room recognises a repeated submission by the client's counter, but the client counts
  every attempt: when an answer is lost after the room accepted the patch, the next attempt carries
  the same work under a fresh number, so it is not recognised as a retry.
\<close>

theorem retry_is_not_recognised:
  assumes "send c = (c1, Some req)" "room_apply ops r req = (r1, Inr a)"
    and "\<not> (\<exists>l. map_of (rm_lastSeq r) (bc_id c) = Some l \<and> pr_seq req \<le> l)"
    and "send (send_failed now c1) = (c2, Some req')"
  shows "map_of (rm_lastSeq r1) (pr_clientId req') = Some (pr_seq req) \<and> pr_seq req < pr_seq req' \<and>
    pr_patch req' = pr_patch req"
proof -
  have r: "pr_clientId req = bc_id c" "pr_seq req = bc_seq c + 1" "pr_patch req = squash (bc_queue c)"
    "bc_id c1 = bc_id c" "bc_seq c1 = bc_seq c + 1" "bc_sending c1 = bc_queue c" "bc_queue c1 = []"
    using assms(1) by (auto simp: send_def Let_def split: if_splits)
  have r': "pr_clientId req' = bc_id c" "pr_seq req' = bc_seq c + 2" "pr_patch req' = squash (bc_queue c)"
    using assms(4) r(4-7)
    by (auto simp: send_def send_failed_def send_finally_def Let_def split: if_splits)
  have "map_of (rm_lastSeq r1) (bc_id c) = Some (pr_seq req)"
    using assms(2)
  proof (cases rule: room_apply_Inr)
    case retry
    then have False using assms(3) unfolding r(1) by blast
    then show ?thesis ..
  next
    case (idle r3 out)
    then show ?thesis by (simp add: r(1) update_conv')
  next
    case (live r3 out)
    have "rm_lastSeq (trimTombs q) = rm_lastSeq q" for q :: "'a room" by (simp add: trimTombs_def Let_def)
    then show ?thesis by (simp add: live(5) r(1) update_conv')
  qed
  with r r' show ?thesis by simp
qed

definition mover :: "(int \<times> (string \<times> string) option) board_client" where
  "mover = (new_client ''c1'' (room_doc demo_room) 4)
     \<lparr>bc_queue := [\<lparr>wp_put = [(''shape:a'', (6, None))], wp_remove = []\<rparr>]\<rparr>"

definition peer_move :: "(int \<times> (string \<times> string) option) patch_request" where
  "peer_move = \<lparr>pr_clientId = ''c2'', pr_seq = 1, pr_baseRev = 5,
     pr_patch = \<lparr>wp_put = [(''shape:a'', (8, None))], wp_remove = []\<rparr>\<rparr>"

text \<open>The retry then puts back the value that a peer has meanwhile replaced.\<close>

lemma retry_is_not_recognised_witness:
  "let (c1, q1) = send mover;
       r5 = fst (room_apply demo_ops demo_room (the q1));
       r6 = fst (room_apply demo_ops r5 peer_move);
       q2 = snd (send (send_failed 0 c1));
       r7 = fst (room_apply demo_ops r6 (the q2))
   in map_of (rm_lastSeq r5) ''c1'' = Some 1 \<and> pr_seq (the q2) = 2 \<and>
      room_doc r6 ''shape:a'' = Some (8, None) \<and> room_doc r7 ''shape:a'' = Some (6, None)"
proof -
  let ?p = "\<lparr>wp_put = [(''shape:a'', (6, None))], wp_remove = []\<rparr>"
  let ?q = "\<lambda>n. \<lparr>pr_clientId = ''c1'', pr_seq = n, pr_baseRev = 4, pr_patch = ?p\<rparr>"
  have q1: "snd (send mover) = Some (?q 1)"
    and q2: "snd (send (send_failed 0 (fst (send mover)))) = Some (?q 2)"
    by (simp_all add: send_def send_failed_def send_finally_def mover_def new_client_def squash_def
        squash_one_def squash_put_def isEmptyPatch_def Let_def)
  let ?r5 = "fst (room_apply demo_ops demo_room (?q 1))"
  let ?r6 = "fst (room_apply demo_ops ?r5 peer_move)"
  have r5: "\<exists>a. snd (room_apply demo_ops demo_room (?q 1)) = Inr a"
    and r6: "room_doc ?r6 ''shape:a'' = Some (8, None)"
    and r7: "room_doc (fst (room_apply demo_ops ?r6 (?q 2))) ''shape:a'' = Some (6, None)"
    by (simp_all add: room_eval demo_ops_def demo_room_def newRoom_def peer_move_def room_doc_def)
  obtain a where a: "room_apply demo_ops demo_room (?q 1) = (?r5, Inr a)"
    using r5 by (metis prod.collapse)
  have s1: "send mover = (fst (send mover), Some (?q 1))" using q1 by (metis prod.collapse)
  have s2: "send (send_failed 0 (fst (send mover))) =
      (fst (send (send_failed 0 (fst (send mover)))), Some (?q 2))" using q2 by (metis prod.collapse)
  have "map_of (rm_lastSeq ?r5) ''c1'' = Some 1"
    using retry_is_not_recognised[OF s1 a _ s2] by (simp add: demo_room_def newRoom_def)
  then show ?thesis
    by (simp add: case_prod_beta Let_def q1 q2 r6 r7)
qed

end
