(* ===== verification/ChatTyping.thy ===== *)
theory ChatTyping
  imports JsPrelude "HOL-Library.AList"
begin

section \<open>Who is typing\<close>

text \<open>
  \<open>chat/typing.ts\<close>: the module-level store of typing pings, with the clock as an argument
  (milliseconds), what the composer's throttle sends, and the split of the chat pane
  (\<open>chat/chatLayout.ts\<close>). A \<open>Map\<close> is an association list in insertion order.
\<close>

subsection \<open>The store\<close>

record chat_typing_event =
  te_channelId :: string
  te_userId :: string
  te_name :: string

record typing_entry =
  ty_name :: string
  ty_at :: int

type_synonym typing_store = "((string \<times> string) \<times> (string \<times> typing_entry) list) list"

definition TYPING_TTL_MS :: int where "TYPING_TTL_MS = 5000"
definition PING_INTERVAL_MS :: int where "PING_INTERVAL_MS = 3000"

definition typing_of :: "typing_store \<Rightarrow> string \<Rightarrow> string \<Rightarrow> (string \<times> typing_entry) list" where
  "typing_of st projectId channelId = nullish (map_of st (projectId, channelId)) []"

definition noteTyping :: "int \<Rightarrow> string \<Rightarrow> chat_typing_event \<Rightarrow> typing_store \<Rightarrow> typing_store" where
  "noteTyping now projectId ev st =
     (if te_userId ev = [] then st
      else AList.update (projectId, te_channelId ev)
             (AList.update (te_userId ev)
               \<lparr>ty_name = (if te_name ev = [] then ''Someone'' else te_name ev), ty_at = now\<rparr>
               (typing_of st projectId (te_channelId ev))) st)"

definition clearTyping :: "string \<Rightarrow> string \<Rightarrow> string \<Rightarrow> typing_store \<Rightarrow> typing_store" where
  "clearTyping projectId channelId userId st =
     (if userId = [] then st
      else case map_of st (projectId, channelId) of
             None \<Rightarrow> st
           | Some m \<Rightarrow> AList.update (projectId, channelId) (AList.delete userId m) st)"

text \<open>One tick of a mounted indicator: the store without the expired entries, and the names.\<close>

definition fresh :: "int \<Rightarrow> typing_entry \<Rightarrow> bool" where
  "fresh now e = (\<not> now - ty_at e \<ge> TYPING_TTL_MS)"

definition compute_names :: "int \<Rightarrow> string \<Rightarrow> string \<Rightarrow> string \<Rightarrow> typing_store \<Rightarrow> typing_store \<times> string list" where
  "compute_names now projectId channelId excludeUserId st =
     (case map_of st (projectId, channelId) of
        None \<Rightarrow> (st, [])
      | Some m \<Rightarrow>
          (AList.update (projectId, channelId) (filter (\<lambda>e. fresh now (snd e)) m) st,
           sort (map (ty_name \<circ> snd) (filter (\<lambda>e. fresh now (snd e) \<and> fst e \<noteq> excludeUserId) m))))"

subsection \<open>The composer's throttle\<close>

text \<open>The last ping's time and a keystroke: the new state, and whether a ping is sent.\<close>

definition typing_ping :: "int \<Rightarrow> int \<Rightarrow> int \<times> bool" where
  "typing_ping lastPing now =
     (if now - lastPing < PING_INTERVAL_MS then (lastPing, False) else (now, True))"

fun pings :: "int \<Rightarrow> int list \<Rightarrow> int list" where
  "pings lastPing [] = []"
| "pings lastPing (k # ks) =
     (case typing_ping lastPing k of (l, sent) \<Rightarrow> (if sent then k # pings l ks else pings l ks))"

subsection \<open>Lemmas\<close>

lemma typing_of_note: "typing_of (noteTyping now p ev st) q c =
    (if te_userId ev \<noteq> [] \<and> q = p \<and> c = te_channelId ev
     then AList.update (te_userId ev)
       \<lparr>ty_name = (if te_name ev = [] then ''Someone'' else te_name ev), ty_at = now\<rparr> (typing_of st q c)
     else typing_of st q c)"
  by (simp add: noteTyping_def typing_of_def update_conv')

lemma typing_of_clear: "typing_of (clearTyping p c u st) q d =
    (if u \<noteq> [] \<and> q = p \<and> d = c then AList.delete u (typing_of st q d) else typing_of st q d)"
  by (auto simp: clearTyping_def typing_of_def update_conv' split: option.splits)

definition shown_users :: "int \<Rightarrow> string \<Rightarrow> (string \<times> typing_entry) list \<Rightarrow> (string \<times> typing_entry) list" where
  "shown_users now exclude m = filter (\<lambda>e. fresh now (snd e) \<and> fst e \<noteq> exclude) m"

lemma compute_names_snd: "snd (compute_names now p c x st) = sort (map (ty_name \<circ> snd) (shown_users now x (typing_of st p c)))"
  by (simp add: compute_names_def typing_of_def shown_users_def split: option.splits)

text \<open>A ping is sent, at the latest, at the first keystroke three seconds after the last one.\<close>

fun gaps_below :: "int \<Rightarrow> int \<Rightarrow> int list \<Rightarrow> bool" where
  "gaps_below g t [] = True"
| "gaps_below g t (k # ks) = (t \<le> k \<and> k - t < g \<and> gaps_below g k ks)"

lemma pings_within:
  assumes "gaps_below g t ks" "lastPing \<le> t" "t - lastPing < PING_INTERVAL_MS"
  shows "gaps_below (PING_INTERVAL_MS + g) lastPing (pings lastPing ks)"
  using assms
proof (induction ks arbitrary: t lastPing)
  case Nil
  then show ?case by simp
next
  case (Cons k ks)
  show ?case
  proof (cases "k - lastPing < PING_INTERVAL_MS")
    case True
    with Cons.prems Cons.IH[of k lastPing] show ?thesis by (simp add: typing_ping_def)
  next
    case False
    with Cons.prems Cons.IH[of k k] show ?thesis
      by (simp add: typing_ping_def PING_INTERVAL_MS_def)
  qed
qed

lemma pings_last:
  assumes "gaps_below g t ks" "lastPing \<le> t" "t - lastPing < PING_INTERVAL_MS" "ks \<noteq> []" "g \<le> PING_INTERVAL_MS"
  shows "last ks - last (lastPing # pings lastPing ks) < PING_INTERVAL_MS"
  using assms
proof (induction ks arbitrary: t lastPing)
  case Nil
  then show ?case by simp
next
  case (Cons k ks)
  show ?case
  proof (cases "k - lastPing < PING_INTERVAL_MS")
    case True
    with Cons.prems Cons.IH[of k lastPing] show ?thesis by (cases ks) (auto simp: typing_ping_def)
  next
    case False
    with Cons.prems Cons.IH[of k k] show ?thesis
      by (cases ks) (auto simp: typing_ping_def PING_INTERVAL_MS_def)
  qed
qed

text \<open>
  A continuous typist never flickers off: if keystrokes come less than two seconds apart, the
  pings that are sent come less than the display time apart, so each arrives while the previous one
  is still shown.
\<close>

theorem typist_never_flickers:
  assumes "gaps_below 2000 t ks" "ks \<noteq> []"
  shows "gaps_below TYPING_TTL_MS t (pings t ks) \<and> last ks - last (t # pings t ks) < PING_INTERVAL_MS"
proof -
  have "gaps_below (PING_INTERVAL_MS + 2000) t (pings t ks)"
    using assms(1) by (rule pings_within) (simp_all add: PING_INTERVAL_MS_def)
  moreover have "last ks - last (t # pings t ks) < PING_INTERVAL_MS"
    using assms by (intro pings_last[of 2000 t]) (simp_all add: PING_INTERVAL_MS_def)
  ultimately show ?thesis by (simp add: PING_INTERVAL_MS_def TYPING_TTL_MS_def)
qed

lemma typist_never_flickers_witness:
  "pings 10000 [11500, 13400, 15000, 16900] = [13400, 16900] \<and>
    gaps_below TYPING_TTL_MS 10000 (pings 10000 [11500, 13400, 15000, 16900])"
  using typist_never_flickers[of 10000 "[11500, 13400, 15000, 16900]"]
  by (simp add: typing_ping_def PING_INTERVAL_MS_def)

subsection \<open>The split of the chat pane\<close>

definition APP_RAIL_WIDTH :: int where "APP_RAIL_WIDTH = 260"
definition THREAD_BASIS :: int where "THREAD_BASIS = 360"
definition THREAD_MIN :: int where "THREAD_MIN = 320"
definition MESSAGES_MIN :: int where "MESSAGES_MIN = 320"
definition SPLIT_MIN :: int where "SPLIT_MIN = MESSAGES_MIN + THREAD_MIN"

definition splitWidth :: "int \<Rightarrow> bool \<Rightarrow> int" where
  "splitWidth outerW railOpen = max 0 (outerW - (if railOpen then APP_RAIL_WIDTH else 0))"

definition isCompact :: "int \<Rightarrow> bool \<Rightarrow> bool" where
  "isCompact outerW railOpen = (if outerW \<le> 0 then False else splitWidth outerW railOpen < SPLIT_MIN)"

lemma split_fits:
  "0 < w \<Longrightarrow> \<not> isCompact w r \<Longrightarrow> MESSAGES_MIN + THREAD_MIN \<le> w - (if r then APP_RAIL_WIDTH else 0)"
  by (auto simp: isCompact_def splitWidth_def SPLIT_MIN_def MESSAGES_MIN_def THREAD_MIN_def split: if_splits)

end
