(* ===== verification/ChatCache.thy ===== *)
theory ChatCache
  imports ChatTyping
begin

section \<open>The chat caches\<close>

text \<open>
  \<open>chat/cache.ts\<close>: how the events of a project's chat stream and the optimistic sends of
  \<open>useChatMutations\<close> (\<open>api/queries.ts\<close>) change the cached timelines, threads, channel lists and
  unread summaries. The query cache is what its library documents: a map from query keys to data,
  where \<open>setQueryData\<close> hands the present value (or \<open>undefined\<close>) to an updater; the keys passed to
  \<open>invalidateQueries\<close> are recorded. Timestamps are strings, compared as JavaScript compares them.
\<close>

subsection \<open>Types\<close>

record chat_reaction =
  rx_userId :: string
  rx_emoji :: string
  rx_at :: string

record chat_message =
  cm_seq :: int
  cm_threadRoot :: "int option"
  cm_authorId :: string
  cm_authorName :: string
  cm_clientMsgId :: string
  cm_body :: string
  cm_createdAt :: string
  cm_editedAt :: "string option"
  cm_deleted :: bool
  cm_replyCount :: int
  cm_lastReplyAt :: "string option"
  cm_reactions :: "chat_reaction list"
  cm_pending :: bool

record chat_channel =
  ch_id :: string
  ch_name :: string
  ch_topic :: string
  ch_isRoot :: bool
  ch_isPrivate :: bool
  ch_createdBy :: string
  ch_createdAt :: string
  ch_archivedAt :: "string option"
  ch_memberIds :: "string list option"

record chat_caps =
  cap_post :: bool
  cap_createChannel :: bool
  cap_moderate :: bool

record chat_unread =
  cu_channelId :: string
  cu_lastReadSeq :: int
  cu_unreadCount :: int
  cu_latestSeq :: int

record chat_message_list =
  ml_messages :: "chat_message list"
  ml_latestSeq :: int

record chat_channel_list =
  cl_channels :: "chat_channel list"
  cl_capabilities :: chat_caps

type_synonym unread_list = "chat_unread list"

datatype chat_event =
    MessageCreated string chat_message
  | MessageUpdated string chat_message
  | ReactionAdded string chat_message
  | ReactionRemoved string chat_message
  | MessageDeleted string chat_message
  | ChannelCreated chat_channel
  | ChannelUpdated chat_channel
  | ChannelArchived chat_channel
  | MemberAdded
  | MemberRemoved
  | ChannelActivity string int
  | ReadUpdated chat_unread
  | Typing chat_typing_event
  | UnknownEvent

record chat_cache =
  cc_messages :: "string \<times> string \<Rightarrow> chat_message_list option"
  cc_threads :: "string \<times> string \<times> int \<Rightarrow> chat_message_list option"
  cc_unreads :: "string \<Rightarrow> unread_list option"
  cc_channels :: "string \<Rightarrow> chat_channel_list option"
  cc_invalidated :: "string list list"
  cc_typing :: typing_store

definition setQueryData :: "'k \<Rightarrow> ('a option \<Rightarrow> 'a option) \<Rightarrow> ('k \<Rightarrow> 'a option) \<Rightarrow> ('k \<Rightarrow> 'a option)" where
  "setQueryData k f m = m(k := (case f (m k) of None \<Rightarrow> m k | Some v \<Rightarrow> Some v))"

definition invalidate :: "string list \<Rightarrow> chat_cache \<Rightarrow> chat_cache" where
  "invalidate k c = c\<lparr>cc_invalidated := cc_invalidated c @ [k]\<rparr>"

subsection \<open>Messages\<close>

definition num_truthy :: "int option \<Rightarrow> bool" where
  "num_truthy x = (case x of None \<Rightarrow> False | Some n \<Rightarrow> n \<noteq> 0)"

definition same_message :: "chat_message \<Rightarrow> chat_message \<Rightarrow> bool" where
  "same_message msg m =
     ((cm_seq msg > 0 \<and> cm_seq m = cm_seq msg) \<or>
      (cm_clientMsgId msg \<noteq> [] \<and> cm_clientMsgId m = cm_clientMsgId msg))"

definition upsertIntoList :: "chat_message \<Rightarrow> chat_message_list \<Rightarrow> chat_message_list" where
  "upsertIntoList msg cur =
     cur\<lparr>ml_messages :=
           (case find_index (same_message msg) (ml_messages cur) of
              Some ix \<Rightarrow> (ml_messages cur)
                [ix := msg\<lparr>cm_replyCount := max (cm_replyCount msg) (cm_replyCount (ml_messages cur ! ix))\<rparr>]
            | None \<Rightarrow> ml_messages cur @ [msg]),
         ml_latestSeq := max (ml_latestSeq cur) (cm_seq msg)\<rparr>"

definition root_seq :: "chat_message \<Rightarrow> int" where
  "root_seq msg = (if num_truthy (cm_threadRoot msg) then the (cm_threadRoot msg) else cm_seq msg)"

definition upsertMessage :: "string \<Rightarrow> string \<Rightarrow> chat_message \<Rightarrow> chat_cache \<Rightarrow> chat_cache" where
  "upsertMessage projectId channelId msg c =
     (let c = (if \<not> num_truthy (cm_threadRoot msg)
               then c\<lparr>cc_messages := setQueryData (projectId, channelId)
                        (map_option (upsertIntoList msg)) (cc_messages c)\<rparr>
               else c)
      in c\<lparr>cc_threads := setQueryData (projectId, channelId, root_seq msg)
               (map_option (upsertIntoList msg)) (cc_threads c)\<rparr>)"

definition appendPendingMessage :: "string \<Rightarrow> string \<Rightarrow> chat_message \<Rightarrow> chat_cache \<Rightarrow> chat_cache" where
  "appendPendingMessage projectId channelId msg c = upsertMessage projectId channelId msg c"

definition strip :: "string \<Rightarrow> chat_message_list \<Rightarrow> chat_message_list" where
  "strip clientMsgId cur =
     cur\<lparr>ml_messages := filter (\<lambda>m. cm_clientMsgId m \<noteq> clientMsgId) (ml_messages cur)\<rparr>"

definition removePendingMessage :: "string \<Rightarrow> string \<Rightarrow> string \<Rightarrow> chat_cache \<Rightarrow> chat_cache" where
  "removePendingMessage projectId channelId clientMsgId c =
     c\<lparr>cc_messages := setQueryData (projectId, channelId) (map_option (strip clientMsgId)) (cc_messages c),
       cc_threads := (\<lambda>(p, ch, r).
         if p = projectId \<and> ch = channelId
         then map_option (strip clientMsgId) (cc_threads c (p, ch, r))
         else cc_threads c (p, ch, r))\<rparr>"

definition bump_root :: "chat_message \<Rightarrow> int \<Rightarrow> chat_message \<Rightarrow> chat_message" where
  "bump_root reply delta m =
     (if Some (cm_seq m) \<noteq> cm_threadRoot reply then m
      else if delta > 0 \<and> truthy (cm_lastReplyAt m) \<and> the (cm_lastReplyAt m) \<ge> cm_createdAt reply then m
      else m\<lparr>cm_replyCount := max 0 (cm_replyCount m + delta),
             cm_lastReplyAt :=
               (if delta > 0 \<and> (\<not> truthy (cm_lastReplyAt m) \<or> cm_createdAt reply > the (cm_lastReplyAt m))
                then Some (cm_createdAt reply) else cm_lastReplyAt m)\<rparr>)"

definition bumpRootCounters :: "string \<Rightarrow> string \<Rightarrow> chat_message \<Rightarrow> int \<Rightarrow> chat_cache \<Rightarrow> chat_cache" where
  "bumpRootCounters projectId channelId reply delta c =
     c\<lparr>cc_messages := setQueryData (projectId, channelId)
          (map_option (\<lambda>cur. cur\<lparr>ml_messages := map (bump_root reply delta) (ml_messages cur)\<rparr>))
          (cc_messages c)\<rparr>"

subsection \<open>Unread summaries and channels\<close>

definition apply_unread :: "chat_unread \<Rightarrow> unread_list \<Rightarrow> unread_list" where
  "apply_unread u cur =
     (case find_index (\<lambda>e. cu_channelId e = cu_channelId u) cur of
        None \<Rightarrow> cur @ [u]
      | Some ix \<Rightarrow> if cu_lastReadSeq (cur ! ix) > cu_lastReadSeq u then cur else cur[ix := u])"

definition applyUnread :: "string \<Rightarrow> chat_unread \<Rightarrow> chat_cache \<Rightarrow> chat_cache" where
  "applyUnread projectId u c =
     c\<lparr>cc_unreads := setQueryData projectId (map_option (apply_unread u)) (cc_unreads c)\<rparr>"

definition bump_unread :: "string \<Rightarrow> int \<Rightarrow> unread_list \<Rightarrow> unread_list" where
  "bump_unread channelId lastMessageSeq cur =
     (case find_index (\<lambda>e. cu_channelId e = channelId) cur of
        None \<Rightarrow> cur
      | Some ix \<Rightarrow>
          (let e = cur ! ix in
           if lastMessageSeq \<le> cu_latestSeq e \<or> lastMessageSeq \<le> cu_lastReadSeq e then cur
           else cur[ix := e\<lparr>cu_latestSeq := lastMessageSeq, cu_unreadCount := cu_unreadCount e + 1\<rparr>]))"

definition bumpUnread :: "string \<Rightarrow> string \<Rightarrow> int \<Rightarrow> chat_cache \<Rightarrow> chat_cache" where
  "bumpUnread projectId channelId lastMessageSeq c =
     (let unknown = (case cc_unreads c projectId of
            None \<Rightarrow> False
          | Some cur \<Rightarrow> find_index (\<lambda>e. cu_channelId e = channelId) cur = None);
          c = (if unknown then invalidate [''chatUnreads'', projectId] c else c)
      in c\<lparr>cc_unreads := setQueryData projectId
             (map_option (bump_unread channelId lastMessageSeq)) (cc_unreads c)\<rparr>)"

definition upsert_channel :: "chat_channel \<Rightarrow> chat_channel_list \<Rightarrow> chat_channel_list" where
  "upsert_channel channel cur =
     cur\<lparr>cl_channels :=
       (if find_index (\<lambda>c. ch_id c = ch_id channel) (cl_channels cur) \<noteq> None
        then map (\<lambda>c. if ch_id c = ch_id channel then channel else c) (cl_channels cur)
        else cl_channels cur @ [channel])\<rparr>"

definition upsertChannel :: "string \<Rightarrow> chat_channel \<Rightarrow> chat_cache \<Rightarrow> chat_cache" where
  "upsertChannel projectId channel c =
     c\<lparr>cc_channels := setQueryData projectId (map_option (upsert_channel channel)) (cc_channels c)\<rparr>"

subsection \<open>Events\<close>

definition typing_cache :: "(typing_store \<Rightarrow> typing_store) \<Rightarrow> chat_cache \<Rightarrow> chat_cache" where
  "typing_cache f c = c\<lparr>cc_typing := f (cc_typing c)\<rparr>"

fun applyChatEvent :: "int \<Rightarrow> string \<Rightarrow> chat_event \<Rightarrow> chat_cache \<Rightarrow> chat_cache" where
  "applyChatEvent now p (MessageCreated cid msg) c =
     (let c = upsertMessage p cid msg c;
          c = (if num_truthy (cm_threadRoot msg) then bumpRootCounters p cid msg 1 c else c)
      in typing_cache (clearTyping p cid (cm_authorId msg)) c)"
| "applyChatEvent now p (MessageUpdated cid msg) c = upsertMessage p cid msg c"
| "applyChatEvent now p (ReactionAdded cid msg) c = upsertMessage p cid msg c"
| "applyChatEvent now p (ReactionRemoved cid msg) c = upsertMessage p cid msg c"
| "applyChatEvent now p (MessageDeleted cid msg) c =
     (let c = upsertMessage p cid msg c
      in if num_truthy (cm_threadRoot msg) then bumpRootCounters p cid msg (-1) c else c)"
| "applyChatEvent now p (ChannelCreated ch) c = invalidate [''chatUnreads'', p] (upsertChannel p ch c)"
| "applyChatEvent now p (ChannelUpdated ch) c = invalidate [''chatUnreads'', p] (upsertChannel p ch c)"
| "applyChatEvent now p (ChannelArchived ch) c = invalidate [''chatUnreads'', p] (upsertChannel p ch c)"
| "applyChatEvent now p MemberAdded c = invalidate [''chatUnreads'', p] (invalidate [''chatChannels'', p] c)"
| "applyChatEvent now p MemberRemoved c = invalidate [''chatUnreads'', p] (invalidate [''chatChannels'', p] c)"
| "applyChatEvent now p (ChannelActivity cid s) c = bumpUnread p cid s c"
| "applyChatEvent now p (ReadUpdated u) c = applyUnread p u c"
| "applyChatEvent now p (Typing ev) c = typing_cache (noteTyping now p ev) c"
| "applyChatEvent now p UnknownEvent c = c"

text \<open>The optimistic copy \<open>useChatMutations\<close> makes for a send, with a fresh placeholder number.\<close>

definition pending_message :: "int \<Rightarrow> string \<Rightarrow> string \<Rightarrow> string \<Rightarrow> string \<Rightarrow> string \<Rightarrow> int option \<Rightarrow> chat_message" where
  "pending_message now createdAt meId meName clientMsgId body rootSeq =
     \<lparr>cm_seq = - now, cm_threadRoot = rootSeq, cm_authorId = meId, cm_authorName = meName,
      cm_clientMsgId = clientMsgId, cm_body = body, cm_createdAt = createdAt, cm_editedAt = None,
      cm_deleted = False, cm_replyCount = 0, cm_lastReplyAt = None, cm_reactions = [], cm_pending = True\<rparr>"

text \<open>The named \<open>reset\<close> frame of the stream (\<open>chat/useChatEvents.ts\<close>).\<close>

definition on_reset :: "string \<Rightarrow> chat_cache \<Rightarrow> chat_cache" where
  "on_reset p c = invalidate [''chatUnreads'', p] (invalidate [''chatThread'', p]
     (invalidate [''chatMessages'', p] (invalidate [''chatChannels'', p] c)))"

subsection \<open>One list\<close>

definition entries :: "string \<Rightarrow> chat_message_list \<Rightarrow> chat_message list" where
  "entries X l = filter (\<lambda>m. cm_clientMsgId m = X) (ml_messages l)"

definition has_seq :: "int \<Rightarrow> chat_message_list \<Rightarrow> bool" where
  "has_seq n l = (\<exists>m \<in> set (ml_messages l). cm_seq m = n)"

lemma filter_update_neither:
  "i < length xs \<Longrightarrow> \<not> P (xs ! i) \<Longrightarrow> \<not> P y \<Longrightarrow> filter P (xs[i := y]) = filter P xs"
  by (induction xs arbitrary: i) (auto split: nat.splits)

lemma filter_update_single:
  "i < length xs \<Longrightarrow> filter P xs = [xs ! i] \<Longrightarrow> P (xs ! i) \<Longrightarrow> P y \<Longrightarrow> filter P (xs[i := y]) = [y]"
proof (induction xs arbitrary: i)
  case Nil
  then show ?case by simp
next
  case (Cons x xs)
  show ?case
  proof (cases i)
    case 0
    with Cons.prems show ?thesis by simp
  next
    case (Suc j)
    with Cons.prems have "\<not> P x" by (auto split: if_splits simp: filter_eq_Cons_iff nth_mem) (metis filter_empty_conv nth_mem)
    with Cons Suc show ?thesis by simp
  qed
qed

lemma entries_other:
  assumes "cm_clientMsgId o1 \<noteq> X" "\<forall>m \<in> set (ml_messages l). cm_clientMsgId m = X \<longrightarrow> \<not> same_message o1 m"
  shows "entries X (upsertIntoList o1 l) = entries X l"
proof (cases "find_index (same_message o1) (ml_messages l)")
  case None
  with assms show ?thesis by (simp add: entries_def upsertIntoList_def)
next
  case (Some ix)
  note ix = find_index_SomeD[OF Some]
  then have "cm_clientMsgId (ml_messages l ! ix) \<noteq> X" using assms(2) nth_mem by blast
  with assms(1) ix Some show ?thesis
    by (simp add: entries_def upsertIntoList_def filter_update_neither)
qed

lemma entries_own:
  assumes "entries X l = [m0]" "cm_clientMsgId msg = X" "X \<noteq> []"
    and "\<forall>m \<in> set (ml_messages l). cm_seq msg > 0 \<and> cm_seq m = cm_seq msg \<longrightarrow> cm_clientMsgId m = X"
  shows "entries X (upsertIntoList msg l) = [msg\<lparr>cm_replyCount := max (cm_replyCount msg) (cm_replyCount m0)\<rparr>]"
proof -
  have m0: "m0 \<in> set (ml_messages l)" "cm_clientMsgId m0 = X"
  proof -
    have "m0 \<in> set (entries X l)" by (simp add: assms(1))
    then show "m0 \<in> set (ml_messages l)" "cm_clientMsgId m0 = X" by (simp_all add: entries_def)
  qed
  have "\<exists>m \<in> set (ml_messages l). same_message msg m"
    using m0 assms(2,3) by (auto simp: same_message_def)
  then obtain ix where Some: "find_index (same_message msg) (ml_messages l) = Some ix"
    by (metis find_index_None not_None_eq)
  note ix = find_index_SomeD[OF Some]
  have X: "cm_clientMsgId (ml_messages l ! ix) = X"
    using ix(1,2) assms(2,4) nth_mem unfolding same_message_def by blast
  then have "ml_messages l ! ix \<in> set (entries X l)" using ix(1) by (simp add: entries_def)
  then have eq: "ml_messages l ! ix = m0" by (simp add: assms(1))
  show ?thesis
    using Some ix(1) X eq assms(1,2)
    by (simp add: entries_def upsertIntoList_def) (rule filter_update_single; simp)
qed

lemma entries_new:
  "\<forall>m \<in> set (ml_messages l). \<not> same_message msg m \<Longrightarrow> cm_clientMsgId msg = X \<Longrightarrow>
    entries X (upsertIntoList msg l) = entries X l @ [msg]"
proof -
  assume a: "\<forall>m \<in> set (ml_messages l). \<not> same_message msg m" "cm_clientMsgId msg = X"
  then have "find_index (same_message msg) (ml_messages l) = None" by (simp add: find_index_None)
  with a(2) show ?thesis by (simp add: entries_def upsertIntoList_def)
qed

lemma upsert_member:
  "m \<in> set (ml_messages (upsertIntoList msg l)) \<Longrightarrow>
    m \<in> set (ml_messages l) \<or> (cm_seq m = cm_seq msg \<and> cm_clientMsgId m = cm_clientMsgId msg)"
  by (auto simp: upsertIntoList_def dest!: set_update_subset_insert[THEN subsetD] split: option.splits)

lemma upsert_idempotent:
  assumes "cm_seq msg > 0 \<or> cm_clientMsgId msg \<noteq> []"
  shows "upsertIntoList msg (upsertIntoList msg l) = upsertIntoList msg l"
proof -
  have self: "same_message msg (msg\<lparr>cm_replyCount := n\<rparr>)" "same_message msg msg" for n
    using assms by (auto simp: same_message_def)
  show ?thesis
  proof (cases "find_index (same_message msg) (ml_messages l)")
    case None
    then have no: "\<forall>m \<in> set (ml_messages l). \<not> same_message msg m" by (simp add: find_index_None)
    have "find_index (same_message msg) (ml_messages l @ [msg]) = Some (length (ml_messages l))"
      unfolding find_index_Some using no self by (auto simp: nth_append)
    with None show ?thesis by (simp add: upsertIntoList_def)
  next
    case (Some ix)
    note ix = find_index_SomeD[OF Some]
    let ?m = "msg\<lparr>cm_replyCount := max (cm_replyCount msg) (cm_replyCount (ml_messages l ! ix))\<rparr>"
    have "find_index (same_message msg) ((ml_messages l)[ix := ?m]) = Some ix"
      unfolding find_index_Some using ix self by auto
    with Some ix(1) show ?thesis by (simp add: upsertIntoList_def)
  qed
qed

subsection \<open>A timeline under events\<close>

definition timeline :: "string \<Rightarrow> string \<Rightarrow> chat_cache \<Rightarrow> chat_message_list option" where
  "timeline p cid c = cc_messages c (p, cid)"

lemma setQueryData_map [simp]: "setQueryData k (map_option f) m k' = (if k' = k then map_option f (m k) else m k')"
  by (simp add: setQueryData_def split: option.splits)

lemma timeline_upsert: "timeline p cid (upsertMessage q ch msg c) =
    (if q = p \<and> ch = cid \<and> \<not> num_truthy (cm_threadRoot msg)
     then map_option (upsertIntoList msg) (timeline p cid c) else timeline p cid c)"
  by (simp add: timeline_def upsertMessage_def Let_def)

definition bump_list :: "chat_message \<Rightarrow> int \<Rightarrow> chat_message_list \<Rightarrow> chat_message_list" where
  "bump_list reply d cur = cur\<lparr>ml_messages := map (bump_root reply d) (ml_messages cur)\<rparr>"

lemma timeline_bump: "timeline p cid (bumpRootCounters q ch msg d c) =
    (if q = p \<and> ch = cid then map_option (bump_list msg d) (timeline p cid c) else timeline p cid c)"
  by (simp add: timeline_def bumpRootCounters_def bump_list_def[abs_def])

lemma timeline_other [simp]:
  "timeline p cid (invalidate k c) = timeline p cid c" "timeline p cid (upsertChannel q ch c) = timeline p cid c"
  "timeline p cid (bumpUnread q d s c) = timeline p cid c" "timeline p cid (applyUnread q u c) = timeline p cid c"
  "timeline p cid (typing_cache f c) = timeline p cid c"
  by (simp_all add: timeline_def invalidate_def upsertChannel_def bumpUnread_def applyUnread_def typing_cache_def
      Let_def)

lemma bump_root_simps [simp]:
  "cm_seq (bump_root r d m) = cm_seq m" "cm_clientMsgId (bump_root r d m) = cm_clientMsgId m"
  "cm_body (bump_root r d m) = cm_body m"
  by (simp_all add: bump_root_def)

lemma entries_bump: "entries X (bump_list r d l) = map (bump_root r d) (entries X l)"
  by (simp add: entries_def bump_list_def filter_map o_def)

text \<open>
  A list that holds one pending copy with the client's id \<open>X\<close>, and no message numbered \<open>S\<close> under
  another id.
\<close>

definition waiting :: "string \<Rightarrow> int \<Rightarrow> chat_message_list \<Rightarrow> bool" where
  "waiting X S l \<longleftrightarrow> (\<exists>m0. entries X l = [m0] \<and> cm_seq m0 < 0) \<and>
     (\<forall>m \<in> set (ml_messages l). cm_seq m = S \<longrightarrow> cm_clientMsgId m = X)"

fun foreign :: "string \<Rightarrow> int \<Rightarrow> chat_event \<Rightarrow> bool" where
  "foreign X S (MessageCreated cid m) = (cm_clientMsgId m \<noteq> X \<and> cm_seq m \<noteq> S)"
| "foreign X S (MessageUpdated cid m) = (cm_clientMsgId m \<noteq> X \<and> cm_seq m \<noteq> S)"
| "foreign X S (ReactionAdded cid m) = (cm_clientMsgId m \<noteq> X \<and> cm_seq m \<noteq> S)"
| "foreign X S (ReactionRemoved cid m) = (cm_clientMsgId m \<noteq> X \<and> cm_seq m \<noteq> S)"
| "foreign X S (MessageDeleted cid m) = (cm_clientMsgId m \<noteq> X \<and> cm_seq m \<noteq> S)"
| "foreign X S _ = True"

lemma waiting_upsert:
  assumes "waiting X S l" "cm_clientMsgId o1 \<noteq> X" "cm_seq o1 \<noteq> S"
  shows "waiting X S (upsertIntoList o1 l)"
proof -
  obtain m0 where m0: "entries X l = [m0]" "cm_seq m0 < 0" using assms(1) by (auto simp: waiting_def)
  have "\<not> same_message o1 m" if "m \<in> set (ml_messages l)" "cm_clientMsgId m = X" for m
  proof -
    have "m \<in> set (entries X l)" using that by (simp add: entries_def)
    with m0 that(2) assms(2) show ?thesis by (auto simp: same_message_def)
  qed
  then have "entries X (upsertIntoList o1 l) = [m0]" using entries_other[OF assms(2)] m0(1) by simp
  moreover have "\<forall>m \<in> set (ml_messages (upsertIntoList o1 l)). cm_seq m = S \<longrightarrow> cm_clientMsgId m = X"
    using assms(1,3) by (auto simp: waiting_def dest!: upsert_member)
  ultimately show ?thesis using m0(2) by (simp add: waiting_def)
qed

lemma waiting_bump: "waiting X S l \<Longrightarrow> waiting X S (bump_list r d l)"
  by (auto simp: waiting_def entries_bump) (auto simp: bump_list_def)

lemma waiting_event:
  assumes "timeline p cid c = Some l" "waiting X S l" "foreign X S ev"
  shows "\<exists>l'. timeline p cid (applyChatEvent now p ev c) = Some l' \<and> waiting X S l'"
  using assms
  by (cases ev) (auto simp: Let_def timeline_upsert timeline_bump waiting_upsert waiting_bump)

lemma waiting_events:
  "timeline p cid c = Some l \<Longrightarrow> waiting X S l \<Longrightarrow> \<forall>ev \<in> set evs. foreign X S ev \<Longrightarrow>
    \<exists>l'. timeline p cid (foldl (\<lambda>c ev. applyChatEvent now p ev c) c evs) = Some l' \<and> waiting X S l'"
proof (induction evs arbitrary: c l)
  case Nil
  then show ?case by simp
next
  case (Cons ev evs)
  from waiting_event[OF Cons.prems(1,2), of ev now] Cons.prems(3) obtain l' where
    "timeline p cid (applyChatEvent now p ev c) = Some l'" "waiting X S l'" by auto
  from Cons.IH[OF this] Cons.prems(3) show ?case by simp
qed

text \<open>
  C11. An optimistic send is reconciled exactly once: whatever other events arrive between the
  send and the server's echo, after the echo the timeline holds one message with the client's id,
  the server's, and the placeholder is gone.
\<close>

theorem send_reconciles_once:
  assumes "timeline p cid c = Some l" "\<forall>m \<in> set (ml_messages l). cm_clientMsgId m \<noteq> X \<and> cm_seq m \<noteq> S"
    and "X \<noteq> []" "0 < now" "0 < S" "\<forall>ev \<in> set evs. foreign X S ev"
    and "cm_clientMsgId echo = X" "cm_seq echo = S" "cm_threadRoot echo = None"
  shows "\<exists>l' n. timeline p cid (applyChatEvent now p (MessageCreated cid echo)
        (foldl (\<lambda>c ev. applyChatEvent now p ev c)
          (appendPendingMessage p cid (pending_message now tm me nm X body None) c) evs)) = Some l' \<and>
      entries X l' = [echo\<lparr>cm_replyCount := n\<rparr>]"
proof -
  let ?pend = "pending_message now tm me nm X body None"
  let ?c1 = "appendPendingMessage p cid ?pend c"
  have no: "\<forall>m \<in> set (ml_messages l). \<not> same_message ?pend m"
    using assms(2,4) by (auto simp: same_message_def pending_message_def)
  have ent0: "entries X l = []" using assms(2) by (auto simp: entries_def filter_empty_conv)
  have t1: "timeline p cid ?c1 = Some (upsertIntoList ?pend l)"
    using assms(1) by (simp add: appendPendingMessage_def timeline_upsert pending_message_def num_truthy_def)
  have "entries X (upsertIntoList ?pend l) = [?pend]"
    using entries_new[OF no, of X] ent0 by (simp add: pending_message_def)
  moreover have "\<forall>m \<in> set (ml_messages (upsertIntoList ?pend l)). cm_seq m = S \<longrightarrow> cm_clientMsgId m = X"
    using assms(2) by (auto simp: pending_message_def dest!: upsert_member)
  ultimately have w1: "waiting X S (upsertIntoList ?pend l)"
    using assms(4) by (simp add: waiting_def pending_message_def)
  obtain l2 where l2: "timeline p cid (foldl (\<lambda>c ev. applyChatEvent now p ev c) ?c1 evs) = Some l2"
    "waiting X S l2"
    using waiting_events[OF t1 w1 assms(6)] by blast
  then obtain m0 where m0: "entries X l2 = [m0]" by (auto simp: waiting_def)
  have "entries X (upsertIntoList echo l2) = [echo\<lparr>cm_replyCount := max (cm_replyCount echo) (cm_replyCount m0)\<rparr>]"
    using l2(2) assms(3,7,8) by (intro entries_own[OF m0]) (auto simp: waiting_def)
  then show ?thesis
    using l2(1) assms(9) by (auto simp: Let_def timeline_upsert num_truthy_def)
qed

definition hello :: chat_message where
  "hello = \<lparr>cm_seq = 7, cm_threadRoot = None, cm_authorId = ''u1'', cm_authorName = ''Ann'',
     cm_clientMsgId = ''x'', cm_body = ''hi'', cm_createdAt = ''2026-01-05T10:00:00Z'', cm_editedAt = None,
     cm_deleted = False, cm_replyCount = 0, cm_lastReplyAt = None, cm_reactions = [], cm_pending = False\<rparr>"

definition empty_chat :: chat_cache where
  "empty_chat = \<lparr>cc_messages = (\<lambda>_. Some \<lparr>ml_messages = [], ml_latestSeq = 0\<rparr>), cc_threads = (\<lambda>_. None),
     cc_unreads = (\<lambda>_. None), cc_channels = (\<lambda>_. None), cc_invalidated = [], cc_typing = []\<rparr>"

lemma send_reconciles_once_witness:
  "\<exists>l' n. timeline ''p'' ''c'' (applyChatEvent 1000 ''p'' (MessageCreated ''c'' hello)
        (foldl (\<lambda>c ev. applyChatEvent 1000 ''p'' ev c)
          (appendPendingMessage ''p'' ''c'' (pending_message 1000 [] ''u1'' ''Ann'' ''x'' ''hi'' None) empty_chat)
          [MessageCreated ''c'' (hello\<lparr>cm_seq := 6, cm_clientMsgId := ''y''\<rparr>), MemberAdded])) = Some l' \<and>
      entries ''x'' l' = [hello\<lparr>cm_replyCount := n\<rparr>]"
  by (rule send_reconciles_once[where l = "\<lparr>ml_messages = [], ml_latestSeq = 0\<rparr>" and S = 7])
    (simp_all add: timeline_def empty_chat_def hello_def)

subsection \<open>A failed send\<close>

lemma strip_upsert_pending:
  assumes "\<forall>m \<in> set (ml_messages l). cm_clientMsgId m \<noteq> X" "0 \<le> ml_latestSeq l" "0 < now" "X \<noteq> []"
  shows "strip X (upsertIntoList (pending_message now tm me nm X body r) l) = l"
proof -
  let ?pend = "pending_message now tm me nm X body r"
  have "\<forall>m \<in> set (ml_messages l). \<not> same_message ?pend m"
    using assms by (auto simp: same_message_def pending_message_def)
  then have none: "find_index (same_message ?pend) (ml_messages l) = None" by (simp add: find_index_None)
  have "filter (\<lambda>m. cm_clientMsgId m \<noteq> X) (ml_messages l) = ml_messages l"
    using assms(1) by (simp add: filter_id_conv)
  then show ?thesis
    using assms(2,3) by (simp add: strip_def upsertIntoList_def none) (simp add: pending_message_def max_def)
qed

lemma strip_fresh: "\<forall>m \<in> set (ml_messages l). cm_clientMsgId m \<noteq> X \<Longrightarrow> strip X l = l"
  by (simp add: strip_def filter_id_conv)

text \<open>
  A send that fails leaves no trace: taking the optimistic copy out again gives the caches as
  they were, the timeline and every thread of the channel included.
\<close>

theorem failed_send_leaves_no_trace:
  assumes "X \<noteq> []" "0 < now"
    and "\<forall>l. cc_messages c (p, cid) = Some l \<longrightarrow>
      0 \<le> ml_latestSeq l \<and> (\<forall>m \<in> set (ml_messages l). cm_clientMsgId m \<noteq> X)"
    and "\<forall>r l. cc_threads c (p, cid, r) = Some l \<longrightarrow>
      0 \<le> ml_latestSeq l \<and> (\<forall>m \<in> set (ml_messages l). cm_clientMsgId m \<noteq> X)"
  shows "removePendingMessage p cid X
    (appendPendingMessage p cid (pending_message now tm me nm X body r) c) = c"
proof -
  let ?pend = "pending_message now tm me nm X body r"
  let ?c1 = "appendPendingMessage p cid ?pend c"
  have undo: "map_option (strip X) (map_option (upsertIntoList ?pend) x) = x"
    "map_option (strip X) x = x"
    if "\<forall>l. x = Some l \<longrightarrow> 0 \<le> ml_latestSeq l \<and> (\<forall>m \<in> set (ml_messages l). cm_clientMsgId m \<noteq> X)" for x
    using that assms(1,2) by (cases x; simp add: strip_upsert_pending strip_fresh)+
  have "cc_messages (removePendingMessage p cid X ?c1) k = cc_messages c k" for k
    using undo[OF assms(3)]
    by (auto simp: removePendingMessage_def appendPendingMessage_def upsertMessage_def Let_def)
  moreover have "cc_threads (removePendingMessage p cid X ?c1) k = cc_threads c k" for k
    using undo[of "cc_threads c k"] assms(4)
    by (cases k) (auto simp: removePendingMessage_def appendPendingMessage_def upsertMessage_def Let_def)
  ultimately have "cc_messages (removePendingMessage p cid X ?c1) = cc_messages c"
    "cc_threads (removePendingMessage p cid X ?c1) = cc_threads c" by (auto simp: fun_eq_iff)
  then show ?thesis
    by (intro chat_cache.equality)
      (simp_all add: removePendingMessage_def appendPendingMessage_def upsertMessage_def Let_def)
qed

lemma failed_send_leaves_no_trace_witness:
  "removePendingMessage ''p'' ''c'' ''x''
    (appendPendingMessage ''p'' ''c'' (pending_message 1000 [] ''u1'' ''Ann'' ''x'' ''hi'' None) empty_chat) = empty_chat"
  by (rule failed_send_leaves_no_trace) (simp_all add: empty_chat_def)

subsection \<open>Redelivery\<close>

text \<open>A replayed frame: the stream hands out a \<open>message.created\<close> it has handed out before.\<close>

lemma bump_root_idem:
  "cm_createdAt reply \<noteq> [] \<Longrightarrow> bump_root reply 1 (bump_root reply 1 m) = bump_root reply 1 m"
  by (auto simp: bump_root_def)

lemma bump_list_idem:
  "cm_createdAt reply \<noteq> [] \<Longrightarrow> bump_list reply 1 (bump_list reply 1 l) = bump_list reply 1 l"
  by (simp add: bump_list_def bump_root_idem)

lemma setQueryData_twice:
  "(\<And>x. f (f x) = f x) \<Longrightarrow> setQueryData k (map_option f) (setQueryData k (map_option f) m) =
    setQueryData k (map_option f) m"
  by (rule ext) (simp add: option.map_comp o_def)

lemma clearTyping_twice: "clearTyping p c u (clearTyping p c u st) = clearTyping p c u st"
  by (auto simp: clearTyping_def update_conv' delete_idem split: option.splits)

text \<open>
  A replayed \<open>message.created\<close> changes nothing: applying the event a second time right after
  the first leaves every cache as it was - the message is not doubled and its thread's reply count
  is not raised again.
\<close>

theorem created_replay_is_harmless:
  assumes "cm_seq msg > 0" "cm_createdAt msg \<noteq> []"
  shows "applyChatEvent now' p (MessageCreated cid msg) (applyChatEvent now p (MessageCreated cid msg) c) =
    applyChatEvent now p (MessageCreated cid msg) c"
proof -
  have up: "upsertIntoList msg (upsertIntoList msg l) = upsertIntoList msg l" for l
    using assms(1) by (simp add: upsert_idempotent)
  have bump: "bump_list msg 1 (bump_list msg 1 l) = bump_list msg 1 l" for l
    by (rule bump_list_idem[OF assms(2)])
  have b: "bumpRootCounters p cid msg 1 =
      (\<lambda>c. c\<lparr>cc_messages := setQueryData (p, cid) (map_option (bump_list msg 1)) (cc_messages c)\<rparr>)"
    by (simp add: bumpRootCounters_def bump_list_def[abs_def] fun_eq_iff)
  show ?thesis
    by (simp add: Let_def upsertMessage_def b typing_cache_def setQueryData_twice[OF up]
        setQueryData_twice[OF bump] clearTyping_twice)
qed

lemma created_replay_is_harmless_witness:
  "applyChatEvent 2 ''p'' (MessageCreated ''c'' hello) (applyChatEvent 1 ''p'' (MessageCreated ''c'' hello) empty_chat) =
    applyChatEvent 1 ''p'' (MessageCreated ''c'' hello) empty_chat"
  by (rule created_replay_is_harmless) (simp_all add: hello_def)

subsection \<open>Two replies in one second\<close>

text \<open>
  The server's timestamps have a resolution of a second, and the guard against counting a reply
  twice compares them: a second reply to a thread within the same second as the first is not
  counted, so the timeline shows one reply where there are two.
\<close>

theorem same_second_reply_uncounted:
  assumes "cm_createdAt r1 \<noteq> []" "cm_createdAt r2 = cm_createdAt r1"
    and "cm_threadRoot r1 = Some (cm_seq m)" "cm_threadRoot r2 = Some (cm_seq m)"
    and "cm_lastReplyAt m = None" "0 \<le> cm_replyCount m"
  shows "cm_replyCount (bump_root r2 1 (bump_root r1 1 m)) = cm_replyCount m + 1"
  using assms by (auto simp: bump_root_def)

lemma same_second_reply_uncounted_witness:
  "let r1 = hello\<lparr>cm_seq := 8, cm_threadRoot := Some 7, cm_clientMsgId := ''y''\<rparr>;
       r2 = hello\<lparr>cm_seq := 9, cm_threadRoot := Some 7, cm_clientMsgId := ''z''\<rparr>
   in cm_replyCount (bump_root r2 1 (bump_root r1 1 hello)) = 1"
  using same_second_reply_uncounted[of "hello\<lparr>cm_seq := 8, cm_threadRoot := Some 7, cm_clientMsgId := ''y''\<rparr>"
      "hello\<lparr>cm_seq := 9, cm_threadRoot := Some 7, cm_clientMsgId := ''z''\<rparr>" hello]
  by (simp add: Let_def hello_def)

subsection \<open>Read cursors\<close>

definition cursor :: "string \<Rightarrow> unread_list \<Rightarrow> int option" where
  "cursor ch l = map_option cu_lastReadSeq (List.find (\<lambda>e. cu_channelId e = ch) l)"

lemma find_update:
  assumes "i < length xs" "find_index P xs = Some i" "P y"
  shows "List.find P (xs[i := y]) = Some y"
  using assms
proof (induction xs arbitrary: i)
  case Nil
  then show ?case by simp
next
  case (Cons x xs)
  then show ?case by (cases i) (auto split: if_splits)
qed

lemma find_update_other:
  assumes "\<not> P (xs ! i)" "\<not> P y" "i < length xs"
  shows "List.find P (xs[i := y]) = List.find P xs"
  using assms
proof (induction xs arbitrary: i)
  case Nil
  then show ?case by simp
next
  case (Cons x xs)
  then show ?case by (cases i) auto
qed

lemma find_snoc: "List.find P (xs @ [y]) = (case List.find P xs of Some x \<Rightarrow> Some x | None \<Rightarrow> if P y then Some y else None)"
  by (induction xs) auto

lemma find_of_index: "find_index P xs = Some i \<Longrightarrow> List.find P xs = Some (xs ! i)"
  by (induction xs arbitrary: i) (auto split: if_splits)

lemma find_of_index_None: "find_index P xs = None \<Longrightarrow> List.find P xs = None"
  by (simp add: find_index_None find_None_iff)

lemma cursor_apply_unread:
  assumes "cursor ch l = Some n"
  shows "\<exists>n'. cursor ch (apply_unread u l) = Some n' \<and> n \<le> n'"
proof (cases "find_index (\<lambda>e. cu_channelId e = cu_channelId u) l")
  case None
  with assms show ?thesis by (auto simp: apply_unread_def cursor_def find_snoc)
next
  case (Some i)
  note i = find_index_SomeD[OF Some]
  show ?thesis
  proof (cases "cu_channelId u = ch")
    case True
    with assms Some i find_of_index[OF Some] show ?thesis
      by (auto simp: apply_unread_def cursor_def find_update)
  next
    case False
    with assms Some i show ?thesis
      by (auto simp: apply_unread_def cursor_def find_update_other)
  qed
qed

lemma cursor_bump_unread: "cursor ch (bump_unread d s l) = cursor ch l"
proof (cases "find_index (\<lambda>e. cu_channelId e = d) l")
  case None
  then show ?thesis by (simp add: bump_unread_def)
next
  case (Some i)
  note i = find_index_SomeD[OF Some]
  let ?e = "(l ! i)\<lparr>cu_latestSeq := s, cu_unreadCount := cu_unreadCount (l ! i) + 1\<rparr>"
  have "cursor ch (l[i := ?e]) = cursor ch l"
  proof (cases "d = ch")
    case True
    with Some i find_of_index[OF Some] show ?thesis by (simp add: cursor_def find_update)
  next
    case False
    with i show ?thesis by (simp add: cursor_def find_update_other)
  qed
  with Some show ?thesis by (simp add: bump_unread_def Let_def)
qed

lemma unreads_other [simp]:
  "cc_unreads (upsertMessage q d m c) = cc_unreads c" "cc_unreads (bumpRootCounters q d m x c) = cc_unreads c"
  "cc_unreads (invalidate k c) = cc_unreads c" "cc_unreads (upsertChannel q ch c) = cc_unreads c"
  "cc_unreads (typing_cache f c) = cc_unreads c"
  by (simp_all add: upsertMessage_def bumpRootCounters_def invalidate_def upsertChannel_def typing_cache_def Let_def)

lemma cursor_event:
  assumes "cc_unreads c p = Some l" "cursor ch l = Some n"
  shows "\<exists>l' n'. cc_unreads (applyChatEvent now p ev c) p = Some l' \<and> cursor ch l' = Some n' \<and> n \<le> n'"
  using assms cursor_apply_unread[OF assms(2)]
  by (cases ev) (auto simp: Let_def bumpUnread_def applyUnread_def cursor_bump_unread)

text \<open>
  C12. Read cursors only move forward: through any sequence of stream events, in any order, the
  read position the summary holds for a channel never goes back, and the channel keeps its entry.
\<close>

theorem cursors_move_forward:
  assumes "cc_unreads c p = Some l" "cursor ch l = Some n"
  shows "\<exists>l' n'. cc_unreads (foldl (\<lambda>c ev. applyChatEvent now p ev c) c evs) p = Some l' \<and>
    cursor ch l' = Some n' \<and> n \<le> n'"
  using assms
proof (induction evs arbitrary: c l n)
  case Nil
  then show ?case by simp
next
  case (Cons ev evs)
  obtain l1 n1 where 1: "cc_unreads (applyChatEvent now p ev c) p = Some l1" "cursor ch l1 = Some n1" "n \<le> n1"
    using cursor_event[OF Cons.prems, of now ev] by auto
  with Cons.IH[OF 1(1,2)] show ?case by force
qed

lemma cursors_move_forward_witness:
  "\<exists>l' n'. cc_unreads (foldl (\<lambda>c ev. applyChatEvent 0 ''p'' ev c)
      (empty_chat\<lparr>cc_unreads := (\<lambda>_. Some [\<lparr>cu_channelId = ''c1'', cu_lastReadSeq = 5, cu_unreadCount = 0, cu_latestSeq = 5\<rparr>])\<rparr>)
      [ChannelActivity ''c1'' 6, ReadUpdated \<lparr>cu_channelId = ''c1'', cu_lastReadSeq = 3, cu_unreadCount = 3, cu_latestSeq = 6\<rparr>]) ''p'' = Some l'
    \<and> cursor ''c1'' l' = Some n' \<and> 5 \<le> n'"
  by (rule cursors_move_forward[where l = "[\<lparr>cu_channelId = ''c1'', cu_lastReadSeq = 5, cu_unreadCount = 0, cu_latestSeq = 5\<rparr>]"])
    (simp_all add: cursor_def)

end
