(* ===== verification/Tasks.thy ===== *)
theory Tasks
  imports ApiTypes
begin

section \<open>Tasks and the Kanban board\<close>

text \<open>
  The task DTOs of \<open>tasks/types.ts\<close> and the drop handler of \<open>tasks/TaskKanban.tsx\<close>. A rank is a
  JavaScript number; it is a \<^typ>\<open>rat\<close> here, so the midpoint of two ranks is exact (with floats two
  neighbours can be so close that no number lies between them).
\<close>

record task_user =
  tu_id :: string
  tu_name :: "string option"
  tu_email :: "string option"

record task =
  tk_id :: string
  tk_num :: int
  tk_projectId :: string
  tk_hubId :: string
  tk_projectName :: string
  tk_title :: string
  tk_description :: "string option"
  tk_status :: string
  tk_priority :: string
  tk_dueDate :: "string option"
  tk_assignee :: "task_user option"
  tk_createdBy :: task_user
  tk_createdAt :: string
  tk_updatedAt :: string
  tk_docRefs :: "string list"
  tk_rank :: rat
  tk_startDate :: "string option"
  tk_endDate :: "string option"
  tk_progress :: "int option"
  tk_milestone :: "bool option"
  tk_dependsOn :: "string list"
  tk_stage :: "string option"

record task_caps =
  tc_write :: bool
  tc_moderate :: bool

record task_list =
  tl_tasks :: "task list"
  tl_capabilities :: task_caps

record task_patch =
  tp_title :: "string option"
  tp_description :: "string option"
  tp_status :: "string option"
  tp_priority :: "string option"
  tp_dueDate :: "string option"
  tp_assignee :: "task_user option"
  tp_clearAssignee :: "bool option"
  tp_clearDueDate :: "bool option"
  tp_docRefs :: "string list option"
  tp_rank :: "rat option"
  tp_startDate :: "string option"
  tp_endDate :: "string option"
  tp_clearSchedule :: "bool option"
  tp_progress :: "int option"
  tp_milestone :: "bool option"
  tp_dependsOn :: "string list option"
  tp_stage :: "string option"

definition no_patch :: task_patch where
  "no_patch = \<lparr>tp_title = None, tp_description = None, tp_status = None, tp_priority = None,
     tp_dueDate = None, tp_assignee = None, tp_clearAssignee = None, tp_clearDueDate = None,
     tp_docRefs = None, tp_rank = None, tp_startDate = None, tp_endDate = None,
     tp_clearSchedule = None, tp_progress = None, tp_milestone = None, tp_dependsOn = None,
     tp_stage = None\<rparr>"

definition STATUSES :: "string list" where
  "STATUSES = [''todo'', ''inprogress'', ''blocked'', ''done'']"

definition PRIORITIES :: "string list" where
  "PRIORITIES = [''low'', ''medium'', ''high'', ''urgent'']"

definition isScheduled :: "task \<Rightarrow> bool" where
  "isScheduled t = (truthy (tk_startDate t) \<and> truthy (tk_endDate t))"

subsection \<open>The board\<close>

text \<open>
  The columns, \<open>byStatus\<close>: the tasks of a status by rank, then by number. The request a drop ends in
  is the update mutation, a task id and a patch.
\<close>

definition cmp_rank :: "task \<Rightarrow> task \<Rightarrow> int" where
  "cmp_rank a b = cmp_or (cmp_lin (tk_rank a) (tk_rank b)) (tk_num a - tk_num b)"

definition column :: "task list \<Rightarrow> string \<Rightarrow> task list" where
  "column tasks s = (if s \<in> set STATUSES then js_sort cmp_rank (filter (\<lambda>t. tk_status t = s) tasks) else [])"

definition columnOf :: "task list \<Rightarrow> string \<Rightarrow> string option" where
  "columnOf tasks overId =
     (if overId = [] then None
      else if startsWith overId ''col:'' then Some (drop 4 overId)
      else map_option tk_status (List.find (\<lambda>t. tk_id t = overId) tasks))"

definition insertion_index :: "task list \<Rightarrow> task \<Rightarrow> string \<Rightarrow> string option \<Rightarrow> nat" where
  "insertion_index col t status overTask =
     (case overTask of
        None \<Rightarrow> length col
      | Some o_id \<Rightarrow>
          (case find_index (\<lambda>u. tk_id u = o_id) col of
             None \<Rightarrow> length col
           | Some i \<Rightarrow> if status = tk_status t \<and> tk_rank t < tk_rank (col ! i) then i + 1 else i))"

definition drop_rank :: "task list \<Rightarrow> nat \<Rightarrow> rat" where
  "drop_rank col i =
     (let before = (if 0 < i then Some (tk_rank (col ! (i - 1))) else None);
          after = (if i < length col then Some (tk_rank (col ! i)) else None)
      in case (before, after) of
           (None, None) \<Rightarrow> 1024
         | (None, Some a) \<Rightarrow> a - 1024
         | (Some b, None) \<Rightarrow> b + 1024
         | (Some b, Some a) \<Rightarrow> (b + a) / 2)"

text \<open>
  \<open>handleDragEnd\<close>: the ids under the pointer, the board's tasks and the cached list give the cache
  after the optimistic move and the mutation, if there is one.
\<close>

type_synonym drop_outcome = "task_list option \<times> (string \<times> task_patch) option"

definition move_task :: "string \<Rightarrow> string \<Rightarrow> rat \<Rightarrow> task \<Rightarrow> task" where
  "move_task i status rank t = (if tk_id t = i then t\<lparr>tk_status := status, tk_rank := rank\<rparr> else t)"

definition handleDragEnd ::
    "task list \<Rightarrow> task_list option \<Rightarrow> string \<Rightarrow> string option \<Rightarrow> drop_outcome" where
  "handleDragEnd tasks cache active over =
     (case over of
        None \<Rightarrow> (cache, None)
      | Some o_id \<Rightarrow>
          if active = o_id then (cache, None)
          else case List.find (\<lambda>t. tk_id t = active) tasks of
            None \<Rightarrow> (cache, None)
          | Some t \<Rightarrow>
              (case columnOf tasks o_id of
                 None \<Rightarrow> (cache, None)
               | Some status \<Rightarrow>
                   if status = [] then (cache, None)
                   else
                     let overTask = (if startsWith o_id ''col:'' then None else Some o_id);
                         col = filter (\<lambda>u. tk_id u \<noteq> tk_id t) (column tasks status);
                         i = insertion_index col t status overTask;
                         rank = drop_rank col i
                     in if status = tk_status t \<and> rank = tk_rank t then (cache, None)
                        else (map_option (\<lambda>cur. cur\<lparr>tl_tasks := map (move_task (tk_id t) status rank) (tl_tasks cur)\<rparr>) cache,
                              Some (tk_id t, no_patch\<lparr>tp_status := Some status, tp_rank := Some rank\<rparr>))))"

subsection \<open>Where a dropped card lands\<close>

definition rank_key :: "task \<Rightarrow> rat \<times> int" where
  "rank_key t = (tk_rank t, tk_num t)"

lemma compares_rank: "compares cmp_rank rank_key"
  using compares_or[OF compares_diff[of tk_num], of tk_rank]
  by (simp add: cmp_rank_def[abs_def] rank_key_def[abs_def])

interpretation by_rank: comparator cmp_rank
  by (rule comparator_key[OF compares_rank])

lemma column_sort: "s \<in> set STATUSES \<Longrightarrow> column tasks s = sort_key rank_key (filter (\<lambda>t. tk_status t = s) tasks)"
  by (simp add: column_def js_sort_by[OF compares_rank])

text \<open>Ids and numbers of a project's tasks are unique.\<close>

definition tasks_ok :: "task list \<Rightarrow> bool" where
  "tasks_ok ts \<longleftrightarrow> distinct (map tk_id ts) \<and> distinct (map tk_num ts)"

lemma tasks_ok_inj:
  "tasks_ok ts \<Longrightarrow> t \<in> set ts \<Longrightarrow> u \<in> set ts \<Longrightarrow> tk_id t = tk_id u \<Longrightarrow> t = u"
  by (auto simp: tasks_ok_def distinct_map dest: inj_onD)

lemma rank_key_inj: "distinct (map tk_num ts) \<Longrightarrow> inj_on rank_key (set ts)"
  by (auto simp: rank_key_def distinct_map inj_on_def)

lemma drop_rank_between:
  assumes "sorted (map rank_key col)" "i \<le> length col"
    and gap: "0 < i \<Longrightarrow> i < length col \<Longrightarrow> tk_rank (col ! (i - 1)) \<noteq> tk_rank (col ! i)"
  shows "(\<forall>u \<in> set (take i col). tk_rank u < drop_rank col i) \<and>
    (\<forall>u \<in> set (drop i col). drop_rank col i < tk_rank u)"
proof -
  have mono: "tk_rank (col ! j) \<le> tk_rank (col ! k)" if "j \<le> k" "k < length col" for j k
    using sorted_nth_mono[OF assms(1), of j k] that by (auto simp: rank_key_def)
  have b: "tk_rank u \<le> tk_rank (col ! (i - 1))" if "u \<in> set (take i col)" for u
    using that assms(2) mono[of _ "i - 1"] by (auto simp: in_set_conv_nth)
  have a: "tk_rank (col ! i) \<le> tk_rank u" if "u \<in> set (drop i col)" for u
    using that assms(2) mono[of i] by (auto simp: in_set_conv_nth)
  have m: "tk_rank (col ! (i - 1)) < tk_rank (col ! i)" if "0 < i" "i < length col"
    using mono[of "i - 1" i] gap that by simp
  consider "i = 0" "i = length col" | "i = 0" "i < length col" | "0 < i" "i = length col" | "0 < i" "i < length col"
    using assms(2) by linarith
  then show ?thesis
  proof cases
    case 4
    with m have "tk_rank (col ! (i - 1)) < drop_rank col i" "drop_rank col i < tk_rank (col ! i)"
      by (simp_all add: drop_rank_def)
    with a b show ?thesis by fastforce
  qed (use a b in \<open>fastforce simp: drop_rank_def\<close>)+
qed

text \<open>The board after a drop, whether or not it changed anything.\<close>

definition after_drop :: "task list \<Rightarrow> string \<Rightarrow> string \<Rightarrow> task list" where
  "after_drop ts active over =
     (case fst (handleDragEnd ts (Some \<lparr>tl_tasks = ts, tl_capabilities = \<lparr>tc_write = True, tc_moderate = True\<rparr>\<rparr>)
                 active (Some over)) of
        Some l \<Rightarrow> tl_tasks l | None \<Rightarrow> [])"

lemma find_task: "tasks_ok ts \<Longrightarrow> t \<in> set ts \<Longrightarrow> List.find (\<lambda>u. tk_id u = tk_id t) ts = Some t"
proof -
  assume ok: "tasks_ok ts" and t: "t \<in> set ts"
  then obtain u where u: "List.find (\<lambda>u. tk_id u = tk_id t) ts = Some u"
    by (cases "List.find (\<lambda>u. tk_id u = tk_id t) ts") (auto simp: find_None_iff)
  with find_Some_in[OF u] tasks_ok_inj[OF ok _ t] show ?thesis by auto
qed

lemma move_task_other: "tk_id u \<noteq> i \<Longrightarrow> move_task i s r u = u"
  by (simp add: move_task_def)

lemma move_task_id [simp]: "tk_id (move_task i s r u) = tk_id u" "tk_num (move_task i s r u) = tk_num u"
  by (simp_all add: move_task_def)

lemma move_task_self: "tk_status (move_task (tk_id t) s r t) = s" "tk_rank (move_task (tk_id t) s r t) = r"
  by (simp_all add: move_task_def)

lemma move_task_same: "move_task (tk_id t) (tk_status t) (tk_rank t) t = t"
  by (cases t) (simp add: move_task_def)

lemma after_drop_map:
  assumes ok: "tasks_ok ts" and t: "t \<in> set ts" and over: "over \<noteq> tk_id t"
    and s: "columnOf ts over = Some s" "s \<in> set STATUSES"
  defines "col \<equiv> filter (\<lambda>u. tk_id u \<noteq> tk_id t) (column ts s)"
  defines "i \<equiv> insertion_index col t s (if startsWith over ''col:'' then None else Some over)"
  shows "after_drop ts (tk_id t) over = map (move_task (tk_id t) s (drop_rank col i)) ts"
proof -
  have s0: "s \<noteq> []" using s(2) by (auto simp: STATUSES_def)
  have same: "map (move_task (tk_id t) s (drop_rank col i)) ts = ts" if "s = tk_status t" "drop_rank col i = tk_rank t"
  proof (rule map_idI)
    fix u assume u: "u \<in> set ts"
    show "move_task (tk_id t) s (drop_rank col i) u = u"
      using that tasks_ok_inj[OF ok u t] by (cases "tk_id u = tk_id t") (simp_all add: move_task_same move_task_other)
  qed
  show ?thesis
    using over s0 s(1) same
    by (auto simp: after_drop_def handleDragEnd_def Let_def find_task[OF ok t] col_def[symmetric] i_def[symmetric])
qed

lemma filter_move_in:
  assumes ok: "tasks_ok ts" and t: "t \<in> set ts"
  shows "mset (filter (\<lambda>u. tk_status u = s) (map (move_task (tk_id t) s r) ts)) =
    add_mset (move_task (tk_id t) s r t) (mset (filter (\<lambda>u. tk_id u \<noteq> tk_id t \<and> tk_status u = s) ts))"
  using assms
proof (induction ts)
  case Nil
  then show ?case by simp
next
  case (Cons u ts)
  have ok': "tasks_ok ts" using Cons.prems(1) by (simp add: tasks_ok_def)
  show ?case
  proof (cases "tk_id u = tk_id t")
    case True
    then have "u = t" using tasks_ok_inj[OF Cons.prems(1), of u t] Cons.prems(2) by simp
    moreover have others: "\<forall>v \<in> set ts. tk_id v \<noteq> tk_id t"
      using Cons.prems(1) True by (auto simp: tasks_ok_def image_iff)
    moreover have "map (move_task (tk_id t) s r) ts = ts"
      using others by (intro map_idI) (auto simp: move_task_other)
    moreover have "filter (\<lambda>v. tk_id v \<noteq> tk_id t \<and> tk_status v = s) ts = filter (\<lambda>v. tk_status v = s) ts"
      using others by (intro filter_cong) auto
    ultimately show ?thesis by (simp add: move_task_self del: mset_map)
  next
    case False
    with Cons ok' show ?thesis by (auto simp: move_task_other)
  qed
qed

lemma filter_move_out:
  assumes "s' \<noteq> s"
  shows "filter (\<lambda>u. tk_status u = s') (map (move_task i s r) ts) =
    filter (\<lambda>u. tk_id u \<noteq> i \<and> tk_status u = s') ts"
  using assms by (induction ts) (auto simp: move_task_def)

lemma column_filter:
  "filter (\<lambda>u. tk_id u \<noteq> i) (column ts s) =
    (if s \<in> set STATUSES then sort_key rank_key (filter (\<lambda>u. tk_id u \<noteq> i \<and> tk_status u = s) ts) else [])"
proof (cases "s \<in> set STATUSES")
  case True
  then show ?thesis by (simp add: column_sort filter_sort conj_commute)
next
  case False
  then show ?thesis by (simp add: column_def)
qed

text \<open>The drop at the index the code computes: the two cards around that index have different ranks.\<close>

lemma drop_lands_index:
  assumes ok: "tasks_ok ts" and t: "t \<in> set ts" and over: "over \<noteq> tk_id t"
    and s: "columnOf ts over = Some s" "s \<in> set STATUSES"
  defines "col \<equiv> filter (\<lambda>u. tk_id u \<noteq> tk_id t) (column ts s)"
  defines "i \<equiv> insertion_index col t s (if startsWith over ''col:'' then None else Some over)"
  assumes gap: "0 < i \<Longrightarrow> i < length col \<Longrightarrow> tk_rank (col ! (i - 1)) \<noteq> tk_rank (col ! i)"
  shows "map tk_id (column (after_drop ts (tk_id t) over) s) =
      take i (map tk_id col) @ tk_id t # drop i (map tk_id col) \<and>
    (\<forall>s'. s' \<noteq> s \<longrightarrow> column (after_drop ts (tk_id t) over) s' = filter (\<lambda>u. tk_id u \<noteq> tk_id t) (column ts s'))"
proof
  let ?r = "drop_rank col i"
  let ?t = "move_task (tk_id t) s ?r t"
  let ?new = "take i col @ ?t # drop i col"
  have ad: "after_drop ts (tk_id t) over = map (move_task (tk_id t) s ?r) ts"
    using after_drop_map[OF ok t over s] by (simp add: col_def i_def)
  have col: "col = sort_key rank_key (filter (\<lambda>u. tk_id u \<noteq> tk_id t \<and> tk_status u = s) ts)"
    using s(2) by (simp add: col_def column_filter)
  have srt: "sorted (map rank_key col)" by (simp add: col)
  have i: "i \<le> length col"
    by (auto simp: i_def insertion_index_def Suc_le_eq split: option.splits dest: find_index_SomeD(1))
  note btw = drop_rank_between[OF srt i gap]
  have t': "tk_rank ?t = ?r" by (simp add: move_task_def)
  have "sorted (map rank_key (take i col))" "sorted (map rank_key (drop i col))"
    using sorted_wrt_take[OF srt, of i] sorted_wrt_drop[OF srt, of i] by (simp_all add: take_map drop_map)
  moreover have "rank_key u \<le> rank_key ?t" if "u \<in> set (take i col)" for u
    using btw that by (simp add: rank_key_def t')
  moreover have "rank_key ?t \<le> rank_key u" if "u \<in> set (drop i col)" for u
    using btw that by (simp add: rank_key_def t')
  ultimately have new_sorted: "sorted (map rank_key ?new)"
    by (fastforce simp: sorted_append intro: order_trans)
  have "mset ?new = add_mset ?t (mset col)"
    by (metis append_take_drop_id mset.simps(2) mset_append union_mset_add_mset_right)
  then have ms: "mset (filter (\<lambda>u. tk_status u = s) (map (move_task (tk_id t) s ?r) ts)) = mset ?new"
    using filter_move_in[OF ok t, of s ?r] by (simp add: col)
  have "distinct (map tk_num (filter (\<lambda>u. tk_status u = s) (map (move_task (tk_id t) s ?r) ts)))"
  proof -
    have "map tk_num (map (move_task (tk_id t) s ?r) ts) = map tk_num ts" by simp
    then show ?thesis using ok unfolding tasks_ok_def by (metis distinct_map_filter)
  qed
  then have "sort_key rank_key (filter (\<lambda>u. tk_status u = s) (map (move_task (tk_id t) s ?r) ts)) = ?new"
    by (intro sort_key_inj_key_eq[OF ms rank_key_inj new_sorted])
  then show "map tk_id (column (after_drop ts (tk_id t) over) s) = take i (map tk_id col) @ tk_id t # drop i (map tk_id col)"
    using s(2) by (simp add: ad column_sort take_map drop_map)
  show "\<forall>s'. s' \<noteq> s \<longrightarrow> column (after_drop ts (tk_id t) over) s' = filter (\<lambda>u. tk_id u \<noteq> tk_id t) (column ts s')"
    by (auto simp: ad column_filter filter_move_out js_sort_by[OF compares_rank] column_def[of "map f ts" for f])
qed

text \<open>
  What a drop means to the user: the ids of the column with \<open>x\<close> taken out and put in again, behind the
  card \<open>o\<close> it is dropped on when it was dragged down past it and in front of it otherwise, or at the end
  of the column when it is dropped on the column itself.
\<close>

fun put_at_card :: "bool \<Rightarrow> 'a \<Rightarrow> 'a \<Rightarrow> 'a list \<Rightarrow> 'a list" where
  "put_at_card down x target [] = [x]"
| "put_at_card down x target (y # ys) =
     (if y = target then (if down then y # x # ys else x # y # ys) else y # put_at_card down x target ys)"

definition drop_spec :: "string list \<Rightarrow> string \<Rightarrow> string option \<Rightarrow> string list" where
  "drop_spec ids x over =
     (let others = filter (\<lambda>y. y \<noteq> x) ids in
      case over of None \<Rightarrow> others @ [x]
      | Some target \<Rightarrow> put_at_card (x \<in> set (takeWhile (\<lambda>y. y \<noteq> target) ids)) x target others)"

lemma put_at_card_index:
  "find_index (\<lambda>y. y = target) ys = Some k \<Longrightarrow>
    put_at_card down x target ys = take (if down then k + 1 else k) ys @ x # drop (if down then k + 1 else k) ys"
  by (induction ys arbitrary: k) (auto split: if_splits)

lemma above_by_rank:
  assumes "sorted_wrt (\<lambda>a b. tk_rank a < tk_rank b) l" "inj_on tk_id (set l)" "v \<in> set l" "t \<in> set l"
  shows "tk_id t \<in> set (takeWhile (\<lambda>y. y \<noteq> tk_id v) (map tk_id l)) \<longleftrightarrow> tk_rank t < tk_rank v"
  using assms
proof (induction l)
  case Nil
  then show ?case by simp
next
  case (Cons u l)
  have inj: "inj_on tk_id (set l)" using Cons.prems(2) by (simp add: inj_on_def)
  show ?case
  proof (cases "v = u")
    case True
    have "\<not> tk_rank t < tk_rank u" using Cons.prems(1,4) by auto
    then show ?thesis using True by simp
  next
    case False
    then have v: "v \<in> set l" and uv: "tk_rank u < tk_rank v" and ids: "tk_id u \<noteq> tk_id v"
      using Cons.prems by (auto dest: inj_onD)
    show ?thesis
    proof (cases "t = u")
      case True
      then show ?thesis using ids uv by simp
    next
      case tu: False
      then have "t \<in> set l" "tk_id t \<noteq> tk_id u" using Cons.prems(4) inj_onD[OF Cons.prems(2), of t u] by auto
      then show ?thesis using Cons.IH[OF _ inj v] Cons.prems(1) ids by simp
    qed
  qed
qed

lemma find_index_map: "find_index P (map f xs) = find_index (\<lambda>x. P (f x)) xs"
  by (induction xs) auto

lemma drop_spec_index:
  assumes ok: "tasks_ok ts" and t: "t \<in> set ts" and over: "over \<noteq> tk_id t"
    and s: "columnOf ts over = Some s" "s \<in> set STATUSES"
    and ranks: "distinct (map tk_rank (column ts s))"
  defines "col \<equiv> filter (\<lambda>u. tk_id u \<noteq> tk_id t) (column ts s)"
  defines "target \<equiv> if startsWith over ''col:'' then None else Some over"
  defines "i \<equiv> insertion_index col t s target"
  shows "take i (map tk_id col) @ tk_id t # drop i (map tk_id col) = drop_spec (map tk_id (column ts s)) (tk_id t) target"
proof (cases "startsWith over ''col:''")
  case True
  then show ?thesis by (simp add: drop_spec_def target_def i_def insertion_index_def col_def filter_map comp_def)
next
  case False
  let ?c = "column ts s"
  have cs: "?c = sort_key rank_key (filter (\<lambda>t. tk_status t = s) ts)" by (rule column_sort[OF s(2)])
  have mem: "u \<in> set ?c \<longleftrightarrow> u \<in> set ts \<and> tk_status u = s" for u by (auto simp: cs)
  have inj: "inj_on tk_id (set ?c)" using tasks_ok_inj[OF ok] by (auto simp: inj_on_def mem)
  from s(1) False obtain v where v: "v \<in> set ts" "tk_id v = over" "tk_status v = s"
    by (auto simp: columnOf_def split: if_splits dest: find_Some_in)
  have "sorted (map rank_key ?c)" by (simp add: cs)
  then have "sorted (map tk_rank ?c)"
    by (auto simp: sorted_map rank_key_def elim!: sorted_wrt_mono_rel[rotated])
  then have srt: "sorted_wrt (\<lambda>a b. tk_rank a < tk_rank b) ?c"
    using ranks strict_sorted_iff[of "map tk_rank ?c"] by (simp add: sorted_wrt_map)
  have "v \<in> set col" using v over by (simp add: col_def mem)
  then obtain k where k: "find_index (\<lambda>u. tk_id u = over) col = Some k"
    using v(2) by (cases "find_index (\<lambda>u. tk_id u = over) col") (auto simp: find_index_None)
  note fk = find_index_SomeD[OF k]
  have "col ! k \<in> set ts" using nth_mem[OF fk(1)] by (simp add: col_def mem)
  then have "col ! k = v" using fk(2) v tasks_ok_inj[OF ok] by simp
  moreover have "tk_id t \<in> set (takeWhile (\<lambda>y. y \<noteq> over) (map tk_id ?c)) \<longleftrightarrow> s = tk_status t \<and> tk_rank t < tk_rank v"
  proof (cases "t \<in> set ?c")
    case True
    then show ?thesis using above_by_rank[OF srt inj _ True, of v] v by (simp add: mem)
  next
    case out: False
    then have "tk_id t \<notin> tk_id ` set ?c" using tasks_ok_inj[OF ok _ t] by (auto simp: mem)
    then show ?thesis using out t by (auto simp: mem dest: set_takeWhileD)
  qed
  ultimately show ?thesis
    using False k put_at_card_index[of over "map tk_id col" k _ "tk_id t"]
    by (simp add: drop_spec_def target_def i_def insertion_index_def find_index_map col_def filter_map comp_def)
qed

text \<open>
  C14. A dropped card lands where it was dropped: behind the card under the pointer when it was dragged
  down past it, in front of that card otherwise, and at the end when it was dropped on the column - every
  other card of the board staying where it was. The cards of the target column have different ranks: with
  equal ranks there is no rank between them.
\<close>

theorem drop_lands:
  assumes "tasks_ok ts" "t \<in> set ts" "over \<noteq> tk_id t" "columnOf ts over = Some s" "s \<in> set STATUSES"
    and ranks: "distinct (map tk_rank (column ts s))"
  shows "map tk_id (column (after_drop ts (tk_id t) over) s) =
      drop_spec (map tk_id (column ts s)) (tk_id t) (if startsWith over ''col:'' then None else Some over) \<and>
    (\<forall>s'. s' \<noteq> s \<longrightarrow> column (after_drop ts (tk_id t) over) s' = filter (\<lambda>u. tk_id u \<noteq> tk_id t) (column ts s'))"
proof -
  let ?col = "filter (\<lambda>u. tk_id u \<noteq> tk_id t) (column ts s)"
  have "distinct (map tk_rank ?col)" using ranks by (rule distinct_map_filter)
  then have gap: "tk_rank (?col ! (i - 1)) \<noteq> tk_rank (?col ! i)" if "0 < i" "i < length ?col" for i
    using that nth_eq_iff_index_eq[of "map tk_rank ?col" "i - 1" i] by simp
  show ?thesis
    unfolding drop_spec_index[OF assms, symmetric] by (rule drop_lands_index[OF assms(1-5) gap])
qed

text \<open>A board of three cards in one column and one in another.\<close>

definition sample_task :: "string \<Rightarrow> int \<Rightarrow> string \<Rightarrow> rat \<Rightarrow> task" where
  "sample_task i n s r =
     \<lparr>tk_id = i, tk_num = n, tk_projectId = ''p'', tk_hubId = ''h'', tk_projectName = ''P'',
      tk_title = ''t'', tk_description = None, tk_status = s, tk_priority = ''medium'',
      tk_dueDate = None, tk_assignee = None, tk_createdBy = \<lparr>tu_id = ''u'', tu_name = None, tu_email = None\<rparr>,
      tk_createdAt = [], tk_updatedAt = [], tk_docRefs = [], tk_rank = r, tk_startDate = None,
      tk_endDate = None, tk_progress = None, tk_milestone = None, tk_dependsOn = [], tk_stage = None\<rparr>"

definition sample_board :: "task list" where
  "sample_board = [sample_task ''c'' 3 ''todo'' 3, sample_task ''a'' 1 ''todo'' 1,
     sample_task ''b'' 2 ''todo'' 2, sample_task ''d'' 4 ''done'' 1]"

lemma sample_board_todo:
  "column sample_board ''todo'' = [sample_task ''a'' 1 ''todo'' 1, sample_task ''b'' 2 ''todo'' 2, sample_task ''c'' 3 ''todo'' 3]"
  by (simp add: sample_board_def column_def STATUSES_def cmp_rank_def cmp_lin_def cmp_or_def sample_task_def)

lemma drop_lands_witness:
  "map tk_id (column (after_drop sample_board ''d'' ''b'') ''todo'') = [''a'', ''d'', ''b'', ''c''] \<and>
    column (after_drop sample_board ''d'' ''b'') ''done'' = []"
proof -
  let ?d = "sample_task ''d'' 4 ''done'' 1"
  have ids: "tk_id ?d = ''d''" by (simp add: sample_task_def)
  have ok: "tasks_ok sample_board" by (simp add: tasks_ok_def sample_board_def sample_task_def)
  have mem: "?d \<in> set sample_board" by (simp add: sample_board_def)
  have c: "columnOf sample_board ''b'' = Some ''todo''" "''todo'' \<in> set STATUSES"
    by (simp_all add: columnOf_def sample_board_def sample_task_def STATUSES_def)
  have d: "column sample_board ''done'' = [?d]"
    by (simp add: sample_board_def column_def STATUSES_def sample_task_def)
  have "''b'' \<noteq> tk_id ?d" by (simp add: ids)
  moreover have "distinct (map tk_rank (column sample_board ''todo''))"
    by (simp add: sample_board_todo sample_task_def)
  ultimately show ?thesis
    using drop_lands[OF ok mem _ c] by (simp add: ids sample_board_todo d drop_spec_def sample_task_def)
qed

end
