(* ===== verification/JsNumber.thy ===== *)
theory JsNumber
  imports JsPrelude
begin

section \<open>Numbers and their decimal text\<close>

text \<open>
  \<open>String(n)\<close> and \<open>padStart\<close> on integers, \<open>Number(s)\<close> on the strings the calendar code splits (runs of
  digits; the empty string is 0; anything else is taken as \<open>NaN\<close>, here \<^const>\<open>None\<close>), and
  \<open>Math.round\<close>, which rounds halves up.
\<close>

definition digit_char :: "nat \<Rightarrow> char" where
  "digit_char n = char_of (48 + n)"

definition is_digit :: "char \<Rightarrow> bool" where
  "is_digit c = (48 \<le> (of_char c :: nat) \<and> (of_char c :: nat) \<le> 57)"

definition digit_val :: "char \<Rightarrow> nat" where
  "digit_val c = of_char c - 48"

fun show_nat :: "nat \<Rightarrow> string" where
  "show_nat n = (if n < 10 then [digit_char n] else show_nat (n div 10) @ [digit_char (n mod 10)])"

declare show_nat.simps [simp del]

definition show_int :: "int \<Rightarrow> string" where
  "show_int i = (if i < 0 then ''-'' @ show_nat (nat (- i)) else show_nat (nat i))"

definition padStart :: "nat \<Rightarrow> char \<Rightarrow> string \<Rightarrow> string" where
  "padStart n c s = replicate (n - length s) c @ s"

definition read_digits :: "string \<Rightarrow> nat" where
  "read_digits s = foldl (\<lambda>a c. 10 * a + digit_val c) 0 s"

definition js_number :: "string \<Rightarrow> int option" where
  "js_number s = (if list_all is_digit s then Some (int (read_digits s)) else None)"

definition js_round :: "rat \<Rightarrow> int" where
  "js_round x = \<lfloor>x + 1 / 2\<rfloor>"

text \<open>\<open>Math.round(a / b)\<close> of two integers, without the fraction.\<close>

definition round_div :: "int \<Rightarrow> int \<Rightarrow> int" where
  "round_div a b = (2 * a + b) div (2 * b)"

lemma digit_simps [simp]:
  "n < 10 \<Longrightarrow> is_digit (digit_char n)" "n < 10 \<Longrightarrow> digit_val (digit_char n) = n"
  by (auto simp: is_digit_def digit_char_def digit_val_def)

lemma digits_no_dash: "list_all is_digit s \<Longrightarrow> CHR ''-'' \<notin> set s"
  by (auto simp: list_all_iff is_digit_def)

lemma digits_show: "list_all is_digit (show_nat n)"
  by (induction n rule: show_nat.induct) (subst show_nat.simps, auto)

lemma read_snoc: "read_digits (s @ [c]) = 10 * read_digits s + digit_val c"
  by (simp add: read_digits_def)

lemma read_show [simp]: "read_digits (show_nat n) = n"
proof (induction n rule: show_nat.induct)
  case (1 n)
  show ?case
  proof (cases "n < 10")
    case True
    then show ?thesis by (subst show_nat.simps) (simp add: read_digits_def)
  next
    case False
    with 1 show ?thesis by (subst show_nat.simps) (simp add: read_snoc)
  qed
qed

lemma show_nat_ne [simp]: "show_nat n \<noteq> []"
  by (subst show_nat.simps) auto

lemma length_show: "n < 10 ^ k \<Longrightarrow> 0 < k \<Longrightarrow> length (show_nat n) \<le> k"
proof (induction n arbitrary: k rule: show_nat.induct)
  case (1 n)
  show ?case
  proof (cases "n < 10")
    case True
    with 1 show ?thesis by (subst show_nat.simps) simp
  next
    case False
    then obtain j where k: "k = Suc j" "0 < j" using "1.prems" by (cases k; cases "k - 1") auto
    then have "n div 10 < 10 ^ j" using "1.prems"(1) by (simp add: less_mult_imp_div_less mult.commute)
    with 1 False k show ?thesis by (subst show_nat.simps) simp
  qed
qed

lemma length_show_ge: "10 ^ k \<le> n \<Longrightarrow> Suc k \<le> length (show_nat n)"
proof (induction n arbitrary: k rule: show_nat.induct)
  case (1 n)
  show ?case
  proof (cases k)
    case 0
    then show ?thesis by (simp add: Suc_leI)
  next
    case (Suc j)
    then have n: "\<not> n < 10" "10 ^ j \<le> n div 10"
      using "1.prems" by (auto simp: less_eq_div_iff_mult_less_eq mult.commute)
        (metis One_nat_def le_trans less_le_not_le mult_le_mono2 nat_mult_1_right one_le_numeral one_le_power)
    with 1 Suc show ?thesis by (subst show_nat.simps) simp
  qed
qed

lemma js_number_show [simp]: "js_number (show_nat n) = Some (int n)"
  by (simp add: js_number_def digits_show)

lemma read_zeros: "read_digits (replicate k (CHR ''0'') @ s) = read_digits s"
  by (induction k) (simp_all add: read_digits_def digit_val_def)

lemma js_number_pad [simp]: "js_number (padStart k (CHR ''0'') (show_nat n)) = Some (int n)"
proof -
  have "list_all is_digit (padStart k (CHR ''0'') (show_nat n))"
    using digits_show[of n] by (auto simp: padStart_def list_all_iff is_digit_def)
  then show ?thesis by (simp add: js_number_def padStart_def read_zeros)
qed

lemma show_nat_minus: "hd (show_nat n) \<noteq> CHR ''-''"
proof -
  have "\<not> is_digit (CHR ''-'')" by (simp add: is_digit_def)
  then show ?thesis using digits_show[of n] by (cases "show_nat n") (auto simp: list_all_iff)
qed

lemma show_nat_inj: "show_nat m = show_nat n \<Longrightarrow> m = n"
  by (metis read_show)

lemma show_int_inj: "show_int i = show_int j \<Longrightarrow> i = j"
proof -
  assume e: "show_int i = show_int j"
  then have "i < 0 \<longleftrightarrow> j < 0"
    using show_nat_minus by (auto simp: show_int_def split: if_splits) (metis list.sel(1))+
  with e show ?thesis by (auto simp: show_int_def split: if_splits dest!: show_nat_inj)
qed

end
