(* ===== verification/Calendar.thy ===== *)
theory Calendar
  imports JsNumber
begin

section \<open>Calendar days\<close>

text \<open>
  \<open>fmt/dates.ts\<close>, over the calendar of the ECMAScript specification. A \<open>Date\<close> is its instant in
  milliseconds; the time zone is a parameter, the two conversions between instants and local wall
  time, and \<open>zone_ok\<close> says what any real zone guarantees: the first instant of a local day is on that
  day (some days have no midnight, and start at 01:00), and offsets differ by less than half a day.
  An invalid date is \<^const>\<open>None\<close>. The bound on the range of a \<open>Date\<close> is not modelled.
\<close>

subsection \<open>The Gregorian calendar\<close>

definition leap :: "int \<Rightarrow> bool" where
  "leap y = ((y mod 4 = 0 \<and> y mod 100 \<noteq> 0) \<or> y mod 400 = 0)"

definition month_lens :: "int \<Rightarrow> int list" where
  "month_lens y = [31, if leap y then 29 else 28, 31, 30, 31, 30, 31, 31, 30, 31, 30, 31]"

definition month_len :: "int \<Rightarrow> int \<Rightarrow> int" where
  "month_len y m = month_lens y ! nat m"

definition year_len :: "int \<Rightarrow> int" where
  "year_len y = (if leap y then 366 else 365)"

text \<open>Days from 1 January of year 1 to 1 January of year \<open>y\<close>.\<close>

definition before_year :: "int \<Rightarrow> int" where
  "before_year y = 365 * (y - 1) + (y - 1) div 4 - (y - 1) div 100 + (y - 1) div 400"

definition before_month :: "int \<Rightarrow> int \<Rightarrow> int" where
  "before_month y m = sum_list (take (nat m) (month_lens y))"

definition EPOCH :: int where "EPOCH = 719162"

text \<open>\<open>MakeDay\<close>: the day number, counted from 1970, of any year, month (from 0) and date.\<close>

definition day_number :: "int \<Rightarrow> int \<Rightarrow> int \<Rightarrow> int" where
  "day_number y m d =
     (let y' = y + m div 12; m' = m mod 12 in before_year y' + before_month y' m' + d - 1 - EPOCH)"

definition year_of :: "int \<Rightarrow> int" where
  "year_of n =
     (let n400 = n div 146097; r = n mod 146097;
          n100 = min 3 (r div 36524); r = r - 36524 * n100;
          n4 = r div 1461; r = r mod 1461;
          n1 = min 3 (r div 365)
      in 400 * n400 + 100 * n100 + 4 * n4 + n1 + 1)"

fun month_walk :: "int list \<Rightarrow> int \<Rightarrow> int \<Rightarrow> int \<times> int" where
  "month_walk [] m r = (m, r)"
| "month_walk (l # ls) m r = (if r < l then (m, r) else month_walk ls (m + 1) (r - l))"

definition civil :: "int \<Rightarrow> int \<times> int \<times> int" where
  "civil n =
     (let k = n + EPOCH; y = year_of k
      in case month_walk (month_lens y) 0 (k - before_year y) of (m, r) \<Rightarrow> (y, m, r + 1))"

definition valid_civil :: "int \<Rightarrow> int \<Rightarrow> int \<Rightarrow> bool" where
  "valid_civil y m d \<longleftrightarrow> 0 \<le> m \<and> m < 12 \<and> 1 \<le> d \<and> d \<le> month_len y m"

lemma div_step:
  fixes y k :: int
  assumes "0 < k"
  shows "y div k - (y - 1) div k = (if y mod k = 0 then 1 else 0)"
proof -
  have y: "y = k * (y div k) + y mod k" by simp
  show ?thesis
  proof (cases "y mod k = 0")
    case True
    have "(y - 1) div k = y div k - 1"
      by (rule int_div_pos_eq[of _ _ _ "k - 1"]) (use y True assms in \<open>simp_all add: algebra_simps\<close>)
    with True show ?thesis by simp
  next
    case False
    have "0 \<le> y mod k" "y mod k < k" using assms by simp_all
    with False have "(y - 1) div k = y div k"
      by (intro int_div_pos_eq[of _ _ _ "y mod k - 1"]) (use y in linarith)+
    with False show ?thesis by simp
  qed
qed

lemma mod_400:
  fixes y :: int
  shows "y mod 400 = 0 \<Longrightarrow> y mod 100 = 0" "y mod 100 = 0 \<Longrightarrow> y mod 4 = 0"
proof -
  show "y mod 100 = 0" if "y mod 400 = 0"
  proof -
    from that have "400 dvd y" by (rule mod_0_imp_dvd)
    then obtain k where "y = 400 * k" by (rule dvdE)
    then have "y = 100 * (4 * k)" by simp
    then show ?thesis by (metis mod_mult_self1_is_0)
  qed
  show "y mod 4 = 0" if "y mod 100 = 0"
  proof -
    from that have "100 dvd y" by (rule mod_0_imp_dvd)
    then obtain k where "y = 100 * k" by (rule dvdE)
    then have "y = 4 * (25 * k)" by simp
    then show ?thesis by (metis mod_mult_self1_is_0)
  qed
qed

lemma leap_sum:
  "(R \<Longrightarrow> Q) \<Longrightarrow> (Q \<Longrightarrow> P) \<Longrightarrow> (if (P \<and> \<not> Q) \<or> R then 366 else 365 :: int) =
    365 + (if P then 1 else 0) - (if Q then 1 else 0) + (if R then 1 else 0)"
  by auto

lemma before_year_Suc: "before_year (y + 1) = before_year y + year_len y"
proof -
  have "before_year (y + 1) = before_year y +
      (365 + (y div 4 - (y - 1) div 4) - (y div 100 - (y - 1) div 100) + (y div 400 - (y - 1) div 400))"
    by (simp add: before_year_def)
  also have "365 + (y div 4 - (y - 1) div 4) - (y div 100 - (y - 1) div 100) + (y div 400 - (y - 1) div 400)
      = year_len y"
    unfolding year_len_def leap_def
    by (subst leap_sum[OF mod_400]) (assumption | rule arg_cong2[where f = "(+)"]
        arg_cong2[where f = "(-)"] refl div_step | simp)+
  finally show ?thesis .
qed

lemma before_year_mono: "y \<le> z \<Longrightarrow> before_year y + 365 * (z - y) \<le> before_year z"
proof (induction "nat (z - y)" arbitrary: z)
  case 0
  then show ?case by simp
next
  case (Suc k)
  then have "before_year y + 365 * (z - 1 - y) \<le> before_year (z - 1)" by (intro Suc.hyps(1)) auto
  moreover have "before_year z = before_year (z - 1) + year_len (z - 1)"
    using before_year_Suc[of "z - 1"] by simp
  moreover have "365 \<le> year_len (z - 1)" by (simp add: year_len_def)
  ultimately show ?case by simp
qed

lemma year_unique:
  assumes "before_year y \<le> n" "n < before_year (y + 1)" "before_year z \<le> n" "n < before_year (z + 1)"
  shows "y = z"
proof (rule ccontr)
  assume "y \<noteq> z"
  then consider "y + 1 \<le> z" | "z + 1 \<le> y" by linarith
  then show False
    using assms before_year_mono[of "y + 1" z] before_year_mono[of "z + 1" y] by cases auto
qed

lemma year_parts:
  fixes a b c e :: int
  assumes "0 \<le> b" "b \<le> 3" "0 \<le> c" "c \<le> 24" "0 \<le> e" "e \<le> 3"
  shows "before_year (400 * a + 100 * b + 4 * c + e + 1) = 146097 * a + 36524 * b + 1461 * c + 365 * e"
proof -
  let ?y = "400 * a + 100 * b + 4 * c + e"
  have "?y div 4 = 100 * a + 25 * b + c"
    by (rule int_div_pos_eq[of _ _ _ e]) (use assms in simp_all)
  moreover have "?y div 100 = 4 * a + b"
    by (rule int_div_pos_eq[of _ _ _ "4 * c + e"]) (use assms in simp_all)
  moreover have "?y div 400 = a"
    by (rule int_div_pos_eq[of _ _ _ "100 * b + 4 * c + e"]) (use assms in simp_all)
  ultimately show ?thesis by (simp add: before_year_def)
qed

lemma year_of_bounds: "before_year (year_of n) \<le> n \<and> n < before_year (year_of n + 1)"
proof -
  define a r where "a = n div 146097" and "r = n mod 146097"
  define b where "b = min 3 (r div 36524)"
  define r2 where "r2 = r - 36524 * b"
  define c r3 where "c = r2 div 1461" and "r3 = r2 mod 1461"
  define e where "e = min 3 (r3 div 365)"
  have n: "n = 146097 * a + r" "0 \<le> r" "r < 146097" by (simp_all add: a_def r_def)
  have b: "0 \<le> b" "b \<le> 3" "0 \<le> r2" "r2 \<le> 36524" "b < 3 \<Longrightarrow> r2 < 36524"
  proof -
    have q: "r = 36524 * (r div 36524) + r mod 36524" "0 \<le> r mod 36524" "r mod 36524 < 36524"
      by simp_all
    have "0 \<le> r div 36524" using n by simp
    with q n show "0 \<le> b" "b \<le> 3" "0 \<le> r2" "r2 \<le> 36524" "b < 3 \<Longrightarrow> r2 < 36524"
      unfolding b_def r2_def min_def by (auto split: if_splits)
  qed
  have c: "0 \<le> c" "c \<le> 24" "r2 = 1461 * c + r3" "0 \<le> r3" "r3 < 1461"
    using b zdiv_mono1[of r2 36524 1461] unfolding c_def r3_def by simp_all
  have e: "0 \<le> e" "e \<le> 3" "365 * e \<le> r3" "e < 3 \<Longrightarrow> r3 < 365 * (e + 1)" "r3 \<le> 365 * e + 365"
  proof -
    have q: "r3 = 365 * (r3 div 365) + r3 mod 365" "0 \<le> r3 mod 365" "r3 mod 365 < 365"
      by simp_all
    have "0 \<le> r3 div 365" using c by simp
    with q c show "0 \<le> e" "e \<le> 3" "365 * e \<le> r3" "e < 3 \<Longrightarrow> r3 < 365 * (e + 1)" "r3 \<le> 365 * e + 365"
      unfolding e_def min_def by (auto split: if_splits)
  qed
  have y: "year_of n = 400 * a + 100 * b + 4 * c + e + 1"
    by (simp add: year_of_def Let_def a_def b_def c_def e_def r_def r2_def r3_def)
  have start: "before_year (year_of n) = 146097 * a + 36524 * b + 1461 * c + 365 * e"
    unfolding y using b c e by (intro year_parts) auto
  have "n < before_year (year_of n) + year_len (year_of n)"
  proof (cases "e < 3")
    case True
    have "365 \<le> year_len (year_of n)" by (simp add: year_len_def)
    moreover have "n = 146097 * a + 36524 * b + 1461 * c + r3" using n(1) c(3) unfolding r2_def by linarith
    moreover have "r3 < 365 * e + 365" using e(4)[OF True] by (simp add: algebra_simps)
    ultimately show ?thesis using start by linarith
  next
    case False
    then have e3: "e = 3" using e by simp
    show ?thesis
    proof (cases "leap (year_of n)")
      case True
      then show ?thesis using start n c b e e3 unfolding r2_def year_len_def by simp
    next
      case False
      have "year_of n = 4 * (100 * a + 25 * b + c + 1)" unfolding y e3 by simp
      then have 4: "year_of n mod 4 = 0" by simp
      with False have 100: "year_of n mod 100 = 0" "year_of n mod 400 \<noteq> 0" by (auto simp: leap_def)
      have c24: "c = 24"
      proof (rule ccontr)
        assume "c \<noteq> 24"
        then have "year_of n mod 100 = 4 * c + 4"
          unfolding y e3 using c by (intro int_mod_pos_eq[of _ _ "4 * a + b"]) simp_all
        with 100(1) c(1) show False by simp
      qed
      have "b < 3"
      proof (rule ccontr)
        assume "\<not> b < 3"
        then have "year_of n = 400 * (a + 1)" unfolding y e3 using c24 b by simp
        with 100(2) show False by simp
      qed
      with c24 show ?thesis using start n c b e e3 unfolding r2_def year_len_def by simp
    qed
  qed
  moreover have "before_year (year_of n) \<le> n" using start n c e unfolding r2_def by linarith
  ultimately show ?thesis by (simp add: before_year_Suc)
qed

lemma month_walk_sum:
  "k < length ls \<Longrightarrow> \<forall>l \<in> set ls. 0 \<le> l \<Longrightarrow> 0 \<le> j \<Longrightarrow> j < ls ! k \<Longrightarrow>
    month_walk ls m (sum_list (take k ls) + j) = (m + int k, j)"
proof (induction ls arbitrary: k m)
  case Nil
  then show ?case by simp
next
  case (Cons l ls)
  show ?case
  proof (cases k)
    case 0
    with Cons.prems show ?thesis by simp
  next
    case (Suc i)
    have "0 \<le> sum_list (take i ls)"
      using Cons.prems(2) by (intro sum_list_nonneg) (auto dest: in_set_takeD)
    with Cons.IH[of i "m + 1"] Cons.prems Suc show ?thesis by (simp add: add.assoc)
  qed
qed

lemma month_walk_split:
  fixes r :: int
  shows "0 \<le> r \<Longrightarrow> r < sum_list ls \<Longrightarrow>
    \<exists>k < length ls. 0 \<le> r - sum_list (take k ls) \<and> r - sum_list (take k ls) < ls ! k"
proof (induction ls arbitrary: r)
  case Nil
  then have False by simp
  then show ?case ..
next
  case (Cons l ls)
  show ?case
  proof (cases "r < l")
    case True
    with Cons.prems show ?thesis by (intro exI[of _ 0]) simp
  next
    case False
    with Cons.IH[of "r - l"] Cons.prems obtain k where
      "k < length ls" "0 \<le> r - l - sum_list (take k ls)" "r - l - sum_list (take k ls) < ls ! k" by auto
    then show ?thesis by (intro exI[of _ "Suc k"]) (simp add: algebra_simps)
  qed
qed

lemma month_lens_nonneg: "\<forall>l \<in> set (month_lens y). 28 \<le> l \<and> l \<le> 31"
  by (simp add: month_lens_def)

lemma length_month_lens [simp]: "length (month_lens y) = 12"
  by (simp add: month_lens_def)

lemma sum_month_lens: "sum_list (month_lens y) = year_len y"
  by (simp add: month_lens_def year_len_def)

lemma month_len_bounds: "0 \<le> m \<Longrightarrow> m < 12 \<Longrightarrow> 28 \<le> month_len y m \<and> month_len y m \<le> 31"
  using month_lens_nonneg[of y] by (simp add: month_len_def)

lemma before_month_bounds:
  assumes "valid_civil y m d"
  shows "0 \<le> before_month y m" "before_month y m + d \<le> year_len y"
proof -
  have k: "nat m < length (month_lens y)" using assms by (auto simp: valid_civil_def)
  have nn: "0 \<le> sum_list (take i (month_lens y))" for i
    using month_lens_nonneg[of y] by (intro sum_list_nonneg) (fastforce dest: in_set_takeD)
  have nd: "0 \<le> sum_list (drop i (month_lens y))" for i
    using month_lens_nonneg[of y] by (intro sum_list_nonneg) (fastforce dest: in_set_dropD)
  show "0 \<le> before_month y m" by (simp add: before_month_def nn)
  have "year_len y = sum_list (take (nat m) (month_lens y) @ month_lens y ! nat m # drop (Suc (nat m)) (month_lens y))"
    using id_take_nth_drop[OF k] sum_month_lens[of y] by simp
  then have "year_len y = before_month y m + month_len y m + sum_list (drop (Suc (nat m)) (month_lens y))"
    by (simp add: before_month_def month_len_def)
  with nd[of "Suc (nat m)"] assms show "before_month y m + d \<le> year_len y" by (simp add: valid_civil_def)
qed

lemma year_of_unique: "before_year y \<le> n \<Longrightarrow> n < before_year (y + 1) \<Longrightarrow> year_of n = y"
  using year_of_bounds[of n] year_unique by blast

lemma day_number_valid:
  "0 \<le> m \<Longrightarrow> m < 12 \<Longrightarrow> day_number y m d = before_year y + before_month y m + d - 1 - EPOCH"
  by (simp add: day_number_def Let_def)

lemma civil_day_number:
  assumes "valid_civil y m d"
  shows "civil (day_number y m d) = (y, m, d)"
proof -
  have m: "0 \<le> m" "m < 12" and d: "1 \<le> d" "d \<le> month_len y m" using assms by (auto simp: valid_civil_def)
  let ?n = "day_number y m d + EPOCH"
  have n: "?n = before_year y + (before_month y m + (d - 1))" using m by (simp add: day_number_valid)
  have "year_of ?n = y"
    using before_month_bounds[OF assms] d by (intro year_of_unique) (auto simp: n before_year_Suc)
  moreover have "month_walk (month_lens y) 0 (?n - before_year y) = (0 + int (nat m), d - 1)"
    unfolding n before_month_def add_diff_cancel_left'
    by (rule month_walk_sum) (use m d month_lens_nonneg[of y] in \<open>auto simp: month_len_def\<close>)
  ultimately show ?thesis using m by (simp add: civil_def Let_def)
qed

lemma day_number_civil:
  assumes "civil n = (y, m, d)"
  shows "valid_civil y m d \<and> day_number y m d = n"
proof -
  let ?k = "n + EPOCH"
  have y: "y = year_of ?k" using assms by (simp add: civil_def Let_def split: prod.splits)
  have b: "before_year y \<le> ?k" "?k < before_year y + year_len y"
    using year_of_bounds[of ?k] by (simp_all add: y before_year_Suc)
  then obtain i where i: "i < 12" "0 \<le> ?k - before_year y - sum_list (take i (month_lens y))"
    "?k - before_year y - sum_list (take i (month_lens y)) < month_lens y ! i"
    using month_walk_split[of "?k - before_year y" "month_lens y"] by (auto simp: sum_month_lens)
  define j where "j = ?k - before_year y - sum_list (take i (month_lens y))"
  have r: "?k - before_year y = sum_list (take i (month_lens y)) + j" by (simp add: j_def)
  have w: "month_walk (month_lens y) 0 (?k - before_year y) = (0 + int i, j)"
    unfolding r by (rule month_walk_sum) (use i month_lens_nonneg[of y] in \<open>auto simp: j_def\<close>)
  have md: "m = int i" "d = j + 1"
    using assms w by (simp_all add: civil_def Let_def y[symmetric])
  have "valid_civil y m d" using i by (simp add: valid_civil_def md month_len_def j_def)
  moreover have "day_number y m d = n"
    using i r by (simp add: md day_number_valid before_month_def)
  ultimately show ?thesis by simp
qed

lemma day_number_inj:
  "valid_civil y m d \<Longrightarrow> valid_civil y' m' d' \<Longrightarrow> day_number y m d = day_number y' m' d' \<Longrightarrow>
    y = y' \<and> m = m' \<and> d = d'"
  by (metis civil_day_number prod.inject)

lemma day_number_add: "day_number y m (d + k) = day_number y m d + k"
  by (simp add: day_number_def Let_def)

subsection \<open>Time zones and dates\<close>

definition DAY_MS :: int where "DAY_MS = 86400000"

record zone =
  z_local :: "int \<Rightarrow> int"
  z_utc :: "int \<Rightarrow> int"

definition zone_ok :: "zone \<Rightarrow> bool" where
  "zone_ok z \<longleftrightarrow>
     (\<forall>n. 0 \<le> z_local z (z_utc z (DAY_MS * n)) - DAY_MS * n \<and>
          z_local z (z_utc z (DAY_MS * n)) - DAY_MS * n < DAY_MS) \<and>
     (\<forall>a b. 2 * \<bar>(z_utc z (DAY_MS * a) - DAY_MS * a) - (z_utc z (DAY_MS * b) - DAY_MS * b)\<bar> < DAY_MS)"

type_synonym date = int

definition midnight :: "zone \<Rightarrow> int \<Rightarrow> date" where
  "midnight z n = z_utc z (DAY_MS * n)"

text \<open>\<open>new Date(y, m, d)\<close>: a year from 0 to 99 means 1900 to 1999.\<close>

definition new_Date :: "zone \<Rightarrow> int \<Rightarrow> int \<Rightarrow> int \<Rightarrow> date" where
  "new_Date z y m d =
     midnight z (day_number (if 0 \<le> y \<and> y \<le> 99 then 1900 + y else y) m d)"

definition local_day :: "zone \<Rightarrow> date \<Rightarrow> int" where
  "local_day z t = z_local z t div DAY_MS"

definition getFullYear :: "zone \<Rightarrow> date \<Rightarrow> int" where
  "getFullYear z t = fst (civil (local_day z t))"

definition getMonth :: "zone \<Rightarrow> date \<Rightarrow> int" where
  "getMonth z t = fst (snd (civil (local_day z t)))"

definition getDate :: "zone \<Rightarrow> date \<Rightarrow> int" where
  "getDate z t = snd (snd (civil (local_day z t)))"

definition getDay :: "zone \<Rightarrow> date \<Rightarrow> int" where
  "getDay z t = (local_day z t + 4) mod 7"

subsection \<open>The functions of \<open>fmt/dates.ts\<close>\<close>

definition nan_or :: "int option \<Rightarrow> int \<Rightarrow> int" where
  "nan_or x d = (case x of None \<Rightarrow> d | Some n \<Rightarrow> if n = 0 then d else n)"

definition parseDay :: "zone \<Rightarrow> string \<Rightarrow> date option" where
  "parseDay z s =
     (let parts = map js_number (split_on (CHR ''-'') s);
          y = parts ! 0;
          m = (if 1 < length parts then parts ! 1 else None);
          d = (if 2 < length parts then parts ! 2 else None)
      in map_option (\<lambda>y. new_Date z y (nan_or m 1 - 1) (nan_or d 1)) y)"

definition pad2 :: "int \<Rightarrow> string" where
  "pad2 n = padStart 2 (CHR ''0'') (show_int n)"

definition fmtDay :: "zone \<Rightarrow> date \<Rightarrow> string" where
  "fmtDay z d = show_int (getFullYear z d) @ ''-'' @ pad2 (getMonth z d + 1) @ ''-'' @ pad2 (getDate z d)"

definition addDays :: "zone \<Rightarrow> date \<Rightarrow> int \<Rightarrow> date" where
  "addDays z d n = new_Date z (getFullYear z d) (getMonth z d) (getDate z d + n)"

definition addMonths :: "zone \<Rightarrow> date \<Rightarrow> int \<Rightarrow> date" where
  "addMonths z d n =
     (let y = getFullYear z d; m = getMonth z d + n; last_d = getDate z (new_Date z y (m + 1) 0)
      in new_Date z y m (min (getDate z d) last_d))"

definition isWeekend :: "zone \<Rightarrow> date \<Rightarrow> bool" where
  "isWeekend z d = (let wd = getDay z d in wd = 0 \<or> wd = 6)"

definition mondayOf :: "zone \<Rightarrow> date \<Rightarrow> date" where
  "mondayOf z d = (let wd = (getDay z d + 6) mod 7 in addDays z d (- wd))"

definition daysBetween :: "date \<Rightarrow> date \<Rightarrow> int" where
  "daysBetween a b = round_div (b - a) DAY_MS"

record breakdown =
  bd_years :: int
  bd_months :: int
  bd_days :: int

definition breakdown_forward :: "zone \<Rightarrow> date \<Rightarrow> date \<Rightarrow> breakdown" where
  "breakdown_forward z f t =
     (let months = (getFullYear z t - getFullYear z f) * 12 + (getMonth z t - getMonth z f);
          months = (if addMonths z f months > t then months - 1 else months);
          days = daysBetween (addMonths z f months) t
      in \<lparr>bd_years = months div 12, bd_months = months mod 12, bd_days = days\<rparr>)"

definition calendarBreakdown :: "zone \<Rightarrow> date \<Rightarrow> date \<Rightarrow> breakdown" where
  "calendarBreakdown z f t = (if t < f then breakdown_forward z t f else breakdown_forward z f t)"

definition sameDay :: "zone \<Rightarrow> date \<Rightarrow> date \<Rightarrow> bool" where
  "sameDay z a b = (getFullYear z a = getFullYear z b \<and> getMonth z a = getMonth z b \<and> getDate z a = getDate z b)"

definition today :: "zone \<Rightarrow> date \<Rightarrow> date" where
  "today z now = new_Date z (getFullYear z now) (getMonth z now) (getDate z now)"

text \<open>The pattern of \<open>isDay\<close>: four digits, two digits, two digits.\<close>

definition day_shape :: "string \<Rightarrow> bool" where
  "day_shape s =
     (length s = 10 \<and> s ! 4 = CHR ''-'' \<and> s ! 7 = CHR ''-'' \<and>
      list_all is_digit (take 4 s @ take 2 (drop 5 s) @ drop 8 s))"

definition isDay :: "zone \<Rightarrow> string \<Rightarrow> bool" where
  "isDay z s = (day_shape s \<and> map_option (fmtDay z) (parseDay z s) = Some s)"

definition monthGrid :: "zone \<Rightarrow> date \<Rightarrow> date list" where
  "monthGrid z anchor =
     (let start = mondayOf z (new_Date z (getFullYear z anchor) (getMonth z anchor) 1)
      in map (\<lambda>i. addDays z start (int i)) [0..<42])"

subsection \<open>Days and their first instants\<close>

lemma local_day_midnight [simp]: "zone_ok z \<Longrightarrow> local_day z (midnight z n) = n"
proof -
  assume "zone_ok z"
  then have "0 \<le> z_local z (midnight z n) - DAY_MS * n" "z_local z (midnight z n) - DAY_MS * n < DAY_MS"
    by (auto simp: zone_ok_def midnight_def)
  then show ?thesis
    unfolding local_day_def
    by (intro int_div_pos_eq[of _ _ _ "z_local z (midnight z n) - DAY_MS * n"]) simp_all
qed

lemma midnight_diff:
  assumes "zone_ok z"
  obtains e where "midnight z b = midnight z a + DAY_MS * (b - a) + e" "- DAY_MS < 2 * e" "2 * e < DAY_MS"
proof
  let ?e = "(z_utc z (DAY_MS * b) - DAY_MS * b) - (z_utc z (DAY_MS * a) - DAY_MS * a)"
  show "midnight z b = midnight z a + DAY_MS * (b - a) + ?e"
    by (simp add: midnight_def algebra_simps)
  have "2 * \<bar>?e\<bar> < DAY_MS" using assms unfolding zone_ok_def by blast
  then show "- DAY_MS < 2 * ?e" "2 * ?e < DAY_MS" by (simp_all add: abs_if split: if_splits)
qed

lemma midnight_less: "zone_ok z \<Longrightarrow> a < b \<Longrightarrow> midnight z a < midnight z b"
proof -
  assume z: "zone_ok z" and ab: "a < b"
  obtain e where e: "midnight z b = midnight z a + DAY_MS * (b - a) + e" "- DAY_MS < 2 * e"
    using midnight_diff[OF z] by blast
  have "DAY_MS * 1 \<le> DAY_MS * (b - a)" using ab by (intro mult_left_mono) (simp_all add: DAY_MS_def)
  moreover have "0 < DAY_MS" by (simp add: DAY_MS_def)
  ultimately show ?thesis using e by linarith
qed

lemma midnight_less_iff [simp]: "zone_ok z \<Longrightarrow> midnight z a < midnight z b \<longleftrightarrow> a < b"
  by (metis midnight_less linorder_neqE_linordered_idom order_less_asym)

lemma midnight_eq_iff [simp]: "zone_ok z \<Longrightarrow> midnight z a = midnight z b \<longleftrightarrow> a = b"
  by (metis midnight_less linorder_neqE_linordered_idom order_less_irrefl)

lemma daysBetween_midnight: "zone_ok z \<Longrightarrow> daysBetween (midnight z a) (midnight z b) = b - a"
proof -
  assume z: "zone_ok z"
  obtain e where e: "midnight z b = midnight z a + DAY_MS * (b - a) + e" "- DAY_MS < 2 * e" "2 * e < DAY_MS"
    using midnight_diff[OF z] by blast
  have "2 * (midnight z b - midnight z a) + DAY_MS = (2 * DAY_MS) * (b - a) + (2 * e + DAY_MS)"
    by (simp add: e(1) algebra_simps)
  moreover have "0 \<le> 2 * e + DAY_MS" "2 * e + DAY_MS < 2 * DAY_MS" using e(2,3) by simp_all
  ultimately show ?thesis unfolding daysBetween_def round_div_def by (rule int_div_pos_eq)
qed

definition year_fine :: "int \<Rightarrow> bool" where
  "year_fine y \<longleftrightarrow> y < 0 \<or> 99 < y"

lemma new_Date_fine: "year_fine y \<Longrightarrow> new_Date z y m d = midnight z (day_number y m d)"
  by (auto simp: new_Date_def year_fine_def)

lemma getters_midnight:
  assumes "zone_ok z" "civil n = (y, m, d)"
  shows "getFullYear z (midnight z n) = y" "getMonth z (midnight z n) = m" "getDate z (midnight z n) = d"
  using assms by (simp_all add: getFullYear_def getMonth_def getDate_def)

lemma day_number_getters:
  "day_number (getFullYear z t) (getMonth z t) (getDate z t) = local_day z t"
  "valid_civil (getFullYear z t) (getMonth z t) (getDate z t)"
proof -
  obtain y m d where "civil (local_day z t) = (y, m, d)" by (metis surj_pair)
  with day_number_civil[OF this] show
    "day_number (getFullYear z t) (getMonth z t) (getDate z t) = local_day z t"
    "valid_civil (getFullYear z t) (getMonth z t) (getDate z t)"
    by (simp_all add: getFullYear_def getMonth_def getDate_def)
qed

lemma addDays_midnight:
  "year_fine (getFullYear z t) \<Longrightarrow> addDays z t k = midnight z (local_day z t + k)"
  by (simp add: addDays_def new_Date_fine day_number_add day_number_getters)

lemma sameDay_iff: "sameDay z a b \<longleftrightarrow> local_day z a = local_day z b"
proof
  assume "sameDay z a b"
  then have "day_number (getFullYear z a) (getMonth z a) (getDate z a) =
      day_number (getFullYear z b) (getMonth z b) (getDate z b)"
    by (simp only: sameDay_def)
  then show "local_day z a = local_day z b" by (simp only: day_number_getters(1))
next
  assume "local_day z a = local_day z b"
  then show "sameDay z a b" by (simp only: sameDay_def getFullYear_def getMonth_def getDate_def)
qed

lemma daysBetween_addDays:
  "zone_ok z \<Longrightarrow> year_fine (getFullYear z (midnight z n)) \<Longrightarrow>
    daysBetween (midnight z n) (addDays z (midnight z n) k) = k"
  by (simp add: addDays_midnight daysBetween_midnight)

subsection \<open>Weeks and the month grid\<close>

lemma mondayOf_midnight:
  assumes "year_fine (getFullYear z t)"
  shows "mondayOf z t = midnight z (local_day z t - (local_day z t + 3) mod 7)"
proof -
  have "((local_day z t + 4) mod 7 + 6) mod 7 = (local_day z t + 4 + 6) mod 7" by (rule mod_add_left_eq)
  also have "\<dots> = (local_day z t + 3 + 7) mod 7" by (rule arg_cong[where f = "\<lambda>k. k mod 7"]) linarith
  also have "\<dots> = (local_day z t + 3) mod 7" by (rule mod_add_self2)
  finally have "((local_day z t + 4) mod 7 + 6) mod 7 = (local_day z t + 3) mod 7" .
  with assms show ?thesis by (simp add: mondayOf_def getDay_def Let_def addDays_midnight)
qed

lemma monthGrid_nth:
  assumes z: "zone_ok z" and y: "100 < getFullYear z t"
  defines "first \<equiv> day_number (getFullYear z t) (getMonth z t) 1"
  defines "start \<equiv> first - (first + 3) mod 7"
  shows "monthGrid z t = map (\<lambda>i. midnight z (start + int i)) [0..<42]"
proof -
  have f: "valid_civil (getFullYear z t) (getMonth z t) 1"
    using day_number_getters(2)[of z t] by (auto simp: valid_civil_def)
  have yf: "year_fine (getFullYear z t)" using y by (simp add: year_fine_def)
  have nd: "new_Date z (getFullYear z t) (getMonth z t) 1 = midnight z first"
    by (simp add: new_Date_fine[OF yf] first_def)
  have fy: "getFullYear z (midnight z first) = getFullYear z t"
    using getters_midnight(1)[OF z civil_day_number[OF f]] by (simp add: first_def)
  have st: "mondayOf z (midnight z first) = midnight z start"
    using mondayOf_midnight[of z "midnight z first"] yf z by (simp add: fy start_def)
  obtain y' m' d' where c: "civil start = (y', m', d')" by (metis surj_pair)
  have "99 < y'"
  proof (rule ccontr)
    assume "\<not> 99 < y'"
    then have "before_year (y' + 1) \<le> before_year 100"
      using before_year_mono[of "y' + 1" 100] by simp
    moreover have "start + EPOCH < before_year (y' + 1)"
      using c year_of_bounds[of "start + EPOCH"] by (auto simp: civil_def Let_def split: prod.splits)
    moreover have "before_year 100 + 365 \<le> before_year (getFullYear z t)"
      using before_year_mono[of 100 "getFullYear z t"] y by simp
    moreover have "before_year (getFullYear z t) \<le> first + EPOCH"
      using before_month_bounds(1)[OF f] f by (simp add: first_def day_number_valid valid_civil_def)
    moreover have "(first + 3) mod 7 < 7" by (rule pos_mod_bound) simp
    ultimately show False by (simp add: start_def)
  qed
  then have "year_fine (getFullYear z (midnight z start))"
    by (simp add: getters_midnight(1)[OF z c] year_fine_def)
  then show ?thesis
    using z by (simp add: monthGrid_def Let_def nd st addDays_midnight)
qed

lemma mod7_start: "((f - (f + 3) mod 7) + 4) mod 7 = (1::int)"
proof -
  have "f - (f + 3) mod 7 + 4 = 7 * ((f + 3) div 7) + 1"
    using mult_div_mod_eq[of 7 "f + 3"] by linarith
  then show ?thesis by (rule int_mod_pos_eq) simp_all
qed

text \<open>
  The month popover shows the whole month: six Monday-first weeks of consecutive days, starting
  at most six days before the first, that contain every day of the month the anchor falls in -
  whatever daylight saving does to the length of the days in between.
\<close>

theorem monthGrid_covers:
  assumes "zone_ok z" "100 < getFullYear z t"
  shows "length (monthGrid z t) = 42 \<and> getDay z (monthGrid z t ! 0) = 1 \<and>
    map (local_day z) (monthGrid z t) = map (\<lambda>i. local_day z (monthGrid z t ! 0) + int i) [0..<42] \<and>
    (\<forall>d. valid_civil (getFullYear z t) (getMonth z t) d \<longrightarrow>
      new_Date z (getFullYear z t) (getMonth z t) d \<in> set (monthGrid z t))"
proof -
  define first where "first = day_number (getFullYear z t) (getMonth z t) 1"
  define start where "start = first - (first + 3) mod 7"
  note g = monthGrid_nth[OF assms, folded first_def, folded start_def]
  have yf: "year_fine (getFullYear z t)" using assms(2) by (simp add: year_fine_def)
  have g0: "monthGrid z t ! 0 = midnight z start" by (simp add: g)
  have "getDay z (monthGrid z t ! 0) = 1"
    using assms(1) mod7_start[of first] by (simp add: g0 getDay_def start_def)
  moreover have "new_Date z (getFullYear z t) (getMonth z t) d \<in> set (monthGrid z t)"
    if v: "valid_civil (getFullYear z t) (getMonth z t) d" for d
  proof -
    let ?n = "day_number (getFullYear z t) (getMonth z t) d"
    have n: "?n = first + (d - 1)"
      using day_number_add[of "getFullYear z t" "getMonth z t" 1 "d - 1"] by (simp add: first_def)
    have "1 \<le> d" "d \<le> 31"
      using v month_len_bounds[of "getMonth z t" "getFullYear z t"] by (simp_all add: valid_civil_def)
    moreover have "0 \<le> (first + 3) mod 7" "(first + 3) mod 7 < 7" by simp_all
    ultimately have "0 \<le> ?n - start" "?n - start < 42"
      unfolding n start_def by linarith+
    then have "?n = start + int (nat (?n - start))" "nat (?n - start) < 42" by simp_all
    then have "midnight z ?n = midnight z (start + int (nat (?n - start)))" "nat (?n - start) \<in> set [0..<42]"
      by (simp_all only: set_upt atLeastLessThan_iff) simp_all
    then show ?thesis unfolding g new_Date_fine[OF yf] set_map by (rule image_eqI)
  qed
  ultimately show ?thesis using assms(1) by (simp add: g g0)
qed

text \<open>A zone with a summer hour: an hour ahead of UTC, two hours from 29 March to 25 October 2026.\<close>

definition summer_zone :: zone where
  "summer_zone = \<lparr>
     z_local = (\<lambda>t. t + (if 1774746000000 \<le> t \<and> t < 1792890000000 then 7200000 else 3600000)),
     z_utc = (\<lambda>w. w - (if 1774753200000 \<le> w \<and> w < 1792897200000 then 7200000 else 3600000))\<rparr>"

lemma summer_zone_ok: "zone_ok summer_zone"
  unfolding zone_ok_def
proof (intro conjI allI)
  fix n a b
  show "0 \<le> z_local summer_zone (z_utc summer_zone (DAY_MS * n)) - DAY_MS * n"
    by (simp add: summer_zone_def DAY_MS_def)
  show "z_local summer_zone (z_utc summer_zone (DAY_MS * n)) - DAY_MS * n < DAY_MS"
    by (simp add: summer_zone_def DAY_MS_def)
  show "2 * \<bar>z_utc summer_zone (DAY_MS * a) - DAY_MS * a - (z_utc summer_zone (DAY_MS * b) - DAY_MS * b)\<bar> < DAY_MS"
    by (simp add: summer_zone_def DAY_MS_def)
qed

lemma sample_day: "civil (local_day summer_zone 1771100000000) = (2026, 1, 14)"
proof -
  have "local_day summer_zone 1771100000000 = 20498" by (simp add: local_day_def summer_zone_def DAY_MS_def)
  moreover have "year_of 739660 = 2026" by (simp add: year_of_def)
  moreover have "before_year 2026 = 739616" by (simp add: before_year_def)
  moreover have "month_lens 2026 = [31, 28, 31, 30, 31, 30, 31, 31, 30, 31, 30, 31]"
    by (simp add: month_lens_def leap_def)
  ultimately show ?thesis by (simp add: civil_def EPOCH_def)
qed

lemma monthGrid_covers_witness:
  "length (monthGrid summer_zone 1771100000000) = 42 \<and>
    getDay summer_zone (monthGrid summer_zone 1771100000000 ! 0) = 1 \<and>
    new_Date summer_zone 2026 1 28 \<in> set (monthGrid summer_zone 1771100000000)"
proof -
  let ?t = "1771100000000"
  have g: "getFullYear summer_zone ?t = 2026" "getMonth summer_zone ?t = 1"
    by (simp_all add: getFullYear_def getMonth_def sample_day)
  have "valid_civil 2026 1 28" by (simp add: valid_civil_def month_len_def month_lens_def leap_def)
  with monthGrid_covers[OF summer_zone_ok, of ?t] show ?thesis by (simp add: g)
qed

subsection \<open>Months\<close>

lemma before_month_Suc:
  "0 \<le> m \<Longrightarrow> m < 12 \<Longrightarrow> before_month y (m + 1) = before_month y m + month_len y m"
proof -
  assume m: "0 \<le> m" "m < 12"
  then have "nat (m + 1) = Suc (nat m)" by simp
  then show ?thesis
    using m by (simp add: before_month_def month_len_def take_Suc_conv_app_nth)
qed

lemma before_month_12: "before_month y 12 = year_len y"
  using sum_month_lens[of y] by (simp add: before_month_def)

text \<open>The day before the first of a month is the last of the one before it.\<close>

lemma day_number_next_month:
  "day_number y (k + 1) 0 = day_number y k (month_len (y + k div 12) (k mod 12))"
proof -
  let ?q = "k div 12" and ?r = "k mod 12"
  have r: "0 \<le> ?r" "?r < 12" and k: "k = 12 * ?q + ?r" by simp_all
  show ?thesis
  proof (cases "?r = 11")
    case True
    have "(k + 1) div 12 = ?q + 1" "(k + 1) mod 12 = 0"
      by (rule int_div_pos_eq[of _ _ _ 0], use k True in simp_all, rule int_mod_pos_eq[of _ _ "?q + 1"], use k True in simp_all)
    moreover have "before_year (y + ?q + 1) = before_year (y + ?q) + year_len (y + ?q)"
      by (rule before_year_Suc)
    moreover have "before_month (y + ?q) 11 + month_len (y + ?q) 11 = year_len (y + ?q)"
      using before_month_Suc[of 11 "y + ?q"] before_month_12[of "y + ?q"] by simp
    ultimately show ?thesis using True
      by (simp add: day_number_def Let_def before_month_def[of _ 0] add.assoc)
  next
    case False
    then have d: "(k + 1) div 12 = ?q" "(k + 1) mod 12 = ?r + 1"
      using k r by (intro int_div_pos_eq[of _ _ _ "?r + 1"] int_mod_pos_eq[of _ _ ?q]; linarith)+
    show ?thesis
      using before_month_Suc[OF r, of "y + ?q"] by (simp only: day_number_def Let_def d)
  qed
qed

lemma valid_norm:
  "1 \<le> d \<Longrightarrow> d \<le> month_len (y + k div 12) (k mod 12) \<Longrightarrow> valid_civil (y + k div 12) (k mod 12) d"
  by (simp add: valid_civil_def)

lemma day_number_norm: "day_number y k d = day_number (y + k div 12) (k mod 12) d"
  by (simp add: day_number_def Let_def)

lemma addMonths_midnight:
  assumes z: "zone_ok z" and c: "civil a = (y, m, d)" and y: "year_fine y"
  shows "addMonths z (midnight z a) n =
    midnight z (day_number y (m + n) (min d (month_len (y + (m + n) div 12) ((m + n) mod 12))))"
proof -
  let ?k = "m + n" let ?y = "y + ?k div 12" and ?m = "?k mod 12"
  have r: "0 \<le> ?m" "?m < 12" by simp_all
  have len: "28 \<le> month_len ?y ?m" using month_len_bounds[OF r] by simp
  have "civil (day_number y (?k + 1) 0) = (?y, ?m, month_len ?y ?m)"
    unfolding day_number_next_month day_number_norm[of y ?k]
    using len by (intro civil_day_number valid_norm) simp_all
  then have "getDate z (new_Date z y (?k + 1) 0) = month_len ?y ?m"
    by (simp add: new_Date_fine[OF y] getters_midnight(3)[OF z])
  then show ?thesis
    by (simp add: addMonths_def Let_def getters_midnight[OF z c] new_Date_fine[OF y])
qed

subsection \<open>The span between two days\<close>

text \<open>The day reached from \<open>y-m-d\<close> by \<open>n\<close> months, clamped to the length of the month it lands in.\<close>

definition plus_months :: "int \<Rightarrow> int \<Rightarrow> int \<Rightarrow> int \<Rightarrow> int" where
  "plus_months y m d n =
     day_number y (m + n) (min d (month_len (y + (m + n) div 12) ((m + n) mod 12)))"

lemma plus_months_to:
  assumes "0 \<le> m2" "m2 < 12"
  shows "plus_months y m d ((y2 - y) * 12 + (m2 - m)) = day_number y2 m2 (min d (month_len y2 m2))"
proof -
  let ?k = "m + ((y2 - y) * 12 + (m2 - m))"
  have k: "?k = 12 * (y2 - y) + m2" by simp
  have "?k div 12 = y2 - y" by (rule int_div_pos_eq[OF k assms])
  moreover have "?k mod 12 = m2" by (rule int_mod_pos_eq[OF k assms])
  ultimately show ?thesis
    unfolding plus_months_def using day_number_norm[of y ?k] by simp
qed

lemma plus_months_civil:
  assumes "1 \<le> d"
  shows "civil (plus_months y m d n) =
    (y + (m + n) div 12, (m + n) mod 12, min d (month_len (y + (m + n) div 12) ((m + n) mod 12)))"
proof -
  have "28 \<le> month_len (y + (m + n) div 12) ((m + n) mod 12)"
    by (rule month_len_bounds[THEN conjunct1]) simp_all
  then show ?thesis
    unfolding plus_months_def day_number_norm[of y "m + n"]
    using assms by (intro civil_day_number valid_norm) simp_all
qed

text \<open>Consecutive months: the days of one all come before the days of the next.\<close>

lemma plus_months_next:
  assumes "1 \<le> d"
  shows "day_number y k d' \<le> day_number y (k + 1) d - 1 - (month_len (y + k div 12) (k mod 12) - d') - (d - 1)"
  unfolding day_number_norm[of y k]
  using day_number_next_month[of y k] day_number_add[of y "k + 1" 0 d]
    day_number_add[of "y + k div 12" "k mod 12" "month_len (y + k div 12) (k mod 12)" "d' - month_len (y + k div 12) (k mod 12)"]
    day_number_norm[of y k "month_len (y + k div 12) (k mod 12)"]
  by simp

lemma day_lex:
  assumes "valid_civil y m d" "valid_civil y2 m2 d2" "day_number y m d \<le> day_number y2 m2 d2"
  shows "0 \<le> (y2 - y) * 12 + (m2 - m) \<and> (y = y2 \<and> m = m2 \<longrightarrow> d \<le> d2)"
proof -
  have v: "0 \<le> m" "m < 12" "0 \<le> m2" "m2 < 12" "d \<le> month_len y m" "1 \<le> d2"
    "1 \<le> d" "d2 \<le> month_len y2 m2"
    using assms(1,2) by (auto simp: valid_civil_def)
  have n: "day_number y m d = before_year y + before_month y m + d - 1 - EPOCH"
    "day_number y2 m2 d2 = before_year y2 + before_month y2 m2 + d2 - 1 - EPOCH"
    using v by (simp_all add: day_number_valid)
  have year: "y \<le> y2"
  proof (rule ccontr)
    assume "\<not> y \<le> y2"
    then have "before_year (y2 + 1) \<le> before_year y" using before_year_mono[of "y2 + 1" y] by simp
    then show False
      using before_month_bounds(2)[OF assms(2)] before_month_bounds(1)[OF assms(1)] n v assms(3)
      by (simp add: before_year_Suc)
  qed
  have same: "m \<le> m2 \<and> (m = m2 \<longrightarrow> d \<le> d2)" if "y = y2"
  proof -
    have "m \<le> m2"
    proof (rule ccontr)
      assume c: "\<not> m \<le> m2"
      have step: "before_month y m2 + month_len y m2 \<le> before_month y m"
      proof -
        have "before_month y m2 + month_len y m2 = before_month y (m2 + 1)"
          using v by (simp add: before_month_Suc)
        also have "\<dots> \<le> before_month y m"
        proof -
          have "m = (m2 + 1) + int (nat (m - m2 - 1))" using c by simp
          moreover have "before_month y (m2 + 1) \<le> before_month y (m2 + 1 + int j)" for j
          proof -
            have "take (nat (m2 + 1 + int j)) (month_lens y) =
                take (nat (m2 + 1)) (month_lens y) @ take j (drop (nat (m2 + 1)) (month_lens y))"
            proof -
              have "nat (m2 + 1 + int j) = nat (m2 + 1) + j" using v by simp
              then show ?thesis by (simp only: take_add)
            qed
            moreover have "0 \<le> sum_list (take j (drop (nat (m2 + 1)) (month_lens y)))"
              using month_lens_nonneg[of y]
              by (intro sum_list_nonneg) (fastforce dest: in_set_takeD in_set_dropD)
            ultimately show ?thesis by (simp add: before_month_def)
          qed
          ultimately show ?thesis by metis
        qed
        finally show ?thesis .
      qed
      with n v that assms(3) show False by simp
    qed
    with n that assms(3) show ?thesis by auto
  qed
  show ?thesis
  proof (cases "y = y2")
    case True
    with same show ?thesis by simp
  next
    case False
    with year have "1 \<le> y2 - y" by simp
    with v False show ?thesis by simp
  qed
qed

lemma breakdown_days:
  assumes a: "valid_civil y m d" and b: "valid_civil y2 m2 d2"
    and le: "day_number y m d \<le> day_number y2 m2 d2"
  defines "k0 \<equiv> (y2 - y) * 12 + (m2 - m)"
  defines "k \<equiv> (if plus_months y m d k0 > day_number y2 m2 d2 then k0 - 1 else k0)"
  shows "0 \<le> k" "0 \<le> day_number y2 m2 d2 - plus_months y m d k"
    "day_number y2 m2 d2 - plus_months y m d k \<le> 30" "day_number y2 m2 d2 < plus_months y m d (k + 1)"
proof -
  have v: "0 \<le> m2" "m2 < 12" "1 \<le> d" "1 \<le> d2" "d2 \<le> month_len y2 m2" "d \<le> month_len y m"
    using a b by (auto simp: valid_civil_def)
  have len2: "month_len y2 m2 \<le> 31" using month_len_bounds[OF v(1,2)] by simp
  have p0: "plus_months y m d k0 = day_number y2 m2 (min d (month_len y2 m2))"
    unfolding k0_def by (rule plus_months_to[OF v(1,2)])
  have d0: "day_number y2 m2 e = day_number y2 m2 d2 + (e - d2)" for e
    using day_number_add[of y2 m2 d2 "e - d2"] by simp
  have lex: "0 \<le> k0 \<and> (y = y2 \<and> m = m2 \<longrightarrow> d \<le> d2)" unfolding k0_def by (rule day_lex[OF a b le])
  have kk: "m + k0 = 12 * (y2 - y) + m2" by (simp add: k0_def)
  note mk = int_div_pos_eq[OF kk v(1,2)] int_mod_pos_eq[OF kk v(1,2)]
  have nextm: "day_number y2 m2 e \<le> day_number y (m + k0 + 1) f - 1 - (month_len y2 m2 - e) - (f - 1)"
    if "1 \<le> f" for e f
    using plus_months_next[OF that, of y "m + k0" e] mk day_number_norm[of y "m + k0" e] by simp
  show "0 \<le> k" "0 \<le> day_number y2 m2 d2 - plus_months y m d k"
    "day_number y2 m2 d2 - plus_months y m d k \<le> 30" "day_number y2 m2 d2 < plus_months y m d (k + 1)"
  proof -
    have "0 \<le> k \<and> 0 \<le> day_number y2 m2 d2 - plus_months y m d k \<and>
      day_number y2 m2 d2 - plus_months y m d k \<le> 30 \<and> day_number y2 m2 d2 < plus_months y m d (k + 1)"
    proof (cases "plus_months y m d k0 > day_number y2 m2 d2")
      case False
      then have k: "k = k0" by (simp add: k_def)
      have 1: "0 \<le> day_number y2 m2 d2 - plus_months y m d k0" using False by simp
      have 2: "day_number y2 m2 d2 - plus_months y m d k0 \<le> 30"
        using v len2 unfolding p0 d0[of "min d (month_len y2 m2)"] by (simp add: min_def)
      have f: "1 \<le> min d (month_len (y + (m + (k0 + 1)) div 12) ((m + (k0 + 1)) mod 12))"
      proof -
        have "28 \<le> month_len (y + (m + (k0 + 1)) div 12) ((m + (k0 + 1)) mod 12)"
          by (rule month_len_bounds[THEN conjunct1]) simp_all
        with v(3) show ?thesis by simp
      qed
      have 3: "day_number y2 m2 d2 < plus_months y m d (k0 + 1)"
        unfolding plus_months_def using nextm[OF f, of d2, unfolded add.assoc] v(5) f by linarith
      show ?thesis using lex 1 2 3 by (simp add: k)
    next
      case True
      then have k: "k = k0 - 1" by (simp add: k_def)
      have short: "d2 < min d (month_len y2 m2)" using True unfolding p0 d0[of "min d (month_len y2 m2)"] by simp
      have "k0 \<noteq> 0"
      proof
        assume "k0 = 0"
        moreover have "0 \<le> m" "m < 12" using a by (auto simp: valid_civil_def)
        ultimately have "y = y2 \<and> m = m2" using v(1,2) unfolding k0_def by presburger
        with lex short show False by simp
      qed
      with lex have pos: "0 \<le> k" by (simp add: k)
      let ?y3 = "y + (m + k) div 12" and ?m3 = "(m + k) mod 12"
      have r3: "0 \<le> ?m3" "?m3 < 12" by simp_all
      have l3: "28 \<le> month_len ?y3 ?m3" "month_len ?y3 ?m3 \<le> 31" using month_len_bounds[OF r3] by simp_all
      have "day_number y (m + k + 1) 0 = day_number y (m + k) (month_len ?y3 ?m3)"
        by (rule day_number_next_month)
      moreover have "day_number y (m + k + 1) 0 = day_number y2 m2 0"
        using mk day_number_norm[of y "m + k0" 0] by (simp add: k)
      moreover have "day_number y (m + k) (min d (month_len ?y3 ?m3)) =
          day_number y (m + k) (month_len ?y3 ?m3) + (min d (month_len ?y3 ?m3) - month_len ?y3 ?m3)"
        using day_number_add[of y "m + k" "month_len ?y3 ?m3" "min d (month_len ?y3 ?m3) - month_len ?y3 ?m3"] by simp
      ultimately have "plus_months y m d k = day_number y2 m2 d2 - d2 + (min d (month_len ?y3 ?m3) - month_len ?y3 ?m3)"
        using d0[of 0] by (simp add: plus_months_def)
      then show ?thesis
        using pos short v l3 len2 True by (simp add: k min_def split: if_splits)
    qed
    then show "0 \<le> k" "0 \<le> day_number y2 m2 d2 - plus_months y m d k"
      "day_number y2 m2 d2 - plus_months y m d k \<le> 30" "day_number y2 m2 d2 < plus_months y m d (k + 1)"
      by auto
  qed
qed

text \<open>
  C13. The label between two days is exact: years, months (fewer than twelve) and days (at most
  thirty) lead from the earlier day to the later one - walking the months forward with the
  end-of-month clamp and then the days - and the months are as many as fit, in either order of the
  arguments and across daylight saving.
\<close>

theorem calendarBreakdown_exact:
  assumes z: "zone_ok z" and le: "a \<le> b" and y: "99 < getFullYear z (midnight z a)"
  defines "r \<equiv> calendarBreakdown z (midnight z a) (midnight z b)"
  shows "0 \<le> bd_years r \<and> 0 \<le> bd_months r \<and> bd_months r < 12 \<and> 0 \<le> bd_days r \<and> bd_days r \<le> 30 \<and>
    addDays z (addMonths z (midnight z a) (12 * bd_years r + bd_months r)) (bd_days r) = midnight z b \<and>
    midnight z b < addMonths z (midnight z a) (12 * bd_years r + bd_months r + 1) \<and>
    calendarBreakdown z (midnight z b) (midnight z a) = r"
proof -
  obtain y1 m1 d1 where ca: "civil a = (y1, m1, d1)" by (metis surj_pair)
  obtain y2 m2 d2 where cb: "civil b = (y2, m2, d2)" by (metis surj_pair)
  note va = day_number_civil[OF ca] and vb = day_number_civil[OF cb]
  have y1: "99 < y1" using y by (simp add: getters_midnight(1)[OF z ca])
  then have yf: "year_fine y1" by (simp add: year_fine_def)
  have am: "addMonths z (midnight z a) n = midnight z (plus_months y1 m1 d1 n)" for n
    using addMonths_midnight[OF z ca yf] by (simp add: plus_months_def)
  define k0 where "k0 = (y2 - y1) * 12 + (m2 - m1)"
  define k where "k = (if plus_months y1 m1 d1 k0 > b then k0 - 1 else k0)"
  have bounds: "0 \<le> k" "0 \<le> b - plus_months y1 m1 d1 k" "b - plus_months y1 m1 d1 k \<le> 30"
    "b < plus_months y1 m1 d1 (k + 1)"
    using breakdown_days[OF va[THEN conjunct1] vb[THEN conjunct1], unfolded va[THEN conjunct2] vb[THEN conjunct2], OF le] unfolding k_def k0_def by simp_all
  have fwd: "breakdown_forward z (midnight z a) (midnight z b) =
      \<lparr>bd_years = k div 12, bd_months = k mod 12, bd_days = b - plus_months y1 m1 d1 k\<rparr>"
    using z by (simp add: breakdown_forward_def Let_def getters_midnight[OF z ca] getters_midnight[OF z cb]
        am daysBetween_midnight k_def k0_def)
  have r: "r = breakdown_forward z (midnight z a) (midnight z b)"
    using z le by (simp add: r_def calendarBreakdown_def)
  have sym: "calendarBreakdown z (midnight z b) (midnight z a) = r"
  proof (cases "a = b")
    case True
    then show ?thesis by (simp add: r_def)
  next
    case False
    with z le show ?thesis by (simp add: r calendarBreakdown_def)
  qed
  have k12: "12 * bd_years r + bd_months r = k" by (simp add: r fwd)
  have "y1 \<le> y1 + (m1 + k) div 12"
    using va bounds(1) by (simp add: valid_civil_def pos_imp_zdiv_nonneg_iff)
  moreover have "1 \<le> d1" using va by (simp add: valid_civil_def)
  ultimately have "year_fine (getFullYear z (midnight z (plus_months y1 m1 d1 k)))"
    using y1 by (simp add: getters_midnight(1)[OF z plus_months_civil] year_fine_def)
  then have "addDays z (addMonths z (midnight z a) k) (bd_days r) = midnight z b"
    using z by (simp add: am addDays_midnight r fwd)
  moreover have "midnight z b < addMonths z (midnight z a) (k + 1)"
    using z bounds(4) by (simp add: am)
  ultimately show ?thesis
    using bounds(1-3) sym unfolding k12 by (simp add: r fwd)
qed

lemma calendarBreakdown_exact_witness:
  "let a = midnight summer_zone 20498; b = midnight summer_zone 20800; r = calendarBreakdown summer_zone a b
   in addDays summer_zone (addMonths summer_zone a (12 * bd_years r + bd_months r)) (bd_days r) = b \<and>
      bd_months r < 12 \<and> bd_days r \<le> 30 \<and> calendarBreakdown summer_zone b a = r"
proof -
  have "local_day summer_zone 1771100000000 = 20498"
    by (simp add: local_day_def summer_zone_def DAY_MS_def)
  then have "getFullYear summer_zone (midnight summer_zone 20498) = 2026"
    using sample_day by (simp add: getFullYear_def summer_zone_ok)
  with calendarBreakdown_exact[OF summer_zone_ok, of 20498 20800] show ?thesis
    by (simp add: Let_def)
qed

subsection \<open>Well-formed days\<close>

lemma show_int_nat: "0 \<le> n \<Longrightarrow> show_int n = show_nat (nat n)"
  by (simp add: show_int_def)

lemma pad2_facts:
  assumes "0 \<le> n" "n < 100"
  shows "length (pad2 n) = 2" "list_all is_digit (pad2 n)" "js_number (pad2 n) = Some n"
proof -
  have e: "pad2 n = padStart 2 (CHR ''0'') (show_nat (nat n))"
    using assms by (simp add: pad2_def show_int_nat)
  have "length (show_nat (nat n)) \<le> 2" using assms by (intro length_show) simp_all
  then show "length (pad2 n) = 2" by (simp add: e padStart_def)
  show "list_all is_digit (pad2 n)"
    using digits_show[of "nat n"] by (auto simp: e padStart_def list_all_iff is_digit_def)
  show "js_number (pad2 n) = Some n" using assms by (simp add: e)
qed

lemma length_year: "length (show_nat n) = 4 \<longleftrightarrow> 1000 \<le> n \<and> n \<le> 9999"
proof
  assume l: "length (show_nat n) = 4"
  have "\<not> n < 1000" using length_show[of n 3] l by auto
  moreover have "\<not> 10000 \<le> n" using length_show_ge[of 4 n] l by auto
  ultimately show "1000 \<le> n \<and> n \<le> 9999" by simp
next
  assume "1000 \<le> n \<and> n \<le> 9999"
  then show "length (show_nat n) = 4"
    using length_show[of n 4] length_show_ge[of 3 n] by simp
qed

definition day_text :: "int \<Rightarrow> int \<Rightarrow> int \<Rightarrow> string" where
  "day_text y m d = show_int y @ ''-'' @ pad2 (m + 1) @ ''-'' @ pad2 d"

lemma civil_ranges:
  assumes "valid_civil y m d"
  shows "0 \<le> m" "m < 12" "1 \<le> d" "d \<le> 31"
  using assms month_len_bounds[of m y] by (auto simp: valid_civil_def)

lemma parseDay_text:
  assumes v: "valid_civil y m d" and y: "100 \<le> y"
  shows "parseDay z (day_text y m d) = Some (midnight z (day_number y m d))"
proof -
  note r = civil_ranges[OF v]
  have p: "list_all is_digit (pad2 (m + 1))" "js_number (pad2 (m + 1)) = Some (m + 1)"
    "list_all is_digit (pad2 d)" "js_number (pad2 d) = Some d"
    using pad2_facts[of "m + 1"] pad2_facts[of d] r by simp_all
  have "split_on (CHR ''-'') (day_text y m d) = [show_int y, pad2 (m + 1), pad2 d]"
    using y digits_no_dash[OF p(1)] digits_no_dash[OF p(3)] digits_no_dash[OF digits_show[of "nat y"]]
    by (simp add: day_text_def show_int_nat)
  moreover have "year_fine y" using y by (simp add: year_fine_def)
  ultimately show ?thesis
    using y r p by (simp add: parseDay_def Let_def show_int_nat nan_or_def new_Date_fine)
qed

lemma fmtDay_midnight:
  assumes "zone_ok z" "valid_civil y m d"
  shows "fmtDay z (midnight z (day_number y m d)) = day_text y m d"
  using getters_midnight[OF assms(1) civil_day_number[OF assms(2)]] by (simp add: fmtDay_def day_text_def)

lemma day_shape_text:
  assumes "length w = 4" "length u = 2" "length v = 2"
  shows "day_shape (w @ ''-'' @ u @ ''-'' @ v) \<longleftrightarrow> list_all is_digit w \<and> list_all is_digit u \<and> list_all is_digit v"
proof -
  obtain a b c d e f g h where "w = [a, b, c, d]" "u = [e, f]" "v = [g, h]"
    using assms by (auto simp: numeral_eq_Suc length_Suc_conv)
  then show ?thesis by (auto simp: day_shape_def)
qed

lemma day_shape_day_text:
  assumes v: "valid_civil y m d" and y: "1000 \<le> y" "y \<le> 9999"
  shows "day_shape (day_text y m d)"
proof -
  note r = civil_ranges[OF v]
  have "1000 \<le> nat y" "nat y \<le> 9999" using y by linarith+
  then have "length (show_int y) = 4" using y length_year[of "nat y"] by (simp add: show_int_nat)
  moreover have "length (pad2 (m + 1)) = 2" "length (pad2 d) = 2"
    "list_all is_digit (pad2 (m + 1))" "list_all is_digit (pad2 d)" using r by (simp_all add: pad2_facts)
  moreover have "list_all is_digit (show_int y)" using y digits_show by (simp add: show_int_nat)
  ultimately show ?thesis unfolding day_text_def by (simp only: day_shape_text)
qed

text \<open>
  A string is accepted as a day exactly when it is the four-digit year, two-digit month and
  two-digit day of a day of the calendar, in every time zone: 31 February and five-digit years are
  refused, and so are the years before 1000, which the formatter does not pad.
\<close>

theorem isDay_iff:
  assumes z: "zone_ok z"
  shows "isDay z s \<longleftrightarrow> (\<exists>y m d. valid_civil y m d \<and> 1000 \<le> y \<and> y \<le> 9999 \<and> s = day_text y m d)"
proof
  assume day: "isDay z s"
  then obtain t where s: "s = fmtDay z t" and shape: "day_shape s" by (auto simp: isDay_def)
  define y m d where ymd: "y = getFullYear z t" "m = getMonth z t" "d = getDate z t"
  have v: "valid_civil y m d" using day_number_getters(2) by (simp add: ymd)
  note r = civil_ranges[OF v]
  have st: "s = day_text y m d" by (simp add: s ymd fmtDay_def day_text_def)
  have l: "length (pad2 (m + 1)) = 2" "length (pad2 d) = 2" using r by (simp_all add: pad2_facts)
  with shape st have len: "length (show_int y) = 4" by (simp add: day_shape_def day_text_def)
  have "0 \<le> y"
  proof (rule ccontr)
    assume "\<not> 0 \<le> y"
    then have "\<not> list_all is_digit (show_int y)" by (simp add: show_int_def is_digit_def)
    with day_shape_text[OF len l] shape st show False by (simp add: day_text_def)
  qed
  with len have "1000 \<le> y \<and> y \<le> 9999" using length_year[of "nat y"] by (auto simp: show_int_nat)
  with v st show "\<exists>y m d. valid_civil y m d \<and> 1000 \<le> y \<and> y \<le> 9999 \<and> s = day_text y m d" by blast
next
  assume "\<exists>y m d. valid_civil y m d \<and> 1000 \<le> y \<and> y \<le> 9999 \<and> s = day_text y m d"
  then obtain y m d where v: "valid_civil y m d" and y: "1000 \<le> y" "y \<le> 9999" and s: "s = day_text y m d"
    by blast
  have "day_shape s" unfolding s by (rule day_shape_day_text[OF v y])
  moreover have "parseDay z s = Some (midnight z (day_number y m d))"
    unfolding s using v y by (intro parseDay_text) simp_all
  ultimately show "isDay z s" using fmtDay_midnight[OF z v] by (simp add: isDay_def s)
qed

lemma isDay_iff_witness:
  "isDay summer_zone (day_text 2026 1 28) \<and> \<not> isDay summer_zone ''2026-02-31''"
proof -
  note iff = isDay_iff[OF summer_zone_ok]
  have "isDay summer_zone (day_text 2026 1 28)"
    unfolding iff by (intro exI[of _ 2026] exI[of _ 1] exI[of _ 28])
      (simp add: valid_civil_def month_len_def month_lens_def leap_def)
  moreover have "\<not> isDay summer_zone ''2026-02-31''"
  proof -
    have e: "parseDay summer_zone ''2026-02-31'' = Some (midnight summer_zone (day_number 2026 2 3))"
      by (simp add: parseDay_def Let_def js_number_def is_digit_def read_digits_def digit_val_def nan_or_def
          new_Date_def day_number_def before_month_def month_lens_def leap_def)
    have "valid_civil 2026 2 3" by (simp add: valid_civil_def month_len_def month_lens_def leap_def)
    note f = fmtDay_midnight[OF summer_zone_ok this]
    have "day_text 2026 2 3 = ''2026-03-03''"
      by (simp add: day_text_def pad2_def padStart_def show_int_def show_nat.simps digit_char_def char_of_eq_iff)
    with e f show ?thesis by (simp add: isDay_def)
  qed
  ultimately show ?thesis ..
qed

end
