(* ===== verification/DayText.thy ===== *)
theory DayText
  imports Calendar
begin

section \<open>Days and their texts\<close>

text \<open>
  The correspondence the task views rely on: within the years 1000 to 9999 a day is its
  \<open>YYYY-MM-DD\<close> text, parsing and formatting are inverse, and comparing the texts compares the days.
\<close>

definition day_ok :: "int \<Rightarrow> bool" where
  "day_ok n \<longleftrightarrow> 1000 \<le> fst (civil n) \<and> fst (civil n) \<le> 9999"

definition text_of :: "int \<Rightarrow> string" where
  "text_of n = (case civil n of (y, m, d) \<Rightarrow> day_text y m d)"

lemma parseDay_text_of: "day_ok n \<Longrightarrow> parseDay z (text_of n) = Some (midnight z n)"
proof -
  assume n: "day_ok n"
  obtain y m d where c: "civil n = (y, m, d)" by (metis surj_pair)
  with n day_number_civil[OF c] parseDay_text[of y m d z] show ?thesis
    by (simp add: day_ok_def text_of_def)
qed

lemma fmtDay_text_of: "zone_ok z \<Longrightarrow> fmtDay z t = text_of (local_day z t)"
  by (simp add: fmtDay_def text_of_def day_text_def getFullYear_def getMonth_def getDate_def split: prod.splits)

lemma day_ok_fine: "zone_ok z \<Longrightarrow> day_ok n \<Longrightarrow> year_fine (getFullYear z (midnight z n))"
  by (simp add: getFullYear_def day_ok_def year_fine_def)

lemma shift_text:
  "zone_ok z \<Longrightarrow> day_ok n \<Longrightarrow>
    map_option (\<lambda>d. fmtDay z (addDays z d k)) (parseDay z (text_of n)) = Some (text_of (n + k))"
  by (simp add: parseDay_text_of fmtDay_text_of addDays_midnight[OF day_ok_fine])

subsection \<open>The order of the texts\<close>

lemma append_less:
  assumes "length u = length v"
  shows "(u :: string) @ x < v @ y \<longleftrightarrow> u < v \<or> u = v \<and> x < y"
  using assms by (induction u v rule: list_induct2) auto

lemma digit_less:
  assumes "is_digit c" "is_digit d"
  shows "c < d \<longleftrightarrow> digit_val c < digit_val d" "c = d \<longleftrightarrow> digit_val c = digit_val d"
proof -
  have r: "48 \<le> (of_char c :: nat)" "48 \<le> (of_char d :: nat)" using assms by (simp_all add: is_digit_def)
  then show "c < d \<longleftrightarrow> digit_val c < digit_val d" by (auto simp: digit_val_def less_char_def)
  show "c = d \<longleftrightarrow> digit_val c = digit_val d"
    unfolding digit_val_def eq_diff_iff[OF r] by (rule of_char_eq_iff[symmetric])
qed

lemma read_bound: "list_all is_digit s \<Longrightarrow> read_digits s < 10 ^ length s"
proof (induction s rule: rev_induct)
  case Nil
  then show ?case by (simp add: read_digits_def)
next
  case (snoc c s)
  then have "digit_val c < 10" "read_digits s < 10 ^ length s" by (auto simp: is_digit_def digit_val_def)
  then show ?case by (simp add: read_snoc)
qed

lemma read_less:
  assumes "length u = length v" "list_all is_digit u" "list_all is_digit v"
  shows "(u < v \<longleftrightarrow> read_digits u < read_digits v) \<and> (u = v \<longleftrightarrow> read_digits u = read_digits v)"
  using assms
proof (induction u arbitrary: v rule: rev_induct)
  case Nil
  then show ?case by simp
next
  case (snoc c u)
  then obtain w d where v: "v = w @ [d]" by (cases v rule: rev_cases) auto
  have IH: "(u < w \<longleftrightarrow> read_digits u < read_digits w) \<and> (u = w \<longleftrightarrow> read_digits u = read_digits w)"
    using snoc v by auto
  have "digit_val c < 10" "digit_val d < 10" using snoc.prems v by (auto simp: is_digit_def digit_val_def)
  moreover have "is_digit c" "is_digit d" "length u = length w" using snoc.prems v by auto
  ultimately show ?case
    using IH digit_less[of c d] by (auto simp: v append_less read_snoc)
qed

lemma pad2_less:
  assumes "0 \<le> a" "a < 100" "0 \<le> b" "b < 100"
  shows "(pad2 a < pad2 b \<longleftrightarrow> a < b) \<and> (pad2 a = pad2 b \<longleftrightarrow> a = b)"
proof -
  have "int (read_digits (pad2 n)) = n" if "0 \<le> n" "n < 100" for n
    using pad2_facts(2,3)[OF that] by (simp add: js_number_def)
  with read_less[of "pad2 a" "pad2 b"] assms pad2_facts show ?thesis by (metis of_nat_eq_iff of_nat_less_iff)
qed

lemma year_text_less:
  assumes "1000 \<le> a" "a \<le> 9999" "1000 \<le> b" "b \<le> 9999"
  shows "(show_int a < show_int b \<longleftrightarrow> a < b) \<and> (show_int a = show_int b \<longleftrightarrow> a = b) \<and>
    length (show_int a) = length (show_int b)"
proof -
  have l: "length (show_nat (nat n)) = 4" if "1000 \<le> n" "n \<le> 9999" for n
  proof -
    have "1000 \<le> nat n" "nat n \<le> 9999" using that by linarith+
    then show ?thesis by (simp add: length_year)
  qed
  have "length (show_nat (nat a)) = length (show_nat (nat b))" using assms by (simp add: l)
  with read_less[OF this digits_show digits_show] assms show ?thesis
    by (auto simp: show_int_nat nat_eq_iff)
qed

lemma day_text_less:
  assumes "1000 \<le> y" "y \<le> 9999" "1000 \<le> y'" "y' \<le> 9999"
    and v: "valid_civil y m d" "valid_civil y' m' d'"
  shows "day_text y m d < day_text y' m' d' \<longleftrightarrow> y < y' \<or> y = y' \<and> (m < m' \<or> m = m' \<and> d < d')"
proof -
  note r = civil_ranges[OF v(1)] civil_ranges[OF v(2)]
  have pm: "length (pad2 (m + 1)) = length (pad2 (m' + 1))" using r by (simp add: pad2_facts)
  have a: "(pad2 (m + 1) < pad2 (m' + 1) \<longleftrightarrow> m < m') \<and> (pad2 (m + 1) = pad2 (m' + 1) \<longleftrightarrow> m = m')"
    using pad2_less[of "m + 1" "m' + 1"] r by auto
  have b: "pad2 d < pad2 d' \<longleftrightarrow> d < d'" using pad2_less[of d d'] r by simp
  have e: "''-'' @ u < ''-'' @ w \<longleftrightarrow> u < w" for u w :: string by simp
  note y = year_text_less[OF assms(1-4)]
  show ?thesis
    unfolding day_text_def append_less[OF y[THEN conjunct2, THEN conjunct2]] e append_less[OF pm]
    using y a b by blast
qed

lemma civil_less:
  assumes "civil a = (y, m, d)" "civil b = (y', m', d')" "a < b"
  shows "y < y' \<or> y = y' \<and> (m < m' \<or> m = m' \<and> d < d')"
proof -
  note v = day_number_civil[OF assms(1)] day_number_civil[OF assms(2)]
  have "0 \<le> (y' - y) * 12 + (m' - m) \<and> (y = y' \<and> m = m' \<longrightarrow> d \<le> d')"
    using v assms(3) by (intro day_lex) auto
  moreover have "0 \<le> m" "m < 12" "0 \<le> m'" "m' < 12" using v by (auto simp: valid_civil_def)
  moreover have "\<not> (y = y' \<and> m = m' \<and> d = d')" using v assms(3) by auto
  ultimately show ?thesis by (cases "y < y'"; cases "y = y'") auto
qed

lemma text_of_less: "day_ok a \<Longrightarrow> day_ok b \<Longrightarrow> text_of a < text_of b \<longleftrightarrow> a < b"
proof -
  assume ok: "day_ok a" "day_ok b"
  obtain y m d where ca: "civil a = (y, m, d)" by (metis surj_pair)
  obtain y' m' d' where cb: "civil b = (y', m', d')" by (metis surj_pair)
  have "text_of a < text_of b \<longleftrightarrow> y < y' \<or> y = y' \<and> (m < m' \<or> m = m' \<and> d < d')"
    using ok ca cb day_number_civil[OF ca] day_number_civil[OF cb]
    by (simp add: text_of_def day_ok_def day_text_less)
  moreover have "a < b \<longleftrightarrow> y < y' \<or> y = y' \<and> (m < m' \<or> m = m' \<and> d < d')"
    using civil_less[OF ca cb] civil_less[OF cb ca] ca cb by (cases a b rule: linorder_cases) auto
  ultimately show ?thesis by simp
qed

lemma text_of_le: "day_ok a \<Longrightarrow> day_ok b \<Longrightarrow> text_of a \<le> text_of b \<longleftrightarrow> a \<le> b"
  using text_of_less[of b a] by (simp add: linorder_not_less[symmetric])

lemma text_of_eq: "day_ok a \<Longrightarrow> day_ok b \<Longrightarrow> text_of a = text_of b \<longleftrightarrow> a = b"
  using text_of_less[of a b] text_of_less[of b a] by (cases a b rule: linorder_cases) auto

lemma text_of_ne [simp]: "text_of n \<noteq> []"
  by (simp add: text_of_def day_text_def split: prod.splits)

lemma day_ok_between: "day_ok a \<Longrightarrow> day_ok b \<Longrightarrow> a \<le> n \<Longrightarrow> n \<le> b \<Longrightarrow> day_ok n"
proof -
  assume ok: "day_ok a" "day_ok b" "a \<le> n" "n \<le> b"
  have mono: "fst (civil p) \<le> fst (civil q)" if "p \<le> q" for p q
  proof (cases "p = q")
    case False
    obtain y m d where cp: "civil p = (y, m, d)" by (metis surj_pair)
    obtain y' m' d' where cq: "civil q = (y', m', d')" by (metis surj_pair)
    show ?thesis using civil_less[OF cp cq] that False by (auto simp: cp cq)
  qed simp
  show ?thesis using ok mono[of a n] mono[of n b] by (simp add: day_ok_def)
qed

end
