(* ===== verification/Gantt.thy ===== *)
theory Gantt
  imports Tasks DayText
begin

section \<open>The Gantt chart\<close>

text \<open>
  \<open>tasks/gantt/ganttMath.ts\<close>: dates to pixels and back, the rows, the bars and the arrows. A pixel
  coordinate is a \<^typ>\<open>rat\<close>, the arithmetic of the source without its rounding. An invalid date is
  \<^const>\<open>None\<close> and compares false with everything, as \<open>NaN\<close> does.
\<close>

datatype time_unit = UDay | UWeek | UMonth

definition ROW_H :: int where "ROW_H = 36"
definition BAR_H :: int where "BAR_H = 22"
definition ARROW_INDENT :: int where "ARROW_INDENT = 16"

fun COL_WIDTH :: "time_unit \<Rightarrow> int" where
  "COL_WIDTH UDay = 36"
| "COL_WIDTH UWeek = 84"
| "COL_WIDTH UMonth = 120"

fun PAD_COLS :: "time_unit \<Rightarrow> nat" where
  "PAD_COLS UDay = 7"
| "PAD_COLS UWeek = 4"
| "PAD_COLS UMonth = 2"

subsection \<open>The scale\<close>

record gantt_col =
  gc_start :: date
  gc_end :: date

record gantt_scale =
  gs_unit :: time_unit
  gs_cols :: "gantt_col list"
  gs_colWidth :: int
  gs_start :: date
  gs_end :: date
  gs_width :: int

fun unitStart :: "zone \<Rightarrow> date \<Rightarrow> time_unit \<Rightarrow> date" where
  "unitStart z d UDay = new_Date z (getFullYear z d) (getMonth z d) (getDate z d)"
| "unitStart z d UWeek = mondayOf z d"
| "unitStart z d UMonth = new_Date z (getFullYear z d) (getMonth z d) 1"

fun nextUnit :: "zone \<Rightarrow> date \<Rightarrow> time_unit \<Rightarrow> date" where
  "nextUnit z d UDay = addDays z d 1"
| "nextUnit z d UWeek = addDays z d 7"
| "nextUnit z d UMonth = new_Date z (getFullYear z d) (getMonth z d + 1) 1"

definition min_date :: "date option \<Rightarrow> date \<Rightarrow> date" where
  "min_date s m = (case s of None \<Rightarrow> m | Some d \<Rightarrow> if d < m then d else m)"

definition max_date :: "date option \<Rightarrow> date \<Rightarrow> date" where
  "max_date s m = (case s of None \<Rightarrow> m | Some d \<Rightarrow> if d > m then d else m)"

definition span_step :: "zone \<Rightarrow> task \<Rightarrow> date \<times> date \<Rightarrow> date \<times> date" where
  "span_step z t b =
     (let b = (if isScheduled t
               then (min_date (parseDay z (the (tk_startDate t))) (fst b), max_date (parseDay z (the (tk_endDate t))) (snd b))
               else b)
      in if truthy (tk_dueDate t) then (fst b, max_date (parseDay z (the (tk_dueDate t))) (snd b)) else b)"

text \<open>
  The two loops that lay the columns: up to the end of the content, with the guard of the source
  (the number is what is left of its 8000 columns), and the padding.
\<close>

fun cols_until :: "zone \<Rightarrow> time_unit \<Rightarrow> date \<Rightarrow> nat \<Rightarrow> date \<Rightarrow> gantt_col list \<times> date" where
  "cols_until z u m 0 c = ([], c)"
| "cols_until z u m (Suc n) c =
     (if c \<le> m
      then (let e = nextUnit z c u; (cs, c') = cols_until z u m n e in (\<lparr>gc_start = c, gc_end = e\<rparr> # cs, c'))
      else ([], c))"

fun pad_cols :: "zone \<Rightarrow> time_unit \<Rightarrow> nat \<Rightarrow> date \<Rightarrow> gantt_col list" where
  "pad_cols z u 0 c = []"
| "pad_cols z u (Suc n) c =
     (let e = nextUnit z c u in \<lparr>gc_start = c, gc_end = e\<rparr> # pad_cols z u n e)"

definition guardMax :: nat where "guardMax = 8000"

definition back_units :: "zone \<Rightarrow> time_unit \<Rightarrow> nat \<Rightarrow> date \<Rightarrow> date" where
  "back_units z u n c = ((\<lambda>c. unitStart z (c - 1) u) ^^ n) c"

definition buildScale :: "zone \<Rightarrow> task list \<Rightarrow> time_unit \<Rightarrow> date \<Rightarrow> gantt_scale" where
  "buildScale z tasks u now =
     (let first = unitStart z now u;
          (min_d, max_d) = fold (span_step z) tasks (first, first);
          cursor = back_units z u (PAD_COLS u) (unitStart z min_d u);
          (cs, c) = cols_until z u max_d guardMax cursor;
          cols = cs @ pad_cols z u (PAD_COLS u) c
      in \<lparr>gs_unit = u, gs_cols = cols, gs_colWidth = COL_WIDTH u, gs_start = gc_start (cols ! 0),
          gs_end = gc_end (cols ! (length cols - 1)), gs_width = int (length cols) * COL_WIDTH u\<rparr>)"

text \<open>The binary search of \<open>dateToX\<close>: \<open>(lo + hi) >> 1\<close> is the floor of the mean.\<close>

function col_search :: "gantt_col list \<Rightarrow> date \<Rightarrow> nat \<Rightarrow> nat \<Rightarrow> nat" where
  "col_search cols d lo hi =
     (if lo < hi
      then (let mid = (lo + hi) div 2
            in if gc_end (cols ! mid) \<le> d then col_search cols d (mid + 1) hi else col_search cols d lo mid)
      else lo)"
  by pat_completeness auto
termination by (relation "measure (\<lambda>(cols, d, lo, hi). hi - lo)") auto

declare col_search.simps [simp del]

definition dateToX :: "gantt_scale \<Rightarrow> date \<Rightarrow> rat" where
  "dateToX sc d =
     (if d \<le> gs_start sc then 0
      else if d \<ge> gs_end sc then of_int (gs_width sc)
      else let lo = col_search (gs_cols sc) d 0 (length (gs_cols sc) - 1);
               col = gs_cols sc ! lo;
               frac = of_int (d - gc_start col) / of_int (gc_end col - gc_start col)
           in of_nat lo * of_int (gs_colWidth sc) + frac * of_int (gs_colWidth sc))"

text \<open>\<open>new Date(ms)\<close> drops the fraction of a millisecond.\<close>

definition date_of_ms :: "rat \<Rightarrow> date" where
  "date_of_ms r = (if 0 \<le> r then \<lfloor>r\<rfloor> else \<lceil>r\<rceil>)"

definition xToDate :: "zone \<Rightarrow> gantt_scale \<Rightarrow> rat \<Rightarrow> date" where
  "xToDate z sc x =
     (let cols = gs_cols sc; w = of_int (gs_colWidth sc);
          idx = min (int (length cols) - 1) (max 0 \<lfloor>x / w\<rfloor>);
          col = cols ! nat idx;
          frac = min 1 (max 0 (x / w - of_int idx));
          ms = of_int (gc_start col) + frac * of_int (gc_end col - gc_start col);
          d = date_of_ms ms;
          fl = new_Date z (getFullYear z d) (getMonth z d) (getDate z d)
      in if d - fl \<ge> DAY_MS div 2 then addDays z fl 1 else fl)"

definition dayWidth :: "gantt_scale \<Rightarrow> rat" where
  "dayWidth sc =
     (let col = gs_cols sc ! 0; n = daysBetween (gc_start col) (gc_end col)
      in of_int (gs_colWidth sc) / of_int (if n = 0 then 1 else n))"

definition snapDays :: "rat \<Rightarrow> gantt_scale \<Rightarrow> int" where
  "snapDays dx sc = js_round (dx / dayWidth sc)"

subsection \<open>Rows\<close>

record gantt_row =
  gr_kind :: string
  gr_key :: string
  gr_task :: "task option"
  gr_stage :: "string option"
  gr_tasks :: "task list option"
  gr_start :: "date option"
  gr_end :: "date option"
  gr_progress :: int
  gr_collapsed :: "bool option"

text \<open>
  The texts compared here are days, on which \<open>localeCompare\<close> orders like \<open><\<close>: digits and dashes at
  the same places.
\<close>

definition start_text :: "task \<Rightarrow> string" where "start_text t = nullish (tk_startDate t) []"
definition end_text :: "task \<Rightarrow> string" where "end_text t = nullish (tk_endDate t) []"

definition cmp_schedule :: "task \<Rightarrow> task \<Rightarrow> int" where
  "cmp_schedule a b =
     cmp_or (cmp_lin (start_text a) (start_text b))
       (cmp_or (cmp_lin (end_text a) (end_text b)) (tk_num a - tk_num b))"

definition row_progress :: "task \<Rightarrow> int" where
  "row_progress t = (if tk_status t = ''done'' then 100 else nullish (tk_progress t) 0)"

definition taskRow :: "zone \<Rightarrow> task \<Rightarrow> gantt_row" where
  "taskRow z t =
     \<lparr>gr_kind = ''task'', gr_key = tk_id t, gr_task = Some t, gr_stage = None, gr_tasks = None,
      gr_start = parseDay z (start_text t), gr_end = parseDay z (end_text t),
      gr_progress = row_progress t, gr_collapsed = None\<rparr>"

text \<open>The stages in the order of their first task: a \<open>Map\<close> keeps the order of insertion.\<close>

definition stage_name :: "task \<Rightarrow> string" where
  "stage_name t = js_trim (nullish (tk_stage t) [])"

definition stage_split :: "task list \<Rightarrow> (string \<times> task list) list \<times> task list" where
  "stage_split tasks =
     fold (\<lambda>t (m, loose). if stage_name t \<noteq> [] then (map_push m (stage_name t) t, loose) else (m, loose @ [t]))
       tasks ([], [])"

definition task_days :: "zone \<Rightarrow> task \<Rightarrow> int option" where
  "task_days z t =
     (case (parseDay z (start_text t), parseDay z (end_text t)) of
        (Some a, Some b) \<Rightarrow> Some (daysBetween a b + 1)
      | _ \<Rightarrow> None)"

text \<open>The sums over the children; \<open>NaN\<close> (an invalid day) makes the total falsy and the progress 0.\<close>

definition stage_progress :: "zone \<Rightarrow> task list \<Rightarrow> int" where
  "stage_progress z children =
     (if \<exists>c \<in> set children. task_days z c = None then 0
      else let total = sum_list (map (\<lambda>c. the (task_days z c)) children);
               done = sum_list (map (\<lambda>c. of_int (row_progress c) / 100 * of_int (the (task_days z c))) children)
           in if total = 0 then 0 else js_round (done / of_int total * (100 :: rat)))"

definition min_text :: "string list \<Rightarrow> string" where
  "min_text ss = foldl (\<lambda>m s. if s < m then s else m) (hd ss) ss"

definition max_text :: "string list \<Rightarrow> string" where
  "max_text ss = foldl (\<lambda>m s. if s > m then s else m) (hd ss) ss"

definition stage_block :: "zone \<Rightarrow> string set \<Rightarrow> string \<times> task list \<Rightarrow> string \<times> gantt_row list" where
  "stage_block z collapsed e =
     (let stage = fst e; children = js_sort cmp_schedule (snd e);
          minStart = min_text (map start_text children); maxEnd = max_text (map end_text children);
          row = \<lparr>gr_kind = ''stage'', gr_key = ''stage:'' @ stage, gr_task = None, gr_stage = Some stage,
                 gr_tasks = Some children, gr_start = parseDay z minStart, gr_end = parseDay z maxEnd,
                 gr_progress = stage_progress z children, gr_collapsed = Some (stage \<in> collapsed)\<rparr>
      in (minStart, row # (if stage \<in> collapsed then [] else map (taskRow z) children)))"

definition cmp_block :: "string \<times> gantt_row list \<Rightarrow> string \<times> gantt_row list \<Rightarrow> int" where
  "cmp_block a b = cmp_lin (fst a) (fst b)"

definition rowModel :: "zone \<Rightarrow> task list \<Rightarrow> string set \<Rightarrow> gantt_row list" where
  "rowModel z tasks collapsed =
     (let (byStage, loose) = stage_split (filter isScheduled tasks);
          blocks = map (stage_block z collapsed) byStage @
                   map (\<lambda>t. (start_text t, [taskRow z t])) (js_sort cmp_schedule loose)
      in concat (map snd (js_sort cmp_block blocks)))"

definition scheduledSplit :: "task list \<Rightarrow> task list \<times> task list" where
  "scheduledSplit tasks =
     fold (\<lambda>t (s, b). if isScheduled t then (s @ [t], b)
                       else if tk_status t \<noteq> ''done'' then (s, b @ [t]) else (s, b)) tasks ([], [])"

subsection \<open>Bars, arrows and the header\<close>

record bar_rect =
  br_x1 :: rat
  br_x2 :: rat
  br_y :: rat
  br_h :: rat
  br_mid :: rat

definition barRect :: "zone \<Rightarrow> gantt_scale \<Rightarrow> date \<Rightarrow> date \<Rightarrow> nat \<Rightarrow> bar_rect" where
  "barRect z sc start_d end_d i =
     (let y = of_int (int i * ROW_H) + of_int (ROW_H - BAR_H) / 2
      in \<lparr>br_x1 = dateToX sc start_d, br_x2 = dateToX sc (addDays z end_d 1), br_y = y,
          br_h = of_int BAR_H, br_mid = y + of_int BAR_H / 2\<rparr>)"

text \<open>The path of an arrow, by its commands: \<open>M x y\<close>, \<open>H x\<close> and \<open>V y\<close>.\<close>

datatype path_cmd = MoveTo rat rat | H rat | V rat

definition dependencyPath :: "bar_rect \<Rightarrow> bar_rect \<Rightarrow> path_cmd list" where
  "dependencyPath a b =
     (let down = (if br_mid b > br_mid a then 1 else - 1);
          stubEnd = br_x2 a + of_int ARROW_INDENT
      in if stubEnd < br_x1 b - of_int ARROW_INDENT
         then [MoveTo (br_x2 a) (br_mid a), H (br_x1 b - of_int ARROW_INDENT), V (br_mid b), H (br_x1 b)]
         else let gutterY = br_mid a + down * of_int ROW_H / 2
              in [MoveTo (br_x2 a) (br_mid a), H stubEnd, V gutterY,
                  H (br_x1 b - of_int ARROW_INDENT), V (br_mid b), H (br_x1 b)])"

definition arrowHead :: "bar_rect \<Rightarrow> (rat \<times> rat) list" where
  "arrowHead b =
     (let s = 9 / 2; k = 8 / 5
      in [(br_x1 b, br_mid b), (br_x1 b - s * k, br_mid b - s), (br_x1 b - s * k, br_mid b + s)])"

record header_band =
  hb_x :: int
  hb_w :: int
  hb_label :: string

text \<open>The locale's date formatter is a parameter: the options (by name) and the date give the text.\<close>

definition bottom_label :: "zone \<Rightarrow> (string \<Rightarrow> date \<Rightarrow> string) \<Rightarrow> time_unit \<Rightarrow> date \<Rightarrow> string" where
  "bottom_label z fmt u d =
     (case u of
        UDay \<Rightarrow> fmt ''weekday:narrow'' d @ '' '' @ show_int (getDate z d)
      | UWeek \<Rightarrow> fmt ''month:short'' d @ '' '' @ show_int (getDate z d)
      | UMonth \<Rightarrow> fmt ''month:short'' d)"

definition topKey :: "zone \<Rightarrow> time_unit \<Rightarrow> date \<Rightarrow> string" where
  "topKey z u d =
     (if u = UMonth then show_int (getFullYear z d)
      else show_int (getFullYear z d) @ ''-'' @ show_int (getMonth z d))"

definition topLabel :: "zone \<Rightarrow> (string \<Rightarrow> date \<Rightarrow> string) \<Rightarrow> time_unit \<Rightarrow> date \<Rightarrow> string" where
  "topLabel z fmt u d =
     (if u = UMonth then show_int (getFullYear z d) else fmt ''month:long,year:numeric'' d)"

text \<open>The run-length loop: \<open>runStart\<close> and the columns from \<open>i\<close> on.\<close>

fun top_bands :: "(date \<Rightarrow> string) \<Rightarrow> (date \<Rightarrow> string) \<Rightarrow> int \<Rightarrow> gantt_col list \<Rightarrow> nat \<Rightarrow> nat \<Rightarrow> nat \<Rightarrow> header_band list" where
  "top_bands key lab w cols runStart i 0 = []"
| "top_bands key lab w cols runStart i (Suc n) =
     (if i = length cols \<or> key (gc_start (cols ! i)) \<noteq> key (gc_start (cols ! runStart))
      then \<lparr>hb_x = int runStart * w, hb_w = (int i - int runStart) * w, hb_label = lab (gc_start (cols ! runStart))\<rparr>
             # top_bands key lab w cols i (i + 1) n
      else top_bands key lab w cols runStart (i + 1) n)"

definition headerBands ::
    "zone \<Rightarrow> (string \<Rightarrow> date \<Rightarrow> string) \<Rightarrow> gantt_scale \<Rightarrow> header_band list \<times> header_band list" where
  "headerBands z fmt sc =
     (let cols = gs_cols sc; w = gs_colWidth sc; u = gs_unit sc
      in (top_bands (topKey z u) (topLabel z fmt u) w cols 0 1 (length cols),
          map (\<lambda>i. \<lparr>hb_x = int i * w, hb_w = w, hb_label = bottom_label z fmt u (gc_start (cols ! i))\<rparr>) [0..<length cols]))"

definition durationDays :: "zone \<Rightarrow> task \<Rightarrow> int option" where
  "durationDays z t = (if isScheduled t then task_days z t else Some 0)"

definition unitToFit :: "zone \<Rightarrow> task list \<Rightarrow> rat \<Rightarrow> time_unit" where
  "unitToFit z tasks w =
     (let scheduled = filter isScheduled tasks
      in if scheduled = [] then UWeek
         else case (parseDay z (min_text (map start_text scheduled)), parseDay z (max_text (map end_text scheduled))) of
           (Some a, Some b) \<Rightarrow>
             (let days = of_int (daysBetween a b + 1);
                  px = (\<lambda>u. days * of_int (COL_WIDTH u) / (case u of UDay \<Rightarrow> 1 | UWeek \<Rightarrow> 7 | UMonth \<Rightarrow> 30))
              in if px UDay \<le> w then UDay else if px UWeek \<le> w then UWeek else UMonth)
         | _ \<Rightarrow> UMonth)"

end
