(* ===== verification/GanttScale.thy ===== *)
theory GanttScale
  imports Gantt
begin

section \<open>The scale of the chart covers the schedule\<close>

text \<open>
  The columns of \<^const>\<open>buildScale\<close> form a chain of local midnights that covers every scheduled
  day, and the two conversions between dates and pixels are inverse on the days of such a scale. The
  arguments are on day numbers: a column of the chart goes from \<open>unit_day\<close> to \<open>next_day\<close>.
\<close>

text \<open>The instant before a local midnight belongs to the day before.\<close>

definition zone_back :: "zone \<Rightarrow> bool" where
  "zone_back z \<longleftrightarrow> (\<forall>n. local_day z (midnight z n - 1) = n - 1)"

fun unit_day :: "time_unit \<Rightarrow> int \<Rightarrow> int" where
  "unit_day UDay n = n"
| "unit_day UWeek n = n - (n + 3) mod 7"
| "unit_day UMonth n = (case civil n of (y, m, d) \<Rightarrow> day_number y m 1)"

fun next_day :: "time_unit \<Rightarrow> int \<Rightarrow> int" where
  "next_day UDay n = n + 1"
| "next_day UWeek n = n + 7"
| "next_day UMonth n = (case civil n of (y, m, d) \<Rightarrow> day_number y (m + 1) 1)"

definition year_at :: "int \<Rightarrow> int" where "year_at n = fst (civil n)"

lemma getFullYear_day: "getFullYear z t = year_at (local_day z t)"
  by (simp add: getFullYear_def year_at_def)

lemma year_at_mono: "a \<le> b \<Longrightarrow> year_at a \<le> year_at b"
proof (cases "a = b")
  case False
  assume "a \<le> b"
  obtain y m d where cp: "civil a = (y, m, d)" by (metis surj_pair)
  obtain y' m' d' where cq: "civil b = (y', m', d')" by (metis surj_pair)
  show ?thesis using civil_less[OF cp cq] \<open>a \<le> b\<close> False by (auto simp: cp cq year_at_def)
qed simp

lemma unitStart_day:
  assumes "year_fine (year_at (local_day z t))"
  shows "unitStart z t u = midnight z (unit_day u (local_day z t))"
proof -
  have y: "year_fine (getFullYear z t)" using assms by (simp add: getFullYear_day)
  show ?thesis
  proof (cases u)
    case UDay
    then show ?thesis using y by (simp add: new_Date_fine day_number_getters)
  next
    case UWeek
    then show ?thesis using y by (simp add: mondayOf_midnight)
  next
    case UMonth
    then show ?thesis using y
      by (simp add: new_Date_fine getFullYear_def getMonth_def split: prod.splits)
  qed
qed

lemma nextUnit_day:
  assumes "zone_ok z" "year_fine (year_at n)"
  shows "nextUnit z (midnight z n) u = midnight z (next_day u n)"
proof -
  have y: "year_fine (getFullYear z (midnight z n))" using assms by (simp add: getFullYear_day)
  show ?thesis
  proof (cases u)
    case UMonth
    obtain yy m d where c: "civil n = (yy, m, d)" by (metis surj_pair)
    with UMonth y show ?thesis
      by (simp add: getters_midnight[OF assms(1) c] new_Date_fine)
  qed (use y assms(1) in \<open>simp_all add: addDays_midnight\<close>)
qed

lemma unit_day_bounds: "unit_day u n \<le> n \<and> n - 30 \<le> unit_day u n"
proof (cases u)
  case UMonth
  obtain y m d where c: "civil n = (y, m, d)" by (metis surj_pair)
  note v = day_number_civil[OF c]
  have "day_number y m 1 = n - (d - 1)" using day_number_add[of y m d "1 - d"] v by simp
  moreover have "1 \<le> d" "d \<le> 31" using civil_ranges[of y m d] v by simp_all
  ultimately show ?thesis using UMonth c by simp
next
  case UWeek
  have "0 \<le> (n + 3) mod 7" "(n + 3) mod 7 < 7" by simp_all
  with UWeek show ?thesis by simp
qed simp

lemma next_day_bounds: "n < next_day u n \<and> next_day u n \<le> n + 31"
proof (cases u)
  case UMonth
  obtain y m d where c: "civil n = (y, m, d)" by (metis surj_pair)
  note v = day_number_civil[OF c]
  have vm: "0 \<le> m" "m < 12" "1 \<le> d" "d \<le> month_len y m" using v by (auto simp: valid_civil_def)
  have "day_number y (m + 1) 1 = day_number y (m + 1) 0 + 1" using day_number_add[of y "m + 1" 0 1] by simp
  also have "\<dots> = day_number y m (month_len y m) + 1"
    using day_number_next_month[of y m] vm by (simp add: div_pos_pos_trivial)
  also have "\<dots> = n + (month_len y m - d) + 1"
    using day_number_add[of y m d "month_len y m - d"] v by simp
  finally show ?thesis
    using UMonth c vm month_len_bounds[of m y] by simp
qed simp_all

lemma back_unit_bounds: "unit_day u (n - 1) < n \<and> n - 31 \<le> unit_day u (n - 1)"
  using unit_day_bounds[of u "n - 1"] by auto

subsection \<open>Chains of columns\<close>

fun chain :: "date \<Rightarrow> gantt_col list \<Rightarrow> date \<Rightarrow> bool" where
  "chain c [] e = (c = e)"
| "chain c (x # xs) e = (gc_start x = c \<and> gc_start x < gc_end x \<and> chain (gc_end x) xs e)"

lemma chain_append: "chain c (xs @ ys) e \<longleftrightarrow> (\<exists>d. chain c xs d \<and> chain d ys e)"
  by (induction xs arbitrary: c) auto

lemma chain_le: "chain c xs e \<Longrightarrow> c \<le> e"
  by (induction xs arbitrary: c) fastforce+

lemma chain_nth:
  assumes "chain c xs e" "i < length xs"
  shows "c \<le> gc_start (xs ! i)" "gc_start (xs ! i) < gc_end (xs ! i)" "gc_end (xs ! i) \<le> e"
    "Suc i < length xs \<Longrightarrow> gc_start (xs ! Suc i) = gc_end (xs ! i)"
    "Suc i = length xs \<Longrightarrow> gc_end (xs ! i) = e" "i = 0 \<Longrightarrow> gc_start (xs ! i) = c"
proof -
  have x: "xs = take i xs @ xs ! i # drop (Suc i) xs" using assms(2) by (rule id_take_nth_drop)
  then have "chain c (take i xs @ xs ! i # drop (Suc i) xs) e" using assms(1) by simp
  then obtain d where d: "chain c (take i xs) d" "gc_start (xs ! i) = d" "d < gc_end (xs ! i)"
    "chain (gc_end (xs ! i)) (drop (Suc i) xs) e"
    by (auto simp: chain_append)
  show "c \<le> gc_start (xs ! i)" "gc_start (xs ! i) < gc_end (xs ! i)" "gc_end (xs ! i) \<le> e"
    using d chain_le[OF d(1)] chain_le[OF d(4)] by simp_all
  show "Suc i < length xs \<Longrightarrow> gc_start (xs ! Suc i) = gc_end (xs ! i)"
    using d(4) Cons_nth_drop_Suc[of "Suc i" xs] by (metis chain.simps(2))
  show "Suc i = length xs \<Longrightarrow> gc_end (xs ! i) = e" using d(4) by simp
  show "i = 0 \<Longrightarrow> gc_start (xs ! i) = c" using d(1,2) by simp
qed

lemma chain_order:
  "chain c xs e \<Longrightarrow> i < j \<Longrightarrow> j < length xs \<Longrightarrow> gc_end (xs ! i) \<le> gc_start (xs ! j)"
proof (induction j)
  case (Suc j)
  note n = chain_nth[OF Suc.prems(1), of j]
  show ?case
  proof (cases "i = j")
    case True
    with n Suc.prems show ?thesis by simp
  next
    case False
    then have "gc_end (xs ! i) \<le> gc_start (xs ! j)" using Suc by simp
    with n Suc.prems show ?thesis by simp
  qed
qed simp

definition scale_ok :: "gantt_scale \<Rightarrow> bool" where
  "scale_ok sc \<longleftrightarrow>
     gs_cols sc \<noteq> [] \<and> chain (gs_start sc) (gs_cols sc) (gs_end sc) \<and>
     gs_width sc = int (length (gs_cols sc)) * gs_colWidth sc \<and> 0 < gs_colWidth sc"

subsection \<open>Dates to pixels and back\<close>

lemma col_search_finds:
  assumes ch: "chain s cols e" and "s \<le> d" "lo \<le> hi" "hi < length cols"
    and "lo = 0 \<or> gc_end (cols ! (lo - 1)) \<le> d" "d < gc_end (cols ! hi)"
  shows "col_search cols d lo hi < length cols \<and>
    gc_start (cols ! col_search cols d lo hi) \<le> d \<and> d < gc_end (cols ! col_search cols d lo hi)"
  using assms(2-)
proof (induction "hi - lo" arbitrary: lo hi rule: less_induct)
  case less
  show ?case
  proof (cases "lo < hi")
    case True
    define mid where "mid = (lo + hi) div 2"
    have m: "lo \<le> mid" "mid < hi" using True by (auto simp: mid_def)
    show ?thesis
    proof (cases "gc_end (cols ! mid) \<le> d")
      case le: True
      have "col_search cols d lo hi = col_search cols d (mid + 1) hi"
        using True le by (subst col_search.simps) (simp add: mid_def Let_def)
      moreover have "hi - (mid + 1) < hi - lo" using m True by simp
      ultimately show ?thesis using less.hyps[of hi "mid + 1"] less.prems le m by simp
    next
      case gt: False
      have "col_search cols d lo hi = col_search cols d lo mid"
        using True gt by (subst col_search.simps) (simp add: mid_def Let_def)
      moreover have "mid - lo < hi - lo" using m True by simp
      ultimately show ?thesis using less.hyps[of mid lo] less.prems gt m by simp
    qed
  next
    case False
    then have "col_search cols d lo hi = lo" by (subst col_search.simps) simp
    with False have lo: "lo = hi" "col_search cols d lo hi = lo" using less.prems(2) by simp_all
    have "gc_start (cols ! lo) \<le> d"
    proof (cases "lo = 0")
      case True
      then show ?thesis using chain_nth(6)[OF ch, of 0] less.prems lo by simp
    next
      case False
      then show ?thesis using chain_nth(4)[OF ch, of "lo - 1"] less.prems lo by simp
    qed
    then show ?thesis using less.prems lo by simp
  qed
qed

lemma dateToX_inside:
  assumes ok: "scale_ok sc" and d: "gs_start sc \<le> d" "d < gs_end sc"
  obtains i where "i < length (gs_cols sc)" "gc_start (gs_cols sc ! i) \<le> d" "d < gc_end (gs_cols sc ! i)"
    "dateToX sc d = (of_nat i + of_int (d - gc_start (gs_cols sc ! i)) /
       of_int (gc_end (gs_cols sc ! i) - gc_start (gs_cols sc ! i))) * of_int (gs_colWidth sc)"
proof -
  let ?cols = "gs_cols sc"
  have ch: "chain (gs_start sc) ?cols (gs_end sc)" and ne: "0 < length ?cols" using ok by (simp_all add: scale_ok_def)
  show ?thesis
  proof (cases "d = gs_start sc")
    case True
    have "gc_start (?cols ! 0) = d" "d < gc_end (?cols ! 0)"
      using chain_nth(2,6)[OF ch ne] True by simp_all
    with True ne that[of 0] show ?thesis by (simp add: dateToX_def)
  next
    case False
    let ?i = "col_search ?cols d 0 (length ?cols - 1)"
    have "d < gc_end (?cols ! (length ?cols - 1))"
      using chain_nth(5)[OF ch, of "length ?cols - 1"] ne d by simp
    then have "?i < length ?cols \<and> gc_start (?cols ! ?i) \<le> d \<and> d < gc_end (?cols ! ?i)"
      using ne d by (intro col_search_finds[OF ch]) simp_all
    moreover have "\<not> d \<le> gs_start sc" "\<not> gs_end sc \<le> d" using d False by simp_all
    ultimately show ?thesis
      using that[of ?i] by (simp add: dateToX_def Let_def distrib_right)
  qed
qed

lemma fraction:
  assumes "a \<le> d" "d < (b :: int)"
  shows "0 \<le> (of_int (d - a) / of_int (b - a) :: rat)" "(of_int (d - a) / of_int (b - a) :: rat) < 1"
    "of_int a + (of_int (d - a) / of_int (b - a)) * of_int (b - a) = (of_int d :: rat)"
proof -
  have p: "(0 :: rat) < of_int (b - a)" using assms by simp
  show "0 \<le> (of_int (d - a) / of_int (b - a) :: rat)" using assms p by simp
  have "of_int (d - a) < (of_int (b - a) :: rat)" using assms by simp
  with p show "(of_int (d - a) / of_int (b - a) :: rat) < 1" by (simp only: divide_less_eq_1_pos)
  show "of_int a + (of_int (d - a) / of_int (b - a)) * of_int (b - a) = (of_int d :: rat)" using p by simp
qed

text \<open>
  C16. Pixels and days are inverse: on a scale of contiguous columns, converting a day of the chart
  to its pixel and snapping the pixel back gives that day - in every unit, in months of any length
  and across daylight saving - and the pixel is inside the chart.
\<close>

theorem xToDate_dateToX:
  assumes z: "zone_ok z" and ok: "scale_ok sc" and n: "year_fine (year_at n)"
    and d: "gs_start sc \<le> midnight z n" "midnight z n < gs_end sc"
  shows "xToDate z sc (dateToX sc (midnight z n)) = midnight z n \<and>
    0 \<le> dateToX sc (midnight z n) \<and> dateToX sc (midnight z n) < of_int (gs_width sc)"
proof -
  let ?d = "midnight z n" and ?w = "of_int (gs_colWidth sc) :: rat"
  obtain i where i: "i < length (gs_cols sc)" "gc_start (gs_cols sc ! i) \<le> ?d" "?d < gc_end (gs_cols sc ! i)"
    and x: "dateToX sc ?d = (of_nat i + of_int (?d - gc_start (gs_cols sc ! i)) /
       of_int (gc_end (gs_cols sc ! i) - gc_start (gs_cols sc ! i))) * ?w"
    using dateToX_inside[OF ok d] by metis
  define f :: rat where "f = of_int (?d - gc_start (gs_cols sc ! i)) /
    of_int (gc_end (gs_cols sc ! i) - gc_start (gs_cols sc ! i))"
  note f = fraction[OF i(2,3), folded f_def]
  have w: "0 < ?w" using ok by (simp add: scale_ok_def)
  have xw: "dateToX sc ?d / ?w = of_nat i + f" using w by (simp add: x f_def)
  have fl: "\<lfloor>of_nat i + f\<rfloor> = int i" using f by (simp add: floor_eq_iff)
  have idx: "min (int (length (gs_cols sc)) - 1) (max 0 (int i)) = int i" using i(1) by simp
  have fr: "min 1 (max 0 (of_nat i + f - of_int (int i))) = f" using f by simp
  have y: "year_fine (getFullYear z ?d)" using z n by (simp add: getFullYear_day)
  have ms: "date_of_ms (of_int ?d) = ?d" by (simp add: date_of_ms_def)
  have fl2: "new_Date z (getFullYear z ?d) (getMonth z ?d) (getDate z ?d) = ?d"
    using z by (simp add: new_Date_fine[OF y] day_number_getters)
  have "xToDate z sc (dateToX sc ?d) = ?d"
    unfolding xToDate_def Let_def xw fl idx nat_int fr f(3) ms fl2 by (simp add: DAY_MS_def)
  moreover have "0 \<le> dateToX sc ?d" unfolding x f_def[symmetric] using f(1) w by simp
  moreover have "dateToX sc ?d < of_int (gs_width sc)"
  proof -
    have "of_nat i + f < of_nat (length (gs_cols sc))"
    proof -
      have "of_nat i + 1 \<le> (of_nat (length (gs_cols sc)) :: rat)" using i(1) by (metis Suc_leI of_nat_Suc of_nat_le_iff add.commute)
      with f(2) show ?thesis by linarith
    qed
    then have "(of_nat i + f) * ?w < of_nat (length (gs_cols sc)) * ?w" using w by (rule mult_strict_right_mono)
    with ok show ?thesis unfolding x f_def[symmetric] by (simp add: scale_ok_def)
  qed
  ultimately show ?thesis by simp
qed

subsection \<open>What the scale covers\<close>

text \<open>All years of a chart lie above 900, far from the two-digit years of the \<open>Date\<close> constructor.\<close>

definition FLOOR_DAY :: int where "FLOOR_DAY = - 390809"

lemma fine_above: "FLOOR_DAY \<le> n \<Longrightarrow> year_fine (year_at n)"
proof -
  assume n: "FLOOR_DAY \<le> n"
  have "FLOOR_DAY = day_number 900 0 1"
    by (simp add: FLOOR_DAY_def day_number_def before_year_def before_month_def EPOCH_def)
  moreover have "valid_civil 900 0 1" by (simp add: valid_civil_def month_len_def month_lens_def)
  ultimately have "year_at FLOOR_DAY = 900" by (metis civil_day_number fst_conv year_at_def)
  with year_at_mono[OF n] show ?thesis by (simp add: year_fine_def)
qed

lemma floor_below: "day_ok n \<Longrightarrow> FLOOR_DAY + 30000 \<le> n"
proof (rule ccontr)
  assume n: "day_ok n" "\<not> FLOOR_DAY + 30000 \<le> n"
  have e: "day_number 999 0 1 = - 354650"
    by (simp add: day_number_def before_year_def before_month_def EPOCH_def)
  have "valid_civil 999 0 1" by (simp add: valid_civil_def month_len_def month_lens_def)
  then have "year_at (- 354650) = 999" using e by (metis civil_day_number fst_conv year_at_def)
  moreover have "n \<le> - 354650" using n(2) by (simp add: FLOOR_DAY_def)
  ultimately have "year_at n \<le> 999" using year_at_mono by metis
  with n(1) show False by (simp add: day_ok_def year_at_def)
qed

lemma back_units_day:
  assumes z: "zone_ok z" "zone_back z"
  shows "FLOOR_DAY + 31 * int j \<le> n \<Longrightarrow>
    \<exists>k. back_units z u j (midnight z n) = midnight z k \<and> k \<le> n \<and> n - 31 * int j \<le> k"
proof (induction j arbitrary: n)
  case 0
  then show ?case by (auto simp: back_units_def)
next
  case (Suc j)
  have b: "unit_day u (n - 1) < n" "n - 31 \<le> unit_day u (n - 1)" using back_unit_bounds by auto
  have "local_day z (midnight z n - 1) = n - 1" using z(2) by (simp add: zone_back_def)
  moreover have "year_fine (year_at (n - 1))" using Suc.prems by (intro fine_above) simp
  ultimately have "back_units z u (Suc j) (midnight z n) = back_units z u j (midnight z (unit_day u (n - 1)))"
    by (simp add: back_units_def funpow_Suc_right unitStart_day del: funpow.simps(2))
  moreover obtain k where "back_units z u j (midnight z (unit_day u (n - 1))) = midnight z k"
    "k \<le> unit_day u (n - 1)" "unit_day u (n - 1) - 31 * int j \<le> k"
    using Suc.IH[of "unit_day u (n - 1)"] Suc.prems b by auto
  ultimately show ?case using b by (intro exI[of _ k]) simp
qed

lemma cols_until_day:
  assumes z: "zone_ok z"
  shows "FLOOR_DAY \<le> n \<Longrightarrow>
    \<exists>cs n'. cols_until z u (midnight z m) f (midnight z n) = (cs, midnight z n') \<and>
      chain (midnight z n) cs (midnight z n') \<and> n \<le> n' \<and> (n + int f \<le> n' \<or> m < n')"
proof (induction f arbitrary: n)
  case 0
  then show ?case by auto
next
  case (Suc f)
  show ?case
  proof (cases "n \<le> m")
    case True
    then have le: "midnight z n \<le> midnight z m" using z by (simp add: not_less[symmetric])
    have b: "n < next_day u n" using next_day_bounds by auto
    obtain cs n' where IH: "cols_until z u (midnight z m) f (midnight z (next_day u n)) = (cs, midnight z n')"
      "chain (midnight z (next_day u n)) cs (midnight z n')" "next_day u n \<le> n'"
      "next_day u n + int f \<le> n' \<or> m < n'"
      using Suc.IH[of "next_day u n"] Suc.prems b by auto
    have "nextUnit z (midnight z n) u = midnight z (next_day u n)"
      using z Suc.prems by (intro nextUnit_day fine_above)
    with IH le b z show ?thesis by (auto simp: Let_def)
  next
    case False
    then have "\<not> midnight z n \<le> midnight z m" using z by (simp add: not_le)
    with False show ?thesis by auto
  qed
qed

lemma pad_cols_day:
  assumes z: "zone_ok z"
  shows "FLOOR_DAY \<le> n \<Longrightarrow>
    \<exists>n'. chain (midnight z n) (pad_cols z u j (midnight z n)) (midnight z n') \<and> n + int j \<le> n'"
proof (induction j arbitrary: n)
  case 0
  then show ?case by auto
next
  case (Suc j)
  have b: "n < next_day u n" using next_day_bounds by auto
  obtain n' where "chain (midnight z (next_day u n)) (pad_cols z u j (midnight z (next_day u n))) (midnight z n')"
    "next_day u n + int j \<le> n'"
    using Suc.IH[of "next_day u n"] Suc.prems b by auto
  moreover have "nextUnit z (midnight z n) u = midnight z (next_day u n)"
    using z Suc.prems by (intro nextUnit_day fine_above)
  ultimately show ?case using b z by (intro exI[of _ n']) (simp add: Let_def)
qed

text \<open>The days a task brings to the chart.\<close>

definition schedule_dates :: "task \<Rightarrow> string list" where
  "schedule_dates t =
     (if isScheduled t then [start_text t, end_text t] else []) @
     (if truthy (tk_dueDate t) then [the (tk_dueDate t)] else [])"

definition day_within :: "int \<Rightarrow> int \<Rightarrow> string \<Rightarrow> bool" where
  "day_within lo hi s \<longleftrightarrow> (\<exists>n. day_ok n \<and> lo \<le> n \<and> n \<le> hi \<and> s = text_of n)"

lemma min_max_midnight:
  assumes "zone_ok z"
  shows "min_date (Some (midnight z n)) (midnight z a) = midnight z (min n a)"
    "max_date (Some (midnight z n)) (midnight z a) = midnight z (max n a)"
  using assms by (auto simp: min_date_def max_date_def min_def max_def)

lemma scheduled_texts:
  assumes "isScheduled t"
  shows "the (tk_startDate t) = start_text t" "the (tk_endDate t) = end_text t"
  using assms by (auto simp: isScheduled_def start_text_def end_text_def nullish_def truthy_def split: option.splits)

lemma span_step_day:
  assumes z: "zone_ok z" and t: "\<forall>s \<in> set (schedule_dates t). day_within lo hi s"
  shows "\<exists>a' b'. span_step z t (midnight z a, midnight z b) = (midnight z a', midnight z b') \<and>
    a' \<le> a \<and> b \<le> b' \<and> min lo a \<le> a' \<and> b' \<le> max hi b \<and>
    (\<forall>n. day_ok n \<longrightarrow> isScheduled t \<longrightarrow> start_text t = text_of n \<longrightarrow> a' \<le> n) \<and>
    (\<forall>n. day_ok n \<longrightarrow> isScheduled t \<longrightarrow> end_text t = text_of n \<longrightarrow> n \<le> b') \<and>
    (\<forall>n. day_ok n \<longrightarrow> tk_dueDate t = Some (text_of n) \<longrightarrow> n \<le> b')"
proof -
  have inj: "text_of n = text_of k \<Longrightarrow> day_ok n \<Longrightarrow> day_ok k \<Longrightarrow> n = k" for n k
    by (simp add: text_of_eq)
  define sch where "sch = (\<lambda>p. if isScheduled t
    then (min_date (parseDay z (the (tk_startDate t))) (fst p), max_date (parseDay z (the (tk_endDate t))) (snd p)) else p)"
  have "\<exists>a1 b1. sch (midnight z a, midnight z b) = (midnight z a1, midnight z b1) \<and>
    a1 \<le> a \<and> b \<le> b1 \<and> min lo a \<le> a1 \<and> b1 \<le> max hi b \<and>
    (\<forall>n. day_ok n \<longrightarrow> isScheduled t \<longrightarrow> start_text t = text_of n \<longrightarrow> a1 \<le> n) \<and>
    (\<forall>n. day_ok n \<longrightarrow> isScheduled t \<longrightarrow> end_text t = text_of n \<longrightarrow> n \<le> b1)"
  proof (cases "isScheduled t")
    case True
    then obtain i j where ij: "day_ok i" "lo \<le> i" "i \<le> hi" "start_text t = text_of i"
      "day_ok j" "lo \<le> j" "j \<le> hi" "end_text t = text_of j"
      using t by (auto simp: schedule_dates_def day_within_def)
    then have "sch (midnight z a, midnight z b) = (midnight z (min i a), midnight z (max j b))"
      using True z by (simp add: sch_def scheduled_texts parseDay_text_of min_max_midnight)
    moreover have "min i a \<le> n" if "day_ok n" "start_text t = text_of n" for n using inj ij that by fastforce
    moreover have "n \<le> max j b" if "day_ok n" "end_text t = text_of n" for n using inj ij that by fastforce
    ultimately show ?thesis using ij by (intro exI[of _ "min i a"] exI[of _ "max j b"]) auto
  next
    case False
    then show ?thesis by (intro exI[of _ a] exI[of _ b]) (simp add: sch_def)
  qed
  then obtain a1 b1 where 1: "sch (midnight z a, midnight z b) = (midnight z a1, midnight z b1)"
    "a1 \<le> a" "b \<le> b1" "min lo a \<le> a1" "b1 \<le> max hi b"
    "\<And>n. day_ok n \<Longrightarrow> isScheduled t \<Longrightarrow> start_text t = text_of n \<Longrightarrow> a1 \<le> n"
    "\<And>n. day_ok n \<Longrightarrow> isScheduled t \<Longrightarrow> end_text t = text_of n \<Longrightarrow> n \<le> b1" by blast
  have st: "span_step z t (midnight z a, midnight z b) =
      (if truthy (tk_dueDate t) then (midnight z a1, max_date (parseDay z (the (tk_dueDate t))) (midnight z b1))
       else (midnight z a1, midnight z b1))"
    using 1(1) by (simp add: span_step_def Let_def sch_def)
  show ?thesis
  proof (cases "truthy (tk_dueDate t)")
    case True
    then obtain j where j: "day_ok j" "j \<le> hi" "tk_dueDate t = Some (text_of j)"
      using t by (cases "tk_dueDate t") (auto simp: schedule_dates_def day_within_def)
    then have "span_step z t (midnight z a, midnight z b) = (midnight z a1, midnight z (max j b1))"
      using True z by (simp add: st parseDay_text_of min_max_midnight)
    moreover have "n \<le> max j b1" if "day_ok n" "tk_dueDate t = Some (text_of n)" for n
      using inj[of n j] j that by simp
    ultimately show ?thesis using 1(2-) j(2)
      by (intro exI[of _ a1] exI[of _ "max j b1"]) (auto simp: le_max_iff_disj)
  next
    case False
    then have "tk_dueDate t \<noteq> Some (text_of n)" for n by auto
    with False 1 show ?thesis by (intro exI[of _ a1] exI[of _ b1]) (simp add: st)
  qed
qed

lemma span_day:
  assumes z: "zone_ok z"
  shows "\<forall>t \<in> set ts. \<forall>s \<in> set (schedule_dates t). day_within lo hi s \<Longrightarrow>
    \<exists>a' b'. fold (span_step z) ts (midnight z a, midnight z b) = (midnight z a', midnight z b') \<and>
    a' \<le> a \<and> b \<le> b' \<and> min lo a \<le> a' \<and> b' \<le> max hi b \<and>
    (\<forall>t \<in> set ts. \<forall>n. day_ok n \<longrightarrow>
      (isScheduled t \<longrightarrow> start_text t = text_of n \<longrightarrow> a' \<le> n) \<and>
      (isScheduled t \<longrightarrow> end_text t = text_of n \<longrightarrow> n \<le> b') \<and>
      (tk_dueDate t = Some (text_of n) \<longrightarrow> n \<le> b'))"
proof (induction ts arbitrary: a b)
  case Nil
  show ?case by (intro exI[of _ a] exI[of _ b]) simp
next
  case (Cons t ts)
  obtain a1 b1 where 1: "span_step z t (midnight z a, midnight z b) = (midnight z a1, midnight z b1)"
    "a1 \<le> a" "b \<le> b1" "min lo a \<le> a1" "b1 \<le> max hi b"
    "\<And>n. day_ok n \<Longrightarrow> isScheduled t \<Longrightarrow> start_text t = text_of n \<Longrightarrow> a1 \<le> n"
    "\<And>n. day_ok n \<Longrightarrow> isScheduled t \<Longrightarrow> end_text t = text_of n \<Longrightarrow> n \<le> b1"
    "\<And>n. day_ok n \<Longrightarrow> tk_dueDate t = Some (text_of n) \<Longrightarrow> n \<le> b1"
    using span_step_day[OF z, of t lo hi a b] Cons.prems by (auto simp: Ball_def)
  obtain a2 b2 where 2: "fold (span_step z) ts (midnight z a1, midnight z b1) = (midnight z a2, midnight z b2)"
    "a2 \<le> a1" "b1 \<le> b2" "min lo a1 \<le> a2" "b2 \<le> max hi b1"
    and ts: "\<forall>t \<in> set ts. \<forall>n. day_ok n \<longrightarrow>
      (isScheduled t \<longrightarrow> start_text t = text_of n \<longrightarrow> a2 \<le> n) \<and>
      (isScheduled t \<longrightarrow> end_text t = text_of n \<longrightarrow> n \<le> b2) \<and>
      (tk_dueDate t = Some (text_of n) \<longrightarrow> n \<le> b2)"
    using Cons.IH[of a1 b1] Cons.prems by auto
  have "(isScheduled t \<longrightarrow> start_text t = text_of n \<longrightarrow> a2 \<le> n) \<and>
      (isScheduled t \<longrightarrow> end_text t = text_of n \<longrightarrow> n \<le> b2) \<and>
      (tk_dueDate t = Some (text_of n) \<longrightarrow> n \<le> b2)" if "day_ok n" for n
    using 1(6-8)[OF that] 2(2,3) by force
  with ts have "\<forall>u \<in> set (t # ts). \<forall>n. day_ok n \<longrightarrow>
      (isScheduled u \<longrightarrow> start_text u = text_of n \<longrightarrow> a2 \<le> n) \<and>
      (isScheduled u \<longrightarrow> end_text u = text_of n \<longrightarrow> n \<le> b2) \<and>
      (tk_dueDate u = Some (text_of n) \<longrightarrow> n \<le> b2)" by simp
  moreover have "min lo a \<le> a2" "b2 \<le> max hi b" using 1 2 by linarith+
  ultimately show ?case using 1(1-3) 2(1-3)
    by (intro exI[of _ a2] exI[of _ b2]) (simp add: order_trans[of a2 a1] order_trans[of b b1])
qed

lemma pad_cols_length [simp]: "length (pad_cols z u j c) = j"
  by (induction j arbitrary: c) (simp_all add: Let_def)

lemma chain_ends: "chain c xs e \<Longrightarrow> xs \<noteq> [] \<Longrightarrow> gc_start (xs ! 0) = c \<and> gc_end (xs ! (length xs - 1)) = e"
  using chain_nth(5,6)[of c xs e] by (metis One_nat_def Suc_pred length_greater_0_conv lessI)

text \<open>The scale in day numbers.\<close>

lemma buildScale_days:
  fixes u :: time_unit
  assumes z: "zone_ok z" "zone_back z"
    and days: "\<forall>t \<in> set tasks. \<forall>s \<in> set (schedule_dates t). day_within lo hi s"
    and now: "lo \<le> local_day z now" "local_day z now \<le> hi" and bounds: "day_ok lo" "hi - lo \<le> 7700"
  defines "sc \<equiv> buildScale z tasks u now"
  obtains k e where "scale_ok sc" "gs_start sc = midnight z k" "gs_end sc = midnight z e"
    "k \<le> unit_day u (local_day z now)" "unit_day u (local_day z now) < e"
    "\<And>t n. t \<in> set tasks \<Longrightarrow> day_ok n \<Longrightarrow> isScheduled t \<Longrightarrow> start_text t = text_of n \<Longrightarrow> k \<le> n"
    "\<And>t n. t \<in> set tasks \<Longrightarrow> day_ok n \<Longrightarrow> isScheduled t \<Longrightarrow> end_text t = text_of n \<Longrightarrow> n < e"
    "\<And>t n. t \<in> set tasks \<Longrightarrow> day_ok n \<Longrightarrow> tk_dueDate t = Some (text_of n) \<Longrightarrow> n < e"
proof -
  let ?U = "unit_day u (local_day z now)"
  have lo: "FLOOR_DAY + 30000 \<le> lo" by (rule floor_below[OF bounds(1)])
  have U: "?U \<le> local_day z now" "local_day z now - 30 \<le> ?U" using unit_day_bounds by auto
  have first: "unitStart z now u = midnight z ?U"
    using lo now by (intro unitStart_day fine_above) simp
  obtain a b where ab: "fold (span_step z) tasks (midnight z ?U, midnight z ?U) = (midnight z a, midnight z b)"
    "a \<le> ?U" "?U \<le> b" "min lo ?U \<le> a" "b \<le> max hi ?U"
    and ts: "\<forall>t \<in> set tasks. \<forall>n. day_ok n \<longrightarrow>
      (isScheduled t \<longrightarrow> start_text t = text_of n \<longrightarrow> a \<le> n) \<and>
      (isScheduled t \<longrightarrow> end_text t = text_of n \<longrightarrow> n \<le> b) \<and>
      (tk_dueDate t = Some (text_of n) \<longrightarrow> n \<le> b)"
    using span_day[OF z(1) days, of ?U ?U] by auto
  have a: "lo - 30 \<le> a" "b \<le> hi" using ab U now by linarith+
  have V: "unit_day u a \<le> a" "a - 30 \<le> unit_day u a" using unit_day_bounds by auto
  have us: "unitStart z (midnight z a) u = midnight z (unit_day u a)"
    using unitStart_day[of z "midnight z a" u] z(1) lo a fine_above[of a] by simp
  have pads: "int (PAD_COLS u) \<le> 7" "2 \<le> int (PAD_COLS u)" by (cases u; simp)+
  obtain k where k: "back_units z u (PAD_COLS u) (midnight z (unit_day u a)) = midnight z k"
    "k \<le> unit_day u a" "unit_day u a - 31 * int (PAD_COLS u) \<le> k"
    using back_units_day[OF z, of "PAD_COLS u" "unit_day u a" u] lo a V pads by auto
  have k0: "lo - 277 \<le> k" using k V a pads by linarith
  obtain cs c where cs: "cols_until z u (midnight z b) guardMax (midnight z k) = (cs, midnight z c)"
    "chain (midnight z k) cs (midnight z c)" "k \<le> c" "k + int guardMax \<le> c \<or> b < c"
    using cols_until_day[OF z(1), of k u b guardMax] lo k0 by auto
  have bc: "b < c" using cs(4) a k0 bounds(2) by (auto simp: guardMax_def)
  obtain e where e: "chain (midnight z c) (pad_cols z u (PAD_COLS u) (midnight z c)) (midnight z e)" "c + int (PAD_COLS u) \<le> e"
    using pad_cols_day[OF z(1), of c u "PAD_COLS u"] lo k0 cs(3) by auto
  let ?cols = "cs @ pad_cols z u (PAD_COLS u) (midnight z c)"
  have ch: "chain (midnight z k) ?cols (midnight z e)" using cs(2) e(1) by (auto simp: chain_append)
  have ne: "?cols \<noteq> []"
  proof
    assume "?cols = []"
    then have "length (pad_cols z u (PAD_COLS u) (midnight z c)) = 0" by simp
    then have "PAD_COLS u = 0" by (simp only: pad_cols_length)
    with pads show False by simp
  qed
  have sc: "sc = \<lparr>gs_unit = u, gs_cols = ?cols, gs_colWidth = COL_WIDTH u, gs_start = midnight z k,
      gs_end = midnight z e, gs_width = int (length ?cols) * COL_WIDTH u\<rparr>"
    unfolding sc_def buildScale_def Let_def first ab(1) prod.case us k(1) cs(1)
    using chain_ends[OF ch ne] by simp
  show ?thesis
  proof (rule that)
    show "scale_ok sc" using ch ne unfolding sc scale_ok_def by (cases u) simp_all
    show "gs_start sc = midnight z k" "gs_end sc = midnight z e" by (simp_all add: sc)
    show "k \<le> ?U" "?U < e" using k V ab bc e pads by linarith+
    show "k \<le> n" if "t \<in> set tasks" "day_ok n" "isScheduled t" "start_text t = text_of n" for t n
      using ts that k V by force
    show "n < e" if "t \<in> set tasks" "day_ok n" "isScheduled t" "end_text t = text_of n" for t n
      using ts that bc e pads by force
    show "n < e" if "t \<in> set tasks" "day_ok n" "tk_dueDate t = Some (text_of n)" for t n
      using ts that bc e pads by force
  qed
qed


text \<open>A task from 14 to 20 February 2026, due on the 28th, seen on the 14th, by months.\<close>

lemma summer_zone_back: "zone_back summer_zone"
proof -
  have "local_day summer_zone (midnight summer_zone n - 1) = n - 1" for n
  proof -
    consider "n \<le> 20541" | "20542 \<le> n" "n \<le> 20751" | "20752 \<le> n" by linarith
    then show ?thesis
    proof cases
      case 1
      then show ?thesis unfolding local_day_def midnight_def
        by (intro int_div_pos_eq[of _ _ _ 86399999]) (auto simp: summer_zone_def DAY_MS_def)
    next
      case 2
      then show ?thesis unfolding local_day_def midnight_def
        by (intro int_div_pos_eq[of _ _ _ 86399999]) (auto simp: summer_zone_def DAY_MS_def)
    next
      case 3
      then show ?thesis unfolding local_day_def midnight_def
        by (intro int_div_pos_eq[of _ _ _ 86399999]) (auto simp: summer_zone_def DAY_MS_def)
    qed
  qed
  then show ?thesis by (simp add: zone_back_def)
qed

definition gantt_sample :: "task list" where
  "gantt_sample = [(sample_task ''a'' 1 ''todo'' 1)\<lparr>tk_startDate := Some (text_of 20498),
     tk_endDate := Some (text_of 20504), tk_dueDate := Some (text_of 20512)\<rparr>]"

lemma sample_days: "day_ok n" if "20484 \<le> n" "n \<le> 20512"
proof -
  have "day_number 2026 0 1 = 20454" "day_number 2026 11 31 = 20818"
    by (simp_all add: day_number_def before_year_def before_month_def month_lens_def leap_def EPOCH_def)
  moreover have "valid_civil 2026 0 1" "valid_civil 2026 11 31"
    by (simp_all add: valid_civil_def month_len_def month_lens_def leap_def)
  ultimately have "civil 20454 = (2026, 0, 1)" "civil 20818 = (2026, 11, 31)"
    using civil_day_number by metis+
  then have "day_ok 20454" "day_ok 20818" by (simp_all add: day_ok_def)
  then show ?thesis using that by (rule_tac day_ok_between[of 20454 20818]) simp_all
qed


lemma xToDate_dateToX_witness:
  "let sc = buildScale summer_zone [] UWeek 1771100000000; d = midnight summer_zone 20493
   in xToDate summer_zone sc (dateToX sc d) = d"
proof -
  have now: "local_day summer_zone 1771100000000 = 20498"
    by (simp add: local_day_def summer_zone_def DAY_MS_def)
  have ok: "day_ok 20498" by (rule sample_days) simp_all
  have u: "unit_day UWeek 20498 = 20493" by simp
  obtain k e where sc: "scale_ok (buildScale summer_zone [] UWeek 1771100000000)"
    "gs_start (buildScale summer_zone [] UWeek 1771100000000) = midnight summer_zone k"
    "gs_end (buildScale summer_zone [] UWeek 1771100000000) = midnight summer_zone e"
    "k \<le> 20493" "20493 < e"
    using buildScale_days[OF summer_zone_ok summer_zone_back, of "[]" 20498 20498 1771100000000 UWeek] ok
    unfolding now u by auto
  have fine: "year_fine (year_at 20493)" by (rule fine_above) (simp add: FLOOR_DAY_def)
  have "midnight summer_zone k \<le> midnight summer_zone 20493" 
    using sc(4) midnight_less_iff[OF summer_zone_ok, of 20493 k] by linarith
  then show ?thesis
    using xToDate_dateToX[OF summer_zone_ok sc(1) fine] sc summer_zone_ok by (simp add: Let_def)
qed

end
