(* ===== verification/GanttDrag.thy ===== *)
theory GanttDrag
  imports GanttScale
begin

section \<open>Dragging on the chart\<close>

text \<open>
  The drag state machine of \<open>tasks/gantt/useGanttDrag.ts\<close>: a press records the grab, pointer moves
  preview, the release commits the preview to the cache and sends one request, Escape drops it. The
  page is the environment: \<open>svg\<close> gives body coordinates, \<open>hit\<close> the bar under a point, \<open>chart\<close>
  whether a point is over the chart.
\<close>

record gantt_drag =
  gd_action :: string
  gd_taskId :: "string option"
  gd_startDate :: "string option"
  gd_endDate :: "string option"
  gd_progress :: "int option"
  gd_stage :: "string option"
  gd_stageTaskIds :: "string list option"
  gd_shiftDays :: "int option"
  gd_linkFromId :: "string option"
  gd_linkTargetId :: "string option"
  gd_ghostTask :: "task option"
  gd_pointerX :: rat
  gd_pointerY :: rat
  gd_moved :: bool

record drag_page =
  pg_svg :: "rat \<times> rat \<Rightarrow> rat \<times> rat"
  pg_hit :: "rat \<times> rat \<Rightarrow> string option"
  pg_chart :: "rat \<times> rat \<Rightarrow> bool"

record drag_origin =
  do_clientX :: rat
  do_clientY :: rat
  do_drag :: gantt_drag

record drag_state =
  ds_drag :: "gantt_drag option"
  ds_origin :: "drag_origin option"

definition DRAG_THRESHOLD_PX :: rat where "DRAG_THRESHOLD_PX = 4"

definition no_drag :: gantt_drag where
  "no_drag = \<lparr>gd_action = [], gd_taskId = None, gd_startDate = None, gd_endDate = None, gd_progress = None,
     gd_stage = None, gd_stageTaskIds = None, gd_shiftDays = None, gd_linkFromId = None,
     gd_linkTargetId = None, gd_ghostTask = None, gd_pointerX = 0, gd_pointerY = 0, gd_moved = False\<rparr>"

text \<open>\<open>begin\<close>: only a writable chart and the primary button start a drag.\<close>

definition begin_drag ::
    "bool \<Rightarrow> drag_page \<Rightarrow> int \<Rightarrow> rat \<times> rat \<Rightarrow> gantt_drag \<Rightarrow> drag_state \<Rightarrow> drag_state" where
  "begin_drag writable pg button p d st =
     (if \<not> writable then st
      else if button \<noteq> 0 then st
      else let q = pg_svg pg p;
               full = d\<lparr>gd_pointerX := fst q, gd_pointerY := snd q, gd_moved := False\<rparr>
           in \<lparr>ds_drag = Some full,
               ds_origin = Some \<lparr>do_clientX = fst p, do_clientY = snd p, do_drag = full\<rparr>\<rparr>)"

definition startBarDrag ::
    "bool \<Rightarrow> drag_page \<Rightarrow> int \<Rightarrow> rat \<times> rat \<Rightarrow> task \<Rightarrow> string \<Rightarrow> drag_state \<Rightarrow> drag_state" where
  "startBarDrag writable pg button p t action st =
     (if action = ''stageMove'' then st
      else begin_drag writable pg button p
        (no_drag\<lparr>gd_action := action, gd_taskId := Some (tk_id t), gd_startDate := tk_startDate t,
           gd_endDate := tk_endDate t, gd_progress := Some (row_progress t),
           gd_linkFromId := (if action = ''link'' then Some (tk_id t) else None)\<rparr>) st)"

definition startStageDrag ::
    "bool \<Rightarrow> drag_page \<Rightarrow> int \<Rightarrow> rat \<times> rat \<Rightarrow> string \<Rightarrow> string list \<Rightarrow> drag_state \<Rightarrow> drag_state" where
  "startStageDrag writable pg button p stage ids st =
     begin_drag writable pg button p
       (no_drag\<lparr>gd_action := ''stageMove'', gd_stage := Some stage, gd_stageTaskIds := Some ids,
          gd_shiftDays := Some 0\<rparr>) st"

definition startBacklogDrag ::
    "bool \<Rightarrow> drag_page \<Rightarrow> int \<Rightarrow> rat \<times> rat \<Rightarrow> task \<Rightarrow> drag_state \<Rightarrow> drag_state" where
  "startBacklogDrag writable pg button p t st =
     begin_drag writable pg button p
       (no_drag\<lparr>gd_action := ''schedule'', gd_taskId := Some (tk_id t), gd_ghostTask := Some t\<rparr>) st"

text \<open>An invalid day formats as an invalid one; only its being a text matters here.\<close>

definition shiftDate :: "zone \<Rightarrow> string option \<Rightarrow> int \<Rightarrow> string option" where
  "shiftDate z day n =
     (if \<not> truthy day then day
      else Some (case parseDay z (the day) of None \<Rightarrow> ''NaN-NaN-NaN'' | Some d \<Rightarrow> fmtDay z (addDays z d n)))"

definition barIdAtPoint :: "drag_page \<Rightarrow> rat \<times> rat \<Rightarrow> string option \<Rightarrow> string option" where
  "barIdAtPoint pg p excl =
     (let i = pg_hit pg p in if truthy i \<and> i \<noteq> excl then i else None)"

text \<open>The preview of one pointer move, per action.\<close>

definition preview ::
    "zone \<Rightarrow> gantt_scale \<Rightarrow> drag_page \<Rightarrow> rat \<times> rat \<Rightarrow> int \<Rightarrow> gantt_drag \<Rightarrow> gantt_drag \<Rightarrow> gantt_drag" where
  "preview z sc pg p days base nxt =
     (let a = gd_action base
      in if a = ''move'' then
           nxt\<lparr>gd_startDate := shiftDate z (gd_startDate base) days, gd_endDate := shiftDate z (gd_endDate base) days\<rparr>
         else if a = ''resizeStart'' then
           (let s = shiftDate z (gd_startDate base) days
            in nxt\<lparr>gd_startDate := (if truthy s \<and> truthy (gd_endDate base) \<and> the s > the (gd_endDate base)
                                  then gd_endDate base else s)\<rparr>)
         else if a = ''resizeEnd'' then
           (let e = shiftDate z (gd_endDate base) days
            in nxt\<lparr>gd_endDate := (if truthy e \<and> truthy (gd_startDate base) \<and> the e < the (gd_startDate base)
                                then gd_startDate base else e)\<rparr>)
         else if a = ''progress'' then
           (if truthy (gd_startDate base) \<and> truthy (gd_endDate base)
            then case (parseDay z (the (gd_startDate base)), parseDay z (the (gd_endDate base))) of
                (Some s, Some e) \<Rightarrow>
                  (let x1 = dateToX sc s; x2 = dateToX sc (addDays z e 1);
                       frac = (fst (pg_svg pg p) - x1) / max 1 (x2 - x1)
                   in nxt\<lparr>gd_progress := Some (min 100 (max 0 (js_round (frac * 20) * 5)))\<rparr>)
              | _ \<Rightarrow> nxt
            else nxt)
         else if a = ''link'' then nxt\<lparr>gd_linkTargetId := barIdAtPoint pg p (gd_taskId base)\<rparr>
         else if a = ''stageMove'' then nxt\<lparr>gd_shiftDays := Some days\<rparr>
         else if a = ''schedule'' then
           (let s = xToDate z sc (fst (pg_svg pg p))
            in nxt\<lparr>gd_startDate := Some (fmtDay z s), gd_endDate := Some (fmtDay z (addDays z s 2))\<rparr>)
         else nxt)"

definition onMove :: "zone \<Rightarrow> gantt_scale \<Rightarrow> drag_page \<Rightarrow> rat \<times> rat \<Rightarrow> drag_state \<Rightarrow> drag_state" where
  "onMove z sc pg p st =
     (case ds_origin st of
        None \<Rightarrow> st
      | Some org \<Rightarrow>
          if ds_drag st = None then st
          else let dx = fst p - do_clientX org; dy = snd p - do_clientY org;
                   moved = (gd_moved (do_drag org) \<or> \<bar>dx\<bar> \<ge> DRAG_THRESHOLD_PX \<or> \<bar>dy\<bar> \<ge> DRAG_THRESHOLD_PX);
                   q = pg_svg pg p; base = do_drag org; days = snapDays dx sc;
                   nxt = base\<lparr>gd_pointerX := fst q, gd_pointerY := snd q, gd_moved := moved\<rparr>
               in \<lparr>ds_drag = Some (if \<not> moved then nxt else preview z sc pg p days base nxt),
                   ds_origin = Some (org\<lparr>do_drag := base\<lparr>gd_moved := moved\<rparr>\<rparr>)\<rparr>)"

text \<open>What a release ends in: nothing, a click on a task, or a finished drag to commit.\<close>

datatype drag_end = NoEnd | Clicked string | Finished gantt_drag

definition idle :: drag_state where "idle = \<lparr>ds_drag = None, ds_origin = None\<rparr>"

definition onUp :: "drag_page \<Rightarrow> rat \<times> rat \<Rightarrow> drag_state \<Rightarrow> drag_state \<times> drag_end" where
  "onUp pg p st =
     (if ds_origin st = None then (st, NoEnd)
      else (idle,
        case ds_drag st of
          None \<Rightarrow> NoEnd
        | Some d \<Rightarrow>
            if \<not> gd_moved d then
              (if (gd_action d = ''move'' \<or> gd_action d = ''schedule'') \<and> truthy (gd_taskId d)
               then Clicked (the (gd_taskId d)) else NoEnd)
            else
              let d = (if gd_action d = ''link'' then d\<lparr>gd_linkTargetId := barIdAtPoint pg p (gd_taskId d)\<rparr> else d)
              in if gd_action d = ''schedule'' \<and> \<not> pg_chart pg p then NoEnd else Finished d))"

definition onKey :: "string \<Rightarrow> drag_state \<Rightarrow> drag_state" where
  "onKey key st = (if key = ''Escape'' then idle else st)"

subsection \<open>The commit\<close>

datatype drag_request = UpdateTask string task_patch | ShiftTasks "string list" int

definition patch_cache :: "string \<Rightarrow> (task \<Rightarrow> task) \<Rightarrow> task_list option \<Rightarrow> task_list option" where
  "patch_cache i f cur =
     map_option (\<lambda>l. l\<lparr>tl_tasks := map (\<lambda>t. if tk_id t = i then f t else t) (tl_tasks l)\<rparr>) cur"

definition set_dates :: "string option \<Rightarrow> string option \<Rightarrow> task \<Rightarrow> task" where
  "set_dates s e t = t\<lparr>tk_startDate := s, tk_endDate := e\<rparr>"

definition shift_cached :: "zone \<Rightarrow> string list \<Rightarrow> int \<Rightarrow> task \<Rightarrow> task" where
  "shift_cached z ids days t =
     (if tk_id t \<in> set ids \<and> truthy (tk_startDate t) \<and> truthy (tk_endDate t)
      then set_dates (shiftDate z (tk_startDate t) days) (shiftDate z (tk_endDate t) days) t else t)"

definition commit ::
    "zone \<Rightarrow> task list \<Rightarrow> gantt_drag \<Rightarrow> task_list option \<Rightarrow> task_list option \<times> drag_request option" where
  "commit z tasks d cur =
     (let t = List.find (\<lambda>t. Some (tk_id t) = gd_taskId d) tasks;
          a = gd_action d;
          dates = no_patch\<lparr>tp_startDate := gd_startDate d, tp_endDate := gd_endDate d\<rparr>;
          set_both = (\<lambda>t. (patch_cache (tk_id t) (set_dates (gd_startDate d) (gd_endDate d)) cur,
                           Some (UpdateTask (tk_id t) dates)))
      in if a = ''move'' \<or> a = ''resizeStart'' \<or> a = ''resizeEnd'' then
           (case t of None \<Rightarrow> (cur, None)
            | Some t \<Rightarrow> if gd_startDate d = tk_startDate t \<and> gd_endDate d = tk_endDate t then (cur, None)
                        else set_both t)
         else if a = ''progress'' then
           (case (t, gd_progress d) of
              (Some t, Some n) \<Rightarrow>
                if n = nullish (tk_progress t) 0 then (cur, None)
                else (patch_cache (tk_id t) (\<lambda>t. t\<lparr>tk_progress := Some n\<rparr>) cur,
                      Some (UpdateTask (tk_id t) (no_patch\<lparr>tp_progress := Some n\<rparr>)))
            | _ \<Rightarrow> (cur, None))
         else if a = ''link'' then
           (case (gd_linkFromId d, List.find (\<lambda>t. Some (tk_id t) = gd_linkTargetId d) tasks) of
              (Some src, Some target) \<Rightarrow>
                if src = [] \<or> tk_id target = src then (cur, None)
                else if src \<in> set (tk_dependsOn target) then (cur, None)
                else let deps = tk_dependsOn target @ [src]
                     in (patch_cache (tk_id target) (\<lambda>t. t\<lparr>tk_dependsOn := deps\<rparr>) cur,
                         Some (UpdateTask (tk_id target) (no_patch\<lparr>tp_dependsOn := Some deps\<rparr>)))
            | _ \<Rightarrow> (cur, None))
         else if a = ''stageMove'' then
           (case (gd_shiftDays d, gd_stageTaskIds d) of
              (Some n, Some ids) \<Rightarrow>
                if n = 0 \<or> ids = [] then (cur, None)
                else (map_option (\<lambda>l. l\<lparr>tl_tasks := map (shift_cached z ids n) (tl_tasks l)\<rparr>) cur,
                      Some (ShiftTasks ids n))
            | _ \<Rightarrow> (cur, None))
         else if a = ''schedule'' then
           (case t of None \<Rightarrow> (cur, None)
            | Some t \<Rightarrow> if \<not> truthy (gd_startDate d) \<or> \<not> truthy (gd_endDate d) then (cur, None)
                        else set_both t)
         else (cur, None))"

subsection \<open>The server's shift\<close>

text \<open>
  \<open>ShiftTasks\<close> of \<open>src/tasks/store.go\<close>, on the same task records (an empty date there is an absent one
  here): the bounds, the ids trimmed and without repetition, all of them scheduled, or nothing moves.
  \<open>saved\<close> is whether writing the file succeeded.
\<close>

definition MaxShiftDays :: int where "MaxShiftDays = 3650"

datatype store_error = ErrInvalid | ErrNotFound | ErrSave

definition findTask :: "task list \<Rightarrow> string \<Rightarrow> task option" where
  "findTask ts i = List.find (\<lambda>t. tk_id t = i) ts"

definition normalizeDependsOn :: "string list \<Rightarrow> string list" where
  "normalizeDependsOn deps =
     foldl (\<lambda>out d. let d = go_trim d in if d \<noteq> [] \<and> d \<notin> set out then out @ [d] else out) [] deps"

definition go_parse_day :: "string \<Rightarrow> int option" where
  "go_parse_day s =
     (if day_shape s
      then case map js_number (split_on (CHR ''-'') s) of
        [Some y, Some m, Some d] \<Rightarrow> if valid_civil y (m - 1) d then Some (day_number y (m - 1) d) else None
      | _ \<Rightarrow> None
      else None)"

definition go_format_day :: "int \<Rightarrow> string" where
  "go_format_day n =
     (case civil n of (y, m, d) \<Rightarrow> padStart 4 (CHR ''0'') (show_int y) @ ''-'' @ pad2 (m + 1) @ ''-'' @ pad2 d)"

definition shiftDay :: "string \<Rightarrow> int \<Rightarrow> string" where
  "shiftDay day days = (case go_parse_day day of None \<Rightarrow> day | Some n \<Rightarrow> go_format_day (n + days))"

fun check_shift :: "task list \<Rightarrow> string list \<Rightarrow> store_error option" where
  "check_shift ts [] = None"
| "check_shift ts (i # ids) =
     (case findTask ts i of
        None \<Rightarrow> Some ErrNotFound
      | Some t \<Rightarrow> if \<not> truthy (tk_startDate t) then Some ErrInvalid else check_shift ts ids)"

definition shift_stored :: "string list \<Rightarrow> int \<Rightarrow> string \<Rightarrow> task \<Rightarrow> task" where
  "shift_stored ids days now t =
     (if tk_id t \<in> set ids
      then t\<lparr>tk_startDate := map_option (\<lambda>s. shiftDay s days) (tk_startDate t),
             tk_endDate := map_option (\<lambda>s. shiftDay s days) (tk_endDate t), tk_updatedAt := now\<rparr>
      else t)"

definition shift_tasks :: "bool \<Rightarrow> string \<Rightarrow> task list \<Rightarrow> string list \<Rightarrow> int \<Rightarrow> store_error + task list" where
  "shift_tasks saved now ts taskIDs days =
     (if days = 0 \<or> days < - MaxShiftDays \<or> days > MaxShiftDays then Inl ErrInvalid
      else let ids = normalizeDependsOn taskIDs
           in if ids = [] then Inl ErrInvalid
              else case check_shift ts ids of
                Some e \<Rightarrow> Inl e
              | None \<Rightarrow> if saved then Inr (map (shift_stored ids days now) ts) else Inl ErrSave)"

subsection \<open>A drag never turns a schedule around\<close>

lemma shiftDate_text:
  "zone_ok z \<Longrightarrow> day_ok n \<Longrightarrow> shiftDate z (Some (text_of n)) k = Some (text_of (n + k))"
  using shift_text[of z n k] by (auto simp: shiftDate_def parseDay_text_of)

text \<open>The dates of a drag of a bar that started at \<open>a\<close> and ended at \<open>b\<close>.\<close>

definition dates_good :: "string \<Rightarrow> string \<Rightarrow> int \<Rightarrow> int \<Rightarrow> gantt_drag \<Rightarrow> bool" where
  "dates_good action i a b d \<longleftrightarrow> gd_action d = action \<and> gd_taskId d = Some i \<and>
     (\<exists>a' b'. gd_startDate d = Some (text_of a') \<and> gd_endDate d = Some (text_of b') \<and> a' \<le> b' \<and>
       day_ok a' \<and> day_ok b' \<and> (action = ''move'' \<longrightarrow> b' - a' = b - a) \<and> (action = ''resizeStart'' \<longrightarrow> b' = b) \<and>
       (action = ''resizeEnd'' \<longrightarrow> a' = a))"

definition bar_drag_inv :: "rat \<Rightarrow> string \<Rightarrow> string \<Rightarrow> int \<Rightarrow> int \<Rightarrow> drag_state \<Rightarrow> bool" where
  "bar_drag_inv x action i a b st \<longleftrightarrow>
     (\<exists>org d. ds_origin st = Some org \<and> ds_drag st = Some d \<and> do_clientX org = x \<and> dates_good action i a b d \<and>
       gd_action (do_drag org) = action \<and> gd_taskId (do_drag org) = Some i \<and>
       gd_startDate (do_drag org) = Some (text_of a) \<and> gd_endDate (do_drag org) = Some (text_of b))"

definition BAR_ACTIONS :: "string list" where
  "BAR_ACTIONS = [''move'', ''resizeStart'', ''resizeEnd'']"

lemma dates_goodI:
  assumes "gd_action d = action" "gd_taskId d = Some i" "gd_startDate d = Some (text_of a')"
    "gd_endDate d = Some (text_of b')" "a' \<le> b'" "day_ok a'" "day_ok b'"
    "action = ''move'' \<Longrightarrow> b' - a' = b - a" "action = ''resizeStart'' \<Longrightarrow> b' = b" "action = ''resizeEnd'' \<Longrightarrow> a' = a"
  shows "dates_good action i a b d"
  unfolding dates_good_def using assms by blast

lemma preview_good:
  assumes z: "zone_ok z" and act: "action \<in> set BAR_ACTIONS" and ab: "day_ok a" "day_ok b" "a \<le> b"
    and n: "day_ok (a + n)" "day_ok (b + n)"
    and base: "gd_action base = action" "gd_startDate base = Some (text_of a)" "gd_endDate base = Some (text_of b)"
    and nxt: "gd_action nxt = action" "gd_taskId nxt = Some i" "gd_startDate nxt = Some (text_of a)"
      "gd_endDate nxt = Some (text_of b)"
  shows "dates_good action i a b (preview z sc pg p n base nxt)"
proof -
  have le: "text_of (a + n) > text_of b \<longleftrightarrow> b < a + n" "text_of (b + n) < text_of a \<longleftrightarrow> b + n < a"
    using ab n by (simp_all add: text_of_less)
  consider "action = ''move''" | "action = ''resizeStart''" | "action = ''resizeEnd''"
    using act by (auto simp: BAR_ACTIONS_def)
  then show ?thesis
  proof cases
    case 1
    with z ab n base nxt show ?thesis
      by (intro dates_goodI[of _ _ _ "a + n" "b + n"]) (simp_all add: preview_def Let_def shiftDate_text)
  next
    case 2
    with z ab n base nxt le show ?thesis
      by (intro dates_goodI[of _ _ _ "if b < a + n then b else a + n" b])
        (simp_all add: preview_def Let_def shiftDate_text)
  next
    case 3
    with z ab n base nxt le show ?thesis
      by (intro dates_goodI[of _ _ _ a "if b + n < a then a else b + n"])
        (simp_all add: preview_def Let_def shiftDate_text)
  qed
qed

lemma onMove_inv:
  assumes z: "zone_ok z" and act: "action \<in> set BAR_ACTIONS" and ab: "day_ok a" "day_ok b" "a \<le> b"
    and n: "day_ok (a + snapDays (fst q - x) sc)" "day_ok (b + snapDays (fst q - x) sc)"
    and inv: "bar_drag_inv x action i a b st"
  shows "bar_drag_inv x action i a b (onMove z sc pg q st)"
proof -
  obtain org d where st: "ds_origin st = Some org" "ds_drag st = Some d" "do_clientX org = x"
    and base: "gd_action (do_drag org) = action" "gd_taskId (do_drag org) = Some i"
      "gd_startDate (do_drag org) = Some (text_of a)" "gd_endDate (do_drag org) = Some (text_of b)"
    using inv by (auto simp: bar_drag_inv_def)
  define nxt where "nxt m = (do_drag org)\<lparr>gd_pointerX := fst (pg_svg pg q), gd_pointerY := snd (pg_svg pg q), gd_moved := m\<rparr>" for m
  have same: "dates_good action i a b (nxt m)" for m
    using base ab by (intro dates_goodI[of _ _ _ a b]) (simp_all add: nxt_def)
  have prev: "dates_good action i a b (preview z sc pg q (snapDays (fst q - x) sc) (do_drag org) (nxt m))" for m
    using base by (intro preview_good[OF z act ab n]) (simp_all add: nxt_def)
  show ?thesis
    using same prev st base by (simp add: onMove_def bar_drag_inv_def Let_def nxt_def)
qed

lemma moves_inv:
  assumes z: "zone_ok z" and act: "action \<in> set BAR_ACTIONS" and ab: "day_ok a" "day_ok b" "a \<le> b"
  shows "\<forall>q \<in> set qs. day_ok (a + snapDays (fst q - x) sc) \<and> day_ok (b + snapDays (fst q - x) sc) \<Longrightarrow>
    bar_drag_inv x action i a b st \<Longrightarrow> bar_drag_inv x action i a b (fold (onMove z sc pg) qs st)"
  by (induction qs arbitrary: st) (simp_all add: onMove_inv[OF z act ab])

text \<open>
  C18. Dragging a bar or one of its ends never turns a schedule around: whatever the pointer did, the
  drag that is committed runs from a day to the same or a later day, a move keeps the length, a
  resize keeps the other end, and the commit changes the dates of the dragged task only, in the cache
  and in the request alike.
\<close>

theorem drag_keeps_order:
  assumes z: "zone_ok z" and act: "action \<in> set BAR_ACTIONS"
    and ts: "tasks_ok tasks" "t \<in> set tasks"
    and t: "tk_startDate t = Some (text_of a)" "tk_endDate t = Some (text_of b)"
    and ab: "day_ok a" "day_ok b" "a \<le> b"
    and qs: "\<forall>q \<in> set qs. day_ok (a + snapDays (fst q - fst p) sc) \<and> day_ok (b + snapDays (fst q - fst p) sc)"
    and up: "onUp pg r (fold (onMove z sc pg) qs (startBarDrag True pg 0 p t action st)) = (st', Finished d)"
  shows "st' = idle \<and>
    (\<exists>a' b'. a' \<le> b' \<and> (action = ''move'' \<longrightarrow> b' - a' = b - a) \<and> (action = ''resizeStart'' \<longrightarrow> b' = b) \<and>
      (action = ''resizeEnd'' \<longrightarrow> a' = a) \<and>
      commit z tasks d cur =
        (if a' = a \<and> b' = b then (cur, None)
         else (patch_cache (tk_id t) (set_dates (Some (text_of a')) (Some (text_of b'))) cur,
               Some (UpdateTask (tk_id t)
                 (no_patch\<lparr>tp_startDate := Some (text_of a'), tp_endDate := Some (text_of b')\<rparr>)))))"
proof -
  let ?st = "fold (onMove z sc pg) qs (startBarDrag True pg 0 p t action st)"
  have "bar_drag_inv (fst p) action (tk_id t) a b (startBarDrag True pg 0 p t action st)"
    using act t ab
    by (auto simp: startBarDrag_def begin_drag_def Let_def bar_drag_inv_def dates_good_def BAR_ACTIONS_def no_drag_def)
  from moves_inv[OF z act ab qs this, of pg]
  obtain org d0 where st: "ds_origin ?st = Some org" "ds_drag ?st = Some d0"
    and d0: "dates_good action (tk_id t) a b d0"
    by (auto simp: bar_drag_inv_def)
  have a: "gd_action d0 = action" "action \<noteq> ''link''" "action \<noteq> ''schedule''"
    using d0 act by (auto simp: dates_good_def BAR_ACTIONS_def)
  have up': "st' = idle" "d = d0" using up st a by (auto simp: onUp_def Let_def split: if_splits)
  obtain a' b' where d: "gd_startDate d = Some (text_of a')" "gd_endDate d = Some (text_of b')" "a' \<le> b'"
    and ok: "day_ok a'" "day_ok b'"
    and rel: "action = ''move'' \<longrightarrow> b' - a' = b - a" "action = ''resizeStart'' \<longrightarrow> b' = b"
      "action = ''resizeEnd'' \<longrightarrow> a' = a"
    and i: "gd_taskId d = Some (tk_id t)" "gd_action d = action"
    using d0 up'(2) by (auto simp: dates_good_def)
  have f: "List.find (\<lambda>u. Some (tk_id u) = gd_taskId d) tasks = Some t"
    using find_task[OF ts] by (simp add: i)
  have eq: "gd_startDate d = tk_startDate t \<and> gd_endDate d = tk_endDate t \<longleftrightarrow> a' = a \<and> b' = b"
    using ok ab by (simp add: d t text_of_eq)
  have "commit z tasks d cur =
      (if gd_startDate d = tk_startDate t \<and> gd_endDate d = tk_endDate t then (cur, None)
       else (patch_cache (tk_id t) (set_dates (gd_startDate d) (gd_endDate d)) cur,
             Some (UpdateTask (tk_id t) (no_patch\<lparr>tp_startDate := gd_startDate d, tp_endDate := gd_endDate d\<rparr>))))"
    using act by (auto simp: commit_def Let_def f i(2) BAR_ACTIONS_def)
  then show ?thesis
    unfolding eq using up'(1) d rel by (intro conjI exI[of _ a'] exI[of _ b']) simp_all
qed

text \<open>A press on the middle of a bar, two moves and a release, on a scale of one-day columns.\<close>

definition sample_page :: drag_page where
  "sample_page = \<lparr>pg_svg = (\<lambda>p. p), pg_hit = (\<lambda>p. None), pg_chart = (\<lambda>p. True)\<rparr>"

definition sample_scale :: gantt_scale where
  "sample_scale = \<lparr>gs_unit = UDay,
     gs_cols = [\<lparr>gc_start = midnight summer_zone 20490, gc_end = midnight summer_zone 20491\<rparr>], gs_colWidth = 36,
     gs_start = midnight summer_zone 20490, gs_end = midnight summer_zone 20491, gs_width = 36\<rparr>"

lemma sample_snap: "snapDays 73 sample_scale = 2" "snapDays 10 sample_scale = 0"
proof -
  have "dayWidth sample_scale = 36"
    by (simp add: dayWidth_def sample_scale_def daysBetween_midnight[OF summer_zone_ok])
  then show "snapDays 73 sample_scale = 2" "snapDays 10 sample_scale = 0"
    by (simp_all add: snapDays_def js_round_def floor_eq_iff)
qed

lemma drag_keeps_order_witness:
  "let t = hd gantt_sample;
       st = fold (onMove summer_zone sample_scale sample_page) [(10, 0), (73, 0)]
              (startBarDrag True sample_page 0 (0, 0) t ''move'' idle);
       (st', e) = onUp sample_page (73, 0) st
   in st' = idle \<and> (\<exists>d a' b'. e = Finished d \<and> b' - a' = 6 \<and>
        snd (commit summer_zone gantt_sample d None) =
          (if a' = 20498 \<and> b' = 20504 then None
           else Some (UpdateTask ''a'' (no_patch\<lparr>tp_startDate := Some (text_of a'), tp_endDate := Some (text_of b')\<rparr>))))"
proof -
  let ?t = "hd gantt_sample"
  let ?st = "fold (onMove summer_zone sample_scale sample_page) [(10, 0), (73, 0)]
              (startBarDrag True sample_page 0 (0, 0) ?t ''move'' idle)"
  have t: "tk_startDate ?t = Some (text_of 20498)" "tk_endDate ?t = Some (text_of 20504)" "tk_id ?t = ''a''"
    by (simp_all add: gantt_sample_def sample_task_def)
  have ok: "tasks_ok gantt_sample" "?t \<in> set gantt_sample" by (simp_all add: tasks_ok_def gantt_sample_def)
  have act: "''move'' \<in> set BAR_ACTIONS" by (simp add: BAR_ACTIONS_def)
  have days: "day_ok 20498" "day_ok 20504" "20498 \<le> (20504 :: int)" by (auto intro: sample_days)
  have qs: "\<forall>q \<in> set [(10, 0), (73, 0)]. day_ok (20498 + snapDays (fst q - fst (0, 0)) sample_scale) \<and>
      day_ok (20504 + snapDays (fst q - fst (0, 0)) sample_scale)"
    by (auto simp: sample_snap intro: sample_days)
  obtain d where up: "onUp sample_page (73, 0) ?st = (idle, Finished d)"
    by (simp add: startBarDrag_def begin_drag_def onMove_def Let_def no_drag_def preview_def onUp_def
        DRAG_THRESHOLD_PX_def sample_page_def)
  obtain a' b' where "b' - a' = (6 :: int)" and c: "commit summer_zone gantt_sample d None =
        (if a' = 20498 \<and> b' = 20504 then (None, None)
         else (patch_cache (tk_id ?t) (set_dates (Some (text_of a')) (Some (text_of b'))) None,
               Some (UpdateTask (tk_id ?t)
                 (no_patch\<lparr>tp_startDate := Some (text_of a'), tp_endDate := Some (text_of b')\<rparr>))))"
    using drag_keeps_order[OF summer_zone_ok act ok t(1,2) days qs up, of None] by auto
  then show ?thesis
    unfolding up Let_def prod.case by (intro conjI refl exI[of _ d] exI[of _ a'] exI[of _ b']) (simp_all add: c t(3))
qed

subsection \<open>The optimistic stage shift is the server's\<close>

lemma normalize_set: "set (normalizeDependsOn ids) = {go_trim i |i. i \<in> set ids \<and> go_trim i \<noteq> []}"
proof -
  have "set (foldl (\<lambda>out d. let d = go_trim d in if d \<noteq> [] \<and> d \<notin> set out then out @ [d] else out) acc ids) =
      set acc \<union> {go_trim i |i. i \<in> set ids \<and> go_trim i \<noteq> []}" for acc
    by (induction ids arbitrary: acc) (auto simp: Let_def)
  then show ?thesis by (simp add: normalizeDependsOn_def)
qed

lemma go_format_text: "day_ok n \<Longrightarrow> go_format_day n = text_of n"
proof -
  assume ok: "day_ok n"
  obtain y m d where c: "civil n = (y, m, d)" by (metis surj_pair)
  have "1000 \<le> nat y" "nat y \<le> 9999" "0 \<le> y" using ok c by (simp_all add: day_ok_def) linarith+
  then have "length (show_int y) = 4" by (simp add: show_int_nat length_year)
  then show ?thesis by (simp add: go_format_day_def text_of_def day_text_def c padStart_def)
qed

lemma go_parse_text: "day_ok n \<Longrightarrow> go_parse_day (text_of n) = Some n"
proof -
  assume ok: "day_ok n"
  obtain y m d where c: "civil n = (y, m, d)" by (metis surj_pair)
  note v = day_number_civil[OF c]
  have y: "1000 \<le> y" "y \<le> 9999" using ok c by (simp_all add: day_ok_def)
  note r = civil_ranges[OF v[THEN conjunct1]]
  have shape: "day_shape (text_of n)" using v y by (simp add: text_of_def c day_shape_day_text)
  have p: "list_all is_digit (pad2 (m + 1))" "js_number (pad2 (m + 1)) = Some (m + 1)"
    "list_all is_digit (pad2 d)" "js_number (pad2 d) = Some d"
    using pad2_facts[of "m + 1"] pad2_facts[of d] r by simp_all
  have "split_on (CHR ''-'') (text_of n) = [show_int y, pad2 (m + 1), pad2 d]"
    using y digits_no_dash[OF p(1)] digits_no_dash[OF p(3)] digits_no_dash[OF digits_show[of "nat y"]]
    by (simp add: text_of_def c day_text_def show_int_nat)
  then show ?thesis using shape v y p by (simp add: go_parse_day_def show_int_nat)
qed

lemma shiftDay_text: "day_ok n \<Longrightarrow> day_ok (n + k) \<Longrightarrow> shiftDay (text_of n) k = text_of (n + k)"
  by (simp add: shiftDay_def go_parse_text go_format_text)


text \<open>A stored schedule: both dates or neither, and far enough from the ends of the calendar to shift.\<close>

definition shiftable :: "int \<Rightarrow> task \<Rightarrow> bool" where
  "shiftable k t \<longleftrightarrow> tk_startDate t = None \<and> tk_endDate t = None \<or>
     (\<exists>a b. tk_startDate t = Some (text_of a) \<and> tk_endDate t = Some (text_of b) \<and>
       day_ok a \<and> day_ok b \<and> day_ok (a + k) \<and> day_ok (b + k))"

definition schedule_view :: "task \<Rightarrow> string \<times> string option \<times> string option" where
  "schedule_view t = (tk_id t, tk_startDate t, tk_endDate t)"

lemma shift_views:
  assumes "zone_ok z" "shiftable k t" "set ids' = set ids"
  shows "schedule_view (shift_cached z ids k t) = schedule_view (shift_stored ids' k now t)"
proof -
  consider "tk_startDate t = None" "tk_endDate t = None" |
    a b where "tk_startDate t = Some (text_of a)" "tk_endDate t = Some (text_of b)"
      "day_ok a" "day_ok b" "day_ok (a + k)" "day_ok (b + k)"
    using assms(2) by (auto simp: shiftable_def)
  then show ?thesis
    by cases (use assms(1,3) in \<open>simp_all add: schedule_view_def shift_cached_def shift_stored_def set_dates_def
      shiftDate_text shiftDay_text\<close>)
qed

text \<open>
  C17. The optimistic stage shift is the server's: when the server accepts the shift a stage drag asks
  for, the schedules the client put in its cache at the release are, task by task, those the server
  stored - the client counting local days in any time zone, the server UTC days.
\<close>

theorem stage_shift_agrees:
  assumes z: "zone_ok z" and ids: "\<forall>i \<in> set ids. go_trim i = i \<and> i \<noteq> []"
    and ok: "\<forall>t \<in> set (tl_tasks l). shiftable k t"
    and d: "gd_action d = ''stageMove''" "gd_shiftDays d = Some k" "gd_stageTaskIds d = Some ids"
    and srv: "shift_tasks saved now (tl_tasks l) ids k = Inr ts'"
  shows "\<exists>l'. commit z tasks d (Some l) = (Some l', Some (ShiftTasks ids k)) \<and>
    map schedule_view (tl_tasks l') = map schedule_view ts'"
proof -
  have ids': "set (normalizeDependsOn ids) = set ids"
    using ids unfolding normalize_set by (auto, metis)
  have k: "k \<noteq> 0" and ne: "ids \<noteq> []"
    and ts': "ts' = map (shift_stored (normalizeDependsOn ids) k now) (tl_tasks l)"
    using srv ids' by (auto simp: shift_tasks_def Let_def split: if_splits option.splits)
  have "map schedule_view (map (shift_cached z ids k) (tl_tasks l)) = map schedule_view ts'"
    using ok by (auto simp: ts' intro!: shift_views[OF z _ ids'])
  with k ne show ?thesis by (simp add: commit_def Let_def d)
qed

definition stage_drag :: gantt_drag where
  "stage_drag = no_drag\<lparr>gd_action := ''stageMove'', gd_shiftDays := Some 3, gd_stageTaskIds := Some [''a'']\<rparr>"

lemma stage_shift_agrees_witness:
  "let l = \<lparr>tl_tasks = gantt_sample, tl_capabilities = \<lparr>tc_write = True, tc_moderate = True\<rparr>\<rparr> in
   \<exists>ts' l'. shift_tasks True ''now'' gantt_sample [''a''] 3 = Inr ts' \<and>
     commit summer_zone [] stage_drag (Some l) = (Some l', Some (ShiftTasks [''a''] 3)) \<and>
     map schedule_view (tl_tasks l') = map schedule_view ts'"
proof -
  let ?l = "\<lparr>tl_tasks = gantt_sample, tl_capabilities = \<lparr>tc_write = True, tc_moderate = True\<rparr>\<rparr>"
  have tr: "go_trim ''a'' = ''a''"
    by code_simp
  have ids: "\<forall>i \<in> set [''a'']. go_trim i = i \<and> i \<noteq> []" by (simp add: tr)
  have ok: "\<forall>t \<in> set (tl_tasks ?l). shiftable 3 t"
    unfolding shiftable_def
    by (intro ballI disjI2 exI[of _ 20498] exI[of _ 20504]) (simp add: gantt_sample_def sample_task_def sample_days)
  obtain ts' where ts': "shift_tasks True ''now'' (tl_tasks ?l) [''a''] 3 = Inr ts'"
    by (simp add: shift_tasks_def MaxShiftDays_def normalizeDependsOn_def tr findTask_def gantt_sample_def
        sample_task_def)
  have "gd_action stage_drag = ''stageMove''" "gd_shiftDays stage_drag = Some 3" "gd_stageTaskIds stage_drag = Some [''a'']"
    by (simp_all add: stage_drag_def)
  from stage_shift_agrees[OF summer_zone_ok ids ok this ts', of "[]"] ts' show ?thesis
    by (auto simp: Let_def)
qed

end
