(* ===== verification/History.thy ===== *)
theory History
  imports ApiTypes Calendar
begin

section \<open>The design history timeline\<close>

text \<open>
  \<open>components/history/historyLayout.ts\<close>: the versions and changes of a design, bucketed by local day
  and author, and the geometry the timeline draws with. Coordinates are \<^typ>\<open>rat\<close>. The text of an
  instant is read by the parameter \<open>dparse\<close>, the constructor \<open>new Date(s)\<close>, which is \<^const>\<open>None\<close> on
  an invalid date. The day of a row is the local midnight of its text; a text outside the years 1000
  to 9999 counts as undated, as an invalid date does.
\<close>

definition GUTTER_W :: rat where "GUTTER_W = 46"
definition PAD_R :: rat where "PAD_R = 14"
definition TRACK_H :: rat where "TRACK_H = 30"
definition AXIS_H :: rat where "AXIS_H = 20"
definition ROW_PAD_Y :: rat where "ROW_PAD_Y = 8"
definition HEADER_H :: rat where "HEADER_H = 22"
definition GAP_H_TIGHT :: rat where "GAP_H_TIGHT = 18"
definition GAP_H :: rat where "GAP_H = 24"
definition GAP_H_WIDE :: rat where "GAP_H_WIDE = 32"
definition COL_GAP :: rat where "COL_GAP = 38"
definition NODE_R :: rat where "NODE_R = 7"
definition MIN_DOT_GAP :: rat where "MIN_DOT_GAP = NODE_R * 2 + 2"
definition TRACKS_PER_DAY_CAP :: nat where "TRACKS_PER_DAY_CAP = 6"

subsection \<open>Events\<close>

datatype history_event = SaveEvent version_summary | ChangeEvent history_change

fun ev_createdOn :: "history_event \<Rightarrow> string option" where
  "ev_createdOn (SaveEvent v) = vs_createdOn v"
| "ev_createdOn (ChangeEvent c) = hc_createdOn c"

fun ev_createdBy :: "history_event \<Rightarrow> string option" where
  "ev_createdBy (SaveEvent v) = vs_createdBy v"
| "ev_createdBy (ChangeEvent c) = hc_createdBy c"

fun ev_createdById :: "history_event \<Rightarrow> string option" where
  "ev_createdById (SaveEvent v) = vs_createdById v"
| "ev_createdById (ChangeEvent c) = hc_createdById c"

fun is_change :: "history_event \<Rightarrow> bool" where
  "is_change (SaveEvent v) = False"
| "is_change (ChangeEvent c) = True"

text \<open>\<open>x || y\<close> on optional texts.\<close>

definition or_opt :: "string option \<Rightarrow> string option \<Rightarrow> string option" where
  "or_opt x y = (if truthy x then x else y)"

definition mark_version :: "history_save \<Rightarrow> version_summary \<Rightarrow> version_summary" where
  "mark_version s v =
     v\<lparr>vs_isMilestone := Some True, vs_milestoneName := or_opt (hs_milestone s) (vs_milestoneName v),
       vs_revision := or_opt (hs_revision s) (vs_revision v)\<rparr>"

definition marked_versions :: "version_summary list \<Rightarrow> history_save list \<Rightarrow> int \<rightharpoonup> version_summary" where
  "marked_versions byNumberDesc saves =
     fold (\<lambda>(v, s) m. if \<not> truthy (hs_milestone s) \<and> \<not> truthy (hs_revision s) then m
                        else m(vs_number v \<mapsto> mark_version s v)) (zip byNumberDesc saves) Map.empty"

definition applyHistoryMarkers :: "version_summary list \<Rightarrow> history_save list option \<Rightarrow> version_summary list" where
  "applyHistoryMarkers versions saves =
     (case saves of
        None \<Rightarrow> versions
      | Some ss \<Rightarrow>
          if length ss \<noteq> length versions then versions
          else let marked = marked_versions (js_sort (\<lambda>a b. vs_number b - vs_number a) versions) ss
               in map (\<lambda>v. nullish (marked (vs_number v)) v) versions)"

definition toEvents :: "version_summary list \<Rightarrow> history_change list option \<Rightarrow> history_event list" where
  "toEvents versions changes = map SaveEvent versions @ map ChangeEvent (nullish changes [])"

text \<open>
  The pattern \<open>[A-Z][a-z0-9]*|[A-Z]+(?![a-z])\<close>, all matches: at a capital the first alternative
  always matches, anywhere else none does.
\<close>

definition is_upper :: "char \<Rightarrow> bool" where
  "is_upper c = (65 \<le> (of_char c :: nat) \<and> (of_char c :: nat) \<le> 90)"

definition is_lower_digit :: "char \<Rightarrow> bool" where
  "is_lower_digit c = (97 \<le> (of_char c :: nat) \<and> (of_char c :: nat) \<le> 122 \<or> 48 \<le> (of_char c :: nat) \<and> (of_char c :: nat) \<le> 57)"

function capital_words :: "string \<Rightarrow> string list" where
  "capital_words [] = []"
| "capital_words (c # s) =
     (if is_upper c then (c # takeWhile is_lower_digit s) # capital_words (dropWhile is_lower_digit s)
      else capital_words s)"
  by pat_completeness auto
termination by (relation "measure length") (auto simp: le_imp_less_Suc length_dropWhile_le)

definition humanizeChangeType :: "string \<Rightarrow> string" where
  "humanizeChangeType ty =
     (let suf = ''HistoryChange''; n = length ty - length suf;
          stem = (if length suf \<le> length ty \<and> drop n ty = suf then take n ty else ty);
          words = capital_words stem
      in if words \<noteq> [] then join_with '' '' words else if stem \<noteq> [] then stem else ''Change'')"

subsection \<open>Days and tracks\<close>

record history_dot =
  hd_v :: history_event
  hd_key :: string
  hd_index :: nat
  hd_ms :: int

record history_track =
  ht_key :: string
  ht_name :: string
  ht_dots :: "history_dot list"
  ht_overflow :: bool
  ht_authorCount :: nat

record history_day =
  hy_day :: string
  hy_date :: "date option"
  hy_tracks :: "history_track list"
  hy_count :: nat
  hy_saves :: nat
  hy_changes :: nat

datatype gap_tier = NextDay | Days | Wide

record history_gap =
  hg_tier :: gap_tier
  hg_days :: int
  hg_breakdown :: breakdown

definition authorKey :: "history_event \<Rightarrow> string" where
  "authorKey v = nullish (or_opt (ev_createdById v) (ev_createdBy v)) []"

definition parseCreatedOn :: "(string \<Rightarrow> date option) \<Rightarrow> history_event \<Rightarrow> date option" where
  "parseCreatedOn dparse v = (if \<not> truthy (ev_createdOn v) then None else dparse (the (ev_createdOn v)))"

text \<open>The comparator is not antisymmetric on two undated events: each is larger than the other.\<close>

definition cmp_at :: "history_event \<times> date option \<Rightarrow> history_event \<times> date option \<Rightarrow> int" where
  "cmp_at a b =
     (case snd a of None \<Rightarrow> 1
      | Some x \<Rightarrow> (case snd b of None \<Rightarrow> - 1 | Some y \<Rightarrow> x - y))"

definition ordered_events :: "(string \<Rightarrow> date option) \<Rightarrow> history_event list \<Rightarrow> (history_event \<times> date option) list" where
  "ordered_events dparse events = js_sort_left cmp_at (map (\<lambda>v. (v, parseCreatedOn dparse v)) events)"

definition getHours :: "zone \<Rightarrow> date \<Rightarrow> int" where "getHours z t = z_local z t mod DAY_MS div 3600000"
definition getMinutes :: "zone \<Rightarrow> date \<Rightarrow> int" where "getMinutes z t = z_local z t mod 3600000 div 60000"
definition getSeconds :: "zone \<Rightarrow> date \<Rightarrow> int" where "getSeconds z t = z_local z t mod 60000 div 1000"

definition event_day :: "zone \<Rightarrow> date option \<Rightarrow> string" where
  "event_day z at' = (case at' of None \<Rightarrow> [] | Some t \<Rightarrow> fmtDay z t)"

definition mk_dot :: "zone \<Rightarrow> nat \<times> history_event \<times> date option \<Rightarrow> history_dot" where
  "mk_dot z e =
     (case e of (i, v, at') \<Rightarrow>
        \<lparr>hd_v = v,
         hd_key = (case v of SaveEvent s \<Rightarrow> ''v'' @ show_int (vs_number s) | ChangeEvent c \<Rightarrow> ''c'' @ show_nat i),
         hd_index = i,
         hd_ms = (case at' of None \<Rightarrow> 0
                  | Some t \<Rightarrow> getHours z t * 3600000 + getMinutes z t * 60000 + getSeconds z t * 1000)\<rparr>)"

definition author_track :: "string \<times> history_dot list \<Rightarrow> history_track" where
  "author_track e =
     \<lparr>ht_key = fst e, ht_name = nullish (ev_createdBy (hd_v (hd (snd e)))) [], ht_dots = snd e,
      ht_overflow = False, ht_authorCount = 1\<rparr>"

definition first_index :: "history_track \<Rightarrow> int" where
  "first_index t = int (hd_index (hd (ht_dots t)))"

definition merge_tail :: "history_track list \<Rightarrow> history_track" where
  "merge_tail tl' =
     \<lparr>ht_key = join_with '' '' (map ht_key tl'), ht_name = join_with '', '' (map ht_name tl'),
      ht_dots = js_sort (\<lambda>a b. int (hd_index a) - int (hd_index b)) (concat (map ht_dots tl')),
      ht_overflow = True, ht_authorCount = length tl'\<rparr>"

definition tracksForDay :: "history_dot list \<Rightarrow> history_track list" where
  "tracksForDay dots =
     (let byAuthor = group_by (\<lambda>d. authorKey (hd_v d)) (\<lambda>d. d) dots;
          all = js_sort (\<lambda>a b. first_index a - first_index b) (map author_track byAuthor)
      in if length all \<le> TRACKS_PER_DAY_CAP then all
         else take (TRACKS_PER_DAY_CAP - 1) all @ [merge_tail (drop (TRACKS_PER_DAY_CAP - 1) all)])"

definition day_row :: "zone \<Rightarrow> string \<Rightarrow> history_dot list \<Rightarrow> history_day" where
  "day_row z day dots =
     (let changes = length (filter (\<lambda>d. is_change (hd_v d)) dots)
      in \<lparr>hy_day = day, hy_date = (if day = [] then None else parseDay z day), hy_tracks = tracksForDay dots,
          hy_count = length dots, hy_saves = length dots - changes, hy_changes = changes\<rparr>)"

definition bucketByDay :: "zone \<Rightarrow> (string \<Rightarrow> date option) \<Rightarrow> history_event list \<Rightarrow> history_day list" where
  "bucketByDay z dparse events =
     (let ordered = ordered_events dparse events;
          byDay = group_by (\<lambda>(i, v, at'). event_day z at') (mk_dot z) (enumerate 0 ordered);
          days = List.rev (sort (filter (\<lambda>d. d \<noteq> []) (map fst byDay)))
      in map (\<lambda>day. day_row z day (the (map_of byDay day))) days @
         (case map_of byDay [] of None \<Rightarrow> [] | Some u \<Rightarrow> [day_row z [] u]))"

definition gapBetween :: "zone \<Rightarrow> history_day \<Rightarrow> history_day \<Rightarrow> history_gap option" where
  "gapBetween z newer older =
     (case (hy_date newer, hy_date older) of
        (Some n, Some d) \<Rightarrow>
          (let days = daysBetween d n
           in if days \<le> 0 then None
              else Some \<lparr>hg_tier = (if days = 1 then NextDay else if days < 7 then Days else Wide),
                         hg_days = days, hg_breakdown = calendarBreakdown z d n\<rparr>)
      | _ \<Rightarrow> None)"

fun gapHeight :: "gap_tier \<Rightarrow> rat" where
  "gapHeight NextDay = GAP_H_TIGHT"
| "gapHeight Days = GAP_H"
| "gapHeight Wide = GAP_H_WIDE"

subsection \<open>Geometry\<close>

definition rowHeight :: "nat \<Rightarrow> bool \<Rightarrow> rat" where
  "rowHeight n withAxis = ROW_PAD_Y * 2 + of_nat (max 1 n) * TRACK_H + (if withAxis then AXIS_H else 0)"

definition trackY :: "nat \<Rightarrow> rat" where
  "trackY i = ROW_PAD_Y + of_nat i * TRACK_H + TRACK_H / 2"

definition plotWidth :: "rat \<Rightarrow> rat" where
  "plotWidth w = max 80 (w - GUTTER_W - PAD_R)"

definition xOfMs :: "int \<Rightarrow> rat \<Rightarrow> rat" where
  "xOfMs ms w = max 0 (min 1 (of_int ms / of_int DAY_MS)) * plotWidth w"

definition xOfIndex :: "nat \<Rightarrow> rat" where
  "xOfIndex i = COL_GAP / 2 + of_nat i * COL_GAP"

definition indexBase :: "history_day list \<Rightarrow> nat" where
  "indexBase rows =
     (case concat (map (\<lambda>r. concat (map (\<lambda>t. map hd_index (ht_dots t)) (hy_tracks r))) rows) of
        [] \<Rightarrow> 0 | i # is \<Rightarrow> fold min is i)"

definition threadWidth :: "nat \<Rightarrow> rat" where
  "threadWidth n = max COL_GAP (of_nat n * COL_GAP) + PAD_R"

text \<open>The walk over the rows: the row above and the height so far.\<close>

fun stack_from :: "zone \<Rightarrow> bool \<Rightarrow> history_day option \<Rightarrow> rat \<Rightarrow> history_day list \<Rightarrow> rat list \<times> rat" where
  "stack_from z ax prev y [] = ([], y)"
| "stack_from z ax prev y (r # rs) =
     (let y = (case prev of None \<Rightarrow> y
               | Some p \<Rightarrow> y + (case gapBetween z p r of None \<Rightarrow> 0 | Some g \<Rightarrow> gapHeight (hg_tier g)));
          (ts, total) = stack_from z ax (Some r) (y + (HEADER_H + rowHeight (length (hy_tracks r)) ax)) rs
      in (y # ts, total))"

definition layoutStack :: "zone \<Rightarrow> history_day list \<Rightarrow> bool \<Rightarrow> rat list \<times> rat" where
  "layoutStack z rows withAxis = stack_from z withAxis None 0 rows"

text \<open>
  The three passes of \<open>declutter\<close>: push to the right, push to the left (on the reversed list), and
  the shift of the whole row when its end stands out.
\<close>

fun push_right :: "rat \<Rightarrow> rat \<Rightarrow> rat list \<Rightarrow> rat list" where
  "push_right g p [] = []"
| "push_right g p (x # xs) = (let y = (if x - p < g then p + g else x) in y # push_right g y xs)"

fun push_left :: "rat \<Rightarrow> rat \<Rightarrow> rat list \<Rightarrow> rat list" where
  "push_left g n [] = []"
| "push_left g n (x # xs) = (let y = (if n - x < g then n - g else x) in y # push_left g y xs)"

definition forward_pass :: "rat \<Rightarrow> rat list \<Rightarrow> rat list" where
  "forward_pass g xs = (case xs of [] \<Rightarrow> [] | x # ys \<Rightarrow> x # push_right g x ys)"

definition back_pass :: "rat \<Rightarrow> rat list \<Rightarrow> rat list" where
  "back_pass g xs = (case List.rev xs of [] \<Rightarrow> [] | x # ys \<Rightarrow> List.rev (x # push_left g x ys))"

definition declutter :: "rat list \<Rightarrow> rat \<Rightarrow> rat \<Rightarrow> rat \<Rightarrow> rat list" where
  "declutter rawX l r g =
     (let n = length rawX
      in if n = 0 then []
         else let x = map (\<lambda>v. min r (max l v)) rawX
              in if of_nat (n - 1) * g > r - l
                 then (if n = 1 then [l] else map (\<lambda>i. l + (r - l) * of_nat i / of_nat (n - 1)) [0..<n])
                 else let x = back_pass g (forward_pass g x); e = x ! (n - 1)
                      in if e > r then map (\<lambda>v. v - (e - r)) x else x)"

definition hourTicks :: "rat \<Rightarrow> (nat \<times> bool) list" where
  "hourTicks w =
     (if w < 200 then []
      else let every = (if w \<ge> 420 then 1 else if w \<ge> 260 then 3 else 6);
               labelEvery = (if w \<ge> 420 then 6 else if w \<ge> 260 then 12 else 24);
               ticks = map (\<lambda>h. (h, h mod labelEvery = 0)) (filter (\<lambda>h. h mod every = 0) [0..<25])
           in if w < 260 then map (\<lambda>t. (fst t, fst t = 12)) ticks else ticks)"

end
