(* ===== verification/HistoryProps.thy ===== *)
theory HistoryProps
  imports History DayText
begin

section \<open>The timeline loses nothing\<close>

text \<open>
  Bucketing puts every event on exactly one dot, on the row of its local day and the track of its
  author; decluttering spreads the dots of a track - and what its shift does to the first of them.
\<close>

interpretation by_index: comparator "\<lambda>a b. first_index a - first_index b"
  by (rule comparator_key[OF compares_diff])

interpretation by_number: comparator "\<lambda>a b. vs_number b - vs_number a"
  by (rule comparator_key[of _ "\<lambda>v. - vs_number v"]) (simp add: compares_def)

subsection \<open>Tracks\<close>

definition day_tracks :: "history_dot list \<Rightarrow> history_track list" where
  "day_tracks dots = js_sort (\<lambda>a b. first_index a - first_index b)
     (map author_track (group_by (\<lambda>d. authorKey (hd_v d)) (\<lambda>d. d) dots))"

lemma tracksForDay_cases:
  "tracksForDay dots =
    (if length (day_tracks dots) \<le> TRACKS_PER_DAY_CAP then day_tracks dots
     else take (TRACKS_PER_DAY_CAP - 1) (day_tracks dots) @ [merge_tail (drop (TRACKS_PER_DAY_CAP - 1) (day_tracks dots))])"
  by (simp add: tracksForDay_def day_tracks_def Let_def)

lemma day_tracks_dots: "mset (concat (map ht_dots (day_tracks dots))) = mset dots"
proof -
  have "mset (concat (map ht_dots (day_tracks dots))) =
      mset (concat (map snd (group_by (\<lambda>d. authorKey (hd_v d)) (\<lambda>d. d) dots)))"
    by (simp add: mset_concat_map day_tracks_def image_mset.compositionality comp_def author_track_def del: mset_concat)
  also have "\<dots> = mset dots" by (simp add: mset_group_by)
  finally show ?thesis .
qed

lemma day_tracks_author:
  assumes "t \<in> set (day_tracks dots)" "d \<in> set (ht_dots t)"
  shows "authorKey (hd_v d) = ht_key t \<and> \<not> ht_overflow t"
  using assms by (auto simp: day_tracks_def author_track_def group_by_entry)

lemma tracks_dots: "mset (concat (map ht_dots (tracksForDay dots))) = mset dots"
proof (cases "length (day_tracks dots) \<le> TRACKS_PER_DAY_CAP")
  case True
  then show ?thesis by (simp only: tracksForDay_cases if_True day_tracks_dots)
next
  case False
  let ?n = "TRACKS_PER_DAY_CAP - 1"
  have "mset (concat (map ht_dots (tracksForDay dots))) =
      mset (concat (map ht_dots (take ?n (day_tracks dots)))) + mset (concat (map ht_dots (drop ?n (day_tracks dots))))"
    using False by (simp add: tracksForDay_cases merge_tail_def)
  also have "\<dots> = mset (concat (map ht_dots (take ?n (day_tracks dots) @ drop ?n (day_tracks dots))))"
    by (simp only: map_append concat_append mset_append)
  finally show ?thesis by (simp only: append_take_drop_id day_tracks_dots)
qed

lemma tracks_cap: "length (tracksForDay dots) \<le> TRACKS_PER_DAY_CAP"
  by (simp add: tracksForDay_cases TRACKS_PER_DAY_CAP_def)

lemma tracks_author:
  assumes "t \<in> set (tracksForDay dots)" "\<not> ht_overflow t" "d \<in> set (ht_dots t)"
  shows "authorKey (hd_v d) = ht_key t"
proof -
  have "t \<in> set (day_tracks dots)"
    using assms(1,2) by (auto simp: tracksForDay_cases merge_tail_def dest: in_set_takeD split: if_splits)
  with assms(3) show ?thesis by (simp add: day_tracks_author)
qed

subsection \<open>Rows\<close>

definition row_dots :: "history_day \<Rightarrow> history_dot list" where
  "row_dots r = concat (map ht_dots (hy_tracks r))"

lemma row_dots_mset: "mset (row_dots (day_row z day dots)) = mset dots"
  by (simp add: row_dots_def day_row_def Let_def tracks_dots del: mset_concat)

lemma row_dots_set: "set (row_dots (day_row z day dots)) = set dots"
  by (metis row_dots_mset set_mset_mset)

lemma cmp_at_key: "cmp_at a b < 0 \<longleftrightarrow>
  (case snd a of None \<Rightarrow> (1 :: int, 0) | Some x \<Rightarrow> (0, x)) < (case snd b of None \<Rightarrow> (1, 0) | Some x \<Rightarrow> (0, x))"
  by (auto simp: cmp_at_def split: option.splits)

lemma mset_ordered: "mset (ordered_events dparse events) = mset (map (\<lambda>v. (v, parseCreatedOn dparse v)) events)"
  by (simp add: ordered_events_def js_sort_left_by[OF cmp_at_key])

text \<open>The dots of the days, before they are put on tracks.\<close>

definition day_groups :: "zone \<Rightarrow> (string \<Rightarrow> date option) \<Rightarrow> history_event list \<Rightarrow> (string \<times> history_dot list) list" where
  "day_groups z dparse events =
     group_by (\<lambda>(i, v, at'). event_day z at') (mk_dot z) (enumerate 0 (ordered_events dparse events))"

lemma mk_dot_simps [simp]: "hd_v (mk_dot z (i, v, p)) = v" "hd_index (mk_dot z (i, v, p)) = i"
  by (simp_all add: mk_dot_def)

lemma day_groups_events: "image_mset hd_v (mset (concat (map snd (day_groups z dparse events)))) = mset events"
proof -
  have "image_mset hd_v (mset (concat (map snd (day_groups z dparse events)))) =
      image_mset (\<lambda>e. hd_v (mk_dot z e)) (mset (enumerate 0 (ordered_events dparse events)))"
    by (simp only: day_groups_def mset_group_by image_mset.compositionality comp_def)
  also have "\<dots> = image_mset (\<lambda>e. fst (snd e)) (mset (enumerate 0 (ordered_events dparse events)))"
    by (intro image_mset_cong) auto
  also have "\<dots> = mset (map fst (map snd (enumerate 0 (ordered_events dparse events))))"
    by (simp only: mset_map image_mset.compositionality comp_def)
  also have "\<dots> = image_mset fst (mset (ordered_events dparse events))" by (simp only: map_snd_enumerate mset_map)
  also have "\<dots> = mset events" by (simp add: mset_ordered image_mset.compositionality comp_def)
  finally show ?thesis .
qed

lemma day_groups_day:
  assumes "(day, dots) \<in> set (day_groups z dparse events)" "d \<in> set dots"
  shows "event_day z (parseCreatedOn dparse (hd_v d)) = day"
proof -
  obtain i v p where e: "(i, v, p) \<in> set (enumerate 0 (ordered_events dparse events))" "d = mk_dot z (i, v, p)"
    and day: "event_day z p = day"
    using assms by (auto simp: day_groups_def group_by_entry)
  have "(v, p) \<in> set (map snd (enumerate 0 (ordered_events dparse events)))"
    using imageI[OF e(1), of snd] by (simp only: set_map snd_conv)
  then have "(v, p) \<in> set (ordered_events dparse events)" by (simp only: map_snd_enumerate)
  then show ?thesis using e(2) day by (auto simp: mset_eq_setD[OF mset_ordered])
qed

text \<open>The days in the order of the rows.\<close>

definition row_days :: "zone \<Rightarrow> (string \<Rightarrow> date option) \<Rightarrow> history_event list \<Rightarrow> string list" where
  "row_days z dparse events =
     (let ks = map fst (day_groups z dparse events)
      in List.rev (sort (filter (\<lambda>d. d \<noteq> []) ks)) @ filter (\<lambda>d. d = []) ks)"

lemma mset_row_days: "mset (row_days z dparse events) = mset (map fst (day_groups z dparse events))"
  using multiset_partition[of "mset (map fst (day_groups z dparse events))" "\<lambda>d. d \<noteq> []"]
  by (simp add: row_days_def Let_def del: mset_map)

lemma filter_empty_day:
  assumes "distinct ks"
  shows "filter (\<lambda>d. d = []) ks = (if [] \<in> set ks then [[]] else [])"
  using assms by (induction ks) auto

lemma bucketByDay_days:
  "bucketByDay z dparse events =
    map (\<lambda>day. day_row z day (the (map_of (day_groups z dparse events) day))) (row_days z dparse events)"
proof -
  let ?g = "day_groups z dparse events"
  have "distinct (map fst ?g)" by (simp add: day_groups_def distinct_group_by)
  note f = filter_empty_day[OF this]
  have "([] \<in> set (map fst ?g)) = (map_of ?g [] \<noteq> None)" by (simp add: map_of_eq_None_iff)
  then show ?thesis
    unfolding bucketByDay_def row_days_def Let_def day_groups_def[symmetric] f map_append
    by (auto split: option.splits)
qed

lemma bucket_dots: "mset (concat (map row_dots (bucketByDay z dparse events))) =
  mset (concat (map snd (day_groups z dparse events)))"
proof -
  let ?g = "day_groups z dparse events"
  have "mset (concat (map row_dots (bucketByDay z dparse events))) =
      mset (concat (map (\<lambda>k. the (map_of ?g k)) (row_days z dparse events)))"
    by (simp add: bucketByDay_days mset_concat_map image_mset.compositionality comp_def row_dots_mset del: mset_concat)
  also have "\<dots> = mset (concat (map (\<lambda>k. the (map_of ?g k)) (map fst ?g)))"
    unfolding mset_concat_map mset_row_days ..
  also have "map (\<lambda>k. the (map_of ?g k)) (map fst ?g) = map snd ?g"
    by (rule map_snd_keys) (simp add: day_groups_def distinct_group_by)
  finally show ?thesis .
qed

lemma bucket_row:
  assumes "r \<in> set (bucketByDay z dparse events)"
  obtains day dots where "(day, dots) \<in> set (day_groups z dparse events)" "r = day_row z day dots"
proof -
  let ?g = "day_groups z dparse events"
  obtain day where day: "day \<in> set (row_days z dparse events)" "r = day_row z day (the (map_of ?g day))"
    using assms by (auto simp: bucketByDay_days)
  have "day \<in> set (map fst ?g)" using day(1) by (simp only: mset_eq_setD[OF mset_row_days])
  then obtain dots where "map_of ?g day = Some dots" by (metis map_of_eq_None_iff not_None_eq set_map)
  then show ?thesis using that[of day dots] day(2) by (simp add: map_of_SomeD)
qed

lemma rows_descend: "sorted_wrt (\<lambda>r s. hy_day s < hy_day r) (bucketByDay z dparse events)"
proof -
  let ?ks = "map fst (day_groups z dparse events)"
  have d: "distinct ?ks" by (simp add: day_groups_def distinct_group_by)
  have "sorted_wrt (<) (sort (filter (\<lambda>d. d \<noteq> []) ?ks))" using d by (simp add: strict_sorted_iff)
  then have "sorted_wrt (\<lambda>x y. y < x) (List.rev (sort (filter (\<lambda>d. d \<noteq> []) ?ks)))" by (simp add: sorted_wrt_rev)
  moreover have "[] < x" if "x \<noteq> []" for x :: string using that by (cases x) auto
  ultimately have "sorted_wrt (\<lambda>x y. y < x) (row_days z dparse events)"
    by (auto simp: row_days_def Let_def sorted_wrt_append filter_empty_day[OF d])
  then show ?thesis by (simp add: bucketByDay_days sorted_wrt_map day_row_def Let_def)
qed

text \<open>
  C19. The timeline is the history: every version and change is on exactly one dot, on the row of its
  local day and - up to the five first authors of the day - on the track of its author; the rows go
  from the newest day to the oldest with the undated ones last, and no row has more than six tracks.
\<close>

theorem bucketByDay_partition:
  "image_mset hd_v (mset (concat (map row_dots (bucketByDay z dparse events)))) = mset events \<and>
   sorted_wrt (\<lambda>r s. hy_day s < hy_day r) (bucketByDay z dparse events) \<and>
   list_all (\<lambda>r. length (hy_tracks r) \<le> 6 \<and> hy_count r = length (row_dots r) \<and> hy_count r = hy_saves r + hy_changes r \<and>
      list_all (\<lambda>d. event_day z (parseCreatedOn dparse (hd_v d)) = hy_day r) (row_dots r) \<and>
      list_all (\<lambda>t. ht_overflow t \<or> list_all (\<lambda>d. authorKey (hd_v d) = ht_key t) (ht_dots t)) (hy_tracks r))
     (bucketByDay z dparse events)"
proof (intro conjI)
  show "image_mset hd_v (mset (concat (map row_dots (bucketByDay z dparse events)))) = mset events"
    unfolding bucket_dots by (rule day_groups_events)
  show "sorted_wrt (\<lambda>r s. hy_day s < hy_day r) (bucketByDay z dparse events)" by (rule rows_descend)
  show "list_all (\<lambda>r. length (hy_tracks r) \<le> 6 \<and> hy_count r = length (row_dots r) \<and> hy_count r = hy_saves r + hy_changes r \<and>
      list_all (\<lambda>d. event_day z (parseCreatedOn dparse (hd_v d)) = hy_day r) (row_dots r) \<and>
      list_all (\<lambda>t. ht_overflow t \<or> list_all (\<lambda>d. authorKey (hd_v d) = ht_key t) (ht_dots t)) (hy_tracks r))
     (bucketByDay z dparse events)" (is "list_all ?ok _")
  proof -
    have "?ok r" if "r \<in> set (bucketByDay z dparse events)" for r
    proof -
      obtain day dots where g: "(day, dots) \<in> set (day_groups z dparse events)" and r: "r = day_row z day dots"
        using bucket_row[OF \<open>r \<in> _\<close>] by blast
      have tr: "hy_tracks r = tracksForDay dots" "hy_day r = day" "hy_count r = length dots"
        by (simp_all add: r day_row_def Let_def)
      have "length (row_dots r) = length dots" using row_dots_mset[of z day dots] by (metis r size_mset)
      moreover have "hy_count r = hy_saves r + hy_changes r"
        using length_filter_le[of "\<lambda>d. is_change (hd_v d)" dots] by (simp add: r day_row_def Let_def)
      moreover have "set (row_dots r) = set dots" by (simp add: r row_dots_set)
      moreover have "length (tracksForDay dots) \<le> 6" using tracks_cap by (simp add: TRACKS_PER_DAY_CAP_def)
      ultimately show ?thesis
        using day_groups_day[OF g] tracks_author[of _ dots] by (auto simp: tr list_all_iff)
    qed
    then show ?thesis unfolding list_all_iff by blast
  qed
qed

subsection \<open>Decluttering\<close>

abbreviation gaps :: "rat \<Rightarrow> rat list \<Rightarrow> bool" where
  "gaps g xs \<equiv> successively (\<lambda>a b. g \<le> b - a) xs"

lemma push_right_gaps: "gaps g (p # push_right g p xs)"
  by (induction xs arbitrary: p) (auto simp: Let_def)

lemma forward_gaps: "gaps g (forward_pass g xs)"
  using push_right_gaps by (cases xs) (simp_all add: forward_pass_def)

lemma push_right_length [simp]: "length (push_right g p xs) = length xs"
  by (induction xs arbitrary: p) (simp_all add: Let_def)

lemma forward_length [simp]: "length (forward_pass g xs) = length xs"
  by (cases xs) (simp_all add: forward_pass_def)

lemma push_left_same: "successively (\<lambda>a b. g \<le> a - b) (n # xs) \<Longrightarrow> push_left g n xs = xs"
  by (induction xs arbitrary: n) (auto simp: Let_def)

text \<open>After the forward pass the backward pass has nothing left to do.\<close>

lemma back_pass_same: "gaps g xs \<Longrightarrow> back_pass g xs = xs"
proof -
  assume "gaps g xs"
  then have "successively (\<lambda>a b. g \<le> a - b) (List.rev xs)" by (simp add: successively_rev)
  then show ?thesis
  proof (cases "List.rev xs")
    case (Cons y ys)
    with \<open>successively _ (List.rev xs)\<close> have "push_left g y ys = ys" by (simp add: push_left_same)
    with Cons show ?thesis by (simp add: back_pass_def)
  qed (simp add: back_pass_def)
qed

definition clamped :: "rat \<Rightarrow> rat \<Rightarrow> rat list \<Rightarrow> rat list" where
  "clamped l r raw = map (\<lambda>v. min r (max l v)) raw"

definition overflow :: "rat \<Rightarrow> rat \<Rightarrow> rat \<Rightarrow> rat list \<Rightarrow> rat" where
  "overflow l r g raw = max 0 (last (forward_pass g (clamped l r raw)) - r)"

text \<open>When the dots fit, the result is the forward pass, moved left as a whole by what stands out.\<close>

lemma declutter_fits:
  assumes "raw \<noteq> []" "of_nat (length raw - 1) * g \<le> r - l"
  shows "declutter raw l r g = map (\<lambda>v. v - overflow l r g raw) (forward_pass g (clamped l r raw))"
proof -
  let ?x = "forward_pass g (clamped l r raw)"
  have len: "length ?x = length raw" by (simp add: clamped_def)
  with assms(1) have ne: "?x \<noteq> []" "length ?x = length raw" by (metis length_0_conv)+
  have e: "?x ! (length raw - 1) = last ?x" using ne by (simp add: last_conv_nth)
  have "declutter raw l r g = (let x = ?x; e = x ! (length raw - 1) in if e > r then map (\<lambda>v. v - (e - r)) x else x)"
    using assms by (simp add: declutter_def Let_def clamped_def[symmetric] back_pass_same[OF forward_gaps])
  then have "declutter raw l r g = (if last ?x > r then map (\<lambda>v. v - (last ?x - r)) ?x else ?x)"
    unfolding Let_def e .
  then show ?thesis by (cases "last ?x > r") (simp_all add: overflow_def max_def)
qed

lemma gaps_shift: "gaps g (map (\<lambda>v. v - s) xs) = gaps g xs"
  by (simp add: successively_map)

lemma gaps_sorted: "0 \<le> g \<Longrightarrow> gaps g xs \<Longrightarrow> sorted xs"
  by (induction xs rule: induct_list012) (auto intro: order_trans)

lemma sorted_last: "sorted xs \<Longrightarrow> x \<in> set xs \<Longrightarrow> x \<le> last xs"
  by (induction xs) (auto split: if_splits)

text \<open>
  Decluttered dots never overlap: dots that fit the plot end up in their order, at least the
  minimum gap apart and within its right edge, and when nothing stands out of that edge no dot moves
  left.
\<close>

theorem declutter_spreads:
  assumes "raw \<noteq> []" "of_nat (length raw - 1) * g \<le> r - l" "0 \<le> g"
  shows "length (declutter raw l r g) = length raw \<and> successively (\<lambda>a b. g \<le> b - a) (declutter raw l r g) \<and>
    list_all (\<lambda>x. x \<le> r) (declutter raw l r g) \<and>
    (overflow l r g raw = 0 \<longrightarrow> list_all2 (\<lambda>v x. min r (max l v) \<le> x) raw (declutter raw l r g))"
proof -
  let ?x = "forward_pass g (clamped l r raw)"
  note d = declutter_fits[OF assms(1,2)]
  have "x \<le> r" if x: "x \<in> set (declutter raw l r g)" for x
  proof -
    obtain v where v: "v \<in> set ?x" "x = v - overflow l r g raw" using x by (auto simp: d)
    have "v \<le> last ?x" using gaps_sorted[OF assms(3) forward_gaps] v(1) by (rule sorted_last)
    then show ?thesis using v(2) by (simp add: overflow_def max_def split: if_splits)
  qed
  moreover have "list_all2 (\<lambda>v x. min r (max l v) \<le> x) raw ?x"
  proof -
    have p: "list_all2 (\<le>) xs (push_right g p xs)" for p xs
      by (induction xs arbitrary: p) (auto simp: Let_def)
    have "list_all2 (\<le>) (clamped l r raw) ?x"
      using p by (cases "clamped l r raw") (simp_all add: forward_pass_def)
    then show ?thesis by (simp add: clamped_def list_all2_map1)
  qed
  moreover have "gaps g (declutter raw l r g)" unfolding d gaps_shift by (rule forward_gaps)
  moreover have "length (declutter raw l r g) = length raw" by (simp add: d clamped_def)
  moreover have "overflow l r g raw = 0 \<Longrightarrow> declutter raw l r g = ?x" by (simp add: d)
  ultimately show ?thesis unfolding list_all_iff by metis
qed

lemma declutter_spreads_witness:
  "declutter [100, 101, 102, 103] 0 500 MIN_DOT_GAP = [100, 116, 132, 148] \<and>
    successively (\<lambda>a b. MIN_DOT_GAP \<le> b - a) (declutter [100, 101, 102, 103] 0 500 MIN_DOT_GAP)"
  using declutter_spreads[of "[100, 101, 102, 103]" MIN_DOT_GAP 500 0]
  by (simp add: MIN_DOT_GAP_def NODE_R_def declutter_def forward_pass_def back_pass_def Let_def)

text \<open>
  A late cluster pushes an early dot out of the plot: the whole track is moved by what its last
  dot stands out, so a dot at the left edge is drawn to the left of it by as much.
\<close>

theorem declutter_leaves_plot:
  assumes "of_nat (length raw) * g \<le> r - l" "l \<le> r"
  shows "hd (declutter (l # raw) l r g) = l - overflow l r g (l # raw)"
  using declutter_fits[of "l # raw" g r l] assms by (simp add: clamped_def forward_pass_def)

lemma declutter_leaves_plot_witness:
  "hd (declutter [0, 498, 499, 500] 0 500 MIN_DOT_GAP) = - 30 \<and>
    hd (declutter [0, 498, 499, 500] 0 500 MIN_DOT_GAP) = 0 - overflow 0 500 MIN_DOT_GAP [0, 498, 499, 500]"
  using declutter_leaves_plot[of "[498, 499, 500]" MIN_DOT_GAP 500 0]
  by (simp add: MIN_DOT_GAP_def NODE_R_def overflow_def forward_pass_def clamped_def Let_def)

end
