(* ===== verification/HubKeys.thy ===== *)
theory HubKeys
  imports JsUrl
begin

section \<open>Hub-scoped settings\<close>

text \<open>
  \<open>state/hubKeys.ts\<close> and \<open>state/teardown.ts\<close>, with the slug of \<open>internal/hubslug\<close> on the server.
  The browser's storage is a map that may be unavailable (\<^const>\<open>None\<close>) and may refuse a write
  (\<open>st_full\<close>); a text that is not valid UTF-8 cannot occur in it. The remembered hub is read from
  and written to its JSON text by two parameters, \<open>JSON.parse\<close> restricted to objects with a text
  \<open>id\<close>, and \<open>JSON.stringify\<close>.
\<close>

record storage =
  st_items :: "string \<rightharpoonup> string"
  st_full :: bool

definition getItem :: "storage option \<Rightarrow> string \<Rightarrow> string option" where
  "getItem st k = (case st of None \<Rightarrow> None | Some s \<Rightarrow> st_items s k)"

definition setItem :: "string \<Rightarrow> string \<Rightarrow> storage option \<Rightarrow> storage option" where
  "setItem k v st = map_option (\<lambda>s. if st_full s then s else s\<lparr>st_items := (st_items s)(k \<mapsto> v)\<rparr>) st"

definition removeItem :: "string \<Rightarrow> storage option \<Rightarrow> storage option" where
  "removeItem k st = map_option (\<lambda>s. s\<lparr>st_items := (st_items s)(k := None)\<rparr>) st"

definition HUB_STORAGE_KEY :: string where "HUB_STORAGE_KEY = ''fls.lastHub''"
definition QUERY_CACHE_KEY :: string where "QUERY_CACHE_KEY = ''fls.queryCache''"

record saved_hub =
  sh_id :: string
  sh_name :: string

record hub_codec =
  hc_parse :: "string \<Rightarrow> saved_hub option"
  hc_show :: "saved_hub \<Rightarrow> string"

definition loadLastHub :: "hub_codec \<Rightarrow> storage option \<Rightarrow> saved_hub option" where
  "loadLastHub cd st =
     (let raw = getItem st HUB_STORAGE_KEY in if \<not> truthy raw then None else hc_parse cd (the raw))"

definition saveLastHub :: "hub_codec \<Rightarrow> string \<Rightarrow> string \<Rightarrow> storage option \<Rightarrow> storage option" where
  "saveLastHub cd i n st = setItem HUB_STORAGE_KEY (hc_show cd \<lparr>sh_id = i, sh_name = n\<rparr>) st"

text \<open>
  The characters of a text, as \<open>for..of\<close> gives them: code points, here the bytes of one UTF-8
  character. A continuation byte belongs to the character before it.
\<close>

definition is_continuation :: "char \<Rightarrow> bool" where
  "is_continuation c = (128 \<le> (of_char c :: nat) \<and> (of_char c :: nat) < 192)"

function code_points :: "string \<Rightarrow> string list" where
  "code_points [] = []"
| "code_points (c # s) = (c # takeWhile is_continuation s) # code_points (dropWhile is_continuation s)"
  by pat_completeness auto
termination by (relation "measure length") (auto simp: le_imp_less_Suc length_dropWhile_le)

definition slug_char :: "char \<Rightarrow> bool" where
  "slug_char c = (is_alnum c \<or> c \<in> set ''_.-'')"

definition hubSlug :: "string \<Rightarrow> string" where
  "hubSlug hubId =
     (if hubId = [] then ''_unset''
      else let out = concat (map (\<lambda>ch. case ch of [c] \<Rightarrow> if slug_char c then ch else ''_'' | _ \<Rightarrow> ''_'') (code_points hubId))
           in if length out > 120 then take 120 out else out)"

definition hubScopedKey :: "string \<Rightarrow> string \<Rightarrow> string" where
  "hubScopedKey base slug = base @ ''.'' @ slug"

text \<open>The key a setting uses, and the storage after the seeding from the legacy key.\<close>

definition resolveHubScopedKey :: "hub_codec \<Rightarrow> string \<Rightarrow> storage option \<Rightarrow> string \<times> storage option" where
  "resolveHubScopedKey cd base st =
     (case loadLastHub cd st of
        None \<Rightarrow> (base, st)
      | Some hub \<Rightarrow>
          (let key = hubScopedKey base (hubSlug (sh_id hub))
           in if st \<noteq> None \<and> getItem st key = None then
                (case getItem st base of None \<Rightarrow> (key, st) | Some legacy \<Rightarrow> (key, setItem key legacy st))
              else (key, st)))"

text \<open>The teardown: the query cache in memory is emptied, its copy in the storage removed, the page reloaded.\<close>

definition teardownAndReload :: "('k \<rightharpoonup> 'v) \<Rightarrow> storage option \<Rightarrow> ('k \<rightharpoonup> 'v) \<times> storage option \<times> string" where
  "teardownAndReload qc st = (Map.empty, removeItem QUERY_CACHE_KEY st, ''/'')"

subsection \<open>The slug of the server\<close>

text \<open>
  \<open>Slug\<close>: Go's \<open>range\<close> over a string gives its runes; a rune of the listed ranges is written as it
  is, any other as an underscore, and the bytes of the result are cut at 120.
\<close>

definition go_rune :: "string \<Rightarrow> nat" where
  "go_rune ch = (case ch of [c] \<Rightarrow> of_char c | _ \<Rightarrow> 65533)"

definition rune_kept :: "nat \<Rightarrow> bool" where
  "rune_kept r = (65 \<le> r \<and> r \<le> 90 \<or> 97 \<le> r \<and> r \<le> 122 \<or> 48 \<le> r \<and> r \<le> 57 \<or> r = 95 \<or> r = 46 \<or> r = 45)"

definition Slug :: "string \<Rightarrow> string" where
  "Slug hubID =
     (if hubID = [] then ''_unset''
      else let out = foldl (\<lambda>b ch. b @ (let r = go_rune ch in if rune_kept r then [char_of r] else ''_'')) [] (code_points hubID)
           in take 120 out)"

definition ProfileDir :: "string \<Rightarrow> string \<Rightarrow> string list" where
  "ProfileDir configDir hubID = [configDir, ''hubs'', Slug hubID]"

subsection \<open>One name for a hub on both sides\<close>

lemma code_points_ne: "ch \<in> set (code_points s) \<Longrightarrow> ch \<noteq> []"
  by (induction s rule: code_points.induct) auto

lemma rune_kept_slug: "rune_kept (of_char c) = slug_char c"
proof -
  have "c \<in> set ''_.-'' \<longleftrightarrow> (of_char c :: nat) = 95 \<or> (of_char c :: nat) = 46 \<or> (of_char c :: nat) = 45"
  proof -
    have "c = CHR ''_'' \<longleftrightarrow> (of_char c :: nat) = of_char (CHR ''_'')"
      "c = CHR ''.'' \<longleftrightarrow> (of_char c :: nat) = of_char (CHR ''.'')"
      "c = CHR ''-'' \<longleftrightarrow> (of_char c :: nat) = of_char (CHR ''-'')"
      by (simp_all only: of_char_eq_iff)
    then show ?thesis by simp
  qed
  then show ?thesis by (auto simp: rune_kept_def slug_char_def is_alnum_def Let_def)
qed

lemma foldl_append: "foldl (\<lambda>b x. b @ f x) acc xs = acc @ concat (map f xs)"
  by (induction xs arbitrary: acc) simp_all

text \<open>
  C20. The client and the server name a hub's settings and its files alike: the two slug functions
  agree on every hub id.
\<close>

theorem hubSlug_is_Slug: "hubSlug h = Slug h"
proof -
  have "(case ch of [c] \<Rightarrow> if slug_char c then ch else ''_'' | _ \<Rightarrow> ''_'') =
      (let r = go_rune ch in if rune_kept r then [char_of r] else ''_'')" if "ch \<noteq> []" for ch
  proof -
    have "\<not> rune_kept 65533" by (simp add: rune_kept_def)
    with that show ?thesis by (auto simp: go_rune_def Let_def rune_kept_slug split: list.splits)
  qed
  then have e: "map (\<lambda>ch. case ch of [c] \<Rightarrow> if slug_char c then ch else ''_'' | _ \<Rightarrow> ''_'') (code_points h) =
      map (\<lambda>ch. let r = go_rune ch in if rune_kept r then [char_of r] else ''_'') (code_points h)"
    using code_points_ne by (intro map_cong) auto
  show ?thesis unfolding hubSlug_def Slug_def foldl_append e append_Nil by (simp only: Let_def) simp
qed

text \<open>What the settings rely on: keys of different slugs are different, and the seeding is idempotent.\<close>

lemma hubScopedKey_inj: "hubScopedKey base s = hubScopedKey base t \<longleftrightarrow> s = t"
  by (simp add: hubScopedKey_def)

lemma resolve_keeps_legacy:
  assumes "loadLastHub cd st = Some hub" "base \<noteq> hubScopedKey base (hubSlug (sh_id hub))"
  shows "getItem (snd (resolveHubScopedKey cd base st)) base = getItem st base"
  using assms by (cases st) (auto simp: resolveHubScopedKey_def Let_def getItem_def setItem_def split: option.splits)

lemma teardown_keeps_hub: "getItem (fst (snd (teardownAndReload qc st))) HUB_STORAGE_KEY = getItem st HUB_STORAGE_KEY"
  by (cases st) (simp_all add: teardownAndReload_def removeItem_def getItem_def HUB_STORAGE_KEY_def QUERY_CACHE_KEY_def)

end
