(* ===== verification/Quota.thy ===== *)
theory Quota
  imports JsPrelude
begin

section \<open>The quota store and the retry rule\<close>

text \<open>
  \<open>state/quota.ts\<close>: what the client knows of the server's request budget, folded from the throttle
  headers, from every 429 it sees and from the quota answers; and the retry rule of
  \<open>api/queryDefaults.ts\<close>. A time is a number of milliseconds; \<open>Date.parse\<close> of the server's
  timestamps is a parameter.
\<close>

record quota_status =
  qs_level :: string
  qs_throttled :: bool
  qs_cooldownUntil :: "string option"
  qs_restCooldownUntil :: "string option"
  qs_retryAfterMs :: int
  qs_capacity :: int
  qs_available :: int
  qs_pointsUsedLastMinute :: int
  qs_inFlight :: int
  qs_queued :: "int \<times> int \<times> int"
  qs_refused :: int
  qs_trips :: int
  qs_enabled :: bool

record quota_state =
  qt_level :: string
  qt_levelAt :: int
  qt_untilMs :: int
  qt_lastRateLimitedAt :: int
  qt_retryAfterMs :: int
  qt_server :: "quota_status option"

definition HOT_WINDOW_MS :: int where "HOT_WINDOW_MS = 60000"

definition initial_quota :: quota_state where
  "initial_quota = \<lparr>qt_level = ''ok'', qt_levelAt = 0, qt_untilMs = 0, qt_lastRateLimitedAt = 0,
     qt_retryAfterMs = 0, qt_server = None\<rparr>"

definition LEVELS :: "string list" where
  "LEVELS = [''ok'', ''slow'', ''cooldown'']"

definition applyHeader :: "string option \<Rightarrow> int option \<Rightarrow> int \<Rightarrow> quota_state \<Rightarrow> quota_state" where
  "applyHeader level untilMs now st =
     (case level of
        None \<Rightarrow> st
      | Some l \<Rightarrow>
          if l \<notin> set LEVELS then st
          else let u = (if l = ''ok'' then 0 else nullish untilMs (qt_untilMs st))
               in if l = qt_level st \<and> u = qt_untilMs st \<and> now - qt_levelAt st < 1000 then st
                  else st\<lparr>qt_level := l, qt_levelAt := now, qt_untilMs := u\<rparr>)"

definition reportRateLimited :: "int option \<Rightarrow> int \<Rightarrow> quota_state \<Rightarrow> quota_state" where
  "reportRateLimited retryAfterMs now st =
     (let wait = (case retryAfterMs of None \<Rightarrow> 0 | Some n \<Rightarrow> if n > 0 then n else 0)
      in st\<lparr>qt_lastRateLimitedAt := now, qt_retryAfterMs := wait,
            qt_level := (if qt_level st = ''ok'' then ''slow'' else qt_level st),
            qt_levelAt := (if qt_level st = ''ok'' then now else qt_levelAt st)\<rparr>)"

definition applyServerStatus :: "(string \<Rightarrow> int option) \<Rightarrow> quota_status \<Rightarrow> int \<Rightarrow> quota_state \<Rightarrow> quota_state" where
  "applyServerStatus parse s now st =
     (let u = (if truthy (qs_cooldownUntil s) then parse (the (qs_cooldownUntil s))
               else if truthy (qs_restCooldownUntil s) then parse (the (qs_restCooldownUntil s)) else Some 0)
      in st\<lparr>qt_server := Some s, qt_level := qs_level s, qt_levelAt := now, qt_untilMs := nullish u 0\<rparr>)"

definition isHot :: "quota_state \<Rightarrow> int \<Rightarrow> bool" where
  "isHot s now =
     (if qt_level s \<noteq> ''ok'' then True
      else qt_lastRateLimitedAt s > 0 \<and> now - qt_lastRateLimitedAt s < HOT_WINDOW_MS)"

definition cooldownRemainingMs :: "quota_state \<Rightarrow> int \<Rightarrow> int" where
  "cooldownRemainingMs s now =
     (let serverEnd = qt_untilMs s;
          clientEnd = (if qt_lastRateLimitedAt s > 0 \<and> qt_retryAfterMs s > 0
                       then qt_lastRateLimitedAt s + qt_retryAfterMs s else 0);
          e = max serverEnd clientEnd
      in if e > now then e - now else 0)"

text \<open>What the banner hook returns and polls: \<open>useQuotaStatus\<close>.\<close>

record quota_view =
  qv_slow :: bool
  qv_cooldownMs :: int
  qv_status :: "quota_status option"
  qv_poll :: "int option"

definition useQuotaStatus :: "quota_state \<Rightarrow> int \<Rightarrow> quota_view" where
  "useQuotaStatus st now =
     (let hot = isHot st now
      in \<lparr>qv_slow = hot, qv_cooldownMs = cooldownRemainingMs st now, qv_status = qt_server st,
          qv_poll = (if hot then Some 2000 else None)\<rparr>)"

subsection \<open>Errors and retries\<close>

record api_error =
  ae_status :: int
  ae_message :: string
  ae_code :: "string option"
  ae_retryAfterMs :: "int option"

datatype js_error = ApiErr api_error | OtherErr

definition MIN_RETRY_MS :: int where "MIN_RETRY_MS = 1000"
definition MAX_RETRY_MS :: int where "MAX_RETRY_MS = 30000"

definition shouldRetry :: "nat \<Rightarrow> js_error \<Rightarrow> bool" where
  "shouldRetry failureCount e =
     (case e of
        ApiErr a \<Rightarrow>
          (if ae_status a = 429 then failureCount < 1
           else if ae_status a \<in> {401, 403, 404, 409} then False else failureCount < 1)
      | OtherErr \<Rightarrow> failureCount < 1)"

text \<open>The jitter, a random number below 250, is a parameter.\<close>

definition retryDelayFor :: "int \<Rightarrow> nat \<Rightarrow> js_error \<Rightarrow> int" where
  "retryDelayFor jitter failureCount e =
     (case e of
        ApiErr a \<Rightarrow>
          (if ae_status a = 429
           then min MAX_RETRY_MS (max MIN_RETRY_MS (nullish (ae_retryAfterMs a) 0)) + jitter
           else min (1000 * 2 ^ failureCount) MAX_RETRY_MS)
      | OtherErr \<Rightarrow> min (1000 * 2 ^ failureCount) MAX_RETRY_MS)"

definition reportQueryError :: "js_error \<Rightarrow> int \<Rightarrow> quota_state \<Rightarrow> quota_state" where
  "reportQueryError e now st =
     (case e of
        ApiErr a \<Rightarrow> if ae_status a = 429 then reportRateLimited (ae_retryAfterMs a) now st else st
      | OtherErr \<Rightarrow> st)"

text \<open>
  The attempts of one query, as react-query makes them: after the \<open>n\<close>-th failure it asks the rule,
  and waits its delay before the next attempt. The answers of the server are given.
\<close>

fun attempts :: "nat \<Rightarrow> js_error list \<Rightarrow> nat" where
  "attempts n [] = 1"
| "attempts n (e # es) = (if shouldRetry n e then Suc (attempts (Suc n) es) else 1)"

lemma at_most_one_retry: "attempts 0 es \<le> 2"
proof -
  have "shouldRetry (Suc n) e = False" for n e by (auto simp: shouldRetry_def split: js_error.splits)
  then have "attempts (Suc n) es = 1" for n es by (cases es) simp_all
  then show ?thesis by (cases es) simp_all
qed

lemma retry_waits_for_server:
  "ae_status a = 429 \<Longrightarrow> ae_retryAfterMs a = Some n \<Longrightarrow> n \<le> MAX_RETRY_MS \<Longrightarrow> 0 \<le> j \<Longrightarrow>
    n \<le> retryDelayFor j k (ApiErr a)"
  by (simp add: retryDelayFor_def)

lemma retry_delay_bounds:
  "0 \<le> j \<Longrightarrow> j < 250 \<Longrightarrow> 1000 \<le> retryDelayFor j k e \<and> retryDelayFor j k e < 30250"
proof -
  have "(1 :: int) \<le> 2 ^ k" by simp
  then show "0 \<le> j \<Longrightarrow> j < 250 \<Longrightarrow> ?thesis"
    by (auto simp: retryDelayFor_def MIN_RETRY_MS_def MAX_RETRY_MS_def split: js_error.splits)
qed

subsection \<open>The banner\<close>

text \<open>The levels the store can hold; the answers of the server name one of them.\<close>

definition quota_ok :: "quota_state \<Rightarrow> bool" where
  "quota_ok s \<longleftrightarrow> qt_level s \<in> set LEVELS \<and> 0 \<le> qt_retryAfterMs s"

lemma quota_ok_steps:
  "quota_ok initial_quota"
  "quota_ok s \<Longrightarrow> quota_ok (applyHeader l u now s)"
  "quota_ok s \<Longrightarrow> quota_ok (reportRateLimited r now s)"
  "quota_ok s \<Longrightarrow> qs_level q \<in> set LEVELS \<Longrightarrow> quota_ok (applyServerStatus p q now s)"
  by (auto simp: quota_ok_def initial_quota_def LEVELS_def applyHeader_def reportRateLimited_def
      applyServerStatus_def Let_def split: option.splits)

lemma limited_is_hot:
  assumes "0 < t" "t \<le> now" "now < t + HOT_WINDOW_MS"
  shows "isHot (applyHeader (Some ''ok'') u now (reportRateLimited r t s)) now"
  using assms by (auto simp: isHot_def applyHeader_def reportRateLimited_def LEVELS_def Let_def)

lemma cooldown_bounds:
  "0 \<le> cooldownRemainingMs s now"
  "0 < now \<Longrightarrow> 0 < n \<Longrightarrow> n \<le> cooldownRemainingMs (reportRateLimited (Some n) now s) now"
  by (auto simp: cooldownRemainingMs_def reportRateLimited_def Let_def)

end
