(* ===== verification/ApiHttp.thy ===== *)
theory ApiHttp
  imports JsUrl JsNumber Quota
begin

section \<open>The HTTP layer of the client\<close>

text \<open>
  The functions of \<open>api/client.ts\<close> below the endpoints: query strings, requests with their priority
  (\<open>api/priority.ts\<close>), what a response turns into, and the two gate reactions. A body is a JSON
  value or the fields of a form; \<open>JSON.stringify\<close> drops the absent fields of an object, as \<open>jobj\<close>
  does, and is left out otherwise. \<open>Date.parse\<close> is a parameter.
\<close>

subsection \<open>Requests\<close>

datatype json =
    JNull
  | JBool bool
  | JNum int
  | JStr string
  | JArr "json list"
  | JObj "(string \<times> json) list"

fun jobj_fields :: "(string \<times> json option) list \<Rightarrow> (string \<times> json) list" where
  "jobj_fields [] = []"
| "jobj_fields ((k, None) # fs) = jobj_fields fs"
| "jobj_fields ((k, Some v) # fs) = (k, v) # jobj_fields fs"

definition jobj :: "(string \<times> json option) list \<Rightarrow> json" where
  "jobj fs = JObj (jobj_fields fs)"

abbreviation jstrs :: "string list \<Rightarrow> json" where "jstrs ss \<equiv> JArr (map JStr ss)"

datatype form_value = FText string | FJson json | FFile string

datatype req_body = NoBody | JsonBody json | FormBody "(string \<times> form_value) list"

record api_request =
  rq_method :: string
  rq_url :: string
  rq_body :: req_body
  rq_priority :: int

definition DEFAULT_PRIORITY :: int where "DEFAULT_PRIORITY = 1"
definition PRIORITY_HEADER :: string where "PRIORITY_HEADER = ''X-FLS-Priority''"

text \<open>\<open>opts?.priority\<close>.\<close>

type_synonym request_opts = "int option"

definition request_prio :: "string \<Rightarrow> string \<Rightarrow> req_body \<Rightarrow> request_opts \<Rightarrow> api_request" where
  "request_prio url m body opts =
     \<lparr>rq_method = m, rq_url = url, rq_body = body, rq_priority = nullish opts DEFAULT_PRIORITY\<rparr>"

abbreviation req_get :: "string \<Rightarrow> api_request" where "req_get url \<equiv> request_prio url ''GET'' NoBody None"
abbreviation req_get_opts :: "string \<Rightarrow> request_opts \<Rightarrow> api_request" where
  "req_get_opts url opts \<equiv> request_prio url ''GET'' NoBody opts"
abbreviation req_send :: "string \<Rightarrow> string \<Rightarrow> json \<Rightarrow> api_request" where
  "req_send m url b \<equiv> request_prio url m (JsonBody b) None"
abbreviation req_bare :: "string \<Rightarrow> string \<Rightarrow> api_request" where
  "req_bare m url \<equiv> request_prio url m NoBody None"

text \<open>The headers of the fetch: JSON has its content type, a form sets its own; the priority is added.\<close>

definition request_headers :: "api_request \<Rightarrow> (string \<times> string) list" where
  "request_headers r =
     (case rq_body r of FormBody fs \<Rightarrow> [] | _ \<Rightarrow> [(''Content-Type'', ''application/json'')]) @
     [(PRIORITY_HEADER, show_int (rq_priority r))]"

text \<open>\<open>qs\<close>: absent and empty parameters are left out.\<close>

definition qs_params :: "(string \<times> string option) list \<Rightarrow> params" where
  "qs_params ps = foldl (\<lambda>sp (k, v). if truthy v then sp_set k (the v) sp else sp) [] ps"

definition qs :: "(string \<times> string option) list \<Rightarrow> string" where
  "qs ps = (let s = sp_toString (qs_params ps) in if s \<noteq> [] then ''?'' @ s else [])"

subsection \<open>Responses\<close>

record error_body =
  eb_error :: "string option"
  eb_code :: "string option"
  eb_retryAfterMs :: "int option"

record response =
  rs_status :: int
  rs_error :: "error_body option"
  rs_headers :: "string \<Rightarrow> string option"

definition rs_ok :: "response \<Rightarrow> bool" where
  "rs_ok r = (200 \<le> rs_status r \<and> rs_status r < 300)"

definition parseRetryAfter :: "(string \<Rightarrow> int option) \<Rightarrow> string option \<Rightarrow> int \<Rightarrow> int option" where
  "parseRetryAfter dparse h now =
     (if \<not> truthy h then None
      else let s = js_trim (the h)
           in if s \<noteq> [] \<and> list_all is_digit s then Some (int (read_digits s) * 1000)
              else map_option (\<lambda>t. max 0 (t - now)) (dparse s))"

definition observeThrottle :: "response \<Rightarrow> int \<Rightarrow> quota_state \<Rightarrow> quota_state" where
  "observeThrottle r now st =
     (let level = rs_headers r ''X-FLS-Throttle'' in
      if \<not> truthy level then st
      else let u = rs_headers r ''X-FLS-Throttle-Until''
           in applyHeader level (if truthy u then js_number (the u) else None) now st)"

text \<open>The full-page reactions; each fires once per page load.\<close>

datatype gate_event = Unauthorized | HubGate

record gate_state =
  ga_redirecting :: bool
  ga_resettingHub :: bool

definition redirectToLogin :: "gate_state \<Rightarrow> gate_state \<times> string option" where
  "redirectToLogin g =
     (if ga_redirecting g then (g, None) else (g\<lparr>ga_redirecting := True\<rparr>, Some ''/api/auth/login''))"

definition resetForHubGate :: "gate_state \<Rightarrow> gate_state \<times> string option" where
  "resetForHubGate g =
     (if ga_resettingHub g then (g, None) else (g\<lparr>ga_resettingHub := True\<rparr>, Some ''/''))"

fun run_gate :: "gate_event \<Rightarrow> gate_state \<Rightarrow> gate_state \<times> string option" where
  "run_gate Unauthorized g = redirectToLogin g"
| "run_gate HubGate g = resetForHubGate g"

text \<open>The message of an error body that names none.\<close>

definition generic_message :: "int \<Rightarrow> string" where
  "generic_message status = ''request failed (HTTP '' @ show_int status @ '')''"

definition throwForResponse :: "(string \<Rightarrow> int option) \<Rightarrow> int \<Rightarrow> response \<Rightarrow> api_error \<times> gate_event list" where
  "throwForResponse dparse now r =
     (let msg = (case rs_error r of None \<Rightarrow> generic_message (rs_status r)
                 | Some b \<Rightarrow> str_or (eb_error b) (generic_message (rs_status r)));
          code = (case rs_error r of None \<Rightarrow> None | Some b \<Rightarrow> if truthy (eb_code b) then eb_code b else None);
          body_wait = (case rs_error r of None \<Rightarrow> None
                 | Some b \<Rightarrow> (case eb_retryAfterMs b of None \<Rightarrow> None | Some n \<Rightarrow> if n > 0 then Some n else None));
          wait = (if rs_status r = 429 \<and> body_wait = None
                  then parseRetryAfter dparse (rs_headers r ''Retry-After'') now else body_wait)
      in (\<lparr>ae_status = rs_status r, ae_message = msg, ae_code = code, ae_retryAfterMs = wait\<rparr>,
          (if rs_status r = 401 then [Unauthorized] else []) @
          (if rs_status r = 409 \<and> code = Some ''hub_not_selected'' then [HubGate] else [])))"

text \<open>
  \<open>request\<close> after the fetch: the quota store, and either the data (absent on 204) or the error. The
  data is whatever the caller's type says; \<open>data\<close> is the parsed body.
\<close>

definition request_result ::
    "(string \<Rightarrow> int option) \<Rightarrow> int \<Rightarrow> response \<Rightarrow> 'a \<Rightarrow> quota_state \<Rightarrow> quota_state \<times> (api_error \<times> gate_event list + 'a option)" where
  "request_result dparse now r data st =
     (observeThrottle r now st,
      if \<not> rs_ok r then Inl (throwForResponse dparse now r)
      else if rs_status r = 204 then Inr None else Inr (Some data))"

definition requestText ::
    "(string \<Rightarrow> int option) \<Rightarrow> int \<Rightarrow> response \<Rightarrow> string \<Rightarrow> quota_state \<Rightarrow> quota_state \<times> (api_error \<times> gate_event list + string)" where
  "requestText dparse now r body st =
     (observeThrottle r now st, if \<not> rs_ok r then Inl (throwForResponse dparse now r) else Inr body)"

definition requestWithEtag ::
    "(string \<Rightarrow> int option) \<Rightarrow> int \<Rightarrow> response \<Rightarrow> 'a \<Rightarrow> quota_state \<Rightarrow>
      quota_state \<times> (api_error \<times> gate_event list + 'a \<times> string option)" where
  "requestWithEtag dparse now r data st =
     (observeThrottle r now st,
      if \<not> rs_ok r then Inl (throwForResponse dparse now r) else Inr (data, rs_headers r ''ETag''))"

text \<open>\<open>parseRev\<close> on the tags the server writes, \<open>W/"7"\<close>; anything but digits is \<open>NaN\<close>.\<close>

definition parseRev :: "string option \<Rightarrow> int" where
  "parseRev etag =
     (case etag of
        None \<Rightarrow> 0
      | Some t \<Rightarrow>
          (let s = filter (\<lambda>c. c \<noteq> CHR 0x22) (if startsWith t ''W/'' then drop 2 t else t)
           in nullish (js_number s) 0))"

text \<open>The text viewer's fetch: too large by status or by length is an answer, not an error.\<close>

definition fileText_result :: "int \<Rightarrow> response \<Rightarrow> string \<Rightarrow> (api_error \<times> gate_event list) + (string \<times> bool)" where
  "fileText_result maxBytes r body =
     (if rs_status r = 401
      then Inl (\<lparr>ae_status = 401, ae_message = ''not authenticated'', ae_code = None, ae_retryAfterMs = None\<rparr>, [Unauthorized])
      else if rs_status r = 413 then Inr ([], True)
      else if \<not> rs_ok r
      then Inl (\<lparr>ae_status = rs_status r, ae_message = generic_message (rs_status r), ae_code = None, ae_retryAfterMs = None\<rparr>, [])
      else let len = nullish (js_number (str_or (rs_headers r ''Content-Length'') ''0'')) 0
           in if len \<noteq> 0 \<and> len > maxBytes then Inr ([], True) else Inr (body, False))"

subsection \<open>Query strings survive the way to the server\<close>

text \<open>Go's \<open>url.ParseQuery\<close>: a piece with a semicolon or a malformed escape is dropped, the bytes are kept.\<close>

definition go_unescape :: "string \<Rightarrow> string option" where
  "go_unescape s = pct_strict (map (\<lambda>c. if c = CHR ''+'' then CHR '' '' else c) s)"

definition go_piece :: "string \<Rightarrow> (string \<times> string) list" where
  "go_piece w =
     (if w = [] \<or> CHR '';'' \<in> set w then []
      else case cut_first (CHR ''='') w of (k, v) \<Rightarrow>
        (case (go_unescape k, go_unescape v) of (Some k, Some v) \<Rightarrow> [(k, v)] | _ \<Rightarrow> []))"

definition go_parse_query :: "string \<Rightarrow> params" where
  "go_parse_query s = concat (map go_piece (split_on (CHR ''&'') s))"

lemma go_unescape_form [simp]: "go_unescape (form_encode s) = Some s"
proof (induction s)
  case Nil
  then show ?case by (simp add: go_unescape_def form_encode_def)
next
  case (Cons c s)
  have u: "c \<noteq> CHR ''+'' \<and> c \<noteq> CHR ''%''" if "form_unreserved c"
    using that by (auto simp: form_unreserved_def is_alnum_def)
  show ?case using Cons u by (auto simp: go_unescape_def form_encode_def pct_no_plus)
qed

lemma form_no_semicolon: "CHR '';'' \<notin> set (form_encode s)"
  using set_form_encode[of "CHR '';''" s] by (auto simp: form_char_def is_alnum_def)

lemma go_piece_form: "go_piece (form_encode k @ CHR ''='' # form_encode v) = [(k, v)]"
  using form_no_semicolon[of k] form_no_semicolon[of v] by (simp add: go_piece_def)

lemma go_parse_toString: "go_parse_query (sp_toString ps) = ps"
proof (cases "ps = []")
  case True
  then show ?thesis by (simp add: go_parse_query_def sp_toString_def go_piece_def)
next
  case False
  let ?ws = "map (\<lambda>(k, v). form_encode k @ ''='' @ form_encode v) ps"
  have "split_on (CHR ''&'') (sp_toString ps) = ?ws"
    unfolding sp_toString_def using False by (intro split_join) auto
  moreover have "concat (map go_piece ?ws) = ps"
    by (induction ps) (simp_all add: go_piece_form split: prod.splits)
  ultimately show ?thesis by (simp add: go_parse_query_def)
qed

text \<open>The path and the query of a URL.\<close>

definition url_path :: "string \<Rightarrow> string" where "url_path u = fst (cut_first (CHR ''?'') u)"
definition url_query :: "string \<Rightarrow> string" where "url_query u = snd (cut_first (CHR ''?'') u)"

lemma cut_no_sep: "c \<notin> set w \<Longrightarrow> cut_first c w = (w, [])"
proof -
  assume "c \<notin> set w"
  then have e: "takeWhile (\<lambda>x. x \<noteq> c) w = w" "dropWhile (\<lambda>x. x \<noteq> c) w = []"
    by (auto simp: takeWhile_eq_all_conv dropWhile_eq_Nil_conv)
  show ?thesis unfolding cut_first_def e by simp
qed

lemma url_qs:
  assumes "CHR ''?'' \<notin> set p"
  shows "url_path (p @ qs ps) = p" "url_query (p @ qs ps) = sp_toString (qs_params ps)"
  using assms by (auto simp: url_path_def url_query_def qs_def Let_def cut_no_sep)

lemma url_bare: "CHR ''?'' \<notin> set p \<Longrightarrow> url_path p = p \<and> url_query p = []"
  by (simp add: url_path_def url_query_def cut_no_sep)

subsection \<open>Gates\<close>

text \<open>However many answers ask for it, the page navigates once per reason.\<close>

fun navigations :: "gate_event list \<Rightarrow> gate_state \<Rightarrow> string list" where
  "navigations [] g = []"
| "navigations (e # es) g = (case run_gate e g of (g', n) \<Rightarrow> (case n of None \<Rightarrow> [] | Some u \<Rightarrow> [u]) @ navigations es g')"

lemma navigations_once: "distinct (navigations es g) \<and>
  set (navigations es g) \<subseteq> (if ga_redirecting g then {} else {''/api/auth/login''}) \<union> (if ga_resettingHub g then {} else {''/''})"
proof (induction es arbitrary: g)
  case (Cons e es)
  show ?case
    using Cons[of "fst (run_gate e g)"] by (cases e) (auto simp: redirectToLogin_def resetForHubGate_def split: if_splits)
qed simp

lemma session_lost_redirects:
  "rs_status r = 401 \<Longrightarrow> Unauthorized \<in> set (snd (throwForResponse dparse now r))"
  "HubGate \<in> set (snd (throwForResponse dparse now r)) \<longleftrightarrow>
    rs_status r = 409 \<and> (\<exists>b. rs_error r = Some b \<and> eb_code b = Some ''hub_not_selected'')"
  by (auto simp: throwForResponse_def Let_def truthy_def split: option.splits)

lemma parseRev_tag: "parseRev (Some (''W/'' @ [CHR 0x22] @ show_nat n @ [CHR 0x22])) = int n"
proof -
  have "filter (\<lambda>c. c \<noteq> CHR 0x22) (show_nat n) = show_nat n"
    using digits_show[of n] by (auto simp: filter_id_conv list_all_iff is_digit_def)
  then show ?thesis by (simp add: parseRev_def)
qed

end
