(* ===== verification/ApiRoutes.thy ===== *)
theory ApiRoutes
  imports ApiHttp
begin

section \<open>The endpoints of the client and the routes of the server\<close>

text \<open>
  Every function of the \<open>api\<close> object of \<open>api/client.ts\<close>, as the request it sends (or, for the sources of
  images and downloads, the URL the browser gets), and the route table of \<open>src/server/routes.go\<close>.
  Bodies that are a DTO of the caller are a \<^typ>\<open>json\<close> value.
\<close>

definition nonzero_text :: "int option \<Rightarrow> string option" where
  "nonzero_text n = (case n of None \<Rightarrow> None | Some k \<Rightarrow> if k = 0 then None else Some (show_int k))"

definition flag :: "bool option \<Rightarrow> string \<Rightarrow> string option" where
  "flag b s = (if b = Some True then Some s else None)"

subsection \<open>Session, administration and branding\<close>

definition api_meta :: "api_request" where
  "api_meta =
     req_get ''/api/meta''"

definition api_authMe :: "api_request" where
  "api_authMe =
     req_get ''/api/auth/me''"

definition api_logout :: "api_request" where
  "api_logout =
     req_bare ''POST'' ''/api/auth/logout''"

definition api_sessionHub :: "string \<Rightarrow> api_request" where
  "api_sessionHub hubId =
     req_send ''POST'' ''/api/session/hub'' (JObj [(''hubId'', JStr hubId)])"

definition api_resolveProject :: "string \<Rightarrow> string \<Rightarrow> api_request" where
  "api_resolveProject dmHubId dmProjectId =
     req_get (''/api/resolve/project'' @ qs [(''dmHubId'', Some dmHubId), 
       (''dmProjectId'', Some dmProjectId)])"

definition api_adminStatus :: "api_request" where
  "api_adminStatus =
     req_get ''/api/admin/status''"

definition api_adminLogTail :: "int \<Rightarrow> api_request" where
  "api_adminLogTail tailBytes =
     req_get (''/api/admin/log'' @ qs [(''tailBytes'', Some (show_int tailBytes))])"

definition api_adminBackups :: "api_request" where
  "api_adminBackups =
     req_get ''/api/admin/backups''"

definition api_adminBackupRun :: "api_request" where
  "api_adminBackupRun =
     req_bare ''POST'' ''/api/admin/backups/run''"

definition api_adminBackupConfig :: "api_request" where
  "api_adminBackupConfig =
     req_get ''/api/admin/backups/config''"

definition api_adminBackupConfigSet :: "json \<Rightarrow> api_request" where
  "api_adminBackupConfigSet cfg =
     req_send ''POST'' ''/api/admin/backups/config'' cfg"

definition api_adminBackupVerify :: "string \<Rightarrow> api_request" where
  "api_adminBackupVerify path =
     req_send ''POST'' ''/api/admin/backups/verify'' (JObj [(''path'', JStr path)])"

definition api_adminBackupRestore :: "string \<Rightarrow> string \<Rightarrow> api_request" where
  "api_adminBackupRestore path confirm =
     req_send ''POST'' ''/api/admin/backups/restore'' (JObj [(''path'', JStr path), 
       (''confirm'', JStr confirm)])"

definition api_adminFsDirs :: "string option \<Rightarrow> api_request" where
  "api_adminFsDirs path =
     req_get (''/api/admin/fs/dirs'' @ qs [(''path'', path)])"

definition api_adminDisk :: "api_request" where
  "api_adminDisk =
     req_get ''/api/admin/disk''"

definition api_adminProjectDataDelete :: "string \<Rightarrow> string list \<Rightarrow> api_request" where
  "api_adminProjectDataDelete projectId apps =
     req_bare ''DELETE'' (''/api/admin/projects/data'' @ qs [(''projectId'', Some projectId), 
       (''apps'', Some (join_with '','' apps))])"

definition api_adminCleanup :: "api_request" where
  "api_adminCleanup =
     req_bare ''POST'' ''/api/admin/cleanup''"

definition api_setPort :: "int \<Rightarrow> api_request" where
  "api_setPort port =
     req_send ''POST'' ''/api/settings/port'' (JObj [(''port'', JNum port)])"

definition api_logoUrl :: "string \<Rightarrow> string" where
  "api_logoUrl version =
     ''/api/branding/logo'' @ qs [(''v'', Some version)]"

definition api_uploadLogo :: "string \<Rightarrow> api_request" where
  "api_uploadLogo file =
     request_prio ''/api/branding/logo'' ''POST'' (FormBody [(''file'', FFile file)]) None"

definition api_deleteLogo :: "api_request" where
  "api_deleteLogo =
     req_bare ''DELETE'' ''/api/branding/logo''"

definition api_hubs :: "request_opts \<Rightarrow> api_request" where
  "api_hubs opts =
     req_get_opts ''/api/hubs'' opts"

definition api_quota :: "api_request" where
  "api_quota =
     req_get_opts ''/api/quota'' (Some 0)"

subsection \<open>Browsing\<close>

definition api_projects :: "string \<Rightarrow> request_opts \<Rightarrow> api_request" where
  "api_projects hubId opts =
     req_get_opts (''/api/projects'' @ qs [(''hubId'', Some hubId)]) opts"

definition api_projectContents :: "string \<Rightarrow> request_opts \<Rightarrow> api_request" where
  "api_projectContents projectId opts =
     req_get_opts (''/api/projects/contents'' @ qs [(''projectId'', Some projectId)]) opts"

definition api_folderContents :: "string \<Rightarrow> string \<Rightarrow> request_opts \<Rightarrow> api_request" where
  "api_folderContents hubId folderId opts =
     req_get_opts (''/api/folders/contents'' @ qs [(''hubId'', Some hubId), 
       (''folderId'', Some folderId)]) opts"

definition api_browseContents :: "string \<Rightarrow> string \<Rightarrow> string option \<Rightarrow> request_opts \<Rightarrow> api_request" where
  "api_browseContents hubId dmProjectId folderId opts =
     req_get_opts (''/api/browse/contents'' @ qs [(''hubId'', Some hubId), 
       (''dmProjectId'', Some dmProjectId), (''folderId'', folderId)]) opts"

definition api_itemDetails :: "string \<Rightarrow> string \<Rightarrow> request_opts \<Rightarrow> api_request" where
  "api_itemDetails hubId itemId opts =
     req_get_opts (''/api/items/details'' @ qs [(''hubId'', Some hubId), (''itemId'', Some itemId)]) opts"

definition api_itemSummary :: "string \<Rightarrow> string \<Rightarrow> request_opts \<Rightarrow> api_request" where
  "api_itemSummary hubId itemId opts =
     req_get_opts (''/api/items/summary'' @ qs [(''hubId'', Some hubId), (''itemId'', Some itemId)]) opts"

definition api_itemHistory :: "string \<Rightarrow> string \<Rightarrow> request_opts \<Rightarrow> api_request" where
  "api_itemHistory hubId itemId opts =
     req_get_opts (''/api/items/history'' @ qs [(''hubId'', Some hubId), (''itemId'', Some itemId)]) opts"

definition api_itemLocation :: "string \<Rightarrow> string \<Rightarrow> request_opts \<Rightarrow> api_request" where
  "api_itemLocation hubId itemId opts =
     req_get_opts (''/api/items/location'' @ qs [(''hubId'', Some hubId), 
       (''itemId'', Some itemId)]) opts"

definition api_fileUrl :: "string \<Rightarrow> string \<Rightarrow> string option \<Rightarrow> string" where
  "api_fileUrl dmProjectId itemId name =
     ''/api/items/file'' @ qs [(''dmProjectId'', Some dmProjectId), (''itemId'', Some itemId), 
       (''name'', name)]"

definition api_downloadUrl :: "string \<Rightarrow> string \<Rightarrow> string option \<Rightarrow> string" where
  "api_downloadUrl dmProjectId itemId name =
     ''/api/items/file'' @ qs [(''dmProjectId'', Some dmProjectId), (''itemId'', Some itemId), 
       (''name'', name), (''download'', Some ''1'')]"

definition api_uses :: "string option \<Rightarrow> string option \<Rightarrow> string option \<Rightarrow> request_opts \<Rightarrow> api_request" where
  "api_uses cvId hubId drawingItemId opts =
     req_get_opts (''/api/items/uses'' @ qs [(''cvId'', cvId), (''hubId'', hubId), 
       (''drawingItemId'', drawingItemId)]) opts"

definition api_descendants :: "string \<Rightarrow> request_opts \<Rightarrow> api_request" where
  "api_descendants cvId opts =
     req_get_opts (''/api/items/descendants'' @ qs [(''cvId'', Some cvId)]) opts"

definition api_whereUsed :: "string \<Rightarrow> request_opts \<Rightarrow> api_request" where
  "api_whereUsed cvId opts =
     req_get_opts (''/api/items/where-used'' @ qs [(''cvId'', Some cvId)]) opts"

definition api_drawings :: "string \<Rightarrow> string \<Rightarrow> request_opts \<Rightarrow> api_request" where
  "api_drawings hubId designItemId opts =
     req_get_opts (''/api/items/drawings'' @ qs [(''hubId'', Some hubId), 
       (''designItemId'', Some designItemId)]) opts"

definition api_localRefs :: "string \<Rightarrow> string list \<Rightarrow> request_opts \<Rightarrow> api_request" where
  "api_localRefs itemId sources opts =
     req_get_opts (''/api/items/local-refs'' @ qs [(''itemId'', Some itemId), 
       (''sources'', Some (join_with '','' sources))]) opts"

definition api_bom :: "string \<Rightarrow> request_opts \<Rightarrow> api_request" where
  "api_bom cvId opts =
     req_get_opts (''/api/items/bom'' @ qs [(''cvId'', Some cvId)]) opts"

definition api_projectGroups :: "string \<Rightarrow> request_opts \<Rightarrow> api_request" where
  "api_projectGroups projectId opts =
     req_get_opts (''/api/projects/groups'' @ qs [(''projectId'', Some projectId)]) opts"

definition api_groupMembers :: "string \<Rightarrow> string \<Rightarrow> request_opts \<Rightarrow> api_request" where
  "api_groupMembers hubId groupId opts =
     req_get_opts (''/api/groups/members'' @ qs [(''hubId'', Some hubId), 
       (''groupId'', Some groupId)]) opts"

definition api_classify :: "string \<Rightarrow> request_opts \<Rightarrow> api_request" where
  "api_classify cvId opts =
     req_get_opts (''/api/items/classify'' @ qs [(''cvId'', Some cvId)]) opts"

definition api_thumbnail :: "string \<Rightarrow> request_opts \<Rightarrow> api_request" where
  "api_thumbnail cvId opts =
     req_get_opts (''/api/items/thumbnail'' @ qs [(''cvId'', Some cvId)]) opts"

definition api_properties :: "string \<Rightarrow> request_opts \<Rightarrow> api_request" where
  "api_properties cvId opts =
     req_get_opts (''/api/items/properties'' @ qs [(''cvId'', Some cvId)]) opts"

definition api_customProperties :: "string \<Rightarrow> request_opts \<Rightarrow> api_request" where
  "api_customProperties cvId opts =
     req_get_opts (''/api/items/custom-properties'' @ qs [(''cvId'', Some cvId)]) opts"

definition api_designActivity :: "string \<Rightarrow> string \<Rightarrow> string option \<Rightarrow> request_opts \<Rightarrow> api_request" where
  "api_designActivity hubId itemId bucket opts =
     req_get_opts (''/api/activity/report'' @ qs [(''scope'', Some ''design''), 
       (''hubId'', Some hubId), (''id'', Some itemId), (''bucket'', bucket)]) opts"

definition api_rollupActivity :: "string \<Rightarrow> string \<Rightarrow> string list \<Rightarrow> bool option \<Rightarrow> request_opts \<Rightarrow> api_request" where
  "api_rollupActivity hubId itemId childItemIds all opts =
     request_prio (if all = Some True then ''/api/activity/rollup?all=1'' else ''/api/activity/rollup'') ''POST''
       (JsonBody (jobj [(''hubId'', Some (JStr hubId)), (''itemId'', Some (JStr itemId)),
          (''childItemIds'', Some (jstrs childItemIds)), (''all'', map_option JBool all)])) opts"

definition api_hubOverview :: "request_opts \<Rightarrow> api_request" where
  "api_hubOverview opts =
     req_get_opts ''/api/hub/overview'' opts"

definition permissions_params ::
    "string \<Rightarrow> string \<Rightarrow> string option \<Rightarrow> (string \<times> string) list \<Rightarrow> string option \<Rightarrow> params" where
  "permissions_params hubId projectId projectName folders layers =
     (let p = sp_set ''projectId'' projectId (sp_set ''hubId'' hubId []);
          p = (if truthy projectName then sp_set ''projectName'' (the projectName) p else p);
          p = (if layers = Some ''leaf'' then sp_set ''layers'' ''leaf'' p else p)
      in foldl (\<lambda>p (i, n). sp_append ''folderName'' n (sp_append ''folderId'' i p)) p folders)"

definition api_permissionsPath ::
    "string \<Rightarrow> string \<Rightarrow> string option \<Rightarrow> (string \<times> string) list \<Rightarrow> string option \<Rightarrow> request_opts \<Rightarrow> api_request" where
  "api_permissionsPath hubId projectId projectName folders layers opts =
     req_get_opts (''/api/permissions/path?'' @ sp_toString (permissions_params hubId projectId projectName folders layers)) opts"

subsection \<open>Chat\<close>

definition api_chatChannels :: "string \<Rightarrow> api_request" where
  "api_chatChannels projectId =
     req_get (''/api/chat/channels'' @ qs [(''projectId'', Some projectId)])"

definition api_chatMembers :: "string \<Rightarrow> api_request" where
  "api_chatMembers projectId =
     req_get (''/api/chat/members'' @ qs [(''projectId'', Some projectId)])"

definition api_chatUpdateChannel :: "string \<Rightarrow> string \<Rightarrow> string option \<Rightarrow> string option \<Rightarrow> api_request" where
  "api_chatUpdateChannel projectId channelId name topic =
     req_send ''PATCH'' (''/api/chat/channels'' @ qs [(''projectId'', Some projectId), 
       (''channelId'', Some channelId)]) (jobj [(''name'', map_option JStr name), 
       (''topic'', map_option JStr topic)])"

definition api_chatArchiveChannel :: "string \<Rightarrow> string \<Rightarrow> api_request" where
  "api_chatArchiveChannel projectId channelId =
     req_bare ''DELETE'' (''/api/chat/channels'' @ qs [(''projectId'', Some projectId), 
       (''channelId'', Some channelId)])"

definition api_chatAddChannelMember :: "string \<Rightarrow> string \<Rightarrow> string \<Rightarrow> api_request" where
  "api_chatAddChannelMember projectId channelId userId =
     req_send ''POST'' (''/api/chat/channels/members'' @ qs [(''projectId'', Some projectId), 
       (''channelId'', Some channelId)]) (JObj [(''userId'', JStr userId)])"

definition api_chatRemoveChannelMember :: "string \<Rightarrow> string \<Rightarrow> string \<Rightarrow> api_request" where
  "api_chatRemoveChannelMember projectId channelId userId =
     req_bare ''DELETE'' (''/api/chat/channels/members'' @ qs [(''projectId'', Some projectId), 
       (''channelId'', Some channelId), (''userId'', Some userId)])"

definition api_chatCreateChannel :: "string \<Rightarrow> string \<Rightarrow> string option \<Rightarrow> bool option \<Rightarrow> string list option \<Rightarrow> api_request" where
  "api_chatCreateChannel projectId name topic isPrivate memberIds =
     req_send ''POST'' (''/api/chat/channels'' @ 
       qs [(''projectId'', Some projectId)]) (jobj [(''name'', Some (JStr name)), 
       (''topic'', map_option JStr topic), (''isPrivate'', map_option JBool isPrivate), 
       (''memberIds'', map_option jstrs memberIds)])"

definition api_chatMessages :: "string \<Rightarrow> string \<Rightarrow> int option \<Rightarrow> int option \<Rightarrow> int option \<Rightarrow> api_request" where
  "api_chatMessages projectId channelId beforeSeq afterSeq limit =
     req_get (''/api/chat/messages'' @ qs [(''projectId'', Some projectId), 
       (''channelId'', Some channelId), (''beforeSeq'', nonzero_text beforeSeq), 
       (''afterSeq'', map_option show_int afterSeq), (''limit'', nonzero_text limit)])"

definition api_chatSend :: "string \<Rightarrow> string \<Rightarrow> string \<Rightarrow> string \<Rightarrow> int option \<Rightarrow> api_request" where
  "api_chatSend projectId channelId body clientMsgId threadRootSeq =
     req_send ''POST'' (''/api/chat/messages'' @ qs [(''projectId'', Some projectId), 
       (''channelId'', Some channelId)]) (jobj [(''body'', Some (JStr body)), 
       (''clientMsgId'', Some (JStr clientMsgId)), 
       (''threadRootSeq'', map_option JNum threadRootSeq)])"

definition api_chatEditMessage :: "string \<Rightarrow> string \<Rightarrow> int \<Rightarrow> string \<Rightarrow> api_request" where
  "api_chatEditMessage projectId channelId seq body =
     req_send ''PATCH'' (''/api/chat/messages'' @ qs [(''projectId'', Some projectId), 
       (''channelId'', Some channelId), 
       (''seq'', Some (show_int seq))]) (JObj [(''body'', JStr body)])"

definition api_chatDeleteMessage :: "string \<Rightarrow> string \<Rightarrow> int \<Rightarrow> api_request" where
  "api_chatDeleteMessage projectId channelId seq =
     req_bare ''DELETE'' (''/api/chat/messages'' @ qs [(''projectId'', Some projectId), 
       (''channelId'', Some channelId), (''seq'', Some (show_int seq))])"

definition api_chatThread :: "string \<Rightarrow> string \<Rightarrow> int \<Rightarrow> api_request" where
  "api_chatThread projectId channelId rootSeq =
     req_get (''/api/chat/thread'' @ qs [(''projectId'', Some projectId), 
       (''channelId'', Some channelId), (''rootSeq'', Some (show_int rootSeq))])"

definition api_chatReact :: "string \<Rightarrow> string \<Rightarrow> int \<Rightarrow> string \<Rightarrow> api_request" where
  "api_chatReact projectId channelId seq emoji =
     req_bare ''POST'' (''/api/chat/reactions'' @ qs [(''projectId'', Some projectId), 
       (''channelId'', Some channelId), (''seq'', Some (show_int seq)), (''emoji'', Some emoji)])"

definition api_chatUnreact :: "string \<Rightarrow> string \<Rightarrow> int \<Rightarrow> string \<Rightarrow> api_request" where
  "api_chatUnreact projectId channelId seq emoji =
     req_bare ''DELETE'' (''/api/chat/reactions'' @ qs [(''projectId'', Some projectId), 
       (''channelId'', Some channelId), (''seq'', Some (show_int seq)), (''emoji'', Some emoji)])"

definition api_chatUnreads :: "string \<Rightarrow> api_request" where
  "api_chatUnreads projectId =
     req_get (''/api/chat/unreads'' @ qs [(''projectId'', Some projectId)])"

definition api_chatMarkRead :: "string \<Rightarrow> string \<Rightarrow> int \<Rightarrow> api_request" where
  "api_chatMarkRead projectId channelId lastReadSeq =
     req_send ''PATCH'' (''/api/chat/read'' @ qs [(''projectId'', Some projectId), 
       (''channelId'', Some channelId)]) (JObj [(''lastReadSeq'', JNum lastReadSeq)])"

definition api_chatTyping :: "string \<Rightarrow> string \<Rightarrow> api_request" where
  "api_chatTyping projectId channelId =
     req_bare ''POST'' (''/api/chat/typing'' @ qs [(''projectId'', Some projectId), 
       (''channelId'', Some channelId)])"

definition api_chatUploadImage :: "string \<Rightarrow> string \<Rightarrow> string \<Rightarrow> string \<Rightarrow> api_request" where
  "api_chatUploadImage projectId hubId dmProjectId file =
     request_prio (''/api/chat/image'' @ qs [(''projectId'', Some projectId), 
       (''hubId'', Some hubId), 
       (''dmProjectId'', Some dmProjectId)]) ''POST'' (FormBody [(''file'', FFile file)]) None"

subsection \<open>Tasks and production\<close>

definition api_tasks :: "string \<Rightarrow> api_request" where
  "api_tasks projectId =
     req_get (''/api/tasks'' @ qs [(''projectId'', Some projectId)])"

definition api_taskGet :: "string \<Rightarrow> string \<Rightarrow> api_request" where
  "api_taskGet projectId taskId =
     req_get (''/api/tasks/get'' @ qs [(''projectId'', Some projectId), (''taskId'', Some taskId)])"

definition api_taskCreate :: "string \<Rightarrow> json \<Rightarrow> api_request" where
  "api_taskCreate projectId body =
     req_send ''POST'' (''/api/tasks'' @ qs [(''projectId'', Some projectId)]) body"

definition api_taskUpdate :: "string \<Rightarrow> string \<Rightarrow> json \<Rightarrow> api_request" where
  "api_taskUpdate projectId taskId body =
     req_send ''PATCH'' (''/api/tasks'' @ qs [(''projectId'', Some projectId), 
       (''taskId'', Some taskId)]) body"

definition api_taskDelete :: "string \<Rightarrow> string \<Rightarrow> api_request" where
  "api_taskDelete projectId taskId =
     req_bare ''DELETE'' (''/api/tasks'' @ qs [(''projectId'', Some projectId), 
       (''taskId'', Some taskId)])"

definition api_myTasks :: "api_request" where
  "api_myTasks =
     req_get ''/api/tasks/mine''"

definition api_taskShift :: "string \<Rightarrow> string list \<Rightarrow> int \<Rightarrow> api_request" where
  "api_taskShift projectId taskIds days =
     req_send ''POST'' (''/api/tasks/shift'' @ 
       qs [(''projectId'', Some projectId)]) (JObj [(''taskIds'', jstrs taskIds), 
       (''days'', JNum days)])"

definition api_prodJobs :: "string \<Rightarrow> api_request" where
  "api_prodJobs projectId =
     req_get (''/api/production/jobs'' @ qs [(''projectId'', Some projectId)])"

definition api_prodJob :: "string \<Rightarrow> string \<Rightarrow> api_request" where
  "api_prodJob projectId jobId =
     req_get (''/api/production/job'' @ qs [(''projectId'', Some projectId), (''jobId'', Some jobId)])"

definition api_myProduction :: "api_request" where
  "api_myProduction =
     req_get ''/api/production/mine''"

definition api_prodJobCreate :: "string \<Rightarrow> json \<Rightarrow> api_request" where
  "api_prodJobCreate projectId body =
     req_send ''POST'' (''/api/production/jobs'' @ qs [(''projectId'', Some projectId)]) body"

definition api_prodJobDuplicate :: "string \<Rightarrow> string \<Rightarrow> string \<Rightarrow> string \<Rightarrow> api_request" where
  "api_prodJobDuplicate projectId jobId hubId projectName =
     req_send ''POST'' (''/api/production/jobs/duplicate'' @ qs [(''projectId'', Some projectId), 
       (''jobId'', Some jobId)]) (JObj [(''hubId'', JStr hubId), (''projectName'', JStr projectName)])"

definition api_prodJobUpdate :: "string \<Rightarrow> string \<Rightarrow> json \<Rightarrow> api_request" where
  "api_prodJobUpdate projectId jobId body =
     req_send ''PATCH'' (''/api/production/jobs'' @ qs [(''projectId'', Some projectId), 
       (''jobId'', Some jobId)]) body"

definition api_prodJobDelete :: "string \<Rightarrow> string \<Rightarrow> api_request" where
  "api_prodJobDelete projectId jobId =
     req_bare ''DELETE'' (''/api/production/jobs'' @ qs [(''projectId'', Some projectId), 
       (''jobId'', Some jobId)])"

definition api_prodStepCreate :: "string \<Rightarrow> string \<Rightarrow> json \<Rightarrow> api_request" where
  "api_prodStepCreate projectId jobId body =
     req_send ''POST'' (''/api/production/steps'' @ qs [(''projectId'', Some projectId), 
       (''jobId'', Some jobId)]) body"

definition api_prodStepUpdate :: "string \<Rightarrow> string \<Rightarrow> string \<Rightarrow> json \<Rightarrow> api_request" where
  "api_prodStepUpdate projectId jobId stepId body =
     req_send ''PATCH'' (''/api/production/steps'' @ qs [(''projectId'', Some projectId), 
       (''jobId'', Some jobId), (''stepId'', Some stepId)]) body"

definition api_prodStepDelete :: "string \<Rightarrow> string \<Rightarrow> string \<Rightarrow> api_request" where
  "api_prodStepDelete projectId jobId stepId =
     req_bare ''DELETE'' (''/api/production/steps'' @ qs [(''projectId'', Some projectId), 
       (''jobId'', Some jobId), (''stepId'', Some stepId)])"

definition api_prodEdgeCreate :: "string \<Rightarrow> string \<Rightarrow> string \<Rightarrow> string \<Rightarrow> string option \<Rightarrow> api_request" where
  "api_prodEdgeCreate projectId jobId source target fromResultId =
     req_send ''POST'' (''/api/production/edges'' @ qs [(''projectId'', Some projectId), 
       (''jobId'', Some jobId)]) (JObj [(''from'', JStr source), (''to'', JStr target), 
       (''fromResultId'', JStr (nullish fromResultId []))])"

definition api_prodEdgeDelete :: "string \<Rightarrow> string \<Rightarrow> string \<Rightarrow> api_request" where
  "api_prodEdgeDelete projectId jobId edgeId =
     req_bare ''DELETE'' (''/api/production/edges'' @ qs [(''projectId'', Some projectId), 
       (''jobId'', Some jobId), (''edgeId'', Some edgeId)])"

definition api_prodResultCreate :: "string \<Rightarrow> string \<Rightarrow> string \<Rightarrow> json \<Rightarrow> api_request" where
  "api_prodResultCreate projectId jobId stepId body =
     req_send ''POST'' (''/api/production/results'' @ qs [(''projectId'', Some projectId), 
       (''jobId'', Some jobId), (''stepId'', Some stepId)]) body"

definition api_prodResultUpdate :: "string \<Rightarrow> string \<Rightarrow> string \<Rightarrow> string \<Rightarrow> json \<Rightarrow> api_request" where
  "api_prodResultUpdate projectId jobId stepId resultId body =
     req_send ''PATCH'' (''/api/production/results'' @ qs [(''projectId'', Some projectId), 
       (''jobId'', Some jobId), (''stepId'', Some stepId), (''resultId'', Some resultId)]) body"

definition api_prodResultDelete :: "string \<Rightarrow> string \<Rightarrow> string \<Rightarrow> string \<Rightarrow> api_request" where
  "api_prodResultDelete projectId jobId stepId resultId =
     req_bare ''DELETE'' (''/api/production/results'' @ qs [(''projectId'', Some projectId), 
       (''jobId'', Some jobId), (''stepId'', Some stepId), (''resultId'', Some resultId)])"

definition api_prodPlaceholderCreate :: "string \<Rightarrow> string \<Rightarrow> string \<Rightarrow> json \<Rightarrow> api_request" where
  "api_prodPlaceholderCreate projectId jobId stepId body =
     req_send ''POST'' (''/api/production/placeholders'' @ qs [(''projectId'', Some projectId), 
       (''jobId'', Some jobId), (''stepId'', Some stepId)]) body"

definition api_prodPlaceholderUpdate :: "string \<Rightarrow> string \<Rightarrow> string \<Rightarrow> string \<Rightarrow> json \<Rightarrow> api_request" where
  "api_prodPlaceholderUpdate projectId jobId stepId placeholderId body =
     req_send ''PATCH'' (''/api/production/placeholders'' @ qs [(''projectId'', Some projectId), 
       (''jobId'', Some jobId), (''stepId'', Some stepId), 
       (''placeholderId'', Some placeholderId)]) body"

definition api_prodPlaceholderDelete :: "string \<Rightarrow> string \<Rightarrow> string \<Rightarrow> string \<Rightarrow> api_request" where
  "api_prodPlaceholderDelete projectId jobId stepId placeholderId =
     req_bare ''DELETE'' (''/api/production/placeholders'' @ qs [(''projectId'', Some projectId), 
       (''jobId'', Some jobId), (''stepId'', Some stepId), (''placeholderId'', Some placeholderId)])"

definition api_prodPlanDocCreate :: "string \<Rightarrow> string \<Rightarrow> string \<Rightarrow> json \<Rightarrow> api_request" where
  "api_prodPlanDocCreate projectId jobId stepId body =
     req_send ''POST'' (''/api/production/plandocs'' @ qs [(''projectId'', Some projectId), 
       (''jobId'', Some jobId), (''stepId'', Some stepId)]) body"

definition api_prodPlanDocDelete :: "string \<Rightarrow> string \<Rightarrow> string \<Rightarrow> string \<Rightarrow> api_request" where
  "api_prodPlanDocDelete projectId jobId stepId planDocId =
     req_bare ''DELETE'' (''/api/production/plandocs'' @ qs [(''projectId'', Some projectId), 
       (''jobId'', Some jobId), (''stepId'', Some stepId), (''planDocId'', Some planDocId)])"

definition api_prodBatchCreate :: "string \<Rightarrow> string \<Rightarrow> json \<Rightarrow> api_request" where
  "api_prodBatchCreate projectId jobId body =
     req_send ''POST'' (''/api/production/batches'' @ qs [(''projectId'', Some projectId), 
       (''jobId'', Some jobId)]) body"

definition api_prodBatchUpdate :: "string \<Rightarrow> string \<Rightarrow> string \<Rightarrow> json \<Rightarrow> api_request" where
  "api_prodBatchUpdate projectId jobId batchId body =
     req_send ''PATCH'' (''/api/production/batches'' @ qs [(''projectId'', Some projectId), 
       (''jobId'', Some jobId), (''batchId'', Some batchId)]) body"

definition api_prodBatchDelete :: "string \<Rightarrow> string \<Rightarrow> string \<Rightarrow> api_request" where
  "api_prodBatchDelete projectId jobId batchId =
     req_bare ''DELETE'' (''/api/production/batches'' @ qs [(''projectId'', Some projectId), 
       (''jobId'', Some jobId), (''batchId'', Some batchId)])"

definition api_prodFulfillmentCreate :: "string \<Rightarrow> string \<Rightarrow> string \<Rightarrow> json \<Rightarrow> api_request" where
  "api_prodFulfillmentCreate projectId jobId batchId body =
     req_send ''POST'' (''/api/production/fulfillments'' @ qs [(''projectId'', Some projectId), 
       (''jobId'', Some jobId), (''batchId'', Some batchId)]) body"

definition api_prodFulfillmentDelete :: "string \<Rightarrow> string \<Rightarrow> string \<Rightarrow> string \<Rightarrow> api_request" where
  "api_prodFulfillmentDelete projectId jobId batchId fulfillmentId =
     req_bare ''DELETE'' (''/api/production/fulfillments'' @ qs [(''projectId'', Some projectId), 
       (''jobId'', Some jobId), (''batchId'', Some batchId), (''fulfillmentId'', Some fulfillmentId)])"

definition api_prodBatchRefAdd :: "string \<Rightarrow> string \<Rightarrow> string \<Rightarrow> string \<Rightarrow> api_request" where
  "api_prodBatchRefAdd projectId jobId batchId token =
     req_send ''POST'' (''/api/production/batchrefs'' @ qs [(''projectId'', Some projectId), 
       (''jobId'', Some jobId), (''batchId'', Some batchId)]) (JObj [(''token'', JStr token)])"

definition api_prodBatchRefDelete :: "string \<Rightarrow> string \<Rightarrow> string \<Rightarrow> string \<Rightarrow> api_request" where
  "api_prodBatchRefDelete projectId jobId batchId token =
     req_bare ''DELETE'' (''/api/production/batchrefs'' @ qs [(''projectId'', Some projectId), 
       (''jobId'', Some jobId), (''batchId'', Some batchId), (''token'', Some token)])"

definition api_prodBatchStepHide :: "string \<Rightarrow> string \<Rightarrow> string \<Rightarrow> string \<Rightarrow> api_request" where
  "api_prodBatchStepHide projectId jobId batchId stepId =
     req_send ''POST'' (''/api/production/batchhidden'' @ qs [(''projectId'', Some projectId), 
       (''jobId'', Some jobId), (''batchId'', Some batchId)]) (JObj [(''stepId'', JStr stepId)])"

definition api_prodBatchStepShow :: "string \<Rightarrow> string \<Rightarrow> string \<Rightarrow> string \<Rightarrow> api_request" where
  "api_prodBatchStepShow projectId jobId batchId stepId =
     req_bare ''DELETE'' (''/api/production/batchhidden'' @ qs [(''projectId'', Some projectId), 
       (''jobId'', Some jobId), (''batchId'', Some batchId), (''stepId'', Some stepId)])"

subsection \<open>Whiteboards and the wiki\<close>

definition api_whiteboards :: "string \<Rightarrow> api_request" where
  "api_whiteboards projectId =
     req_get (''/api/whiteboards'' @ qs [(''projectId'', Some projectId)])"

definition api_whiteboardCreate :: "string \<Rightarrow> json \<Rightarrow> api_request" where
  "api_whiteboardCreate projectId body =
     req_send ''POST'' (''/api/whiteboards'' @ qs [(''projectId'', Some projectId)]) body"

definition api_whiteboardUpdate :: "string \<Rightarrow> string \<Rightarrow> json \<Rightarrow> api_request" where
  "api_whiteboardUpdate projectId boardId body =
     req_send ''PATCH'' (''/api/whiteboards'' @ qs [(''projectId'', Some projectId), 
       (''boardId'', Some boardId)]) body"

definition api_whiteboardDelete :: "string \<Rightarrow> string \<Rightarrow> api_request" where
  "api_whiteboardDelete projectId boardId =
     req_bare ''DELETE'' (''/api/whiteboards'' @ qs [(''projectId'', Some projectId), 
       (''boardId'', Some boardId)])"

definition api_whiteboardDoc :: "string \<Rightarrow> string \<Rightarrow> api_request" where
  "api_whiteboardDoc projectId boardId =
     req_get (''/api/whiteboards/doc'' @ qs [(''projectId'', Some projectId), 
       (''boardId'', Some boardId)])"

definition api_whiteboardDocSave :: "string \<Rightarrow> string \<Rightarrow> json \<Rightarrow> int \<Rightarrow> bool option \<Rightarrow> api_request" where
  "api_whiteboardDocSave projectId boardId doc baseRev force =
     req_send ''PUT'' (''/api/whiteboards/doc'' @ qs [(''projectId'', Some projectId), 
       (''boardId'', Some boardId), (''baseRev'', Some (show_int baseRev)), 
       (''force'', flag force ''1'')]) doc"

definition api_whiteboardPatch :: "string \<Rightarrow> string \<Rightarrow> string \<Rightarrow> int \<Rightarrow> int \<Rightarrow> ((string \<times> json) list) \<Rightarrow> string list \<Rightarrow> api_request" where
  "api_whiteboardPatch projectId boardId clientId seq baseRev put remove =
     req_send ''POST'' (''/api/whiteboards/patch'' @ qs [(''projectId'', Some projectId), 
       (''boardId'', Some boardId)]) (JObj [(''clientId'', JStr clientId), (''seq'', JNum seq), 
       (''baseRev'', JNum baseRev), (''put'', JObj put), (''remove'', jstrs remove)])"

definition api_wikiPages :: "string \<Rightarrow> string \<Rightarrow> request_opts \<Rightarrow> api_request" where
  "api_wikiPages hubId dmProjectId opts =
     req_get_opts (''/api/wiki/pages'' @ qs [(''hubId'', Some hubId), 
       (''dmProjectId'', Some dmProjectId)]) opts"

definition api_wikiPage :: "string \<Rightarrow> string \<Rightarrow> string option \<Rightarrow> request_opts \<Rightarrow> api_request" where
  "api_wikiPage dmProjectId itemId versionId opts =
     req_get_opts (''/api/wiki/page'' @ qs [(''dmProjectId'', Some dmProjectId), 
       (''itemId'', Some itemId), (''versionId'', versionId)]) opts"

definition api_wikiVersions :: "string \<Rightarrow> string \<Rightarrow> request_opts \<Rightarrow> api_request" where
  "api_wikiVersions dmProjectId itemId opts =
     req_get_opts (''/api/wiki/versions'' @ qs [(''dmProjectId'', Some dmProjectId), 
       (''itemId'', Some itemId)]) opts"

definition api_wikiRestore :: "string \<Rightarrow> string \<Rightarrow> string \<Rightarrow> string \<Rightarrow> string option \<Rightarrow> bool option \<Rightarrow> api_request" where
  "api_wikiRestore hubId dmProjectId itemId versionId baseVersion force =
     req_send ''POST'' ''/api/wiki/restore'' (jobj [(''hubId'', Some (JStr hubId)), 
       (''dmProjectId'', Some (JStr dmProjectId)), (''itemId'', Some (JStr itemId)), 
       (''versionId'', Some (JStr versionId)), (''baseVersion'', map_option JStr baseVersion), 
       (''force'', map_option JBool force)])"

definition api_wikiPublish :: "string \<Rightarrow> string \<Rightarrow> string option \<Rightarrow> string \<Rightarrow> string \<Rightarrow> string option \<Rightarrow> bool option \<Rightarrow> api_request" where
  "api_wikiPublish hubId dmProjectId itemId slug markdown baseVersion force =
     req_send ''POST'' ''/api/wiki/publish'' (jobj [(''hubId'', Some (JStr hubId)), 
       (''dmProjectId'', Some (JStr dmProjectId)), (''itemId'', map_option JStr itemId), 
       (''slug'', Some (JStr slug)), (''markdown'', Some (JStr markdown)), 
       (''baseVersion'', map_option JStr baseVersion), (''force'', map_option JBool force)])"

definition api_wikiUploadImage :: "string \<Rightarrow> string \<Rightarrow> string \<Rightarrow> string \<Rightarrow> api_request" where
  "api_wikiUploadImage hubId dmProjectId slug file =
     request_prio ''/api/wiki/image'' ''POST'' (FormBody [(''hubId'', FText hubId), 
       (''dmProjectId'', FText dmProjectId), (''slug'', FText slug), (''file'', FFile file)]) None"

definition api_wikiRename :: "string \<Rightarrow> string \<Rightarrow> string \<Rightarrow> string \<Rightarrow> string \<Rightarrow> api_request" where
  "api_wikiRename hubId dmProjectId itemId oldSlug newSlug =
     req_send ''POST'' ''/api/wiki/rename'' (JObj [(''hubId'', JStr hubId), 
       (''dmProjectId'', JStr dmProjectId), (''itemId'', JStr itemId), (''oldSlug'', JStr oldSlug), 
       (''newSlug'', JStr newSlug)])"

definition api_wikiImageUrl :: "string \<Rightarrow> string \<Rightarrow> string" where
  "api_wikiImageUrl dmProjectId itemId =
     ''/api/wiki/image'' @ qs [(''dmProjectId'', Some dmProjectId), (''itemId'', Some itemId)]"

subsection \<open>Uploads, archives, desktop actions, notifications and pins\<close>

definition api_uploads :: "api_request" where
  "api_uploads =
     req_get ''/api/uploads''"

definition api_uploadFile ::
    "string \<Rightarrow> string \<Rightarrow> string option \<Rightarrow> string option \<Rightarrow> string list \<Rightarrow> bool option \<Rightarrow> string \<Rightarrow> api_request" where
  "api_uploadFile hubId dmProjectId projectId folderId folderPath ensureFolders file =
     request_prio ''/api/uploads'' ''POST'' (FormBody
       ([(''hubId'', FText hubId), (''dmProjectId'', FText dmProjectId)] @
        (if truthy projectId then [(''projectId'', FText (the projectId))] else []) @
        (if truthy folderId then [(''folderId'', FText (the folderId))] else []) @
        [(''folderPath'', FJson (jstrs folderPath))] @
        (if ensureFolders = Some True then [(''ensureFolders'', FText ''true'')] else []) @
        [(''file'', FFile file)])) None"

definition api_cancelUpload :: "string \<Rightarrow> api_request" where
  "api_cancelUpload jobId =
     req_bare ''POST'' (''/api/uploads/cancel'' @ qs [(''id'', Some jobId)])"

definition api_dismissUploads :: "string option \<Rightarrow> api_request" where
  "api_dismissUploads jobId =
     req_bare ''POST'' (''/api/uploads/dismiss'' @ qs [(''id'', jobId)])"

definition api_archives :: "api_request" where
  "api_archives =
     req_get ''/api/archives''"

definition api_createArchive :: "string \<Rightarrow> string \<Rightarrow> string option \<Rightarrow> string option \<Rightarrow> string \<Rightarrow> string option \<Rightarrow> string option \<Rightarrow> api_request" where
  "api_createArchive hubId dmProjectId projectId projectName itemId versionId name =
     req_send ''POST'' ''/api/archives'' (jobj [(''hubId'', Some (JStr hubId)), 
       (''dmProjectId'', Some (JStr dmProjectId)), (''projectId'', map_option JStr projectId), 
       (''projectName'', map_option JStr projectName), (''itemId'', Some (JStr itemId)), 
       (''versionId'', map_option JStr versionId), (''name'', map_option JStr name)])"

definition api_cancelArchive :: "string \<Rightarrow> api_request" where
  "api_cancelArchive jobId =
     req_bare ''POST'' (''/api/archives/cancel'' @ qs [(''id'', Some jobId)])"

definition api_dismissArchives :: "string option \<Rightarrow> api_request" where
  "api_dismissArchives jobId =
     req_bare ''POST'' (''/api/archives/dismiss'' @ qs [(''id'', jobId)])"

definition api_archiveDownloadUrl :: "string \<Rightarrow> string" where
  "api_archiveDownloadUrl jobId =
     ''/api/archives/file'' @ qs [(''id'', Some jobId)]"

definition api_fusionAction :: "string \<Rightarrow> string \<Rightarrow> string option \<Rightarrow> string option \<Rightarrow> string \<Rightarrow> string option \<Rightarrow> string \<Rightarrow> api_request" where
  "api_fusionAction hubId dmProjectId projectId projectName itemId name action =
     req_send ''POST'' ''/api/fusion/action'' (jobj [(''hubId'', Some (JStr hubId)), 
       (''dmProjectId'', Some (JStr dmProjectId)), (''projectId'', map_option JStr projectId), 
       (''projectName'', map_option JStr projectName), (''itemId'', Some (JStr itemId)), 
       (''name'', map_option JStr name), (''action'', Some (JStr action))])"

definition api_fusionOutcome :: "string \<Rightarrow> api_request" where
  "api_fusionOutcome ticket =
     req_get (''/api/fusion/outcome'' @ qs [(''ticket'', Some ticket)])"

definition api_notifications :: "api_request" where
  "api_notifications =
     req_get ''/api/notifications''"

definition api_notifMarkRead :: "string list \<Rightarrow> api_request" where
  "api_notifMarkRead ids =
     req_send ''PATCH'' ''/api/notifications/read'' (JObj [(''ids'', jstrs ids)])"

definition api_notifMarkAllRead :: "api_request" where
  "api_notifMarkAllRead =
     req_bare ''POST'' ''/api/notifications/readall''"

definition api_notifDismiss :: "string \<Rightarrow> api_request" where
  "api_notifDismiss notifId =
     req_bare ''DELETE'' (''/api/notifications'' @ qs [(''id'', Some notifId)])"

definition api_pins :: "string \<Rightarrow> api_request" where
  "api_pins hubId =
     req_get (''/api/pins'' @ qs [(''hubId'', Some hubId)])"

definition api_addPin :: "string \<Rightarrow> json \<Rightarrow> api_request" where
  "api_addPin hubId pin =
     req_send ''POST'' (''/api/pins'' @ qs [(''hubId'', Some hubId)]) pin"

definition api_removePin :: "string \<Rightarrow> string \<Rightarrow> api_request" where
  "api_removePin hubId pinId =
     req_bare ''DELETE'' (''/api/pins'' @ qs [(''hubId'', Some hubId), (''id'', Some pinId)])"

subsection \<open>All requests of the client\<close>

inductive_set client_requests :: "api_request set" where
  meta_sent: "api_meta \<in> client_requests"
| authMe_sent: "api_authMe \<in> client_requests"
| logout_sent: "api_logout \<in> client_requests"
| sessionHub_sent: "api_sessionHub hubId \<in> client_requests"
| resolveProject_sent: "api_resolveProject dmHubId dmProjectId \<in> client_requests"
| adminStatus_sent: "api_adminStatus \<in> client_requests"
| adminLogTail_sent: "api_adminLogTail tailBytes \<in> client_requests"
| adminBackups_sent: "api_adminBackups \<in> client_requests"
| adminBackupRun_sent: "api_adminBackupRun \<in> client_requests"
| adminBackupConfig_sent: "api_adminBackupConfig \<in> client_requests"
| adminBackupConfigSet_sent: "api_adminBackupConfigSet cfg \<in> client_requests"
| adminBackupVerify_sent: "api_adminBackupVerify path \<in> client_requests"
| adminBackupRestore_sent: "api_adminBackupRestore path confirm \<in> client_requests"
| adminFsDirs_sent: "api_adminFsDirs path \<in> client_requests"
| adminDisk_sent: "api_adminDisk \<in> client_requests"
| adminProjectDataDelete_sent: "api_adminProjectDataDelete projectId apps \<in> client_requests"
| adminCleanup_sent: "api_adminCleanup \<in> client_requests"
| setPort_sent: "api_setPort port \<in> client_requests"
| logoUrl_sent: "req_get (api_logoUrl version) \<in> client_requests"
| uploadLogo_sent: "api_uploadLogo file \<in> client_requests"
| deleteLogo_sent: "api_deleteLogo \<in> client_requests"
| hubs_sent: "api_hubs opts \<in> client_requests"
| quota_sent: "api_quota \<in> client_requests"
| projects_sent: "api_projects hubId opts \<in> client_requests"
| projectContents_sent: "api_projectContents projectId opts \<in> client_requests"
| folderContents_sent: "api_folderContents hubId folderId opts \<in> client_requests"
| browseContents_sent: "api_browseContents hubId dmProjectId folderId opts \<in> client_requests"
| itemDetails_sent: "api_itemDetails hubId itemId opts \<in> client_requests"
| itemSummary_sent: "api_itemSummary hubId itemId opts \<in> client_requests"
| itemHistory_sent: "api_itemHistory hubId itemId opts \<in> client_requests"
| itemLocation_sent: "api_itemLocation hubId itemId opts \<in> client_requests"
| fileUrl_sent: "req_get (api_fileUrl dmProjectId itemId name) \<in> client_requests"
| downloadUrl_sent: "req_get (api_downloadUrl dmProjectId itemId name) \<in> client_requests"
| uses_sent: "api_uses cvId hubId drawingItemId opts \<in> client_requests"
| descendants_sent: "api_descendants cvId opts \<in> client_requests"
| whereUsed_sent: "api_whereUsed cvId opts \<in> client_requests"
| drawings_sent: "api_drawings hubId designItemId opts \<in> client_requests"
| localRefs_sent: "api_localRefs itemId sources opts \<in> client_requests"
| bom_sent: "api_bom cvId opts \<in> client_requests"
| projectGroups_sent: "api_projectGroups projectId opts \<in> client_requests"
| groupMembers_sent: "api_groupMembers hubId groupId opts \<in> client_requests"
| classify_sent: "api_classify cvId opts \<in> client_requests"
| thumbnail_sent: "api_thumbnail cvId opts \<in> client_requests"
| properties_sent: "api_properties cvId opts \<in> client_requests"
| customProperties_sent: "api_customProperties cvId opts \<in> client_requests"
| designActivity_sent: "api_designActivity hubId itemId bucket opts \<in> client_requests"
| rollupActivity_sent: "api_rollupActivity hubId itemId childItemIds all opts \<in> client_requests"
| hubOverview_sent: "api_hubOverview opts \<in> client_requests"
| permissionsPath_sent: "api_permissionsPath hubId projectId projectName folders layers opts \<in> client_requests"
| chatChannels_sent: "api_chatChannels projectId \<in> client_requests"
| chatMembers_sent: "api_chatMembers projectId \<in> client_requests"
| chatUpdateChannel_sent: "api_chatUpdateChannel projectId channelId name topic \<in> client_requests"
| chatArchiveChannel_sent: "api_chatArchiveChannel projectId channelId \<in> client_requests"
| chatAddChannelMember_sent: "api_chatAddChannelMember projectId channelId userId \<in> client_requests"
| chatRemoveChannelMember_sent: "api_chatRemoveChannelMember projectId channelId userId \<in> client_requests"
| chatCreateChannel_sent: "api_chatCreateChannel projectId name topic isPrivate memberIds \<in> client_requests"
| chatMessages_sent: "api_chatMessages projectId channelId beforeSeq afterSeq limit \<in> client_requests"
| chatSend_sent: "api_chatSend projectId channelId body clientMsgId threadRootSeq \<in> client_requests"
| chatEditMessage_sent: "api_chatEditMessage projectId channelId seq body \<in> client_requests"
| chatDeleteMessage_sent: "api_chatDeleteMessage projectId channelId seq \<in> client_requests"
| chatThread_sent: "api_chatThread projectId channelId rootSeq \<in> client_requests"
| chatReact_sent: "api_chatReact projectId channelId seq emoji \<in> client_requests"
| chatUnreact_sent: "api_chatUnreact projectId channelId seq emoji \<in> client_requests"
| chatUnreads_sent: "api_chatUnreads projectId \<in> client_requests"
| chatMarkRead_sent: "api_chatMarkRead projectId channelId lastReadSeq \<in> client_requests"
| chatTyping_sent: "api_chatTyping projectId channelId \<in> client_requests"
| chatUploadImage_sent: "api_chatUploadImage projectId hubId dmProjectId file \<in> client_requests"
| tasks_sent: "api_tasks projectId \<in> client_requests"
| taskGet_sent: "api_taskGet projectId taskId \<in> client_requests"
| taskCreate_sent: "api_taskCreate projectId body \<in> client_requests"
| taskUpdate_sent: "api_taskUpdate projectId taskId body \<in> client_requests"
| taskDelete_sent: "api_taskDelete projectId taskId \<in> client_requests"
| myTasks_sent: "api_myTasks \<in> client_requests"
| taskShift_sent: "api_taskShift projectId taskIds days \<in> client_requests"
| prodJobs_sent: "api_prodJobs projectId \<in> client_requests"
| prodJob_sent: "api_prodJob projectId jobId \<in> client_requests"
| myProduction_sent: "api_myProduction \<in> client_requests"
| prodJobCreate_sent: "api_prodJobCreate projectId body \<in> client_requests"
| prodJobDuplicate_sent: "api_prodJobDuplicate projectId jobId hubId projectName \<in> client_requests"
| prodJobUpdate_sent: "api_prodJobUpdate projectId jobId body \<in> client_requests"
| prodJobDelete_sent: "api_prodJobDelete projectId jobId \<in> client_requests"
| prodStepCreate_sent: "api_prodStepCreate projectId jobId body \<in> client_requests"
| prodStepUpdate_sent: "api_prodStepUpdate projectId jobId stepId body \<in> client_requests"
| prodStepDelete_sent: "api_prodStepDelete projectId jobId stepId \<in> client_requests"
| prodEdgeCreate_sent: "api_prodEdgeCreate projectId jobId source target fromResultId \<in> client_requests"
| prodEdgeDelete_sent: "api_prodEdgeDelete projectId jobId edgeId \<in> client_requests"
| prodResultCreate_sent: "api_prodResultCreate projectId jobId stepId body \<in> client_requests"
| prodResultUpdate_sent: "api_prodResultUpdate projectId jobId stepId resultId body \<in> client_requests"
| prodResultDelete_sent: "api_prodResultDelete projectId jobId stepId resultId \<in> client_requests"
| prodPlaceholderCreate_sent: "api_prodPlaceholderCreate projectId jobId stepId body \<in> client_requests"
| prodPlaceholderUpdate_sent: "api_prodPlaceholderUpdate projectId jobId stepId placeholderId body \<in> client_requests"
| prodPlaceholderDelete_sent: "api_prodPlaceholderDelete projectId jobId stepId placeholderId \<in> client_requests"
| prodPlanDocCreate_sent: "api_prodPlanDocCreate projectId jobId stepId body \<in> client_requests"
| prodPlanDocDelete_sent: "api_prodPlanDocDelete projectId jobId stepId planDocId \<in> client_requests"
| prodBatchCreate_sent: "api_prodBatchCreate projectId jobId body \<in> client_requests"
| prodBatchUpdate_sent: "api_prodBatchUpdate projectId jobId batchId body \<in> client_requests"
| prodBatchDelete_sent: "api_prodBatchDelete projectId jobId batchId \<in> client_requests"
| prodFulfillmentCreate_sent: "api_prodFulfillmentCreate projectId jobId batchId body \<in> client_requests"
| prodFulfillmentDelete_sent: "api_prodFulfillmentDelete projectId jobId batchId fulfillmentId \<in> client_requests"
| prodBatchRefAdd_sent: "api_prodBatchRefAdd projectId jobId batchId token \<in> client_requests"
| prodBatchRefDelete_sent: "api_prodBatchRefDelete projectId jobId batchId token \<in> client_requests"
| prodBatchStepHide_sent: "api_prodBatchStepHide projectId jobId batchId stepId \<in> client_requests"
| prodBatchStepShow_sent: "api_prodBatchStepShow projectId jobId batchId stepId \<in> client_requests"
| whiteboards_sent: "api_whiteboards projectId \<in> client_requests"
| whiteboardCreate_sent: "api_whiteboardCreate projectId body \<in> client_requests"
| whiteboardUpdate_sent: "api_whiteboardUpdate projectId boardId body \<in> client_requests"
| whiteboardDelete_sent: "api_whiteboardDelete projectId boardId \<in> client_requests"
| whiteboardDoc_sent: "api_whiteboardDoc projectId boardId \<in> client_requests"
| whiteboardDocSave_sent: "api_whiteboardDocSave projectId boardId doc baseRev force \<in> client_requests"
| whiteboardPatch_sent: "api_whiteboardPatch projectId boardId clientId seq baseRev put remove \<in> client_requests"
| wikiPages_sent: "api_wikiPages hubId dmProjectId opts \<in> client_requests"
| wikiPage_sent: "api_wikiPage dmProjectId itemId versionId opts \<in> client_requests"
| wikiVersions_sent: "api_wikiVersions dmProjectId itemId opts \<in> client_requests"
| wikiRestore_sent: "api_wikiRestore hubId dmProjectId itemId versionId baseVersion force \<in> client_requests"
| wikiPublish_sent: "api_wikiPublish hubId dmProjectId itemId slug markdown baseVersion force \<in> client_requests"
| wikiUploadImage_sent: "api_wikiUploadImage hubId dmProjectId slug file \<in> client_requests"
| wikiRename_sent: "api_wikiRename hubId dmProjectId itemId oldSlug newSlug \<in> client_requests"
| wikiImageUrl_sent: "req_get (api_wikiImageUrl dmProjectId itemId) \<in> client_requests"
| uploads_sent: "api_uploads \<in> client_requests"
| uploadFile_sent: "api_uploadFile hubId dmProjectId projectId folderId folderPath ensureFolders file \<in> client_requests"
| cancelUpload_sent: "api_cancelUpload jobId \<in> client_requests"
| dismissUploads_sent: "api_dismissUploads jobId \<in> client_requests"
| archives_sent: "api_archives \<in> client_requests"
| createArchive_sent: "api_createArchive hubId dmProjectId projectId projectName itemId versionId name \<in> client_requests"
| cancelArchive_sent: "api_cancelArchive jobId \<in> client_requests"
| dismissArchives_sent: "api_dismissArchives jobId \<in> client_requests"
| archiveDownloadUrl_sent: "req_get (api_archiveDownloadUrl jobId) \<in> client_requests"
| fusionAction_sent: "api_fusionAction hubId dmProjectId projectId projectName itemId name action \<in> client_requests"
| fusionOutcome_sent: "api_fusionOutcome ticket \<in> client_requests"
| notifications_sent: "api_notifications \<in> client_requests"
| notifMarkRead_sent: "api_notifMarkRead ids \<in> client_requests"
| notifMarkAllRead_sent: "api_notifMarkAllRead \<in> client_requests"
| notifDismiss_sent: "api_notifDismiss notifId \<in> client_requests"
| pins_sent: "api_pins hubId \<in> client_requests"
| addPin_sent: "api_addPin hubId pin \<in> client_requests"
| removePin_sent: "api_removePin hubId pinId \<in> client_requests"

subsection \<open>The route table\<close>

text \<open>The method-qualified patterns of \<open>routes\<close>; none has a wildcard, so a request matches by equality.\<close>

definition SERVER_ROUTES :: "(string \<times> string) list" where
  "SERVER_ROUTES = [
     (''GET'', ''/api/meta''),
     (''GET'', ''/api/auth/login''),
     (''GET'', ''/api/auth/callback''),
     (''GET'', ''/api/auth/me''),
     (''POST'', ''/api/auth/logout''),
     (''GET'', ''/api/branding/logo''),
     (''GET'', ''/api/fusion/ticket''),
     (''POST'', ''/api/fusion/callback''),
     (''POST'', ''/api/session/hub''),
     (''GET'', ''/api/resolve/project''),
     (''GET'', ''/api/hubs''),
     (''GET'', ''/api/quota''),
     (''GET'', ''/api/projects''),
     (''GET'', ''/api/projects/contents''),
     (''GET'', ''/api/folders/contents''),
     (''GET'', ''/api/browse/contents''),
     (''GET'', ''/api/items/details''),
     (''GET'', ''/api/items/summary''),
     (''GET'', ''/api/items/history''),
     (''GET'', ''/api/items/location''),
     (''GET'', ''/api/items/file''),
     (''GET'', ''/api/items/uses''),
     (''GET'', ''/api/items/descendants''),
     (''GET'', ''/api/items/where-used''),
     (''GET'', ''/api/items/drawings''),
     (''GET'', ''/api/items/bom''),
     (''GET'', ''/api/items/local-refs''),
     (''GET'', ''/api/projects/groups''),
     (''GET'', ''/api/permissions/path''),
     (''GET'', ''/api/groups/members''),
     (''GET'', ''/api/items/classify''),
     (''GET'', ''/api/items/thumbnail''),
     (''GET'', ''/api/items/thumbnail/image''),
     (''GET'', ''/api/items/drawing/preview''),
     (''GET'', ''/api/items/properties''),
     (''GET'', ''/api/items/custom-properties''),
     (''GET'', ''/api/activity/report''),
     (''POST'', ''/api/activity/rollup''),
     (''GET'', ''/api/hub/overview''),
     (''POST'', ''/api/settings/port''),
     (''POST'', ''/api/branding/logo''),
     (''DELETE'', ''/api/branding/logo''),
     (''GET'', ''/api/debug/version-probe''),
     (''GET'', ''/api/debug/history-probe''),
     (''GET'', ''/api/debug/quota-costs''),
     (''GET'', ''/api/chat/events''),
     (''POST'', ''/api/chat/image''),
     (''GET'', ''/api/chat/channels''),
     (''POST'', ''/api/chat/channels''),
     (''PATCH'', ''/api/chat/channels''),
     (''DELETE'', ''/api/chat/channels''),
     (''POST'', ''/api/chat/channels/members''),
     (''DELETE'', ''/api/chat/channels/members''),
     (''GET'', ''/api/chat/messages''),
     (''POST'', ''/api/chat/messages''),
     (''PATCH'', ''/api/chat/messages''),
     (''DELETE'', ''/api/chat/messages''),
     (''GET'', ''/api/chat/thread''),
     (''POST'', ''/api/chat/reactions''),
     (''DELETE'', ''/api/chat/reactions''),
     (''PATCH'', ''/api/chat/read''),
     (''GET'', ''/api/chat/unreads''),
     (''POST'', ''/api/chat/typing''),
     (''GET'', ''/api/chat/members''),
     (''GET'', ''/api/tasks''),
     (''POST'', ''/api/tasks''),
     (''PATCH'', ''/api/tasks''),
     (''DELETE'', ''/api/tasks''),
     (''GET'', ''/api/tasks/get''),
     (''GET'', ''/api/tasks/mine''),
     (''POST'', ''/api/tasks/shift''),
     (''GET'', ''/api/admin/status''),
     (''GET'', ''/api/admin/log''),
     (''GET'', ''/api/admin/backups''),
     (''POST'', ''/api/admin/backups/run''),
     (''GET'', ''/api/admin/backups/config''),
     (''POST'', ''/api/admin/backups/config''),
     (''POST'', ''/api/admin/backups/verify''),
     (''POST'', ''/api/admin/backups/restore''),
     (''GET'', ''/api/admin/fs/dirs''),
     (''GET'', ''/api/admin/disk''),
     (''DELETE'', ''/api/admin/projects/data''),
     (''POST'', ''/api/admin/cleanup''),
     (''GET'', ''/api/production/jobs''),
     (''POST'', ''/api/production/jobs''),
     (''POST'', ''/api/production/jobs/duplicate''),
     (''PATCH'', ''/api/production/jobs''),
     (''DELETE'', ''/api/production/jobs''),
     (''GET'', ''/api/production/job''),
     (''GET'', ''/api/production/mine''),
     (''POST'', ''/api/production/steps''),
     (''PATCH'', ''/api/production/steps''),
     (''DELETE'', ''/api/production/steps''),
     (''POST'', ''/api/production/edges''),
     (''DELETE'', ''/api/production/edges''),
     (''POST'', ''/api/production/results''),
     (''PATCH'', ''/api/production/results''),
     (''DELETE'', ''/api/production/results''),
     (''POST'', ''/api/production/placeholders''),
     (''PATCH'', ''/api/production/placeholders''),
     (''DELETE'', ''/api/production/placeholders''),
     (''POST'', ''/api/production/plandocs''),
     (''DELETE'', ''/api/production/plandocs''),
     (''POST'', ''/api/production/batches''),
     (''GET'', ''/api/production/batch''),
     (''PATCH'', ''/api/production/batches''),
     (''DELETE'', ''/api/production/batches''),
     (''POST'', ''/api/production/fulfillments''),
     (''DELETE'', ''/api/production/fulfillments''),
     (''GET'', ''/api/whiteboards''),
     (''POST'', ''/api/whiteboards''),
     (''PATCH'', ''/api/whiteboards''),
     (''DELETE'', ''/api/whiteboards''),
     (''GET'', ''/api/whiteboards/events''),
     (''POST'', ''/api/whiteboards/patch''),
     (''GET'', ''/api/whiteboards/doc''),
     (''PUT'', ''/api/whiteboards/doc''),
     (''POST'', ''/api/production/batchrefs''),
     (''DELETE'', ''/api/production/batchrefs''),
     (''POST'', ''/api/production/batchhidden''),
     (''DELETE'', ''/api/production/batchhidden''),
     (''GET'', ''/api/notifications''),
     (''PATCH'', ''/api/notifications/read''),
     (''POST'', ''/api/notifications/readall''),
     (''DELETE'', ''/api/notifications''),
     (''GET'', ''/api/pins''),
     (''POST'', ''/api/pins''),
     (''DELETE'', ''/api/pins''),
     (''POST'', ''/api/uploads''),
     (''GET'', ''/api/uploads''),
     (''POST'', ''/api/uploads/cancel''),
     (''POST'', ''/api/uploads/dismiss''),
     (''POST'', ''/api/archives''),
     (''GET'', ''/api/archives''),
     (''POST'', ''/api/archives/cancel''),
     (''POST'', ''/api/archives/dismiss''),
     (''GET'', ''/api/archives/file''),
     (''POST'', ''/api/fusion/action''),
     (''GET'', ''/api/fusion/outcome''),
     (''GET'', ''/api/wiki/pages''),
     (''GET'', ''/api/wiki/page''),
     (''GET'', ''/api/wiki/versions''),
     (''POST'', ''/api/wiki/publish''),
     (''POST'', ''/api/wiki/restore''),
     (''POST'', ''/api/wiki/rename''),
     (''POST'', ''/api/wiki/image''),
     (''GET'', ''/api/wiki/image'')]"

lemmas api_defs = api_meta_def api_authMe_def api_logout_def api_sessionHub_def api_resolveProject_def api_adminStatus_def api_adminLogTail_def api_adminBackups_def api_adminBackupRun_def api_adminBackupConfig_def api_adminBackupConfigSet_def api_adminBackupVerify_def api_adminBackupRestore_def api_adminFsDirs_def api_adminDisk_def api_adminProjectDataDelete_def api_adminCleanup_def api_setPort_def api_logoUrl_def api_uploadLogo_def api_deleteLogo_def api_hubs_def api_quota_def api_projects_def api_projectContents_def api_folderContents_def api_browseContents_def api_itemDetails_def api_itemSummary_def api_itemHistory_def api_itemLocation_def api_fileUrl_def api_downloadUrl_def api_uses_def api_descendants_def api_whereUsed_def api_drawings_def api_localRefs_def api_bom_def api_projectGroups_def api_groupMembers_def api_classify_def api_thumbnail_def api_properties_def api_customProperties_def api_designActivity_def api_hubOverview_def api_chatChannels_def api_chatMembers_def api_chatUpdateChannel_def api_chatArchiveChannel_def api_chatAddChannelMember_def api_chatRemoveChannelMember_def api_chatCreateChannel_def api_chatMessages_def api_chatSend_def api_chatEditMessage_def api_chatDeleteMessage_def api_chatThread_def api_chatReact_def api_chatUnreact_def api_chatUnreads_def api_chatMarkRead_def api_chatTyping_def api_chatUploadImage_def api_tasks_def api_taskGet_def api_taskCreate_def api_taskUpdate_def api_taskDelete_def api_myTasks_def api_taskShift_def api_prodJobs_def api_prodJob_def api_myProduction_def api_prodJobCreate_def api_prodJobDuplicate_def api_prodJobUpdate_def api_prodJobDelete_def api_prodStepCreate_def api_prodStepUpdate_def api_prodStepDelete_def api_prodEdgeCreate_def api_prodEdgeDelete_def api_prodResultCreate_def api_prodResultUpdate_def api_prodResultDelete_def api_prodPlaceholderCreate_def api_prodPlaceholderUpdate_def api_prodPlaceholderDelete_def api_prodPlanDocCreate_def api_prodPlanDocDelete_def api_prodBatchCreate_def api_prodBatchUpdate_def api_prodBatchDelete_def api_prodFulfillmentCreate_def api_prodFulfillmentDelete_def api_prodBatchRefAdd_def api_prodBatchRefDelete_def api_prodBatchStepHide_def api_prodBatchStepShow_def api_whiteboards_def api_whiteboardCreate_def api_whiteboardUpdate_def api_whiteboardDelete_def api_whiteboardDoc_def api_whiteboardDocSave_def api_whiteboardPatch_def api_wikiPages_def api_wikiPage_def api_wikiVersions_def api_wikiRestore_def api_wikiPublish_def api_wikiUploadImage_def api_wikiRename_def api_wikiImageUrl_def api_uploads_def api_uploadFile_def api_cancelUpload_def api_dismissUploads_def api_archives_def api_createArchive_def api_cancelArchive_def api_dismissArchives_def api_archiveDownloadUrl_def api_fusionAction_def api_fusionOutcome_def api_notifications_def api_notifMarkRead_def api_notifMarkAllRead_def api_notifDismiss_def api_pins_def api_addPin_def api_removePin_def

text \<open>Where a request goes, in the two shapes its URL can have.\<close>

definition routed :: "api_request \<Rightarrow> bool" where
  "routed r \<longleftrightarrow> (rq_method r, url_path (rq_url r)) \<in> set SERVER_ROUTES \<and>
     (\<exists>ps. url_query (rq_url r) = sp_toString ps)"

lemma route_plain:
  assumes "(m, p) \<in> set SERVER_ROUTES"
  shows "CHR ''?'' \<notin> set p"
proof -
  have "list_all (\<lambda>r. list_all (\<lambda>c. c \<noteq> CHR ''?'') (snd r)) SERVER_ROUTES" by code_simp
  with assms show ?thesis by (force simp: list_all_iff)
qed

lemma routed_qs:
  assumes "(m, p) \<in> set SERVER_ROUTES"
  shows "routed (request_prio (p @ qs ps) m body opts)"
  using assms route_plain[OF assms] by (auto simp: routed_def request_prio_def url_qs)

lemma routed_bare:
  assumes "(m, p) \<in> set SERVER_ROUTES"
  shows "routed (request_prio p m body opts)"
proof -
  have "url_path p = p" "url_query p = sp_toString []"
    using url_bare[OF route_plain[OF assms]] by (simp_all add: sp_toString_def)
  with assms show ?thesis unfolding routed_def request_prio_def by auto
qed

lemma routed_string:
  assumes "(m, p) \<in> set SERVER_ROUTES"
  shows "routed (request_prio (p @ CHR ''?'' # sp_toString ps) m body opts)"
  using assms route_plain[OF assms] by (auto simp: routed_def request_prio_def url_path_def url_query_def)

lemma routed_permissions: "routed (api_permissionsPath hubId projectId projectName folders layers opts)"
proof -
  have "(''GET'', ''/api/permissions/path'') \<in> set SERVER_ROUTES"
    by (unfold SERVER_ROUTES_def, (rule list.set_intros(1) | rule list.set_intros(2))+)
  from routed_string[OF this] show ?thesis unfolding api_permissionsPath_def by simp
qed

lemma routed_rollup: "routed (api_rollupActivity hubId itemId childItemIds all opts)"
proof -
  have mem: "(''POST'', ''/api/activity/rollup'') \<in> set SERVER_ROUTES"
    by (unfold SERVER_ROUTES_def, (rule list.set_intros(1) | rule list.set_intros(2))+)
  have e: "sp_toString [(''all'', ''1'')] = ''all=1''" by code_simp
  show ?thesis
    using routed_string[OF mem, of "[(''all'', ''1'')]"] routed_bare[OF mem]
    unfolding api_rollupActivity_def e by simp
qed

lemma all_routed: "r \<in> client_requests \<Longrightarrow> routed r"
  by (induction rule: client_requests.induct)
    (unfold api_defs, (rule routed_permissions routed_rollup |
      ((rule routed_qs | rule routed_bare), unfold SERVER_ROUTES_def, (rule list.set_intros(1) | rule list.set_intros(2))+))+)



end
