(* ===== verification/JsText.thy ===== *)
theory JsText
  imports JsUrl
begin

section \<open>Letters and substrings\<close>

text \<open>
  \<open>toLowerCase\<close> and \<open>toUpperCase\<close> on ASCII text, \<open>includes\<close>, the length of a prefix and of a suffix
  of one character class, and the lemmas on them that the text-handling components share.
\<close>

definition lower_char :: "char \<Rightarrow> char" where
  "lower_char c = (let b = (of_char c :: nat) in if 65 \<le> b \<and> b \<le> 90 then char_of (b + 32) else c)"

definition upper_char :: "char \<Rightarrow> char" where
  "upper_char c = (let b = (of_char c :: nat) in if 97 \<le> b \<and> b \<le> 122 then char_of (b - 32) else c)"

definition js_lower :: "string \<Rightarrow> string" where
  "js_lower = map lower_char"

definition js_upper :: "string \<Rightarrow> string" where
  "js_upper = map upper_char"

definition is_letter :: "char \<Rightarrow> bool" where
  "is_letter c = (let b = (of_char c :: nat) in (65 \<le> b \<and> b \<le> 90) \<or> (97 \<le> b \<and> b \<le> 122))"

fun str_includes :: "string \<Rightarrow> string \<Rightarrow> bool" where
  "str_includes [] x = (x = [])"
| "str_includes (c # s) x = (startsWith (c # s) x \<or> str_includes s x)"

lemma str_includes_iff: "str_includes s x \<longleftrightarrow> (\<exists>a b. s = a @ x @ b)"
proof (induction s)
  case Nil
  then show ?case by auto
next
  case (Cons c s)
  show ?case
    by (auto simp: Cons.IH startsWith_iff Cons_eq_append_conv)
qed

text \<open>The trailing run of a character class.\<close>

definition take_end :: "(char \<Rightarrow> bool) \<Rightarrow> string \<Rightarrow> string" where
  "take_end p s = List.rev (takeWhile p (List.rev s))"

definition drop_end :: "(char \<Rightarrow> bool) \<Rightarrow> string \<Rightarrow> string" where
  "drop_end p s = List.rev (dropWhile p (List.rev s))"

lemma drop_take_end: "drop_end p s @ take_end p s = s"
proof -
  have "List.rev (takeWhile p (List.rev s) @ dropWhile p (List.rev s)) = s"
    by (simp only: takeWhile_dropWhile_id rev_rev_ident)
  then show ?thesis by (simp only: drop_end_def take_end_def rev_append)
qed

lemma take_end_all: "c \<in> set (take_end p s) \<Longrightarrow> p c"
  using set_takeWhileD[of c p "List.rev s"] by (simp add: take_end_def)

lemma drop_end_last: "drop_end p s \<noteq> [] \<Longrightarrow> \<not> p (last (drop_end p s))"
  unfolding drop_end_def by (simp add: last_rev hd_dropWhile)

lemma drop_end_prefix: "\<exists>t. s = drop_end p s @ t"
  using drop_take_end[of p s, symmetric] by blast

lemma drop_end_hd: "drop_end p s \<noteq> [] \<Longrightarrow> hd (drop_end p s) = hd s"
  using hd_append2[of "drop_end p s" "take_end p s"] by (simp add: drop_take_end)

end
