(* ===== verification/FileViewers.thy ===== *)
theory FileViewers
  imports JsNumber JsText "HOL-Library.AList"
begin

section \<open>Choosing a viewer, and the g-code tokenizer\<close>

text \<open>
  \<open>components/viewers/kind.ts\<close>, \<open>gcode/registry.ts\<close> and \<open>gcode/gcode.ts\<close>. The line a tokenizer reads
  is a \<open>StringStream\<close> of the editor library, a parameter here: \<open>stream_api\<close> gathers the methods the
  tokenizer calls, and \<open>stream_ok\<close> states what the library documents of them, in terms of \<open>ss_rest\<close>,
  the part of the line that is not read yet. A regular expression anchored at the start is given as
  the function from a text to the prefix it matches.
\<close>

subsection \<open>Dialects\<close>

record gcode_dialect =
  nc_id :: string
  nc_name :: string
  nc_exts :: "string list"
  nc_lineComment :: "string option"
  nc_blockComment :: "(string \<times> string) option"
  nc_words :: "(string \<times> string) list"
  nc_controlKeywords :: "string list option"

definition RS274_WORDS :: "(string \<times> string) list" where
  "RS274_WORDS =
     [(''G'', ''keyword''), (''M'', ''keyword''), (''O'', ''keyword''),
      (''X'', ''variableName''), (''Y'', ''variableName''), (''Z'', ''variableName''),
      (''A'', ''variableName''), (''B'', ''variableName''), (''C'', ''variableName''),
      (''U'', ''variableName''), (''V'', ''variableName''), (''W'', ''variableName''),
      (''I'', ''number''), (''J'', ''number''), (''K'', ''number''), (''R'', ''number''),
      (''P'', ''number''), (''Q'', ''number''), (''L'', ''number''),
      (''F'', ''atom''), (''S'', ''atom''),
      (''T'', ''propertyName''), (''D'', ''propertyName''), (''H'', ''propertyName''), (''E'', ''propertyName''),
      (''N'', ''meta'')]"

definition ISO_RS274 :: gcode_dialect where
  "ISO_RS274 = \<lparr>nc_id = ''iso'', nc_name = ''ISO / RS-274 (generic)'',
     nc_exts = [''nc'', ''cnc'', ''ngc'', ''gc'', ''gcode'', ''gco'', ''tap'', ''ncp'', ''eia'', ''min''],
     nc_lineComment = Some '';'', nc_blockComment = Some (''('', '')''), nc_words = RS274_WORDS,
     nc_controlKeywords = Some [''IF'', ''THEN'', ''ELSE'', ''ENDIF'', ''WHILE'', ''DO'', ''END'', ''GOTO'',
       ''SUB'', ''ENDSUB'', ''CALL'', ''RETURN'', ''REPEAT'']\<rparr>"

definition HEIDENHAIN :: gcode_dialect where
  "HEIDENHAIN = \<lparr>nc_id = ''heidenhain'', nc_name = ''Heidenhain (Klartext)'', nc_exts = [''h'', ''i''],
     nc_lineComment = Some '';'', nc_blockComment = None,
     nc_words = AList.update ''Q'' ''variableName.definition'' (AList.update ''L'' ''keyword'' RS274_WORDS),
     nc_controlKeywords = Some [''BEGIN'', ''END'', ''PGM'', ''MM'', ''INCH'', ''TOOL'', ''CALL'', ''DEF'', ''CYCL'',
       ''LBL'', ''FN'', ''CC'', ''CR'', ''RND'', ''CHF'', ''APPR'', ''DEP'', ''CT'', ''FK'']\<rparr>"

definition SIEMENS :: gcode_dialect where
  "SIEMENS = \<lparr>nc_id = ''siemens'', nc_name = ''Siemens Sinumerik'', nc_exts = [''mpf'', ''spf'', ''arc''],
     nc_lineComment = Some '';'', nc_blockComment = None,
     nc_words = AList.update ''R'' ''variableName.definition'' RS274_WORDS,
     nc_controlKeywords = Some [''IF'', ''ELSE'', ''ENDIF'', ''WHILE'', ''ENDWHILE'', ''FOR'', ''ENDFOR'', ''LOOP'',
       ''ENDLOOP'', ''REPEAT'', ''GOTOF'', ''GOTOB'', ''GOTOC'', ''GOTO'', ''MSG'', ''DEF'',
       ''PROC'', ''RET'', ''CASE'', ''STOPRE'']\<rparr>"

definition DIALECTS :: "gcode_dialect list" where
  "DIALECTS = [ISO_RS274, HEIDENHAIN, SIEMENS]"

definition gcodeDialectForExt :: "string \<Rightarrow> gcode_dialect option" where
  "gcodeDialectForExt ext = List.find (\<lambda>d. ext \<in> set (nc_exts d)) DIALECTS"

definition GCODE_EXTS :: "string list" where
  "GCODE_EXTS = concat (map nc_exts DIALECTS)"

subsection \<open>Viewers\<close>

datatype ViewerKind = VImage | VVideo | VPdf | VMarkdown | VGcode | VText | VNone

definition IMAGE_EXTS :: "string list" where
  "IMAGE_EXTS = [''png'', ''jpg'', ''jpeg'', ''jfif'', ''gif'', ''svg'', ''webp'', ''bmp'', ''ico'', ''avif'', ''apng'']"

definition VIDEO_EXTS :: "string list" where
  "VIDEO_EXTS = [''mp4'', ''m4v'', ''webm'', ''mov'', ''ogv'', ''ogg'']"

definition TEXT_EXTS :: "string list" where
  "TEXT_EXTS =
     [''txt'', ''log'', ''csv'', ''tsv'', ''json'', ''xml'', ''yaml'', ''yml'', ''ini'', ''cfg'', ''conf'', ''toml'',
      ''html'', ''htm'', ''css'', ''scss'', ''js'', ''mjs'', ''cjs'', ''ts'', ''tsx'', ''jsx'', ''py'', ''go'', ''rs'',
      ''c'', ''h'', ''cpp'', ''cc'', ''hpp'', ''sh'', ''bash'', ''sql'', ''rb'', ''java'', ''kt'', ''swift'', ''lua'',
      ''pl'', ''r'', ''ps1'', ''bat'']"

text \<open>\<open>/\.([a-z0-9]+)$/i\<close>: the letters and digits at the end of the name, if a dot precedes them.\<close>

definition extOf :: "string \<Rightarrow> string" where
  "extOf name =
     (let e = take_end is_alnum name; p = drop_end is_alnum name
      in if e \<noteq> [] \<and> p \<noteq> [] \<and> last p = CHR ''.'' then js_lower e else [])"

definition viewerKindFor :: "string \<Rightarrow> string option \<Rightarrow> ViewerKind" where
  "viewerKindFor name mimeType =
     (let ext = extOf name in
      if ext = ''md'' \<or> ext = ''markdown'' then VMarkdown
      else if ext \<in> set GCODE_EXTS then VGcode
      else if ext = ''pdf'' then VPdf
      else if ext \<in> set IMAGE_EXTS then VImage
      else if ext \<in> set VIDEO_EXTS then VVideo
      else if ext \<in> set TEXT_EXTS then VText
      else case mimeType of None \<Rightarrow> VNone
      | Some m \<Rightarrow>
          if startsWith m ''image/'' then VImage
          else if startsWith m ''video/'' then VVideo
          else if m = ''application/pdf'' then VPdf
          else if startsWith m ''text/'' \<or> str_includes m ''json'' \<or> str_includes m ''xml'' then VText
          else VNone)"

subsection \<open>The tokenizer\<close>

text \<open>A method that answers whether it matched gives the stream after it, or \<^const>\<open>None\<close> and reads nothing.\<close>

record 's stream_api =
  ss_rest :: "'s \<Rightarrow> string"
  ss_peek :: "'s \<Rightarrow> char option"
  ss_next :: "'s \<Rightarrow> 's"
  ss_eat :: "char \<Rightarrow> 's \<Rightarrow> 's"
  ss_eatWhile :: "(char \<Rightarrow> bool) \<Rightarrow> 's \<Rightarrow> 's"
  ss_eatSpace :: "'s \<Rightarrow> 's option"
  ss_skipToEnd :: "'s \<Rightarrow> 's"
  ss_skipTo :: "string \<Rightarrow> 's \<Rightarrow> 's option"
  ss_match :: "string \<Rightarrow> 's \<Rightarrow> 's option"
  ss_match_re :: "(string \<Rightarrow> string option) \<Rightarrow> 's \<Rightarrow> (string \<times> 's) option"

text \<open>\<open>NUM\<close> is \<open>/^[-+]?(?:\d+\.?\d*|\.\d+)/\<close> and \<open>LETTERS\<close> is \<open>/^[A-Za-z]+/\<close>.\<close>

definition num_body :: "string \<Rightarrow> string option" where
  "num_body r =
     (let d = takeWhile is_digit r in
      if d \<noteq> [] then
        Some (d @ (case dropWhile is_digit r of
                     c # r' \<Rightarrow> if c = CHR ''.'' then c # takeWhile is_digit r' else [] | [] \<Rightarrow> []))
      else (case r of
              c # r' \<Rightarrow> if c = CHR ''.'' \<and> takeWhile is_digit r' \<noteq> [] then Some (c # takeWhile is_digit r') else None
            | [] \<Rightarrow> None))"

definition NUM :: "string \<Rightarrow> string option" where
  "NUM s = (case s of [] \<Rightarrow> None
     | c # r \<Rightarrow> if c \<in> set ''-+'' then map_option (Cons c) (num_body r) else num_body s)"

definition LETTERS :: "string \<Rightarrow> string option" where
  "LETTERS s = (let w = takeWhile is_letter s in if w = [] then None else Some w)"

text \<open>
  From the opening of a block comment on, or from the start of a line inside one: whether the comment
  is still open at the end, and the stream.
\<close>

definition block_comment :: "'s stream_api \<Rightarrow> string option \<Rightarrow> 's \<Rightarrow> bool \<times> 's" where
  "block_comment ss bClose st =
     (if truthy bClose then
        (case ss_skipTo ss (the bClose) st of
           Some st \<Rightarrow> (False, nullish (ss_match ss (the bClose) st) st)
         | None \<Rightarrow> (True, ss_skipToEnd ss st))
      else (False, ss_skipToEnd ss st))"

definition macro_variable :: "'s stream_api \<Rightarrow> 's \<Rightarrow> 's" where
  "macro_variable ss st =
     (let st = ss_next ss st
      in if ss_peek ss st = Some (CHR ''<'')
         then ss_eat ss (CHR ''>'') (ss_eatWhile ss (\<lambda>c. c \<noteq> CHR ''>'') st)
         else ss_eatWhile ss is_digit st)"

definition quoted :: "'s stream_api \<Rightarrow> 's \<Rightarrow> 's" where
  "quoted ss st = ss_eat ss (CHR 0x22) (ss_eatWhile ss (\<lambda>c. c \<noteq> CHR 0x22) (ss_next ss st))"

definition bare_number :: "'s stream_api \<Rightarrow> 's \<Rightarrow> string option \<times> 's" where
  "bare_number ss st =
     (case ss_match_re ss NUM st of Some (_, st) \<Rightarrow> (Some ''number'', st) | None \<Rightarrow> (None, ss_next ss st))"

definition address_word :: "'s stream_api \<Rightarrow> gcode_dialect \<Rightarrow> 's \<Rightarrow> (string option \<times> 's) option" where
  "address_word ss d st =
     (case ss_match_re ss LETTERS st of
        None \<Rightarrow> None
      | Some (run, st) \<Rightarrow>
          (let up = js_upper run
           in Some (if up \<in> set (map js_upper (nullish (nc_controlKeywords d) [])) then (Some ''controlKeyword'', st)
                    else (Some (nullish (map_of (nc_words d) (take 1 up)) ''variableName''),
                          case ss_match_re ss NUM st of Some (_, st) \<Rightarrow> st | None \<Rightarrow> st))))"

text \<open>The part of \<open>token\<close> after the comments; the next character is \<open>ch\<close>.\<close>

definition code_token :: "'s stream_api \<Rightarrow> gcode_dialect \<Rightarrow> char \<Rightarrow> 's \<Rightarrow> string option \<times> 's" where
  "code_token ss d ch st =
     (if ch = CHR ''%'' then (Some ''meta'', ss_next ss st)
      else if ch = CHR ''/'' then (Some ''meta'', ss_next ss st)
      else if ch = CHR ''#'' then (Some ''variableName.definition'', macro_variable ss st)
      else if ch = CHR 0x22 then (Some ''string'', quoted ss st)
      else if ch = CHR ''['' \<or> ch = CHR '']'' then (Some ''bracket'', ss_next ss st)
      else if ch \<in> set ''-+*=<>'' then (Some ''operator'', ss_next ss st)
      else if is_letter ch then nullish (address_word ss d st) (bare_number ss st)
      else bare_number ss st)"

definition comment_token :: "'s stream_api \<Rightarrow> string option \<Rightarrow> 's \<Rightarrow> 's option" where
  "comment_token ss marker st = (if truthy marker then ss_match ss (the marker) st else None)"

definition gcode_token :: "'s stream_api \<Rightarrow> gcode_dialect \<Rightarrow> bool \<Rightarrow> 's \<Rightarrow> string option \<times> bool \<times> 's" where
  "gcode_token ss d block st =
     (let bOpen = map_option fst (nc_blockComment d); bClose = map_option snd (nc_blockComment d)
      in if block \<and> truthy bClose then (Some ''comment'', block_comment ss bClose st)
         else case ss_eatSpace ss st of Some st \<Rightarrow> (None, block, st)
         | None \<Rightarrow>
         case ss_peek ss st of None \<Rightarrow> (None, block, st)
         | Some ch \<Rightarrow>
         case comment_token ss (nc_lineComment d) st of Some st \<Rightarrow> (Some ''comment'', block, ss_skipToEnd ss st)
         | None \<Rightarrow>
         case comment_token ss bOpen st of
           Some st \<Rightarrow> (case block_comment ss bClose st of (opened, st) \<Rightarrow> (Some ''comment'', block \<or> opened, st))
         | None \<Rightarrow> (case code_token ss d ch st of (style, st) \<Rightarrow> (style, block, st)))"

record gcode_parser =
  gp_name :: string
  gp_startState :: bool
  gp_line :: "string option"
  gp_block :: "(string \<times> string) option"

definition defineGcode :: "gcode_dialect \<Rightarrow> gcode_parser" where
  "defineGcode d = \<lparr>gp_name = ''gcode-'' @ nc_id d, gp_startState = False, gp_line = nc_lineComment d,
     gp_block = (case nc_blockComment d of
        Some (a, b) \<Rightarrow> if a \<noteq> [] \<and> b \<noteq> [] then Some (a, b) else None | None \<Rightarrow> None)\<rparr>"

subsection \<open>A line is tokenized completely\<close>

text \<open>What the library documents of the methods.\<close>

definition stream_ok :: "'s stream_api \<Rightarrow> bool" where
  "stream_ok ss \<longleftrightarrow>
     (\<forall>st. ss_peek ss st = (case ss_rest ss st of [] \<Rightarrow> None | c # _ \<Rightarrow> Some c)) \<and>
     (\<forall>st. ss_rest ss (ss_next ss st) = tl (ss_rest ss st)) \<and>
     (\<forall>c st. ss_rest ss (ss_eat ss c st) =
        (case ss_rest ss st of [] \<Rightarrow> [] | d # r \<Rightarrow> if d = c then r else d # r)) \<and>
     (\<forall>p st. ss_rest ss (ss_eatWhile ss p st) = dropWhile p (ss_rest ss st)) \<and>
     (\<forall>st st'. ss_eatSpace ss st = Some st' \<longrightarrow> (\<exists>w. w \<noteq> [] \<and> ss_rest ss st = w @ ss_rest ss st')) \<and>
     (\<forall>st. ss_rest ss (ss_skipToEnd ss st) = []) \<and>
     (\<forall>x st st'. ss_skipTo ss x st = Some st' \<longrightarrow>
        (\<exists>w. ss_rest ss st = w @ ss_rest ss st') \<and> startsWith (ss_rest ss st') x) \<and>
     (\<forall>x st. (ss_match ss x st \<noteq> None) = startsWith (ss_rest ss st) x) \<and>
     (\<forall>x st st'. ss_match ss x st = Some st' \<longrightarrow> ss_rest ss st = x @ ss_rest ss st') \<and>
     (\<forall>m st. (ss_match_re ss m st \<noteq> None) = (m (ss_rest ss st) \<noteq> None)) \<and>
     (\<forall>m st w st'. ss_match_re ss m st = Some (w, st') \<longrightarrow>
        m (ss_rest ss st) = Some w \<and> ss_rest ss st' = drop (length w) (ss_rest ss st))"

lemma stream_okD:
  assumes "stream_ok ss"
  shows "ss_peek ss st = (case ss_rest ss st of [] \<Rightarrow> None | c # _ \<Rightarrow> Some c)"
    and "ss_rest ss (ss_next ss st) = tl (ss_rest ss st)"
    and "ss_rest ss (ss_eat ss c st) = (case ss_rest ss st of [] \<Rightarrow> [] | d # r \<Rightarrow> if d = c then r else d # r)"
    and "ss_rest ss (ss_eatWhile ss p st) = dropWhile p (ss_rest ss st)"
    and "ss_eatSpace ss st = Some st' \<Longrightarrow> \<exists>w. w \<noteq> [] \<and> ss_rest ss st = w @ ss_rest ss st'"
    and "ss_rest ss (ss_skipToEnd ss st) = []"
    and "ss_skipTo ss x st = Some st' \<Longrightarrow> \<exists>w. ss_rest ss st = w @ ss_rest ss st'"
    and "ss_skipTo ss x st = Some st' \<Longrightarrow> startsWith (ss_rest ss st') x"
    and "(ss_match ss x st \<noteq> None) = startsWith (ss_rest ss st) x"
    and "ss_match ss x st = Some st' \<Longrightarrow> ss_rest ss st = x @ ss_rest ss st'"
    and "(ss_match_re ss m st \<noteq> None) = (m (ss_rest ss st) \<noteq> None)"
    and "ss_match_re ss m st = Some (w, st') \<Longrightarrow> m (ss_rest ss st) = Some w"
    and "ss_match_re ss m st = Some (w, st') \<Longrightarrow> ss_rest ss st' = drop (length w) (ss_rest ss st)"
  using assms unfolding stream_ok_def by simp_all

text \<open>A step that leaves an end of the line, and one that also reads something.\<close>

definition goes :: "'s stream_api \<Rightarrow> 's \<Rightarrow> 's \<Rightarrow> bool" where
  "goes ss st st' \<longleftrightarrow> (\<exists>w. ss_rest ss st = w @ ss_rest ss st')"

definition eats :: "'s stream_api \<Rightarrow> 's \<Rightarrow> 's \<Rightarrow> bool" where
  "eats ss st st' \<longleftrightarrow> (\<exists>w. w \<noteq> [] \<and> ss_rest ss st = w @ ss_rest ss st')"

lemma goes_refl [intro]: "goes ss st st" by (simp add: goes_def)
lemma eats_goes: "eats ss a b \<Longrightarrow> goes ss b c \<Longrightarrow> eats ss a c"
  unfolding eats_def goes_def by (metis append.assoc append_is_Nil_conv)
lemma goes_trans: "goes ss a b \<Longrightarrow> goes ss b c \<Longrightarrow> goes ss a c"
  unfolding goes_def by (metis append.assoc)
lemma goes_eats: "goes ss a b \<Longrightarrow> eats ss b c \<Longrightarrow> eats ss a c"
  unfolding eats_def goes_def by (metis append.assoc append_is_Nil_conv)

text \<open>A matcher that reads a prefix, and not an empty one.\<close>

definition prefix_re :: "(string \<Rightarrow> string option) \<Rightarrow> bool" where
  "prefix_re m \<longleftrightarrow> (\<forall>s w. m s = Some w \<longrightarrow> w \<noteq> [] \<and> (\<exists>t. s = w @ t))"

lemma num_body_prefix: "num_body s = Some w \<Longrightarrow> w \<noteq> [] \<and> (\<exists>t. s = w @ t)"
proof -
  assume n: "num_body s = Some w"
  let ?d = "takeWhile is_digit s"
  have s: "s = ?d @ dropWhile is_digit s" by simp
  show ?thesis
  proof (cases "?d = []")
    case True
    with n obtain r where "s = CHR ''.'' # r" "w = CHR ''.'' # takeWhile is_digit r"
      by (auto simp: num_body_def split: list.splits if_splits)
    then show ?thesis by (auto intro: exI[of _ "dropWhile is_digit r"])
  next
    case False
    show ?thesis
    proof (cases "\<exists>r. dropWhile is_digit s = CHR ''.'' # r")
      case True
      then obtain r where r: "dropWhile is_digit s = CHR ''.'' # r" by blast
      then have w: "w = ?d @ CHR ''.'' # takeWhile is_digit r" using n False by (simp add: num_body_def)
      have "s = ?d @ CHR ''.'' # takeWhile is_digit r @ dropWhile is_digit r" using s r by simp
      then have "s = w @ dropWhile is_digit r" by (simp only: w append_assoc append_Cons)
      then show ?thesis using w by blast
    next
      case no: False
      then have "w = ?d" using n False by (auto simp: num_body_def split: list.splits if_splits)
      with s False show ?thesis by metis
    qed
  qed
qed

lemma NUM_prefix: "prefix_re NUM"
  by (auto simp: prefix_re_def NUM_def split: list.splits if_splits dest: num_body_prefix)

lemma LETTERS_prefix: "prefix_re LETTERS"
  unfolding prefix_re_def LETTERS_def Let_def by (metis option.inject option.simps(3) takeWhile_dropWhile_id)

text \<open>The methods of a well-behaved stream.\<close>

lemma next_eats: "stream_ok ss \<Longrightarrow> ss_rest ss st \<noteq> [] \<Longrightarrow> eats ss st (ss_next ss st)"
proof -
  assume ok: "stream_ok ss" and "ss_rest ss st \<noteq> []"
  then obtain c r where "ss_rest ss st = c # r" by (cases "ss_rest ss st") auto
  then have "ss_rest ss st = [c] @ ss_rest ss (ss_next ss st)" by (simp add: stream_okD(2)[OF ok])
  then show ?thesis unfolding eats_def by blast
qed

lemma eat_goes: "stream_ok ss \<Longrightarrow> goes ss st (ss_eat ss c st)"
  by (auto simp: goes_def stream_okD(3) split: list.splits)

lemma eatWhile_goes: "stream_ok ss \<Longrightarrow> goes ss st (ss_eatWhile ss p st)"
  unfolding goes_def by (metis stream_okD(4) takeWhile_dropWhile_id)

lemma skipToEnd_goes: "stream_ok ss \<Longrightarrow> goes ss st (ss_skipToEnd ss st)"
  by (simp add: goes_def stream_okD(6))

lemma skipToEnd_eats: "stream_ok ss \<Longrightarrow> ss_rest ss st \<noteq> [] \<Longrightarrow> eats ss st (ss_skipToEnd ss st)"
  by (simp add: eats_def stream_okD(6))

lemma skipTo_goes: "stream_ok ss \<Longrightarrow> ss_skipTo ss x st = Some st' \<Longrightarrow> goes ss st st'"
  unfolding goes_def by (rule stream_okD(7))

lemma match_eats: "stream_ok ss \<Longrightarrow> ss_match ss x st = Some st' \<Longrightarrow> x \<noteq> [] \<Longrightarrow> eats ss st st'"
  using stream_okD(10)[of ss x st st'] by (auto simp: eats_def)

lemma skip_match_eats:
  assumes ok: "stream_ok ss" and sk: "ss_skipTo ss x st = Some st'" and x: "x \<noteq> []"
  shows "eats ss st (nullish (ss_match ss x st') st')"
proof -
  have "ss_match ss x st' \<noteq> None" using stream_okD(8)[OF ok sk] stream_okD(9)[OF ok] by simp
  then obtain st2 where m: "ss_match ss x st' = Some st2" by blast
  show ?thesis using goes_eats[OF skipTo_goes[OF ok sk] match_eats[OF ok m x]] m by simp
qed

lemma re_eats:
  assumes ok: "stream_ok ss" and m: "ss_match_re ss m st = Some (w, st')"
    and pre: "prefix_re m"
  shows "eats ss st st'"
proof -
  obtain t where t: "w \<noteq> []" "ss_rest ss st = w @ t" using pre stream_okD(12)[OF ok m] unfolding prefix_re_def by blast
  then have "ss_rest ss st' = t" using stream_okD(13)[OF ok m] by simp
  with t show ?thesis by (auto simp: eats_def)
qed

lemma re_goes:
  assumes "stream_ok ss" "ss_match_re ss m st = Some (w, st')"
    and "prefix_re m"
  shows "goes ss st st'"
  using re_eats[OF assms] by (auto simp: eats_def goes_def)

text \<open>The pieces of the tokenizer.\<close>

lemma block_comment_goes:
  assumes ok: "stream_ok ss"
  shows "goes ss st (snd (block_comment ss bClose st))"
proof (cases "truthy bClose")
  case True
  then have "the bClose \<noteq> []" by (cases bClose) auto
  then show ?thesis
    using skip_match_eats[OF ok] skipToEnd_goes[OF ok] True
    by (auto simp: block_comment_def eats_def goes_def split: option.splits) blast
qed (simp add: block_comment_def skipToEnd_goes[OF ok])

lemma block_comment_eats:
  assumes ok: "stream_ok ss" and ne: "ss_rest ss st \<noteq> []"
  shows "eats ss st (snd (block_comment ss bClose st))"
proof (cases "truthy bClose")
  case True
  then have "the bClose \<noteq> []" by (cases bClose) auto
  then show ?thesis
    using skip_match_eats[OF ok] skipToEnd_eats[OF ok ne] True
    by (auto simp: block_comment_def split: option.splits)
qed (simp add: block_comment_def skipToEnd_eats[OF ok ne])

lemma bare_number_eats:
  assumes ok: "stream_ok ss" and ne: "ss_rest ss st \<noteq> []"
  shows "eats ss st (snd (bare_number ss st))"
  using re_eats[OF ok _ NUM_prefix] next_eats[OF ok ne]
  by (auto simp: bare_number_def split: option.splits)

lemma address_word_eats:
  assumes ok: "stream_ok ss" and w: "address_word ss d st = Some (style, st')"
  shows "eats ss st st'"
proof -
  obtain run st1 where l: "ss_match_re ss LETTERS st = Some (run, st1)"
    using w by (cases "ss_match_re ss LETTERS st") (auto simp: address_word_def)
  have "st' = st1 \<or> (\<exists>v. ss_match_re ss NUM st1 = Some (v, st'))"
    using w l by (cases "ss_match_re ss NUM st1") (auto simp: address_word_def Let_def split: if_splits)
  then have "goes ss st1 st'" using re_goes[OF ok _ NUM_prefix] by auto
  then show ?thesis by (rule eats_goes[OF re_eats[OF ok l LETTERS_prefix]])
qed

lemma code_token_eats:
  assumes ok: "stream_ok ss" and ne: "ss_rest ss st \<noteq> []"
  shows "eats ss st (snd (code_token ss d ch st))"
proof -
  note n = next_eats[OF ok ne]
  note b = bare_number_eats[OF ok ne]
  have while: "eats ss st (ss_eatWhile ss p (ss_next ss st))" for p
    by (rule eats_goes[OF n eatWhile_goes[OF ok]])
  have upto: "eats ss st (ss_eat ss c (ss_eatWhile ss p (ss_next ss st)))" for c p
    by (rule eats_goes[OF while eat_goes[OF ok]])
  have "eats ss st (macro_variable ss st)"
    unfolding macro_variable_def Let_def using while upto by simp
  moreover have "eats ss st (quoted ss st)"
    unfolding quoted_def by (rule upto)
  moreover have "eats ss st (snd (nullish (address_word ss d st) (bare_number ss st)))"
    using b address_word_eats[OF ok] by (cases "address_word ss d st") auto
  ultimately show ?thesis using n b by (simp add: code_token_def)
qed

lemma gcode_token_eats:
  assumes ok: "stream_ok ss" and ne: "ss_rest ss st \<noteq> []"
  shows "eats ss st (snd (snd (gcode_token ss d block st)))"
proof -
  let ?bClose = "map_option snd (nc_blockComment d)"
  consider (comment) "block \<and> truthy ?bClose" | (code) "\<not> (block \<and> truthy ?bClose)" by blast
  then show ?thesis
  proof cases
    case comment
    then show ?thesis using block_comment_eats[OF ok ne] by (simp add: gcode_token_def)
  next
    case code
    obtain c r where peek: "ss_peek ss st = Some c"
      using ne stream_okD(1)[OF ok, of st] by (cases "ss_rest ss st") auto
    have space: "eats ss st st'" if "ss_eatSpace ss st = Some st'" for st'
      unfolding eats_def using stream_okD(5)[OF ok that] .
    have marker: "eats ss st st'" if "comment_token ss m st = Some st'" for m st'
      using that match_eats[OF ok] by (cases m) (auto simp: comment_token_def split: if_splits)
    show ?thesis
      using code peek space marker code_token_eats[OF ok ne, of d c]
        eats_goes[OF marker skipToEnd_goes[OF ok]] eats_goes[OF marker block_comment_goes[OF ok]]
      by (auto simp: gcode_token_def Let_def split: option.split prod.split) (metis snd_conv)+
  qed
qed

text \<open>
  What the editor does with a line: it asks for tokens until the end of the line. A token is its text
  and its style.
\<close>

inductive gcode_line ::
    "'s stream_api \<Rightarrow> gcode_dialect \<Rightarrow> bool \<Rightarrow> 's \<Rightarrow> (string \<times> string option) list \<Rightarrow> bool \<Rightarrow> bool"
  for ss d where
  eol: "ss_rest ss st = [] \<Longrightarrow> gcode_line ss d b st [] b"
| tok: "ss_rest ss st \<noteq> [] \<Longrightarrow> gcode_token ss d b st = (style, bm, sm) \<Longrightarrow>
    ss_rest ss st = w @ ss_rest ss sm \<Longrightarrow> gcode_line ss d bm sm ts bn \<Longrightarrow>
    gcode_line ss d b st ((w, style) # ts) bn"

inductive_cases gcode_line_eolE: "gcode_line ss d b st [] b'"
inductive_cases gcode_line_tokE: "gcode_line ss d b st (t # ts) b'"

lemma gcode_line_unique:
  "gcode_line ss d b st ts b1 \<Longrightarrow> gcode_line ss d b st ts' b2 \<Longrightarrow> ts' = ts \<and> b2 = b1"
proof (induction arbitrary: ts' b2 rule: gcode_line.induct)
  case (eol st b)
  from eol(2) show ?case by cases (simp_all add: eol(1))
next
  case (tok st b style b1 st1 w ts bn)
  from tok.prems show ?case
  proof cases
    case eol
    with tok.hyps(1) show ?thesis by simp
  next
    case (tok style' b1' st1' w' ts2)
    then show ?thesis using \<open>gcode_token ss d b st = (style, b1, st1)\<close> \<open>ss_rest ss st = w @ ss_rest ss st1\<close> tok.IH
      by auto
  qed
qed

lemma gcode_line_exists:
  assumes ok: "stream_ok ss"
  shows "\<exists>ts b'. gcode_line ss d b st ts b' \<and> concat (map fst ts) = ss_rest ss st \<and> (\<forall>t \<in> set ts. fst t \<noteq> [])"
proof (induction "length (ss_rest ss st)" arbitrary: st b rule: less_induct)
  case less
  show ?case
  proof (cases "ss_rest ss st = []")
    case True
    then show ?thesis by (intro exI[of _ "[]"] exI[of _ b]) (simp add: gcode_line.eol)
  next
    case False
    obtain style bm sm where t: "gcode_token ss d b st = (style, bm, sm)" by (metis prod_cases3)
    then obtain w where w: "w \<noteq> []" "ss_rest ss st = w @ ss_rest ss sm"
      using gcode_token_eats[OF ok False, of d b] by (auto simp: eats_def)
    then have "length (ss_rest ss sm) < length (ss_rest ss st)" by simp
    from less[OF this] obtain ts b' where ts: "gcode_line ss d bm sm ts b'"
      "concat (map fst ts) = ss_rest ss sm" "\<forall>t \<in> set ts. fst t \<noteq> []" by blast
    have "gcode_line ss d b st ((w, style) # ts) b'" using False t w(2) ts(1) by (rule gcode_line.tok)
    moreover have "concat (map fst ((w, style) # ts)) = ss_rest ss st" using w(2) ts(2) by simp
    moreover have "\<forall>t \<in> set ((w, style) # ts). fst t \<noteq> []" using w(1) ts(3) by simp
    ultimately show ?thesis by blast
  qed
qed

text \<open>
  C22. Highlighting g-code ends on every line, and nothing of the line gets lost: for every dialect,
  whether or not a block comment is open, the tokens of a line are determined, none of them is empty
  - the editor aborts on a tokenizer that reads nothing - and their texts are the line.
\<close>

theorem gcode_line_ends:
  assumes "stream_ok ss"
  shows "\<exists>ts b'. gcode_line ss d b st ts b' \<and> concat (map fst ts) = ss_rest ss st \<and> (\<forall>t \<in> set ts. fst t \<noteq> []) \<and>
    (\<forall>ts2 b2. gcode_line ss d b st ts2 b2 \<longrightarrow> ts2 = ts \<and> b2 = b')"
proof -
  obtain ts b' where l: "gcode_line ss d b st ts b'"
    and r: "concat (map fst ts) = ss_rest ss st" "\<forall>t \<in> set ts. fst t \<noteq> []"
    using gcode_line_exists[OF assms] by blast
  have "ts2 = ts \<and> b2 = b'" if "gcode_line ss d b st ts2 b2" for ts2 b2
    by (rule gcode_line_unique[OF l that])
  with l r show ?thesis by blast
qed

text \<open>A line of a program, read from a stream that is the text not read yet.\<close>

fun skip_until :: "string \<Rightarrow> string \<Rightarrow> string option" where
  "skip_until x [] = (if x = [] then Some [] else None)"
| "skip_until x (c # s) = (if startsWith (c # s) x then Some (c # s) else skip_until x s)"

definition text_stream :: "string stream_api" where
  "text_stream = \<lparr>ss_rest = (\<lambda>s. s), ss_peek = (\<lambda>s. case s of [] \<Rightarrow> None | c # _ \<Rightarrow> Some c), ss_next = tl,
     ss_eat = (\<lambda>c s. case s of [] \<Rightarrow> [] | d # r \<Rightarrow> if d = c then r else d # r), ss_eatWhile = dropWhile,
     ss_eatSpace = (\<lambda>s. case s of c # r \<Rightarrow> if c = CHR '' '' then Some (dropWhile (\<lambda>c. c = CHR '' '') r) else None
        | [] \<Rightarrow> None),
     ss_skipToEnd = (\<lambda>s. []), ss_skipTo = skip_until,
     ss_match = (\<lambda>x s. if startsWith s x then Some (drop (length x) s) else None),
     ss_match_re = (\<lambda>m s. map_option (\<lambda>w. (w, drop (length w) s)) (m s))\<rparr>"

lemma skip_until_Some: "skip_until x s = Some r \<Longrightarrow> (\<exists>w. s = w @ r) \<and> startsWith r x"
proof (induction s)
  case Nil
  then show ?case by (auto split: if_splits)
next
  case (Cons c s)
  then show ?case by (auto split: if_splits intro: exI[of _ "[]"])
qed

lemma text_stream_ok: "stream_ok text_stream"
proof -
  have sp: "\<exists>w. w \<noteq> [] \<and> s = w @ r" if e: "ss_eatSpace text_stream s = Some r" for s r
  proof -
    obtain t where "s = CHR '' '' # t" "r = dropWhile (\<lambda>c. c = CHR '' '') t"
      using e by (cases s) (auto simp: text_stream_def split: if_splits)
    then have "s = (CHR '' '' # takeWhile (\<lambda>c. c = CHR '' '') t) @ r" by simp
    then show ?thesis by blast
  qed
  show ?thesis
    using sp skip_until_Some startsWith_split by (simp add: stream_ok_def text_stream_def)
qed

lemma gcode_line_ends_witness:
  "gcode_line text_stream ISO_RS274 False ''G1 X-2.5 (fast''
     [(''G1'', Some ''keyword''), ('' '', None), (''X-2.5'', Some ''variableName''), ('' '', None), (''(fast'', Some ''comment'')]
     True"
  (is "gcode_line _ _ _ ?s ?ts _")
proof -
  have l: "gcode_line text_stream ISO_RS274 False ?s ?ts True"
    apply (rule gcode_line.tok[where sm = "'' X-2.5 (fast''" and bm = False], code_simp, code_simp, code_simp)
    apply (rule gcode_line.tok[where sm = "''X-2.5 (fast''" and bm = False], code_simp, code_simp, code_simp)
    apply (rule gcode_line.tok[where sm = "'' (fast''" and bm = False], code_simp, code_simp, code_simp)
    apply (rule gcode_line.tok[where sm = "''(fast''" and bm = False], code_simp, code_simp, code_simp)
    apply (rule gcode_line.tok[where sm = "[]" and bm = True], code_simp, code_simp, code_simp)
    by (rule gcode_line.eol, code_simp)
  from gcode_line_ends[OF text_stream_ok, of ISO_RS274 False ?s] l show ?thesis by blast
qed

end
