(* ===== verification/Uploads.thy ===== *)
theory Uploads
  imports NavUrl JsNumber
begin

section \<open>Uploads\<close>

text \<open>
  \<open>state/uploads.tsx\<close>: the files waiting in the upload dialog, the loop that hands them to the
  server, the list of the server's jobs, and the app-wide file drop. The provider is a state with one
  step per callback, and one per outcome of a request it awaits; React renders between two steps, so a
  callback sees the state the last one left. \<open>up_posted\<close> and \<open>up_invalidated\<close> record what leaves the
  component: the finished requests and the query keys given to \<open>invalidateQueries\<close>. A file is its name,
  size and date of change; its bytes are not looked at here.
\<close>

subsection \<open>Types\<close>

record upload_target =
  ut_hubId :: string
  ut_projectId :: string
  ut_dmProjectId :: string
  ut_folderId :: "string option"
  ut_folderPath :: "string list"
  ut_label :: string

record js_file =
  fl_name :: string
  fl_size :: int
  fl_modified :: int

record pending_file =
  pn_key :: string
  pn_file :: js_file

record uploads =
  up_dialogOpen :: bool
  up_pending :: "pending_file list"
  up_submitting :: bool
  up_flight :: "(upload_target \<times> pending_file list) option"
  up_localErrors :: "upload_job list"
  up_jobs :: "upload_job list option"
  up_seen :: "(string \<times> string) list"
  up_posted :: "(upload_target \<times> js_file) list"
  up_invalidated :: "string option list list"

definition isActiveUpload :: "upload_job \<Rightarrow> bool" where
  "isActiveUpload j = (uj_status j = ''queued'' \<or> uj_status j = ''uploading'')"

definition fileKey :: "js_file \<Rightarrow> string" where
  "fileKey f = fl_name f @ '':'' @ show_int (fl_size f) @ '':'' @ show_int (fl_modified f)"

subsection \<open>Target and jobs\<close>

definition current_target :: "nav_state \<Rightarrow> string option \<Rightarrow> upload_target option" where
  "current_target s currentFolder =
     (case project s of
        None \<Rightarrow> None
      | Some p \<Rightarrow>
          if \<not> truthy (hubId s) \<or> \<not> truthy (it_altId p) then None
          else
            (let folderPath = map it_name (folderStack s)
             in Some \<lparr>ut_hubId = the (hubId s), ut_projectId = it_id p, ut_dmProjectId = the (it_altId p),
                  ut_folderId = currentFolder, ut_folderPath = folderPath,
                  ut_label = concat (it_name p # map (\<lambda>n. '' / '' @ n) folderPath)\<rparr>))"

definition poll_interval :: "upload_job list option \<Rightarrow> int option" where
  "poll_interval data = (if (\<exists>j \<in> set (nullish data []). isActiveUpload j) then Some 750 else None)"

definition all_jobs :: "uploads \<Rightarrow> upload_job list" where
  "all_jobs st = nullish (up_jobs st) [] @ up_localErrors st"

definition activeCount :: "uploads \<Rightarrow> nat" where
  "activeCount st = length (filter isActiveUpload (all_jobs st))"

text \<open>The effect on the server's list: a job that is done now, and was not, refreshes its folder.\<close>

definition job_refresh :: "(string \<times> string) list \<Rightarrow> upload_job \<Rightarrow> string option list list" where
  "job_refresh seen j =
     (if uj_status j = ''done'' \<and> map_of seen (uj_id j) \<noteq> Some ''done''
      then if truthy (uj_folderId j) then [[Some ''folderContents'', uj_hubId j, uj_folderId j]]
           else if truthy (uj_projectId j) then [[Some ''projectContents'', uj_projectId j]] else []
      else [])"

definition on_jobs :: "uploads \<Rightarrow> uploads" where
  "on_jobs st =
     (let serverJobs = nullish (up_jobs st) [] in
      st\<lparr>up_invalidated := up_invalidated st @ concat (map (job_refresh (up_seen st)) serverJobs),
         up_seen := List.rev (map (\<lambda>j. (uj_id j, uj_status j)) serverJobs)\<rparr>)"

subsection \<open>The dialog\<close>

definition add_file :: "pending_file list \<Rightarrow> js_file \<Rightarrow> pending_file list" where
  "add_file nxt f = (if fileKey f \<in> set (map pn_key nxt) then nxt
     else nxt @ [\<lparr>pn_key = fileKey f, pn_file = f\<rparr>])"

definition addFiles :: "js_file list \<Rightarrow> uploads \<Rightarrow> uploads" where
  "addFiles files st = (if files = [] then st else st\<lparr>up_pending := foldl add_file (up_pending st) files\<rparr>)"

definition removeFile :: "string \<Rightarrow> uploads \<Rightarrow> uploads" where
  "removeFile key st = st\<lparr>up_pending := filter (\<lambda>p. pn_key p \<noteq> key) (up_pending st)\<rparr>"

definition clearPending :: "uploads \<Rightarrow> uploads" where
  "clearPending st = st\<lparr>up_pending := []\<rparr>"

definition startUpload :: "upload_target option \<Rightarrow> uploads \<Rightarrow> uploads" where
  "startUpload target st =
     (if target = None \<or> up_pending st = [] \<or> up_submitting st then st
      else st\<lparr>up_pending := [], up_submitting := True, up_flight := Some (the target, up_pending st)\<rparr>)"

text \<open>The loop of \<open>startUpload\<close>: the head of the queue is being posted; after the last file, the end.\<close>

definition next_file :: "uploads \<Rightarrow> uploads" where
  "next_file st =
     (case up_flight st of
        Some (t, p # files) \<Rightarrow>
          (let st = st\<lparr>up_posted := up_posted st @ [(t, pn_file p)], up_flight := Some (t, files)\<rparr>
           in if files \<noteq> [] then st
              else st\<lparr>up_flight := None, up_submitting := False,
                      up_invalidated := up_invalidated st @ [[Some ''uploads'']]\<rparr>)
      | _ \<Rightarrow> st)"

definition post_ok :: "upload_job \<Rightarrow> uploads \<Rightarrow> uploads" where
  "post_ok job st =
     (if up_flight st = None then st
      else next_file (on_jobs (st\<lparr>up_jobs := Some (nullish (up_jobs st) [] @ [job])\<rparr>)))"

definition post_failed :: "string option \<Rightarrow> int \<Rightarrow> uploads \<Rightarrow> uploads" where
  "post_failed message now st =
     (case up_flight st of
        Some (t, p # files) \<Rightarrow>
          next_file (st\<lparr>up_localErrors := up_localErrors st @
            [\<lparr>uj_id = ''local-'' @ pn_key p @ ''-'' @ show_int now, uj_fileName = fl_name (pn_file p),
              uj_size = fl_size (pn_file p), uj_bytesSent = 0, uj_status = ''error'',
              uj_error = Some (nullish message ''upload failed''), uj_hubId = None, uj_projectId = None,
              uj_folderId = None, uj_dmProjectId = None, uj_folderPath = ut_folderPath t,
              uj_itemId = None, uj_versionId = None, uj_createdOn = None\<rparr>]\<rparr>)
      | _ \<Rightarrow> st)"

text \<open>Both ask the server unless the job is a local one, which has the id to ask for.\<close>

definition cancelJob :: "string \<Rightarrow> uploads \<Rightarrow> uploads \<times> string option" where
  "cancelJob i st =
     (if startsWith i ''local-''
      then (st\<lparr>up_localErrors := filter (\<lambda>j. uj_id j \<noteq> i) (up_localErrors st)\<rparr>, None)
      else (st, Some i))"

definition dismissFinished :: "string option \<Rightarrow> uploads \<Rightarrow> uploads \<times> string option option" where
  "dismissFinished i st =
     (let st = st\<lparr>up_localErrors := (if truthy i then filter (\<lambda>j. Some (uj_id j) \<noteq> i) (up_localErrors st) else [])\<rparr>
      in (st, if i \<noteq> None \<and> startsWith (the i) ''local-'' then None else Some i))"

definition set_jobs :: "upload_job list \<Rightarrow> uploads \<Rightarrow> uploads" where
  "set_jobs list' st = on_jobs (st\<lparr>up_jobs := Some list'\<rparr>)"

datatype upload_event =
    OpenDialog
  | CloseDialog
  | AddFiles "js_file list"
  | RemoveFile string
  | ClearPending
  | StartUpload "upload_target option"
  | PostOk upload_job
  | PostFailed "string option" int
  | CancelJob string
  | DismissFinished "string option"
  | JobsAnswer "upload_job list"

fun upload_step :: "uploads \<Rightarrow> upload_event \<Rightarrow> uploads" where
  "upload_step st OpenDialog = st\<lparr>up_dialogOpen := True\<rparr>"
| "upload_step st CloseDialog = st\<lparr>up_dialogOpen := False\<rparr>"
| "upload_step st (AddFiles fs) = addFiles fs st"
| "upload_step st (RemoveFile k) = removeFile k st"
| "upload_step st ClearPending = clearPending st"
| "upload_step st (StartUpload t) = startUpload t st"
| "upload_step st (PostOk j) = post_ok j st"
| "upload_step st (PostFailed m now) = post_failed m now st"
| "upload_step st (CancelJob i) = fst (cancelJob i st)"
| "upload_step st (DismissFinished i) = fst (dismissFinished i st)"
| "upload_step st (JobsAnswer l) = set_jobs l st"

definition uploads_init :: uploads where
  "uploads_init = \<lparr>up_dialogOpen = False, up_pending = [], up_submitting = False, up_flight = None,
     up_localErrors = [], up_jobs = None, up_seen = [], up_posted = [], up_invalidated = []\<rparr>"

definition upload_run :: "upload_event list \<Rightarrow> uploads" where
  "upload_run = foldl upload_step uploads_init"

subsection \<open>Every file is sent, once\<close>

text \<open>What the user put in, and where the provider has it: sent, being sent, or waiting.\<close>

definition added :: "upload_event list \<Rightarrow> js_file list" where
  "added evs = concat (map (\<lambda>e. case e of AddFiles fs \<Rightarrow> fs | _ \<Rightarrow> []) evs)"

definition in_flight :: "uploads \<Rightarrow> js_file list" where
  "in_flight st = (case up_flight st of None \<Rightarrow> [] | Some (t, ps) \<Rightarrow> map pn_file ps)"

definition held :: "uploads \<Rightarrow> js_file list" where
  "held st = map snd (up_posted st) @ in_flight st @ map pn_file (up_pending st)"

definition uploads_inv :: "uploads \<Rightarrow> bool" where
  "uploads_inv st \<longleftrightarrow>
     (\<forall>p \<in> set (up_pending st). pn_key p = fileKey (pn_file p)) \<and> distinct (map pn_key (up_pending st)) \<and>
     up_submitting st = (up_flight st \<noteq> None)"

lemma colon_cut: "a @ CHR '':'' # b = c @ CHR '':'' # d \<Longrightarrow> CHR '':'' \<notin> set b \<Longrightarrow> CHR '':'' \<notin> set d \<Longrightarrow> a = c \<and> b = d"
proof -
  assume e: "a @ CHR '':'' # b = c @ CHR '':'' # d" and b: "CHR '':'' \<notin> set b" and d: "CHR '':'' \<notin> set d"
  have "takeWhile (\<lambda>x. x \<noteq> CHR '':'') (List.rev (u @ CHR '':'' # v)) = List.rev v"
    if "CHR '':'' \<notin> set v" for u v :: string using that by simp (subst takeWhile_append2, auto)
  from this[OF b, of a] this[OF d, of c] have "b = d" unfolding e by simp
  with e show ?thesis by simp
qed

lemma show_nat_colon: "CHR '':'' \<notin> set (show_nat n)"
proof -
  have "\<not> is_digit (CHR '':'')" by (simp add: is_digit_def)
  then show ?thesis using digits_show[of n] by (auto simp: list_all_iff)
qed

lemma show_int_colon: "CHR '':'' \<notin> set (show_int i)"
  by (simp add: show_int_def show_nat_colon)

lemma fileKey_inj: "fileKey f = fileKey g \<Longrightarrow> f = g"
proof -
  assume "fileKey f = fileKey g"
  then have "(fl_name f @ CHR '':'' # show_int (fl_size f)) @ CHR '':'' # show_int (fl_modified f) =
      (fl_name g @ CHR '':'' # show_int (fl_size g)) @ CHR '':'' # show_int (fl_modified g)"
    by (simp add: fileKey_def)
  from colon_cut[OF this show_int_colon show_int_colon]
  have "fl_name f @ CHR '':'' # show_int (fl_size f) = fl_name g @ CHR '':'' # show_int (fl_size g)"
    and m: "show_int (fl_modified f) = show_int (fl_modified g)" by blast+
  from colon_cut[OF this(1) show_int_colon show_int_colon] m
  have "fl_name f = fl_name g" "fl_size f = fl_size g" "fl_modified f = fl_modified g"
    by (auto dest: show_int_inj)
  then show ?thesis by simp
qed

lemma add_files:
  fixes fs :: "js_file list"
  assumes "\<forall>p \<in> set ps. pn_key p = fileKey (pn_file p)" "distinct (map pn_key ps)"
  defines "qs \<equiv> foldl add_file ps fs"
  shows "(\<forall>p \<in> set qs. pn_key p = fileKey (pn_file p)) \<and> distinct (map pn_key qs) \<and>
    mset (map pn_file qs) \<subseteq># mset fs + mset (map pn_file ps) \<and> set fs \<union> set (map pn_file ps) \<subseteq> set (map pn_file qs)"
  using assms(1,2) unfolding qs_def
proof (induction fs arbitrary: ps)
  case Nil
  then show ?case by simp
next
  case (Cons f fs)
  show ?case
  proof (cases "fileKey f \<in> set (map pn_key ps)")
    case True
    then obtain p where "p \<in> set ps" "fileKey f = fileKey (pn_file p)" using Cons.prems(1) by auto
    then have f: "f \<in> set (map pn_file ps)" using fileKey_inj[of f] by auto
    have same: "add_file ps f = ps" using True by (simp add: add_file_def)
    show ?thesis using Cons.IH[OF Cons.prems] f by (auto simp: same intro: subset_mset.order_trans)
  next
    case False
    let ?ps = "ps @ [\<lparr>pn_key = fileKey f, pn_file = f\<rparr>]"
    have new: "add_file ps f = ?ps" using False by (simp add: add_file_def)
    have "\<forall>p \<in> set ?ps. pn_key p = fileKey (pn_file p)" "distinct (map pn_key ?ps)"
      using Cons.prems False by auto
    from Cons.IH[OF this] show ?thesis by (simp add: new)
  qed
qed

text \<open>One step of the provider, on what it holds.\<close>

lemma held_other [simp]:
  "held (st\<lparr>up_jobs := x\<rparr>) = held st" "uploads_inv (st\<lparr>up_jobs := x\<rparr>) = uploads_inv st"
  "held (st\<lparr>up_localErrors := y\<rparr>) = held st" "uploads_inv (st\<lparr>up_localErrors := y\<rparr>) = uploads_inv st"
  "held (st\<lparr>up_dialogOpen := d\<rparr>) = held st" "uploads_inv (st\<lparr>up_dialogOpen := d\<rparr>) = uploads_inv st"
  by (simp_all add: held_def in_flight_def uploads_inv_def)

lemma next_file_held [simp]: "held (next_file st) = held st" "uploads_inv st \<Longrightarrow> uploads_inv (next_file st)"
  by (auto simp: next_file_def held_def in_flight_def uploads_inv_def Let_def split: option.splits list.splits)

lemma on_jobs_held [simp]: "held (on_jobs st) = held st" "uploads_inv (on_jobs st) = uploads_inv st"
  by (simp_all add: on_jobs_def held_def in_flight_def uploads_inv_def Let_def)

lemma post_held: "held (post_ok j st) = held st" "held (post_failed m now st) = held st"
    "uploads_inv st \<Longrightarrow> uploads_inv (post_ok j st)" "uploads_inv st \<Longrightarrow> uploads_inv (post_failed m now st)"
  by (simp_all add: post_ok_def post_failed_def split: option.splits list.splits)

lemma start_held: "uploads_inv st \<Longrightarrow> held (startUpload t st) = held st \<and> uploads_inv (startUpload t st)"
  by (cases "up_flight st") (auto simp: startUpload_def held_def in_flight_def uploads_inv_def)

lemma mset_filter_le: "mset (filter P xs) \<subseteq># mset xs"
  by simp

definition dropped :: "upload_event \<Rightarrow> bool" where
  "dropped e = (case e of RemoveFile _ \<Rightarrow> True | ClearPending \<Rightarrow> True | _ \<Rightarrow> False)"

lemma upload_step_held:
  assumes inv: "uploads_inv st"
  shows "uploads_inv (upload_step st e) \<and> mset (held (upload_step st e)) \<subseteq># mset (held st) + mset (added [e]) \<and>
    (\<not> dropped e \<longrightarrow> set (held st) \<union> set (added [e]) \<subseteq> set (held (upload_step st e)))"
proof (cases e)
  case (AddFiles fs)
  have "\<forall>p \<in> set (up_pending st). pn_key p = fileKey (pn_file p)" "distinct (map pn_key (up_pending st))"
    using inv by (simp_all add: uploads_inv_def)
  note a = add_files[OF this, of fs]
  show ?thesis
  proof (cases "fs = []")
    case True
    then show ?thesis using inv AddFiles by (simp add: addFiles_def added_def)
  next
    case False
    let ?ps = "foldl add_file (up_pending st) fs"
    have st: "upload_step st e = st\<lparr>up_pending := ?ps\<rparr>" using False AddFiles by (simp add: addFiles_def)
    have h: "held (st\<lparr>up_pending := ps\<rparr>) = (map snd (up_posted st) @ in_flight st) @ map pn_file ps" for ps
      by (simp add: held_def in_flight_def)
    have h0: "held st = (map snd (up_posted st) @ in_flight st) @ map pn_file (up_pending st)"
      by (simp add: held_def)
    have "uploads_inv (upload_step st e)" using a inv by (simp add: st uploads_inv_def)
    moreover have "mset (held (upload_step st e)) \<subseteq># mset (held st) + mset (added [e])"
      using a unfolding st h h0 by (simp add: AddFiles added_def union_ac)
    moreover have "set (held st) \<union> set (added [e]) \<subseteq> set (held (upload_step st e))"
      using a unfolding st h h0 by (auto simp: AddFiles added_def)
    ultimately show ?thesis by simp
  qed
next
  case (RemoveFile k)
  show ?thesis using inv
    by (auto simp: RemoveFile removeFile_def dropped_def added_def held_def in_flight_def uploads_inv_def
        intro!: image_mset_subseteq_mono distinct_map_filter mset_filter_le simp del: mset_filter)
next
  case (StartUpload t)
  then show ?thesis using start_held[OF inv, of t] by (simp add: added_def)
next
  case (PostOk j)
  then show ?thesis using inv by (simp add: added_def post_held)
next
  case (PostFailed m now)
  then show ?thesis using inv by (simp add: added_def post_held)
next
  case ClearPending
  then show ?thesis
    using inv by (simp add: added_def clearPending_def dropped_def held_def in_flight_def uploads_inv_def)
qed (use inv in \<open>simp_all add: added_def cancelJob_def dismissFinished_def set_jobs_def Let_def\<close>)

lemma upload_steps_held:
  assumes "uploads_inv st"
  shows "uploads_inv (foldl upload_step st evs) \<and>
    mset (held (foldl upload_step st evs)) \<subseteq># mset (held st) + mset (added evs) \<and>
    ((\<forall>e \<in> set evs. \<not> dropped e) \<longrightarrow> set (held st) \<union> set (added evs) \<subseteq> set (held (foldl upload_step st evs)))"
  using assms
proof (induction evs arbitrary: st)
  case Nil
  then show ?case by (simp add: added_def)
next
  case (Cons e evs)
  have add: "added (e # evs) = added [e] @ added evs" by (simp add: added_def)
  note s = upload_step_held[OF Cons.prems, of e]
  note ih = Cons.IH[OF conjunct1[OF s]]
  have "mset (held (foldl upload_step (upload_step st e) evs)) \<subseteq># mset (held (upload_step st e)) + mset (added evs)"
    using ih by blast
  also have "\<dots> \<subseteq># (mset (held st) + mset (added [e])) + mset (added evs)"
    using s by (intro subset_mset.add_right_mono) blast
  finally have "mset (held (foldl upload_step st (e # evs))) \<subseteq># mset (held st) + mset (added (e # evs))"
    by (simp add: add union_ac)
  then show ?case using s ih by (auto simp: add)
qed



subsection \<open>Dropping files anywhere\<close>

text \<open>
  The listeners on \<open>window\<close>. Their variables are \<open>depth\<close>, \<open>internal\<close> and the watchdog \<open>idle\<close>, kept here
  as the time it will fire; \<open>target\<close> is the upload target when the event arrives, \<open>de_owned\<close> whether the
  event is inside a subtree that handles its own drops.
\<close>

record transfer_item =
  ti_kind :: string
  ti_directory :: "bool option"
  ti_file :: "js_file option"

record data_transfer =
  dt_types :: "string list"
  dt_items :: "transfer_item list"
  dt_files :: "js_file list"

definition collectFiles :: "data_transfer option \<Rightarrow> js_file list" where
  "collectFiles dt =
     (case dt of None \<Rightarrow> []
      | Some d \<Rightarrow>
          if dt_items d \<noteq> []
          then List.map_filter (\<lambda>it. if ti_kind it \<noteq> ''file'' \<or> ti_directory it = Some True then None else ti_file it) (dt_items d)
          else dt_files d)"

record drag_watch =
  dw_depth :: nat
  dw_internal :: bool
  dw_idle :: "int option"
  dw_active :: bool

record drag_event =
  de_kind :: string
  de_transfer :: "data_transfer option"
  de_owned :: bool

definition drag_stop :: "drag_watch \<Rightarrow> drag_watch" where
  "drag_stop w = w\<lparr>dw_depth := 0, dw_idle := None, dw_active := False\<rparr>"

definition keepAlive :: "int \<Rightarrow> drag_watch \<Rightarrow> drag_watch" where
  "keepAlive now w = w\<lparr>dw_idle := Some (now + 1200)\<rparr>"

definition isFileDrag :: "drag_watch \<Rightarrow> drag_event \<Rightarrow> bool" where
  "isFileDrag w e = (\<not> dw_internal w \<and>
     ''Files'' \<in> set (case de_transfer e of None \<Rightarrow> [] | Some d \<Rightarrow> dt_types d))"

definition drag_ignored :: "bool \<Rightarrow> drag_watch \<Rightarrow> drag_event \<Rightarrow> bool" where
  "drag_ignored target w e = (\<not> isFileDrag w e \<or> \<not> target \<or> de_owned e)"

definition onDragStart :: "drag_watch \<Rightarrow> drag_watch" where
  "onDragStart w = drag_stop (w\<lparr>dw_internal := True\<rparr>)"

definition onDragEnd :: "drag_watch \<Rightarrow> drag_watch" where
  "onDragEnd w = drag_stop (w\<lparr>dw_internal := False\<rparr>)"

definition onPointerDown :: "drag_watch \<Rightarrow> drag_watch" where
  "onPointerDown w = w\<lparr>dw_internal := False\<rparr>"

definition onDragEnter :: "int \<Rightarrow> bool \<Rightarrow> drag_event \<Rightarrow> drag_watch \<Rightarrow> drag_watch" where
  "onDragEnter now target e w =
     (if drag_ignored target w e then w
      else (keepAlive now (w\<lparr>dw_depth := dw_depth w + 1\<rparr>))\<lparr>dw_active := True\<rparr>)"

definition onDragOver :: "int \<Rightarrow> bool \<Rightarrow> drag_event \<Rightarrow> drag_watch \<Rightarrow> drag_watch" where
  "onDragOver now target e w =
     (if drag_ignored target w e then w else if dw_depth w > 0 then keepAlive now w else w)"

definition onDragLeave :: "drag_event \<Rightarrow> drag_watch \<Rightarrow> drag_watch" where
  "onDragLeave e w =
     (if \<not> isFileDrag w e then w
      else (let w = w\<lparr>dw_depth := dw_depth w - 1\<rparr> in if dw_depth w = 0 then drag_stop w else w))"

text \<open>\<open>onDrop\<close> also says which files go to the dialog.\<close>

definition onDrop :: "bool \<Rightarrow> drag_event \<Rightarrow> drag_watch \<Rightarrow> drag_watch \<times> js_file list" where
  "onDrop target e w =
     (drag_stop w, if drag_ignored target (drag_stop w) e then [] else collectFiles (de_transfer e))"

definition drop_uploads :: "js_file list \<Rightarrow> uploads \<Rightarrow> uploads" where
  "drop_uploads files st = (if files = [] then st else (addFiles files st)\<lparr>up_dialogOpen := True\<rparr>)"

text \<open>The timer fires when its time has come; an event is handled after the timers before it.\<close>

definition drag_timer :: "int \<Rightarrow> drag_watch \<Rightarrow> drag_watch" where
  "drag_timer now w = (case dw_idle w of None \<Rightarrow> w | Some d \<Rightarrow> if d \<le> now then drag_stop w else w)"

definition drag_handle :: "int \<Rightarrow> bool \<Rightarrow> drag_event \<Rightarrow> drag_watch \<Rightarrow> drag_watch" where
  "drag_handle now target e w =
     (if de_kind e = ''dragstart'' then onDragStart w
      else if de_kind e = ''dragend'' then onDragEnd w
      else if de_kind e = ''pointerdown'' then onPointerDown w
      else if de_kind e = ''dragenter'' then onDragEnter now target e w
      else if de_kind e = ''dragover'' then onDragOver now target e w
      else if de_kind e = ''dragleave'' then onDragLeave e w
      else if de_kind e = ''drop'' then fst (onDrop target e w)
      else w)"

definition drag_run :: "(int \<times> bool \<times> drag_event) list \<Rightarrow> drag_watch" where
  "drag_run = foldl (\<lambda>w (now, target, e). drag_handle now target e (drag_timer now w))
     \<lparr>dw_depth = 0, dw_internal = False, dw_idle = None, dw_active = False\<rparr>"

text \<open>The watchdog guards the overlay, and is never set for later than 1200 ms after the last enter or over.\<close>

definition drag_inv :: "int \<Rightarrow> drag_watch \<Rightarrow> bool" where
  "drag_inv T w \<longleftrightarrow> dw_active w = (dw_idle w \<noteq> None) \<and> (dw_depth w > 0) = dw_active w \<and>
     (dw_internal w \<longrightarrow> \<not> dw_active w) \<and> (\<forall>d. dw_idle w = Some d \<longrightarrow> d \<le> T + 1200)"

lemma drag_timer_inv: "drag_inv T w \<Longrightarrow> drag_inv T (drag_timer now w)"
  by (auto simp: drag_timer_def drag_inv_def drag_stop_def split: option.splits)

lemma drag_handle_inv:
  assumes "drag_inv T w" "de_kind e \<in> {''dragenter'', ''dragover''} \<longrightarrow> now \<le> T"
  shows "drag_inv T (drag_handle now target e w)"
  using assms
  by (auto simp: drag_handle_def onDragStart_def onDragEnd_def onPointerDown_def onDragEnter_def onDragOver_def
      onDragLeave_def onDrop_def drag_inv_def drag_stop_def keepAlive_def drag_ignored_def isFileDrag_def Let_def)

lemma drag_run_inv:
  assumes "\<forall>(now, target, e) \<in> set evs. de_kind e \<in> {''dragenter'', ''dragover''} \<longrightarrow> now \<le> T"
  shows "drag_inv T (drag_run evs)"
  using assms
proof (induction evs rule: rev_induct)
  case Nil
  then show ?case by (simp add: drag_run_def drag_inv_def)
next
  case (snoc x evs)
  obtain now target e where x: "x = (now, target, e)" by (metis prod_cases3)
  have "drag_inv T (drag_run evs)" using snoc by simp
  then show ?case
    using drag_handle_inv[OF drag_timer_inv, of T _ e now target] snoc.prems
    by (simp add: drag_run_def x)
qed

text \<open>
  The drop overlay cannot get stuck over the page: whatever drag events arrive - a leave that is
  missing, a drop a subtree swallows, a drag that ends outside the window - it is gone 1200 ms after the
  last enter or over event; and dragging a part of the page itself never shows it.
\<close>

theorem drag_overlay_ends:
  assumes "\<forall>(now, target, e) \<in> set evs. de_kind e \<in> {''dragenter'', ''dragover''} \<longrightarrow> now \<le> T" "T + 1200 \<le> later"
  shows "\<not> dw_active (drag_timer later (drag_run evs)) \<and> (dw_internal (drag_run evs) \<longrightarrow> \<not> dw_active (drag_run evs))"
  using drag_run_inv[OF assms(1)] assms(2)
  by (auto simp: drag_inv_def drag_timer_def drag_stop_def split: option.splits)

lemma drag_overlay_ends_witness:
  defines "e \<equiv> \<lparr>de_kind = ''dragenter'',
    de_transfer = Some \<lparr>dt_types = [''Files''], dt_items = [], dt_files = []\<rparr>, de_owned = False\<rparr>"
  shows "dw_active (drag_run [(0, True, e), (10, True, e)]) \<and>
    \<not> dw_active (drag_timer 1210 (drag_run [(0, True, e), (10, True, e)]))"
proof -
  have "dw_active (drag_run [(0, True, e), (10, True, e)])"
    by (simp add: drag_run_def drag_handle_def drag_timer_def onDragEnter_def drag_ignored_def isFileDrag_def
        keepAlive_def e_def)
  moreover have "\<not> dw_active (drag_timer 1210 (drag_run [(0, True, e), (10, True, e)]))"
    using drag_overlay_ends[of "[(0, True, e), (10, True, e)]" 10 1210] by simp
  ultimately show ?thesis by simp
qed

end
