(* ===== verification/FusionActions.thy ===== *)
theory FusionActions
  imports NavUrl "HOL-Library.AList"
begin

section \<open>Open, Insert and Archive\<close>

text \<open>
  \<open>state/fusionActions.tsx\<close>: handing a document to the user's Fusion client, and the archive jobs. An
  action runs in three stages - the click, the answer of the server, and for a launched action the poll
  of its outcome - and several run at once; \<open>fa_running\<close> lists the runs that wait for an answer. The
  clock is an argument. \<open>fa_launched\<close> records the URLs given to the operating system.
\<close>

subsection \<open>Types\<close>

datatype FusionAction = FOpen | FInsert

record fusion_feedback =
  fb_kind :: string
  fb_action :: "FusionAction option"
  fb_docName :: string
  fb_status :: string
  fb_code :: "string option"

record fusion_result =
  fu_mode :: string
  fu_ticket :: "string option"
  fu_url :: "string option"
  fu_ok :: "bool option"
  fu_errorCode :: "string option"

record fusion_outcome =
  fo_status :: string
  fo_errorCode :: "string option"

record fusion_run =
  fx_item :: string
  fx_name :: string
  fx_action :: FusionAction

record fusion_state =
  fa_feedback :: "fusion_feedback option"
  fa_pending :: "(string \<times> FusionAction) list"
  fa_running :: "fusion_run list"
  fa_launched :: "string list"
  fa_downloading :: "string list"
  fa_invalidated :: "string list"

definition LAUNCH_POLL_MS :: int where "LAUNCH_POLL_MS = 700"
definition LAUNCH_TIMEOUT_MS :: int where "LAUNCH_TIMEOUT_MS = 25000"

subsection \<open>Running an action\<close>

definition action_feedback :: "fusion_run \<Rightarrow> string \<Rightarrow> string option \<Rightarrow> fusion_feedback" where
  "action_feedback r status code =
     \<lparr>fb_kind = ''action'', fb_action = Some (fx_action r), fb_docName = fx_name r, fb_status = status, fb_code = code\<rparr>"

text \<open>\<open>done\<close>: the item is free again and the feedback shown.\<close>

definition action_done :: "fusion_run \<Rightarrow> fusion_feedback \<Rightarrow> fusion_state \<Rightarrow> fusion_state" where
  "action_done r fb st = st\<lparr>fa_pending := AList.delete (fx_item r) (fa_pending st),
     fa_running := removeAll r (fa_running st), fa_feedback := Some fb\<rparr>"

text \<open>The click: nothing without a hub, and nothing while an action on the document is pending.\<close>

definition runAction :: "string option \<Rightarrow> item \<Rightarrow> FusionAction \<Rightarrow> fusion_state \<Rightarrow> fusion_state" where
  "runAction hub it act st =
     (if \<not> truthy hub \<or> map_of (fa_pending st) (it_id it) \<noteq> None then st
      else st\<lparr>fa_pending := AList.update (it_id it) act (fa_pending st),
              fa_running := fa_running st @ [\<lparr>fx_item = it_id it, fx_name = it_name it, fx_action = act\<rparr>]\<rparr>)"

text \<open>
  The answer: \<^const>\<open>Inl\<close> a failed request with the code of an \<open>ApiError\<close>. A launched action goes on with
  the poll, and the feedback is not known yet.
\<close>

definition action_answer :: "fusion_run \<Rightarrow> string option + fusion_result \<Rightarrow> (string \<times> string) + fusion_feedback" where
  "action_answer r res =
     (case res of
        Inl code \<Rightarrow> Inr (action_feedback r ''error'' code)
      | Inr x \<Rightarrow>
          if fu_mode x = ''proxy''
          then Inr (action_feedback r (if fu_ok x = Some True then ''ok'' else ''error'') (fu_errorCode x))
          else if \<not> truthy (fu_url x) \<or> \<not> truthy (fu_ticket x) then Inr (action_feedback r ''error'' None)
          else Inl (the (fu_url x), the (fu_ticket x)))"

text \<open>
  The poll: an entry is what the server said to one request (\<^const>\<open>None\<close> if it failed) and the time after
  it. \<^const>\<open>None\<close> as the result means that the poll goes on.
\<close>

fun poll_outcome :: "fusion_run \<Rightarrow> int \<Rightarrow> (fusion_outcome option \<times> int) list \<Rightarrow> (fusion_feedback \<times> nat) option" where
  "poll_outcome r deadline [] = None"
| "poll_outcome r deadline ((outcome, now) # polls) =
     (case outcome of
        None \<Rightarrow> Some (action_feedback r ''helperMissing'' None, 1)
      | Some x \<Rightarrow>
          if fo_status x = ''ok'' then Some (action_feedback r ''ok'' None, 1)
          else if fo_status x = ''error'' then Some (action_feedback r ''error'' (fo_errorCode x), 1)
          else if now > deadline then Some (action_feedback r ''helperMissing'' None, 1)
          else map_option (\<lambda>(fb, n). (fb, Suc n)) (poll_outcome r deadline polls))"

text \<open>An error the helper reports is in the inbox too.\<close>

definition action_end :: "fusion_run \<Rightarrow> bool \<Rightarrow> fusion_feedback \<Rightarrow> fusion_state \<Rightarrow> fusion_state" where
  "action_end r launched fb st =
     action_done r fb (if launched \<and> fb_status fb = ''error''
       then st\<lparr>fa_invalidated := fa_invalidated st @ [''notifs'']\<rparr> else st)"

datatype fusion_event =
    Click "string option" item FusionAction
  | Answer fusion_run "string option + fusion_result"
  | Polled fusion_run int "(fusion_outcome option \<times> int) list"
  | DismissFeedback

fun fusion_step :: "fusion_state \<Rightarrow> fusion_event \<Rightarrow> fusion_state" where
  "fusion_step st (Click hub it act) = runAction hub it act st"
| "fusion_step st (Answer r res) =
     (if r \<notin> set (fa_running st) then st
      else case action_answer r res of
        Inl (url, ticket) \<Rightarrow> st\<lparr>fa_launched := fa_launched st @ [url]\<rparr>
      | Inr fb \<Rightarrow> action_end r False fb st)"
| "fusion_step st (Polled r start polls) =
     (if r \<notin> set (fa_running st) then st
      else case poll_outcome r (start + LAUNCH_TIMEOUT_MS) polls of
        None \<Rightarrow> st | Some (fb, n) \<Rightarrow> action_end r True fb st)"
| "fusion_step st DismissFeedback = st\<lparr>fa_feedback := None\<rparr>"

definition fusion_init :: fusion_state where
  "fusion_init = \<lparr>fa_feedback = None, fa_pending = [], fa_running = [], fa_launched = [],
     fa_downloading = [], fa_invalidated = []\<rparr>"

definition pendingFor :: "string \<Rightarrow> fusion_state \<Rightarrow> FusionAction option" where
  "pendingFor i st = map_of (fa_pending st) i"

subsection \<open>Archives\<close>

definition isActiveArchive :: "archive_job \<Rightarrow> bool" where
  "isActiveArchive j = (aj_status j = ''queued'' \<or> aj_status j = ''preparing'')"

definition archive_interval :: "archive_job list option \<Rightarrow> int option" where
  "archive_interval data = (if (\<exists>j \<in> set (nullish data []). isActiveArchive j) then Some 2000 else None)"

text \<open>The effect on the job list: whether a job settled since the last one, and what is seen now.\<close>

definition on_archives :: "(string \<times> string) list \<Rightarrow> archive_job list \<Rightarrow> bool \<times> (string \<times> string) list" where
  "on_archives seen jobs =
     ((\<exists>j \<in> set jobs. \<not> isActiveArchive j \<and> map_of seen (aj_id j) \<noteq> Some (aj_status j)),
      List.rev (map (\<lambda>j. (aj_id j, aj_status j)) jobs))"

definition archiveFor :: "archive_job list \<Rightarrow> string \<Rightarrow> string option \<Rightarrow> archive_job option" where
  "archiveFor archives itemId versionId =
     List.find (\<lambda>j. aj_itemId j = Some itemId \<and> nullish (aj_versionId j) [] = nullish versionId [] \<and> isActiveArchive j) archives"

definition archiveReady :: "archive_job list \<Rightarrow> string \<Rightarrow> bool" where
  "archiveReady archives i = (\<exists>j \<in> set archives. aj_id j = i \<and> aj_status j = ''ready'')"

text \<open>\<open>startArchive\<close> and \<open>downloadArchive\<close> by the outcome of their request.\<close>

definition archive_error :: "string \<Rightarrow> string option \<Rightarrow> fusion_feedback" where
  "archive_error doc code =
     \<lparr>fb_kind = ''archive'', fb_action = None, fb_docName = doc, fb_status = ''error'', fb_code = code\<rparr>"

definition startArchive_done ::
    "string option \<Rightarrow> item \<Rightarrow> string option + archive_job list \<Rightarrow> archive_job list option \<times> fusion_state \<Rightarrow>
     archive_job list option \<times> fusion_state" where
  "startArchive_done hub it res c =
     (if \<not> truthy hub then c
      else case res of
        Inr jobs \<Rightarrow> (Some jobs, snd c)
      | Inl code \<Rightarrow> (fst c, (snd c)\<lparr>fa_feedback := Some (archive_error (it_name it) code)\<rparr>))"

text \<open>\<open>/filename="([^"]*)"/\<close>: the first occurrence that a quote closes.\<close>

fun filename_in :: "string \<Rightarrow> string" where
  "filename_in [] = []"
| "filename_in (c # s) =
     (let key = ''filename='' @ [CHR 0x22]; r = drop (length key) (c # s) in
      if startsWith (c # s) key \<and> CHR 0x22 \<in> set r then takeWhile (\<lambda>d. d \<noteq> CHR 0x22) r else filename_in s)"

definition filenameFromDisposition :: "string option \<Rightarrow> string" where
  "filenameFromDisposition header = (if truthy header then filename_in (the header) else [])"

datatype download_answer =
    DownloadFailed
  | DownloadRefused "string option"
  | DownloadOk "string option"

definition download_start :: "string \<Rightarrow> fusion_state \<Rightarrow> fusion_state" where
  "download_start i st = st\<lparr>fa_downloading := List.insert i (fa_downloading st)\<rparr>"

text \<open>The state after the download, and the name the file is saved under, if it is.\<close>

definition download_done :: "string \<Rightarrow> string \<Rightarrow> download_answer \<Rightarrow> fusion_state \<Rightarrow> fusion_state \<times> string option" where
  "download_done i doc ans st =
     (let rest = st\<lparr>fa_downloading := removeAll i (fa_downloading st)\<rparr> in
      case ans of
        DownloadFailed \<Rightarrow> (rest\<lparr>fa_feedback := Some (archive_error doc None)\<rparr>, None)
      | DownloadRefused code \<Rightarrow> (rest\<lparr>fa_feedback := Some (archive_error doc code)\<rparr>, None)
      | DownloadOk header \<Rightarrow> (rest, Some (let n = filenameFromDisposition header in if n \<noteq> [] then n else doc)))"

definition downloadingArchive :: "string \<Rightarrow> fusion_state \<Rightarrow> bool" where
  "downloadingArchive i st = (i \<in> set (fa_downloading st))"

subsection \<open>One action at a time, and each comes to an end\<close>

definition fusion_inv :: "fusion_state \<Rightarrow> bool" where
  "fusion_inv st \<longleftrightarrow> distinct (map fst (fa_pending st)) \<and> distinct (map fx_item (fa_running st)) \<and>
     set (fa_pending st) = (\<lambda>r. (fx_item r, fx_action r)) ` set (fa_running st)"

lemma fusion_inv_other [simp]:
  "fusion_inv (st\<lparr>fa_feedback := a\<rparr>) = fusion_inv st" "fusion_inv (st\<lparr>fa_launched := b\<rparr>) = fusion_inv st"
  "fusion_inv (st\<lparr>fa_invalidated := c\<rparr>) = fusion_inv st"
  by (simp_all add: fusion_inv_def)

lemma action_done_inv:
  assumes inv: "fusion_inv st" and r: "r \<in> set (fa_running st)"
  shows "fusion_inv (action_done r fb st)"
proof -
  have d: "distinct (map fx_item (fa_running st))" using inv by (simp add: fusion_inv_def)
  then have same: "x = r" if "x \<in> set (fa_running st)" "fx_item x = fx_item r" for x
    using that r by (auto simp: distinct_map dest: inj_onD)
  have "set (AList.delete (fx_item r) (fa_pending st)) = {e \<in> set (fa_pending st). fst e \<noteq> fx_item r}"
    by (auto simp: AList.delete_eq)
  also have "\<dots> = (\<lambda>r. (fx_item r, fx_action r)) ` set (removeAll r (fa_running st))"
    using inv same by (auto simp: fusion_inv_def)
  finally show ?thesis
    using inv d by (simp add: fusion_inv_def action_done_def distinct_delete distinct_map_filter removeAll_filter_not_eq)
qed

lemma update_new: "k \<notin> fst ` set xs \<Longrightarrow> AList.update k v xs = xs @ [(k, v)]"
  by (induction xs) auto

lemma runAction_inv:
  assumes inv: "fusion_inv st"
  shows "fusion_inv (runAction hub it act st)"
proof (cases "\<not> truthy hub \<or> map_of (fa_pending st) (it_id it) \<noteq> None")
  case True
  then show ?thesis using inv by (auto simp: runAction_def)
next
  case False
  let ?i = "it_id it"
  have new: "?i \<notin> fst ` set (fa_pending st)" using False by (simp add: map_of_eq_None_iff)
  then have run: "?i \<notin> fx_item ` set (fa_running st)" using inv by (auto simp: fusion_inv_def image_image)
  have "AList.update ?i act (fa_pending st) = fa_pending st @ [(?i, act)]"
    using new by (rule update_new)
  then show ?thesis using False inv new run by (auto simp: runAction_def fusion_inv_def)
qed

lemma fusion_step_inv: "fusion_inv st \<Longrightarrow> fusion_inv (fusion_step st e)"
  by (cases e) (auto simp: runAction_inv action_end_def action_done_inv split: sum.splits option.splits)

lemma fusion_run_inv: "fusion_inv (foldl fusion_step fusion_init evs)"
proof (induction evs rule: rev_induct)
  case Nil
  then show ?case by (simp add: fusion_inv_def fusion_init_def)
next
  case (snoc e evs)
  then show ?case by (simp add: fusion_step_inv)
qed

lemma pending_running:
  assumes "fusion_inv st"
  shows "pendingFor i st = Some a \<longleftrightarrow> (\<exists>r \<in> set (fa_running st). fx_item r = i \<and> fx_action r = a)"
proof -
  have d: "distinct (map fst (fa_pending st))" and s: "set (fa_pending st) = (\<lambda>r. (fx_item r, fx_action r)) ` set (fa_running st)"
    using assms by (simp_all add: fusion_inv_def)
  have "pendingFor i st = Some a \<longleftrightarrow> (i, a) \<in> set (fa_pending st)"
    using d by (simp add: pendingFor_def map_of_eq_Some_iff)
  then show ?thesis unfolding s by auto
qed

text \<open>
  A document has one action at a time: after any sequence of clicks, answers, polls and dismissals the
  runs that wait for an answer are of different documents, and a document's button spins exactly while
  the run of its own action waits - so a second click never sends a second ticket.
\<close>

theorem one_action_per_document:
  "distinct (map fx_item (fa_running (foldl fusion_step fusion_init evs))) \<and>
    (pendingFor i (foldl fusion_step fusion_init evs) = Some a \<longleftrightarrow>
      (\<exists>r \<in> set (fa_running (foldl fusion_step fusion_init evs)). fx_item r = i \<and> fx_action r = a))"
  using fusion_run_inv[of evs] pending_running[OF fusion_run_inv, of i evs a] by (simp add: fusion_inv_def)

text \<open>How the poll ends.\<close>

lemma poll_ends:
  assumes "\<forall>k < length polls. start + 700 * int (k + 1) \<le> snd (polls ! k)" "k < length polls"
    "deadline < start + 700 * int (k + 1)"
  shows "\<exists>fb n. poll_outcome r deadline polls = Some (fb, n) \<and> 0 < n \<and> n \<le> k + 1 \<and>
    (fb_status fb = ''helperMissing'' \<longrightarrow> fst (polls ! (n - 1)) = None \<or> deadline < snd (polls ! (n - 1)))"
  using assms
proof (induction polls arbitrary: start k)
  case Nil
  then show ?case by simp
next
  case (Cons p polls)
  obtain outcome now where p: "p = (outcome, now)" by (cases p)
  show ?case
  proof (cases "poll_outcome r deadline [p] = None")
    case False
    then obtain fb n where e: "poll_outcome r deadline [p] = Some (fb, n)" by auto
    have "poll_outcome r deadline (p # polls) = Some (fb, n)" "n = 1"
      using e by (auto simp: p split: option.splits if_splits)
    moreover have "fb_status fb = ''helperMissing'' \<longrightarrow> outcome = None \<or> deadline < now"
      using e by (auto simp: p action_feedback_def split: option.splits if_splits)
    ultimately show ?thesis by (intro exI[of _ fb] exI[of _ n]) (simp add: p)
  next
    case True
    then obtain x where x: "outcome = Some x" "fo_status x \<noteq> ''ok''" "fo_status x \<noteq> ''error''" "\<not> now > deadline"
      by (auto simp: p split: option.splits if_splits)
    have "start + 700 \<le> now" using Cons.prems(1) by (force simp: p)
    then have k: "k \<noteq> 0" using Cons.prems(3) x(4) by auto
    have step: "\<forall>j < length polls. start + 700 + 700 * int (j + 1) \<le> snd (polls ! j)"
    proof (intro allI impI)
      fix j assume "j < length polls"
      then show "start + 700 + 700 * int (j + 1) \<le> snd (polls ! j)"
        using Cons.prems(1)[rule_format, of "Suc j"] by (simp add: algebra_simps)
    qed
    have "k - 1 < length polls" "deadline < start + 700 + 700 * int (k - 1 + 1)"
      using Cons.prems(2,3) k by (auto simp: algebra_simps of_nat_diff)
    from Cons.IH[OF step this] obtain fb n where "poll_outcome r deadline polls = Some (fb, n)" "0 < n" "n \<le> k - 1 + 1"
      "fb_status fb = ''helperMissing'' \<longrightarrow> fst (polls ! (n - 1)) = None \<or> deadline < snd (polls ! (n - 1))" by blast
    then show ?thesis using x k by (intro exI[of _ fb] exI[of _ "Suc n"]) (simp add: p nth_Cons')
  qed
qed

text \<open>
  C24. Waiting for the helper ends: with at least 700 ms between two polls the wait is over after at most
  36 of them, whatever the server answers; the document is then free for the next action and the
  outcome on screen. A missing helper is reported only when a poll failed or 25 seconds had passed.
\<close>

theorem action_wait_ends:
  assumes "\<forall>k < length polls. start + LAUNCH_POLL_MS * int (k + 1) \<le> snd (polls ! k)" "36 \<le> length polls"
    and "r \<in> set (fa_running (foldl fusion_step fusion_init evs))"
  defines "after \<equiv> fusion_step (foldl fusion_step fusion_init evs) (Polled r start polls)"
  shows "\<exists>fb n. poll_outcome r (start + LAUNCH_TIMEOUT_MS) polls = Some (fb, n) \<and> n \<le> 36 \<and>
    fa_feedback after = Some fb \<and> pendingFor (fx_item r) after = None \<and>
    (fb_status fb = ''helperMissing'' \<longrightarrow>
      fst (polls ! (n - 1)) = None \<or> start + LAUNCH_TIMEOUT_MS < snd (polls ! (n - 1)))"
proof -
  have "\<forall>k < length polls. start + 700 * int (k + 1) \<le> snd (polls ! k)"
    using assms(1) by (simp add: LAUNCH_POLL_MS_def)
  from poll_ends[OF this, of 35 "start + LAUNCH_TIMEOUT_MS" r] assms(2)
  obtain fb n where fb: "poll_outcome r (start + LAUNCH_TIMEOUT_MS) polls = Some (fb, n)" "n \<le> 36"
    "fb_status fb = ''helperMissing'' \<longrightarrow>
      fst (polls ! (n - 1)) = None \<or> start + LAUNCH_TIMEOUT_MS < snd (polls ! (n - 1))"
    by (auto simp: LAUNCH_TIMEOUT_MS_def)
  have "after = action_end r True fb (foldl fusion_step fusion_init evs)"
    using assms(3) fb(1) by (simp add: after_def)
  then have "fa_feedback after = Some fb" "pendingFor (fx_item r) after = None"
    by (simp_all add: action_end_def action_done_def pendingFor_def AList.delete_conv)
  with fb show ?thesis by blast
qed

lemma action_wait_ends_witness:
  defines "doc \<equiv> mk_item ''i'' ''Part'' ''design'' False"
    and "r \<equiv> \<lparr>fx_item = ''i'', fx_name = ''Part'', fx_action = FOpen\<rparr>"
    and "polls \<equiv> map (\<lambda>k. (Some \<lparr>fo_status = ''pending'', fo_errorCode = None\<rparr>, 700 * int (k + 1))) [0..<36]"
  shows "pendingFor ''i'' (foldl fusion_step fusion_init [Click (Some ''h'') doc FOpen]) = Some FOpen \<and>
    pendingFor ''i'' (fusion_step (foldl fusion_step fusion_init [Click (Some ''h'') doc FOpen]) (Polled r 0 polls)) = None"
proof -
  let ?st = "foldl fusion_step fusion_init [Click (Some ''h'') doc FOpen]"
  have clock: "\<forall>k < length polls. 0 + LAUNCH_POLL_MS * int (k + 1) \<le> snd (polls ! k)"
    by (simp add: polls_def LAUNCH_POLL_MS_def)
  have len: "36 \<le> length polls" by (simp add: polls_def)
  have run: "r \<in> set (fa_running ?st)"
    by (simp add: runAction_def fusion_init_def doc_def r_def mk_item_def)
  have i: "fx_item r = ''i''" by (simp add: r_def)
  have "pendingFor ''i'' ?st = Some FOpen"
    by (simp add: runAction_def fusion_init_def doc_def pendingFor_def mk_item_def)
  with action_wait_ends[OF clock len run] show ?thesis unfolding i by blast
qed

end
