(* ===== verification/Pins.thy ===== *)
theory Pins
  imports Nav RefTokens
begin

section \<open>Pins\<close>

text \<open>
  \<open>state/pins.ts\<close> (what a click on a star asks for), the navigation of \<open>components/PinsDialog.tsx\<close> with
  the token routing of \<open>components/RefTokenDialog.tsx\<close>, and the store the requests go to
  (\<open>src/pins/pins.go\<close>, \<open>src/server/handlers_pins.go\<close>). A pin on the server is the same record: Go's empty
  fields are left out of the JSON, and are absent fields for the client (\<open>pin_wire\<close>). Reading and
  writing the file of a hub is a list that is given and returned.
\<close>

subsection \<open>What the stars ask for\<close>

definition PINNABLE :: "string list" where
  "PINNABLE = [''project'', ''folder'', ''design'', ''drawing'', ''configured'', ''schematic'', ''pcb'', ''ecad'']"

definition isPinnable :: "string \<Rightarrow> bool" where
  "isPinnable kind = (kind \<in> set PINNABLE)"

record local_pin_target =
  lp_ref :: string
  lp_kind :: string
  lp_name :: string
  lp_projectId :: string
  lp_projectName :: "string option"

datatype pin_request = AddPin pin | RemovePin string

definition no_pin :: pin where
  "no_pin = \<lparr>pin_id = [], pin_name = [], pin_kind = [], pin_hub_id = None, pin_project_id = None,
     pin_project_alt_id = None, pin_folder_path = None, pin_ref = None, pin_project_name = None, pin_pinned_at = None\<rparr>"

definition pinned_ids :: "pin list option \<Rightarrow> string list" where
  "pinned_ids data = map pin_id (nullish data [])"

definition folder_path :: "nav_state \<Rightarrow> item \<Rightarrow> folder_ref list" where
  "folder_path s it =
     (if it_kind it = ''project'' then [] else map (\<lambda>f. \<lparr>fr_id = it_id f, fr_name = it_name f\<rparr>) (folderStack s)) @
     (if it_kind it = ''folder'' then [\<lparr>fr_id = it_id it, fr_name = it_name it\<rparr>] else [])"

definition usePinToggle :: "nav_state \<Rightarrow> pin list option \<Rightarrow> item \<Rightarrow> pin_request option" where
  "usePinToggle s data it =
     (if \<not> truthy (hubId s) \<or> \<not> isPinnable (it_kind it) then None
      else if it_id it \<in> set (pinned_ids data) then Some (RemovePin (it_id it))
      else let isProject = (it_kind it = ''project'') in
        Some (AddPin (no_pin\<lparr>pin_id := it_id it, pin_name := it_name it, pin_kind := it_kind it,
          pin_project_id := (if isProject then Some (it_id it) else map_option it_id (project s)),
          pin_project_alt_id := (if isProject then it_altId it else Option.bind (project s) it_altId),
          pin_folder_path := Some (folder_path s it)\<rparr>)))"

definition isPinned :: "pin list option \<Rightarrow> string \<Rightarrow> bool" where
  "isPinned data ref = (ref \<in> set (pinned_ids data))"

definition useLocalPin :: "nav_state \<Rightarrow> pin list option \<Rightarrow> local_pin_target \<Rightarrow> pin_request option" where
  "useLocalPin s data t =
     (if \<not> truthy (hubId s) \<or> lp_ref t = [] \<or> lp_projectId t = [] then None
      else if lp_ref t \<in> set (pinned_ids data) then Some (RemovePin (lp_ref t))
      else Some (AddPin (no_pin\<lparr>pin_id := lp_ref t, pin_ref := Some (lp_ref t), pin_kind := lp_kind t,
        pin_name := lp_name t, pin_project_id := Some (lp_projectId t), pin_project_name := lp_projectName t\<rparr>)))"

text \<open>The star of a whiteboard (\<open>WhiteboardsApp\<close>).\<close>

definition board_pin_target :: "whiteboard \<Rightarrow> local_pin_target" where
  "board_pin_target b =
     \<lparr>lp_ref = encodeWhiteboardRef (whiteboardRefFromBoard b), lp_kind = ''whiteboard'', lp_name = wb_name b,
      lp_projectId = wb_projectId b, lp_projectName = Some (wb_projectName b)\<rparr>"

subsection \<open>The store\<close>

definition IsLocalKind :: "string \<Rightarrow> bool" where
  "IsLocalKind kind = (kind \<in> set [''whiteboard'', ''task'', ''job'', ''batch'', ''channel''])"

definition IsPinnable :: "string \<Rightarrow> bool" where
  "IsPinnable kind =
     (kind \<in> set [''project'', ''folder'', ''design'', ''drawing'', ''configured'', ''schematic'', ''pcb'', ''ecad'']
      \<or> IsLocalKind kind)"

datatype pin_error = ErrNoID | ErrNotPinnable | ErrRefRequired | ErrRefUnexpected | ErrRefMismatch

definition Validate :: "pin \<Rightarrow> pin_error option" where
  "Validate p =
     (if pin_id p = [] then Some ErrNoID
      else if \<not> IsPinnable (pin_kind p) then Some ErrNotPinnable
      else if \<not> IsLocalKind (pin_kind p) then (if truthy (pin_ref p) then Some ErrRefUnexpected else None)
      else if \<not> truthy (pin_project_id p) \<or> \<not> startsWith (nullish (pin_ref p) []) ''fls:'' then Some ErrRefRequired
      else if pin_id p \<noteq> nullish (pin_ref p) [] then Some ErrRefMismatch
      else None)"

definition IsPinned :: "pin list \<Rightarrow> string \<Rightarrow> bool" where
  "IsPinned ps i = (\<exists>p \<in> set ps. pin_id p = i)"

definition Add :: "string \<Rightarrow> pin list \<Rightarrow> pin \<Rightarrow> pin list" where
  "Add now ps p = (if IsPinned ps (pin_id p) then ps else p\<lparr>pin_pinned_at := Some now\<rparr> # ps)"

definition Remove :: "pin list \<Rightarrow> string \<Rightarrow> pin list" where
  "Remove ps i = filter (\<lambda>p. pin_id p \<noteq> i) ps"

text \<open>\<open>omitempty\<close>: a field that is empty in Go is absent in the JSON.\<close>

definition omitempty :: "string option \<Rightarrow> string option" where
  "omitempty x = (if truthy x then x else None)"

definition pin_wire :: "pin \<Rightarrow> pin" where
  "pin_wire p = p\<lparr>pin_project_id := omitempty (pin_project_id p), pin_project_alt_id := omitempty (pin_project_alt_id p),
     pin_folder_path := (if nullish (pin_folder_path p) [] = [] then None else pin_folder_path p),
     pin_ref := omitempty (pin_ref p), pin_project_name := omitempty (pin_project_name p)\<rparr>"

definition handlePinsAdd :: "string \<Rightarrow> string \<Rightarrow> pin list \<Rightarrow> pin \<Rightarrow> pin_error + pin list" where
  "handlePinsAdd hub now ps p =
     (case Validate p of Some e \<Rightarrow> Inl e
      | None \<Rightarrow> Inr (Add now ps ((pin_wire p)\<lparr>pin_hub_id := Some hub\<rparr>)))"

definition handlePinsRemove :: "pin list \<Rightarrow> string \<Rightarrow> pin list" where
  "handlePinsRemove ps i = Remove ps i"

definition pin_serve :: "string \<Rightarrow> string \<Rightarrow> pin list \<Rightarrow> pin_request \<Rightarrow> pin_error + pin list" where
  "pin_serve hub now ps r = (case r of AddPin p \<Rightarrow> handlePinsAdd hub now ps p | RemovePin i \<Rightarrow> Inr (handlePinsRemove ps i))"

subsection \<open>Opening a pin\<close>

datatype pin_opening = PinGo nav_action | PinDialogFor string | PinNowhere

text \<open>\<open>useRefTokenNavigate\<close>: the schemes that take the user somewhere.\<close>

definition useRefTokenNavigate :: "string \<Rightarrow> nav_action option option" where
  "useRefTokenNavigate token =
     (case parseWhiteboardRef token of
        Some w \<Rightarrow> Some (gotoWhiteboard (wr_projectId w) (wr_projectName w) (wr_boardId w))
      | None \<Rightarrow> (case parseChannelRef token of
          Some c \<Rightarrow> Some (gotoChannel (cr_projectId c) (cr_projectName c) (cr_channelId c))
        | None \<Rightarrow> None))"

definition navigateToPin :: "string \<Rightarrow> item list option \<Rightarrow> pin \<Rightarrow> pin_opening" where
  "navigateToPin unknownProject projects p =
     (if truthy (pin_ref p) then
        (case useRefTokenNavigate (the (pin_ref p)) of
           None \<Rightarrow> PinDialogFor (the (pin_ref p))
         | Some None \<Rightarrow> PinNowhere
         | Some (Some a) \<Rightarrow> PinGo a)
      else
        let lookupId = (if pin_kind p = ''project'' then Some (pin_id p) else pin_project_id p);
            real = List.find (\<lambda>q. Some (it_id q) = lookupId) (nullish projects [])
        in if pin_kind p = ''project'' then
             PinGo (Navigate (nullish real ((mk_item (pin_id p) (pin_name p) ''project'' True)
               \<lparr>it_altId := pin_project_alt_id p\<rparr>)) [] None None)
           else if \<not> truthy lookupId \<and> real = None then PinNowhere
           else PinGo (Navigate
             (nullish real ((mk_item (the lookupId) unknownProject ''project'' True)\<lparr>it_altId := pin_project_alt_id p\<rparr>))
             (map (\<lambda>f. mk_item (fr_id f) (fr_name f) ''folder'' True) (nullish (pin_folder_path p) []))
             (if pin_kind p = ''folder'' then None else Some (mk_item (pin_id p) (pin_name p) (pin_kind p) False))
             None))"

text \<open>The groups of the dialog: the first that matches.\<close>

definition LOCAL_KINDS :: "string list" where
  "LOCAL_KINDS = [''whiteboard'', ''task'', ''job'', ''batch'', ''channel'']"

definition pin_group :: "pin \<Rightarrow> string option" where
  "pin_group p =
     (let k = pin_kind p in
      map_option fst (List.find snd
        [(''project'', k = ''project''), (''folder'', k = ''folder''),
         (''document'', k \<noteq> ''project'' \<and> k \<noteq> ''folder'' \<and> k \<notin> set LOCAL_KINDS),
         (''whiteboard'', k = ''whiteboard''), (''task'', k = ''task''),
         (''production'', k = ''job'' \<or> k = ''batch''), (''channel'', k = ''channel'')]))"

subsection \<open>A star reopens what it was put on\<close>

lemma isPinnable_server: "isPinnable k \<Longrightarrow> IsPinnable k \<and> \<not> IsLocalKind k"
  by (auto simp: isPinnable_def PINNABLE_def IsPinnable_def IsLocalKind_def)

lemma every_pin_has_a_group: "pin_group p \<noteq> None"
  by (auto simp: pin_group_def Let_def LOCAL_KINDS_def)

text \<open>What the user sees of a place: ids and names.\<close>

definition shown_item :: "item \<Rightarrow> string \<times> string" where
  "shown_item it = (it_id it, it_name it)"

text \<open>
  C25. A pin leads back to what was pinned: for a folder or a document of the project on screen that has
  no pin yet, the star sends a pin that the server accepts; and from wherever the user opens it later,
  the browser shows that project, the folders the thing was in, and the thing itself - the document
  selected, or the folder entered.
\<close>

theorem pin_reopens:
  assumes hub: "truthy (hubId s)" and proj: "project s = Some pr" "it_id pr \<noteq> []"
    and it: "isPinnable (it_kind it)" "it_kind it \<noteq> ''project''" "it_id it \<noteq> []"
    and new: "it_id it \<notin> set (map pin_id ps)"
  shows "\<exists>p stored a. usePinToggle s (Some ps) it = Some (AddPin p) \<and>
    pin_serve hub' now ps (AddPin p) = Inr (stored # ps) \<and> navigateToPin unknown projects stored = PinGo a \<and>
    app (reducer s' a) = Browser \<and> map_option it_id (project (reducer s' a)) = Some (it_id pr) \<and>
    map shown_item (folderStack (reducer s' a)) =
      map shown_item (folderStack s) @ (if it_kind it = ''folder'' then [shown_item it] else []) \<and>
    map_option shown_item (selected (reducer s' a)) = (if it_kind it = ''folder'' then None else Some (shown_item it))"
proof -
  define p where "p = no_pin\<lparr>pin_id := it_id it, pin_name := it_name it, pin_kind := it_kind it,
    pin_project_id := Some (it_id pr), pin_project_alt_id := it_altId pr, pin_folder_path := Some (folder_path s it)\<rparr>"
  define stored where "stored = (pin_wire p)\<lparr>pin_hub_id := Some hub', pin_pinned_at := Some now\<rparr>"
  have t: "usePinToggle s (Some ps) it = Some (AddPin p)"
    using hub it new proj by (simp add: usePinToggle_def pinned_ids_def p_def Let_def)
  have v: "Validate p = None"
    using it isPinnable_server[OF it(1)] by (simp add: Validate_def p_def no_pin_def)
  have "\<not> IsPinned ps (pin_id ((pin_wire p)\<lparr>pin_hub_id := Some hub'\<rparr>))"
    using new by (auto simp: IsPinned_def pin_wire_def p_def image_iff)
  then have sv: "pin_serve hub' now ps (AddPin p) = Inr (stored # ps)"
    by (simp add: pin_serve_def handlePinsAdd_def v Add_def stored_def)
  have fields: "pin_ref stored = None" "pin_kind stored = it_kind it" "pin_id stored = it_id it"
      "pin_name stored = it_name it" "pin_project_id stored = Some (it_id pr)"
      "nullish (pin_folder_path stored) [] = folder_path s it"
    using proj(2) by (auto simp: stored_def pin_wire_def p_def no_pin_def omitempty_def)
  let ?real = "List.find (\<lambda>q. Some (it_id q) = Some (it_id pr)) (nullish projects [])"
  let ?proj = "nullish ?real ((mk_item (it_id pr) unknown ''project'' True)\<lparr>it_altId := pin_project_alt_id stored\<rparr>)"
  have id: "it_id ?proj = it_id pr" by (cases ?real) (auto dest: find_Some_in)
  define a where "a = Navigate ?proj (map (\<lambda>f. mk_item (fr_id f) (fr_name f) ''folder'' True) (folder_path s it))
     (if it_kind it = ''folder'' then None else Some (mk_item (it_id it) (it_name it) (it_kind it) False)) None"
  have n: "navigateToPin unknown projects stored = PinGo a"
    using it(2) proj(2) by (simp add: navigateToPin_def fields a_def Let_def)
  have "app (reducer s' a) = Browser \<and> map_option it_id (project (reducer s' a)) = Some (it_id pr) \<and>
    map shown_item (folderStack (reducer s' a)) =
      map shown_item (folderStack s) @ (if it_kind it = ''folder'' then [shown_item it] else []) \<and>
    map_option shown_item (selected (reducer s' a)) = (if it_kind it = ''folder'' then None else Some (shown_item it))"
    using id it(2) by (simp add: a_def Let_def folder_path_def shown_item_def comp_def)
  with t sv n show ?thesis by blast
qed

definition pin_state :: nav_state where
  "pin_state = initialState\<lparr>hubId := Some ''h'', project := Some (mk_item ''p'' ''Robot'' ''project'' True),
     folderStack := [mk_item ''f1'' ''Arm'' ''folder'' True]\<rparr>"

lemma pin_reopens_witness:
  "\<exists>p stored a. usePinToggle pin_state (Some []) (mk_item ''d'' ''Joint'' ''design'' False) = Some (AddPin p) \<and>
    pin_serve ''h'' ''t'' [] (AddPin p) = Inr [stored] \<and> navigateToPin ''?'' None stored = PinGo a \<and>
    map_option it_id (project (reducer initialState a)) = Some ''p'' \<and>
    map shown_item (folderStack (reducer initialState a)) = [(''f1'', ''Arm'')] \<and>
    map_option shown_item (selected (reducer initialState a)) = Some (''d'', ''Joint'')"
proof -
  let ?pr = "mk_item ''p'' ''Robot'' ''project'' True"
  let ?it = "mk_item ''d'' ''Joint'' ''design'' False"
  have "truthy (hubId pin_state)" "project pin_state = Some ?pr" "it_id ?pr \<noteq> []"
    by (simp_all add: pin_state_def)
  moreover have "isPinnable (it_kind ?it)" "it_kind ?it \<noteq> ''project''" "it_id ?it \<noteq> []"
    by (simp_all add: isPinnable_def PINNABLE_def)
  moreover have "it_id ?it \<notin> set (map pin_id [])" by simp
  ultimately obtain p stored a where "usePinToggle pin_state (Some []) ?it = Some (AddPin p)"
    "pin_serve ''h'' ''t'' [] (AddPin p) = Inr [stored]" "navigateToPin ''?'' None stored = PinGo a"
    "map_option it_id (project (reducer initialState a)) = Some (it_id ?pr)"
    "map shown_item (folderStack (reducer initialState a)) = map shown_item (folderStack pin_state) @
       (if it_kind ?it = ''folder'' then [shown_item ?it] else [])"
    "map_option shown_item (selected (reducer initialState a)) = (if it_kind ?it = ''folder'' then None else Some (shown_item ?it))"
    using pin_reopens[of pin_state ?pr ?it "[]" "''h''" "''t''" "''?''" None initialState] by blast
  then show ?thesis by (intro exI[of _ p] exI[of _ stored] exI[of _ a]) (simp add: pin_state_def shown_item_def)
qed

text \<open>The pins of whiteboards, which are addressed by their token.\<close>

lemma board_pin_stored:
  fixes hub' now :: string
  assumes hub: "truthy (hubId s)" and ok: "valid_whiteboard (whiteboardRefFromBoard b)"
    and new: "\<not> isPinned (Some ps) (lp_ref (board_pin_target b))"
  defines "token \<equiv> encodeWhiteboardRef (whiteboardRefFromBoard b)"
  defines "p \<equiv> no_pin\<lparr>pin_id := token, pin_ref := Some token, pin_kind := ''whiteboard'', pin_name := wb_name b,
    pin_project_id := Some (wb_projectId b), pin_project_name := Some (wb_projectName b)\<rparr>"
  defines "stored \<equiv> (pin_wire p)\<lparr>pin_hub_id := Some hub', pin_pinned_at := Some now\<rparr>"
  shows "useLocalPin s (Some ps) (board_pin_target b) = Some (AddPin p) \<and>
    pin_serve hub' now ps (AddPin p) = Inr (stored # ps) \<and>
    navigateToPin unknown projects stored = PinGo (OpenProjectApp
      (mk_item (wb_projectId b) (wb_projectName b) ''project'' True) ''whiteboards''
      (Some \<lparr>pas_boardId = Some (wb_id b), pas_channelId = None\<rparr>))"
proof -
  have pre: "startsWith token ''fls:''" "token \<noteq> []"
    by (simp_all add: token_def encodeWhiteboardRef_def WHITEBOARD_REF_PREFIX_def)
  have b: "wb_projectId b \<noteq> []" "wb_id b \<noteq> []"
    using ok by (auto simp: valid_whiteboard_def whiteboardRefFromBoard_def)
  have t: "useLocalPin s (Some ps) (board_pin_target b) = Some (AddPin p)"
    using hub new pre(2) b by (simp add: useLocalPin_def board_pin_target_def isPinned_def p_def token_def)
  have v: "Validate p = None"
    using pre b by (simp add: Validate_def p_def no_pin_def IsPinnable_def IsLocalKind_def)
  have "\<not> IsPinned ps (pin_id ((pin_wire p)\<lparr>pin_hub_id := Some hub'\<rparr>))"
    using new by (auto simp: IsPinned_def pin_wire_def p_def isPinned_def pinned_ids_def board_pin_target_def token_def image_iff)
  then have sv: "pin_serve hub' now ps (AddPin p) = Inr (stored # ps)"
    by (simp add: pin_serve_def handlePinsAdd_def v Add_def stored_def)
  have ref: "pin_ref stored = Some token" using pre(2) by (simp add: stored_def pin_wire_def p_def omitempty_def)
  have "useRefTokenNavigate token = Some (gotoWhiteboard (wb_projectId b) (wb_projectName b) (wb_id b))"
    unfolding token_def useRefTokenNavigate_def parse_encode_whiteboard[OF ok]
    by (simp add: shown_whiteboard_def whiteboardRefFromBoard_def)
  with ref pre(2) b have "navigateToPin unknown projects stored = PinGo (OpenProjectApp
      (mk_item (wb_projectId b) (wb_projectName b) ''project'' True) ''whiteboards''
      (Some \<lparr>pas_boardId = Some (wb_id b), pas_channelId = None\<rparr>))"
    by (simp add: navigateToPin_def gotoWhiteboard_def)
  with t sv show ?thesis by blast
qed

lemma board_token_name:
  assumes "valid_whiteboard (whiteboardRefFromBoard b)" "valid_whiteboard (whiteboardRefFromBoard c)"
    and "wb_name b \<noteq> []" "wb_name c \<noteq> []" "wb_name b \<noteq> wb_name c"
  shows "encodeWhiteboardRef (whiteboardRefFromBoard b) \<noteq> encodeWhiteboardRef (whiteboardRefFromBoard c)"
proof
  assume e: "encodeWhiteboardRef (whiteboardRefFromBoard b) = encodeWhiteboardRef (whiteboardRefFromBoard c)"
  have "shown_whiteboard (whiteboardRefFromBoard b) = shown_whiteboard (whiteboardRefFromBoard c)"
    using parse_encode_whiteboard[OF assms(1)] parse_encode_whiteboard[OF assms(2)] e by simp
  then have "wr_name (shown_whiteboard (whiteboardRefFromBoard b)) = wr_name (shown_whiteboard (whiteboardRefFromBoard c))"
    by simp
  then show False using assms(3-5) by (simp add: shown_whiteboard_def whiteboardRefFromBoard_def)
qed

text \<open>
  Renaming a pinned whiteboard takes its star away: the token that is the pin's identity carries the
  name of the board, so after a rename the board counts as not pinned, its star adds a second pin for
  the same board, and nothing on the board can take the first one off the list.
\<close>

theorem rename_unpins:
  assumes hub: "truthy (hubId s)"
    and ok: "valid_whiteboard (whiteboardRefFromBoard b)" "valid_whiteboard (whiteboardRefFromBoard (b\<lparr>wb_name := name\<rparr>))"
    and names: "wb_name b \<noteq> []" "name \<noteq> []" "name \<noteq> wb_name b"
  shows "\<exists>p old p' new. useLocalPin s (Some []) (board_pin_target b) = Some (AddPin p) \<and>
    pin_serve hub' now [] (AddPin p) = Inr [old] \<and>
    useLocalPin s (Some [old]) (board_pin_target (b\<lparr>wb_name := name\<rparr>)) = Some (AddPin p') \<and>
    pin_serve hub' now' [old] (AddPin p') = Inr [new, old] \<and>
    navigateToPin unknown projects new = navigateToPin unknown projects old"
proof -
  let ?c = "b\<lparr>wb_name := name\<rparr>"
  have "\<not> isPinned (Some []) (lp_ref (board_pin_target b))" by (simp add: isPinned_def pinned_ids_def)
  from board_pin_stored[OF hub ok(1) this, of hub' now unknown projects] obtain p old where
    1: "useLocalPin s (Some []) (board_pin_target b) = Some (AddPin p)" "pin_serve hub' now [] (AddPin p) = Inr [old]"
    and id: "pin_id old = encodeWhiteboardRef (whiteboardRefFromBoard b)"
    and nav: "navigateToPin unknown projects old = PinGo (OpenProjectApp
      (mk_item (wb_projectId b) (wb_projectName b) ''project'' True) ''whiteboards''
      (Some \<lparr>pas_boardId = Some (wb_id b), pas_channelId = None\<rparr>))"
    by (auto simp: pin_wire_def)
  have "encodeWhiteboardRef (whiteboardRefFromBoard b) \<noteq> encodeWhiteboardRef (whiteboardRefFromBoard ?c)"
    using board_token_name[OF ok] names by simp
  then have "\<not> isPinned (Some [old]) (lp_ref (board_pin_target ?c))"
    by (simp add: isPinned_def pinned_ids_def board_pin_target_def id)
  from board_pin_stored[OF hub ok(2) this, of hub' now' unknown projects] 1 nav show ?thesis by auto
qed

definition pin_board :: whiteboard where
  "pin_board = \<lparr>wb_id = ''b'', wb_num = 1, wb_projectId = ''p'', wb_hubId = ''h'', wb_projectName = ''Robot'',
     wb_name = ''Plan'', wb_createdBy = \<lparr>wu_id = ''u'', wu_name = None, wu_email = None\<rparr>, wb_createdAt = [],
     wb_updatedAt = [], wb_updatedBy = \<lparr>wu_id = ''u'', wu_name = None, wu_email = None\<rparr>, wb_snapshotBytes = 0,
     wb_docRev = 0\<rparr>"

lemma rename_unpins_witness:
  "\<exists>p old. pin_serve ''h'' ''t'' [] (AddPin p) = Inr [old] \<and>
    (\<exists>p'. useLocalPin pin_state (Some [old]) (board_pin_target (pin_board\<lparr>wb_name := ''New plan''\<rparr>)) = Some (AddPin p'))"
proof -
  have hub: "truthy (hubId pin_state)" by (simp add: pin_state_def)
  have v: "utf8_valid s" if "ascii s" for s using that by (rule utf8_valid_ascii)
  have ok: "valid_whiteboard (whiteboardRefFromBoard pin_board)"
    "valid_whiteboard (whiteboardRefFromBoard (pin_board\<lparr>wb_name := ''New plan''\<rparr>))"
    by (simp_all add: valid_whiteboard_def whiteboardRefFromBoard_def pin_board_def v ascii_def)
  have "wb_name pin_board \<noteq> []" "''New plan'' \<noteq> []" "''New plan'' \<noteq> wb_name pin_board"
    by (simp_all add: pin_board_def)
  from rename_unpins[OF hub ok this, of "''h''" "''t''" "''t''" "''?''" None] show ?thesis by blast
qed

end
