(* ===== verification/Wiki.thy ===== *)
theory Wiki
  imports NavUrl JsText
begin

section \<open>The wiki's drafts\<close>

text \<open>
  \<open>wiki/draftStore.ts\<close>, \<open>wiki/useDrafts.ts\<close> and the handlers of \<open>wiki/WikiApp.tsx\<close>: pages are written in
  drafts that live in the browser's IndexedDB and are published to the project. The object store is a
  list of drafts in the order of their keys, which is the order its index hands them out. The writes to
  it are taken as immediate; the requests to the server are not: a request keeps what its handler
  captured (\<open>wa_awaiting\<close>, with the project its \<open>save\<close> reloads) until the answer comes, while the user
  goes on. The 600 ms autosave is a timer
  that holds what it will save. \<open>toLowerCase\<close> on the title, the untitled name and the search folding
  are parameters.
\<close>

subsection \<open>The store\<close>

record wiki_draft =
  wd_key :: string
  wd_projectId :: string
  wd_pageKey :: string
  wd_title :: string
  wd_slug :: string
  wd_markdown :: string
  wd_baseItemId :: "string option"
  wd_baseVersion :: "string option"
  wd_status :: string
  wd_updatedAt :: int

definition draftKey :: "string \<Rightarrow> string \<Rightarrow> string" where
  "draftKey projectId pageKey = projectId @ ''::'' @ pageKey"

definition page_slug_char :: "char \<Rightarrow> bool" where
  "page_slug_char c = (let b = (of_char c :: nat) in (97 \<le> b \<and> b \<le> 122) \<or> (48 \<le> b \<and> b \<le> 57))"

text \<open>\<open>replace(/[^a-z0-9]+/g, '-')\<close>: the flag says that the last character was replaced.\<close>

fun squeeze :: "bool \<Rightarrow> string \<Rightarrow> string" where
  "squeeze b [] = []"
| "squeeze b (c # s) =
     (if page_slug_char c then c # squeeze False s else if b then squeeze True s else CHR ''-'' # squeeze True s)"

definition strip_dashes :: "string \<Rightarrow> string" where
  "strip_dashes s = drop_end (\<lambda>c. c = CHR ''-'') (dropWhile (\<lambda>c. c = CHR ''-'') s)"

definition slugify :: "(string \<Rightarrow> string) \<Rightarrow> string \<Rightarrow> string" where
  "slugify lower title =
     (let s = take 80 (strip_dashes (squeeze False (js_trim (lower title)))) in if s = [] then ''untitled'' else s)"

definition putDraft :: "wiki_draft \<Rightarrow> wiki_draft list \<Rightarrow> wiki_draft list" where
  "putDraft d store = insort_key wd_key d (filter (\<lambda>e. wd_key e \<noteq> wd_key d) store)"

definition deleteDraft :: "string \<Rightarrow> wiki_draft list \<Rightarrow> wiki_draft list" where
  "deleteDraft key store = filter (\<lambda>e. wd_key e \<noteq> key) store"

definition getDraft :: "string \<Rightarrow> wiki_draft list \<Rightarrow> wiki_draft option" where
  "getDraft key store = List.find (\<lambda>e. wd_key e = key) store"

definition listDrafts :: "string \<Rightarrow> wiki_draft list \<Rightarrow> wiki_draft list" where
  "listDrafts projectId store =
     js_sort (\<lambda>a b. wd_updatedAt b - wd_updatedAt a) (filter (\<lambda>e. wd_projectId e = projectId) store)"

subsection \<open>The list of pages\<close>

record wiki_page =
  wg_itemId :: string
  wg_name :: string
  wg_title :: string
  wg_tipVersion :: "string option"
  wg_modifiedOn :: "string option"
  wg_modifiedBy :: "string option"

record wiki_entry =
  we_id :: string
  we_kind :: string
  we_title :: string
  we_status :: string
  we_draftKey :: "string option"
  we_itemId :: "string option"
  we_modifiedOn :: "string option"

definition reconcileStatus :: "wiki_draft \<Rightarrow> string option \<Rightarrow> string" where
  "reconcileStatus d tipVersion =
     (let localEdited = (wd_status d = ''modified'');
          remoteAdvanced = (truthy tipVersion \<and> truthy (wd_baseVersion d) \<and> tipVersion \<noteq> wd_baseVersion d)
      in if remoteAdvanced \<and> localEdited then ''conflict'' else if remoteAdvanced then ''behind'' else wd_status d)"

definition linked_drafts :: "wiki_draft list \<Rightarrow> (string \<times> wiki_draft) list" where
  "linked_drafts drafts = map (\<lambda>d. (the (wd_baseItemId d), d)) (filter (\<lambda>d. truthy (wd_baseItemId d)) drafts)"

definition page_entry :: "wiki_draft list \<Rightarrow> wiki_page \<Rightarrow> wiki_entry" where
  "page_entry drafts p =
     (case map_of (List.rev (linked_drafts drafts)) (wg_itemId p) of
        Some d \<Rightarrow> \<lparr>we_id = wd_key d, we_kind = ''draft'', we_title = wd_title d,
          we_status = reconcileStatus d (wg_tipVersion p), we_draftKey = Some (wd_key d),
          we_itemId = Some (wg_itemId p), we_modifiedOn = wg_modifiedOn p\<rparr>
      | None \<Rightarrow> \<lparr>we_id = wg_itemId p, we_kind = ''page'', we_title = wg_title p, we_status = ''remote'',
          we_draftKey = None, we_itemId = Some (wg_itemId p), we_modifiedOn = wg_modifiedOn p\<rparr>)"

definition local_entry :: "wiki_draft \<Rightarrow> wiki_entry" where
  "local_entry d = \<lparr>we_id = wd_key d, we_kind = ''draft'', we_title = wd_title d, we_status = wd_status d,
     we_draftKey = Some (wd_key d), we_itemId = None, we_modifiedOn = None\<rparr>"

definition wiki_entries ::
    "(string \<Rightarrow> string \<Rightarrow> int) \<Rightarrow> (string \<Rightarrow> string) \<Rightarrow> wiki_page list option \<Rightarrow> wiki_draft list \<Rightarrow> string \<Rightarrow> wiki_entry list" where
  "wiki_entries localeCompare foldSearch pages drafts query =
     (let out = js_sort (\<lambda>a b. localeCompare (we_title a) (we_title b))
                  (map (page_entry drafts) (nullish pages []) @
                   map local_entry (filter (\<lambda>d. \<not> truthy (wd_baseItemId d)) drafts));
          q = foldSearch (js_trim query)
      in if q = [] then out else filter (\<lambda>e. str_includes (foldSearch (we_title e)) q) out)"

subsection \<open>The screen\<close>

datatype wiki_request =
    PublishReq wiki_draft string string string
  | RefreshReq wiki_draft "string option" "string option"
  | RenameReq "wiki_draft option" string "string option"
  | RestoreReq string "string option"

datatype wiki_answer =
    Published string "string option"
  | Refreshed string
  | Renamed
  | Restored string "string option"
  | Refused

record wiki_app =
  wa_store :: "wiki_draft list"
  wa_project :: "string option"
  wa_drafts :: "wiki_draft list"
  wa_selected :: "string option"
  wa_editing :: "string option"
  wa_md :: string
  wa_title :: string
  wa_saved :: bool
  wa_timer :: "(wiki_draft \<times> string \<times> string) option"
  wa_awaiting :: "(string option \<times> wiki_request) list"

text \<open>The project is the one of the render whose \<open>reload\<close> is called.\<close>

definition reload :: "string option \<Rightarrow> wiki_app \<Rightarrow> wiki_app" where
  "reload p a = a\<lparr>wa_drafts := (if truthy p then listDrafts (the p) (wa_store a) else [])\<rparr>"

definition save :: "string option \<Rightarrow> wiki_draft \<Rightarrow> wiki_app \<Rightarrow> wiki_app" where
  "save p d a = reload p (a\<lparr>wa_store := putDraft d (wa_store a)\<rparr>)"

definition remove :: "string option \<Rightarrow> string \<Rightarrow> wiki_app \<Rightarrow> wiki_app" where
  "remove p key a = reload p (a\<lparr>wa_store := deleteDraft key (wa_store a)\<rparr>)"

text \<open>The autosave effect runs when the text, the title or the edited page changed.\<close>

definition find_draft :: "string \<Rightarrow> wiki_app \<Rightarrow> wiki_draft option" where
  "find_draft key a = List.find (\<lambda>d. wd_key d = key) (wa_drafts a)"

definition autosave :: "wiki_app \<Rightarrow> wiki_app" where
  "autosave a =
     (if \<not> truthy (wa_editing a) then a\<lparr>wa_timer := None\<rparr>
      else case find_draft (the (wa_editing a)) a of
        None \<Rightarrow> a\<lparr>wa_timer := None\<rparr>
      | Some base \<Rightarrow>
          if wd_markdown base = wa_md a \<and> wd_title base = wa_title a then a\<lparr>wa_saved := True, wa_timer := None\<rparr>
          else a\<lparr>wa_saved := False, wa_timer := Some (base, wa_md a, wa_title a)\<rparr>)"

definition rerender :: "wiki_app \<Rightarrow> wiki_app \<Rightarrow> wiki_app" where
  "rerender before a =
     (if wa_md a = wa_md before \<and> wa_title a = wa_title before \<and> wa_editing a = wa_editing before then a
      else autosave a)"

definition flushed :: "(string \<Rightarrow> string) \<Rightarrow> string \<Rightarrow> wiki_draft \<Rightarrow> string \<Rightarrow> string \<Rightarrow> int \<Rightarrow> wiki_draft" where
  "flushed lower untitled base md title now =
     base\<lparr>wd_title := (if title = [] then untitled else title),
          wd_slug := (if truthy (wd_baseItemId base) then wd_slug base
                      else slugify lower (if title = [] then ''untitled'' else title)),
          wd_markdown := md, wd_status := (if truthy (wd_baseItemId base) then ''modified'' else ''draft''),
          wd_updatedAt := now\<rparr>"

definition autosave_fires :: "(string \<Rightarrow> string) \<Rightarrow> string \<Rightarrow> int \<Rightarrow> wiki_app \<Rightarrow> wiki_app" where
  "autosave_fires lower untitled now a =
     (case wa_timer a of None \<Rightarrow> a
      | Some (base, md, title) \<Rightarrow> (save (wa_project a) (flushed lower untitled base md title now) (a\<lparr>wa_timer := None\<rparr>))\<lparr>wa_saved := True\<rparr>)"

definition beginEdit :: "wiki_draft \<Rightarrow> wiki_app \<Rightarrow> wiki_app" where
  "beginEdit d a = rerender a (a\<lparr>wa_editing := Some (wd_key d), wa_selected := Some (wd_key d),
     wa_md := wd_markdown d, wa_title := wd_title d, wa_saved := True\<rparr>)"

definition typed :: "string \<Rightarrow> string \<Rightarrow> wiki_app \<Rightarrow> wiki_app" where
  "typed md title a = rerender a (a\<lparr>wa_md := md, wa_title := title\<rparr>)"

definition closeEditor :: "(string \<Rightarrow> string) \<Rightarrow> string \<Rightarrow> int \<Rightarrow> wiki_app \<Rightarrow> wiki_app" where
  "closeEditor lower untitled now a =
     (let a1 = (case (if truthy (wa_editing a) then find_draft (the (wa_editing a)) a else None) of
            Some base \<Rightarrow> if wd_markdown base \<noteq> wa_md a \<or> wd_title base \<noteq> wa_title a
                         then save (wa_project a) (flushed lower untitled base (wa_md a) (wa_title a) now) a else a
          | None \<Rightarrow> a)
      in rerender a1 (a1\<lparr>wa_editing := None\<rparr>))"

definition onSelect :: "string \<Rightarrow> wiki_app \<Rightarrow> wiki_app" where
  "onSelect i a = rerender a (a\<lparr>wa_selected := Some i, wa_editing := None\<rparr>)"

definition create :: "(string \<Rightarrow> string) \<Rightarrow> string \<Rightarrow> string \<Rightarrow> string \<Rightarrow> int \<Rightarrow> wiki_draft" where
  "create lower projectId title pageKey now =
     (let name = str_or (Some (js_trim title)) ''Untitled'' in
      \<lparr>wd_key = draftKey projectId pageKey, wd_projectId = projectId, wd_pageKey = pageKey, wd_title = name,
       wd_slug = slugify lower name, wd_markdown = ''# '' @ name @ [CHR 10, CHR 10], wd_baseItemId = None,
       wd_baseVersion = None, wd_status = ''draft'', wd_updatedAt = now\<rparr>)"

definition handleNew :: "(string \<Rightarrow> string) \<Rightarrow> string \<Rightarrow> string \<Rightarrow> int \<Rightarrow> wiki_app \<Rightarrow> wiki_app" where
  "handleNew lower untitled pageKey now a =
     (if \<not> truthy (wa_project a) then a
      else let d = create lower (the (wa_project a)) untitled pageKey now in beginEdit d (save (wa_project a) d a))"

definition importPage ::
    "(string \<Rightarrow> string) \<Rightarrow> string \<Rightarrow> string \<Rightarrow> string option \<Rightarrow> string \<Rightarrow> string \<Rightarrow> int \<Rightarrow> wiki_draft" where
  "importPage lower projectId itemId tipVersion title markdown now =
     \<lparr>wd_key = draftKey projectId itemId, wd_projectId = projectId, wd_pageKey = itemId, wd_title = title,
      wd_slug = slugify lower title, wd_markdown = markdown, wd_baseItemId = Some itemId,
      wd_baseVersion = tipVersion, wd_status = ''published'', wd_updatedAt = now\<rparr>"

definition handleEditAsDraft ::
    "(string \<Rightarrow> string) \<Rightarrow> string \<Rightarrow> string option \<Rightarrow> string \<Rightarrow> string \<Rightarrow> int \<Rightarrow> wiki_app \<Rightarrow> wiki_app" where
  "handleEditAsDraft lower itemId tipVersion title markdown now a =
     (if \<not> truthy (wa_project a) then a
      else let d = importPage lower (the (wa_project a)) itemId tipVersion title markdown now in beginEdit d (save (wa_project a) d a))"

definition handleDelete :: "string \<Rightarrow> wiki_app \<Rightarrow> wiki_app" where
  "handleDelete key a =
     (let a1 = remove (wa_project a) key a;
          a2 = (if wa_selected a1 = Some key then a1\<lparr>wa_selected := None\<rparr> else a1)
      in rerender a1 (if wa_editing a2 = Some key then a2\<lparr>wa_editing := None\<rparr> else a2))"

definition switchProject :: "string option \<Rightarrow> wiki_app \<Rightarrow> wiki_app" where
  "switchProject p a =
     (if wa_project a = p then a
      else reload p (rerender a (a\<lparr>wa_project := p, wa_selected := None, wa_editing := None\<rparr>)))"

subsection \<open>Requests\<close>

text \<open>
  What a handler captures when it sends its request, and what it does with the answer. A refused publish
  or restore that the user confirms is sent again with the same captured values.
\<close>

definition handlePublish :: "(string \<Rightarrow> string) \<Rightarrow> string \<Rightarrow> bool \<Rightarrow> wiki_app \<Rightarrow> wiki_app" where
  "handlePublish lower untitled canWrite a =
     (case (if truthy (wa_editing a) then find_draft (the (wa_editing a)) a else None) of
        None \<Rightarrow> a
      | Some d \<Rightarrow>
          if \<not> canWrite then a
          else
            let title = (if wa_title a \<noteq> [] then wa_title a else str_or (Some (wd_title d)) untitled);
                slug = (if truthy (wd_baseItemId d) then wd_slug d else slugify lower (str_or (Some title) ''untitled''))
            in a\<lparr>wa_awaiting := (wa_project a, PublishReq d title slug (wa_md a)) # wa_awaiting a\<rparr>)"

definition publish_body :: "wiki_request \<Rightarrow> (string \<times> string \<times> string \<times> string) option" where
  "publish_body r = (case r of
     PublishReq d title slug md \<Rightarrow> Some (nullish (wd_baseItemId d) [], slug, md, nullish (wd_baseVersion d) [])
   | _ \<Rightarrow> None)"

definition publish_done ::
    "int \<Rightarrow> string option \<Rightarrow> wiki_draft \<Rightarrow> string \<Rightarrow> string \<Rightarrow> string \<Rightarrow> string \<Rightarrow> string option \<Rightarrow> wiki_app \<Rightarrow> wiki_app" where
  "publish_done now p d title slug md itemId tip a =
     (save p (d\<lparr>wd_title := title, wd_slug := slug, wd_markdown := md, wd_baseItemId := Some itemId,
        wd_baseVersion := tip, wd_status := ''published'', wd_updatedAt := now\<rparr>) a)\<lparr>wa_saved := True\<rparr>"

text \<open>A refresh and a restore end by showing the text they saved, if the page was being edited when they began.\<close>

definition show_text :: "string option \<Rightarrow> wiki_draft \<Rightarrow> string \<Rightarrow> wiki_app \<Rightarrow> wiki_app" where
  "show_text editing d md a =
     (if editing = Some (wd_key d) then rerender a (a\<lparr>wa_md := md, wa_saved := True\<rparr>) else a)"

definition handleRefresh :: "string option \<Rightarrow> wiki_page list option \<Rightarrow> wiki_entry \<Rightarrow> wiki_app \<Rightarrow> wiki_app" where
  "handleRefresh dmProject pages e a =
     (case (if truthy (we_draftKey e) \<and> truthy dmProject \<and> truthy (we_itemId e)
            then find_draft (the (we_draftKey e)) a else None) of
        None \<Rightarrow> a
      | Some d \<Rightarrow> a\<lparr>wa_awaiting := (wa_project a, RefreshReq d
          (Option.bind (List.find (\<lambda>p. Some (wg_itemId p) = we_itemId e) (nullish pages [])) wg_tipVersion)
          (wa_editing a)) # wa_awaiting a\<rparr>)"

definition refresh_done ::
    "int \<Rightarrow> string option \<Rightarrow> wiki_draft \<Rightarrow> string option \<Rightarrow> string option \<Rightarrow> string \<Rightarrow> wiki_app \<Rightarrow> wiki_app" where
  "refresh_done now p d tip editing md a =
     show_text editing d md (save p (d\<lparr>wd_markdown := md,
       wd_baseVersion := (case tip of None \<Rightarrow> wd_baseVersion d | Some t \<Rightarrow> Some t),
       wd_status := ''published'', wd_updatedAt := now\<rparr>) a)"

text \<open>A rename asks the server for a published page, and changes the draft at once otherwise.\<close>

definition rename_done ::
    "(string \<Rightarrow> string) \<Rightarrow> int \<Rightarrow> string option \<Rightarrow> wiki_draft option \<Rightarrow> string \<Rightarrow> string option \<Rightarrow> wiki_app \<Rightarrow> wiki_app" where
  "rename_done lower now p draft newTitle editing a =
     (case draft of
        None \<Rightarrow> a
      | Some d \<Rightarrow>
          (let a1 = save p (d\<lparr>wd_title := newTitle, wd_slug := slugify lower newTitle, wd_updatedAt := now\<rparr>) a
           in if truthy editing \<and> editing = Some (wd_key d) then rerender a1 (a1\<lparr>wa_title := newTitle\<rparr>) else a1))"

definition doRename :: "(string \<Rightarrow> string) \<Rightarrow> int \<Rightarrow> bool \<Rightarrow> wiki_entry \<Rightarrow> string \<Rightarrow> wiki_app \<Rightarrow> wiki_app" where
  "doRename lower now canWrite e value a =
     (let newTitle = js_trim value;
          draft = (if truthy (we_draftKey e) then find_draft (the (we_draftKey e)) a else None);
          published = (case Option.bind draft wd_baseItemId of None \<Rightarrow> we_itemId e | Some i \<Rightarrow> Some i)
      in if newTitle = [] then a
         else if truthy published \<and> canWrite
         then a\<lparr>wa_awaiting := (wa_project a, RenameReq draft newTitle (wa_editing a)) # wa_awaiting a\<rparr>
         else rename_done lower now (wa_project a) draft newTitle (wa_editing a) a)"

definition handleRestore :: "bool \<Rightarrow> string \<Rightarrow> wiki_app \<Rightarrow> wiki_app" where
  "handleRestore canWrite itemId a =
     (if canWrite then a\<lparr>wa_awaiting := (wa_project a, RestoreReq itemId (wa_editing a)) # wa_awaiting a\<rparr> else a)"

definition restore_done ::
    "int \<Rightarrow> string option \<Rightarrow> string \<Rightarrow> string option \<Rightarrow> string \<Rightarrow> string option \<Rightarrow> wiki_app \<Rightarrow> wiki_app" where
  "restore_done now p itemId editing md tip a =
     (case List.find (\<lambda>d. wd_baseItemId d = Some itemId) (wa_drafts a) of
        None \<Rightarrow> a
      | Some d \<Rightarrow>
          if wd_status d = ''modified'' then a
          else show_text editing d md (save p (d\<lparr>wd_markdown := md, wd_baseVersion := tip,
            wd_status := ''published'', wd_updatedAt := now\<rparr>) a))"

fun wiki_answered ::
    "(string \<Rightarrow> string) \<Rightarrow> int \<Rightarrow> string option \<Rightarrow> wiki_request \<Rightarrow> wiki_answer \<Rightarrow> wiki_app \<Rightarrow> wiki_app" where
  "wiki_answered lower now p (PublishReq d title slug md) (Published itemId tip) a =
     publish_done now p d title slug md itemId tip a"
| "wiki_answered lower now p (RefreshReq d tip editing) (Refreshed md) a = refresh_done now p d tip editing md a"
| "wiki_answered lower now p (RenameReq d v editing) Renamed a = rename_done lower now p d v editing a"
| "wiki_answered lower now p (RestoreReq i editing) (Restored md tip) a = restore_done now p i editing md tip a"
| "wiki_answered lower now p r ans a = a"

definition wiki_answer_step ::
    "(string \<Rightarrow> string) \<Rightarrow> int \<Rightarrow> string option \<times> wiki_request \<Rightarrow> wiki_answer \<Rightarrow> wiki_app \<Rightarrow> wiki_app" where
  "wiki_answer_step lower now r ans a =
     (if r \<in> set (wa_awaiting a)
      then wiki_answered lower now (fst r) (snd r) ans (a\<lparr>wa_awaiting := remove1 r (wa_awaiting a)\<rparr>) else a)"

text \<open>\<open>uploadImage\<close>: the folder of the page's images.\<close>

definition image_slug :: "(string \<Rightarrow> string) \<Rightarrow> wiki_app \<Rightarrow> wiki_draft \<Rightarrow> string" where
  "image_slug lower a d =
     slugify lower (if wa_title a \<noteq> [] then wa_title a else str_or (Some (wd_title d)) ''untitled'')"

datatype wiki_event =
    NewPage string
  | EditAsDraft string "string option" string string
  | BeginEdit string
  | Typed string string
  | AutosaveFires
  | CloseEditor
  | SelectEntry string
  | DeleteDraft string
  | SwitchProject "string option"
  | PublishClick bool
  | RefreshClick "string option" "wiki_page list option" wiki_entry
  | RenameSave bool wiki_entry string
  | RestoreClick bool string
  | Answered "string option \<times> wiki_request" wiki_answer

fun wiki_step :: "(string \<Rightarrow> string) \<Rightarrow> string \<Rightarrow> wiki_app \<Rightarrow> int \<times> wiki_event \<Rightarrow> wiki_app" where
  "wiki_step lower untitled a (now, NewPage k) = handleNew lower untitled k now a"
| "wiki_step lower untitled a (now, EditAsDraft i tip title md) = handleEditAsDraft lower i tip title md now a"
| "wiki_step lower untitled a (now, BeginEdit k) = (case find_draft k a of None \<Rightarrow> a | Some d \<Rightarrow> beginEdit d a)"
| "wiki_step lower untitled a (now, Typed md title) = (if truthy (wa_editing a) then typed md title a else a)"
| "wiki_step lower untitled a (now, AutosaveFires) = autosave_fires lower untitled now a"
| "wiki_step lower untitled a (now, CloseEditor) = closeEditor lower untitled now a"
| "wiki_step lower untitled a (now, SelectEntry i) = onSelect i a"
| "wiki_step lower untitled a (now, DeleteDraft k) = handleDelete k a"
| "wiki_step lower untitled a (now, SwitchProject p) = switchProject p a"
| "wiki_step lower untitled a (now, PublishClick w) = handlePublish lower untitled w a"
| "wiki_step lower untitled a (now, RefreshClick dm pages e) = handleRefresh dm pages e a"
| "wiki_step lower untitled a (now, RenameSave w e v) = doRename lower now w e v a"
| "wiki_step lower untitled a (now, RestoreClick w i) = handleRestore w i a"
| "wiki_step lower untitled a (now, Answered r ans) = wiki_answer_step lower now r ans a"

definition wiki_start :: "wiki_draft list \<Rightarrow> string option \<Rightarrow> wiki_app" where
  "wiki_start store p = reload p \<lparr>wa_store = store, wa_project = p, wa_drafts = [], wa_selected = None,
     wa_editing = None, wa_md = [], wa_title = [], wa_saved = True, wa_timer = None, wa_awaiting = []\<rparr>"

definition wiki_run :: "(string \<Rightarrow> string) \<Rightarrow> string \<Rightarrow> wiki_app \<Rightarrow> (int \<times> wiki_event) list \<Rightarrow> wiki_app" where
  "wiki_run lower untitled = foldl (wiki_step lower untitled)"

subsection \<open>The store stays in order\<close>

interpretation by_updated: comparator "\<lambda>a b. wd_updatedAt b - wd_updatedAt a"
  by (rule comparator_key[of _ "\<lambda>d. - wd_updatedAt d"]) (simp add: compares_def)

text \<open>A draft is filed under the key of its project and page; a request holds such drafts only.\<close>

definition draft_ok :: "wiki_draft \<Rightarrow> bool" where
  "draft_ok d \<longleftrightarrow> wd_key d = draftKey (wd_projectId d) (wd_pageKey d)"

definition request_ok :: "wiki_request \<Rightarrow> bool" where
  "request_ok r = (case r of PublishReq d _ _ _ \<Rightarrow> draft_ok d | RefreshReq d _ _ \<Rightarrow> draft_ok d
     | RenameReq d _ _ \<Rightarrow> (\<forall>x. d = Some x \<longrightarrow> draft_ok x) | RestoreReq _ _ \<Rightarrow> True)"

definition store_ok :: "wiki_draft list \<Rightarrow> bool" where
  "store_ok store \<longleftrightarrow> sorted (map wd_key store) \<and> distinct (map wd_key store) \<and> (\<forall>d \<in> set store. draft_ok d)"

definition wiki_inv :: "wiki_app \<Rightarrow> bool" where
  "wiki_inv a \<longleftrightarrow> store_ok (wa_store a) \<and> (\<exists>p. wa_drafts a = wa_drafts (reload p a)) \<and>
     (\<forall>b md title. wa_timer a = Some (b, md, title) \<longrightarrow> draft_ok b) \<and> (\<forall>r \<in> set (wa_awaiting a). request_ok (snd r))"

text \<open>What holds while the user stays in one project.\<close>

definition wiki_stays :: "string option \<Rightarrow> wiki_app \<Rightarrow> bool" where
  "wiki_stays p a \<longleftrightarrow> wa_project a = p \<and> wa_drafts a = wa_drafts (reload p a) \<and> (\<forall>r \<in> set (wa_awaiting a). fst r = p)"

lemma find_by_key:
  "distinct (map wd_key l) \<Longrightarrow> d \<in> set l \<Longrightarrow> List.find (\<lambda>e. wd_key e = wd_key d) l = Some d"
  by (induction l) (auto simp: image_iff)

lemma set_putDraft: "set (putDraft d store) = insert d {e \<in> set store. wd_key e \<noteq> wd_key d}"
  by (auto simp: putDraft_def set_insort_key)

lemma store_put:
  assumes "store_ok store" "draft_ok d"
  shows "store_ok (putDraft d store)"
proof -
  let ?xs = "filter (\<lambda>e. wd_key e \<noteq> wd_key d) store"
  have "mset (map wd_key (insort_key wd_key d ?xs)) = mset (wd_key d # map wd_key ?xs)" by simp
  moreover have "distinct (wd_key d # map wd_key ?xs)"
    using assms(1) by (auto simp: store_ok_def distinct_map_filter)
  ultimately have "distinct (map wd_key (putDraft d store))"
    unfolding putDraft_def by (metis mset_eq_imp_distinct_iff)
  moreover have "sorted (map wd_key (putDraft d store))"
    using assms(1) by (simp add: putDraft_def store_ok_def sorted_insort_key sorted_filter)
  ultimately show ?thesis using assms by (auto simp: store_ok_def set_putDraft)
qed

lemma store_delete: "store_ok store \<Longrightarrow> store_ok (deleteDraft k store)"
  by (auto simp: store_ok_def deleteDraft_def sorted_filter distinct_map_filter)

lemma getDraft_put: "store_ok store \<Longrightarrow> draft_ok d \<Longrightarrow> getDraft (wd_key d) (putDraft d store) = Some d"
  unfolding getDraft_def using store_put[of store d] by (intro find_by_key) (auto simp: store_ok_def set_putDraft)

lemma set_listDrafts: "set (listDrafts p store) = {d \<in> set store. wd_projectId d = p}"
  by (auto simp: listDrafts_def)

text \<open>Every step keeps the invariant.\<close>

lemma reload_simps [simp]:
  "wa_store (reload p a) = wa_store a" "wa_project (reload p a) = wa_project a" "wa_timer (reload p a) = wa_timer a"
  "wa_awaiting (reload p a) = wa_awaiting a" "wa_editing (reload p a) = wa_editing a" "wa_md (reload p a) = wa_md a"
  "wa_title (reload p a) = wa_title a" "wa_selected (reload p a) = wa_selected a" "reload p (reload q a) = reload p a"
  by (simp_all add: reload_def)

lemma drafts_ok: "wiki_inv a \<Longrightarrow> d \<in> set (wa_drafts a) \<Longrightarrow> draft_ok d \<and> d \<in> set (wa_store a)"
  unfolding wiki_inv_def reload_def store_ok_def by (auto simp: set_listDrafts split: if_splits)

lemma find_draft_ok: "wiki_inv a \<Longrightarrow> find_draft k a = Some d \<Longrightarrow> draft_ok d \<and> d \<in> set (wa_store a) \<and> wd_key d = k"
  using drafts_ok[of a d] by (auto simp: find_draft_def dest: find_Some_in)

lemma reload_inv:
  "store_ok (wa_store a) \<Longrightarrow> (\<And>b m t. wa_timer a = Some (b, m, t) \<Longrightarrow> draft_ok b) \<Longrightarrow>
   (\<And>r. r \<in> set (wa_awaiting a) \<Longrightarrow> request_ok (snd r)) \<Longrightarrow> wiki_inv (reload p a)"
  by (auto simp: wiki_inv_def intro!: exI[of _ p])

lemma save_inv: "wiki_inv a \<Longrightarrow> draft_ok d \<Longrightarrow> wiki_inv (save p d a)"
  unfolding save_def by (rule reload_inv) (auto simp: wiki_inv_def store_put)

lemma wiki_inv_other [simp]:
  "wiki_inv (a\<lparr>wa_saved := x\<rparr>) = wiki_inv a" "wiki_inv (a\<lparr>wa_selected := y\<rparr>) = wiki_inv a"
  "wiki_inv (a\<lparr>wa_editing := z\<rparr>) = wiki_inv a" "wiki_inv (a\<lparr>wa_md := m\<rparr>) = wiki_inv a"
  "wiki_inv (a\<lparr>wa_title := t\<rparr>) = wiki_inv a"
  by (simp_all add: wiki_inv_def reload_def)

lemma wiki_inv_timer: "wiki_inv a \<Longrightarrow> wiki_inv (a\<lparr>wa_timer := None\<rparr>)"
    "wiki_inv a \<Longrightarrow> draft_ok b \<Longrightarrow> wiki_inv (a\<lparr>wa_timer := Some (b, m, t)\<rparr>)"
  by (simp_all add: wiki_inv_def reload_def cong: if_cong split del: if_split)

lemma rerender_inv: "wiki_inv a \<Longrightarrow> wiki_inv (rerender b a)"
  using find_draft_ok[of a]
  by (auto simp: rerender_def autosave_def wiki_inv_timer split: option.splits)

lemma flushed_key [simp]:
  "wd_key (flushed l u b m t n) = wd_key b" "draft_ok (flushed l u b m t n) = draft_ok b"
  "wd_projectId (flushed l u b m t n) = wd_projectId b"
  by (simp_all add: flushed_def draft_ok_def)

lemma request_inv: "wiki_inv a \<Longrightarrow> request_ok r \<Longrightarrow> wiki_inv (a\<lparr>wa_awaiting := (p, r) # wa_awaiting a\<rparr>)"
  by (simp add: wiki_inv_def reload_def cong: if_cong split del: if_split)

lemma draft_ok_other [simp]:
  "draft_ok (d\<lparr>wd_title := t\<rparr>) = draft_ok d" "draft_ok (d\<lparr>wd_slug := t\<rparr>) = draft_ok d"
  "draft_ok (d\<lparr>wd_markdown := t\<rparr>) = draft_ok d" "draft_ok (d\<lparr>wd_baseItemId := i\<rparr>) = draft_ok d"
  "draft_ok (d\<lparr>wd_baseVersion := i\<rparr>) = draft_ok d" "draft_ok (d\<lparr>wd_status := t\<rparr>) = draft_ok d"
  "draft_ok (d\<lparr>wd_updatedAt := n\<rparr>) = draft_ok d"
  by (simp_all add: draft_ok_def)

lemma show_text_inv: "wiki_inv a \<Longrightarrow> wiki_inv (show_text editing d md a)"
  by (simp add: show_text_def rerender_inv)

lemma rename_inv: "wiki_inv a \<Longrightarrow> (\<And>d. x = Some d \<Longrightarrow> draft_ok d) \<Longrightarrow> wiki_inv (rename_done lower now p x v editing a)"
  by (auto simp: rename_done_def Let_def intro!: rerender_inv save_inv split: option.split)

lemma answer_inv:
  assumes "wiki_inv a" "request_ok r"
  shows "wiki_inv (wiki_answered lower now p r ans a)"
proof -
  have "draft_ok d" if "List.find (\<lambda>d. wd_baseItemId d = Some i) (wa_drafts a) = Some d" for d i
    using that drafts_ok[OF assms(1)] by (auto dest: find_Some_in)
  then show ?thesis
    using assms
    by (cases "(lower, now, p, r, ans, a)" rule: wiki_answered.cases)
      (auto simp: request_ok_def publish_done_def refresh_done_def restore_done_def
        intro!: save_inv show_text_inv rename_inv split: option.split)
qed

lemma wiki_step_inv:
  assumes inv: "wiki_inv a"
  shows "wiki_inv (wiki_step lower untitled a te)"
proof -
  obtain now e where te: "te = (now, e)" by (cases te)
  have edit: "wiki_inv (beginEdit d b)" if "wiki_inv b" for d b
    unfolding beginEdit_def using that by (intro rerender_inv) simp
  have make: "draft_ok (create lower p t k now)" "draft_ok (importPage lower p k v t m now)" for p t k v m
    by (simp_all add: draft_ok_def create_def importPage_def Let_def)
  show ?thesis
  proof (cases e)
    case (BeginEdit k)
    then show ?thesis using edit[OF inv] inv by (simp add: te split: option.split)
  next
    case (Typed md title)
    then show ?thesis using inv by (simp add: te typed_def rerender_inv)
  next
    case AutosaveFires
    have "draft_ok b" if "wa_timer a = Some (b, m, t)" for b m t using inv that by (simp add: wiki_inv_def)
    then show ?thesis
      using inv by (auto simp: te AutosaveFires autosave_fires_def intro!: save_inv wiki_inv_timer split: option.split)
  next
    case CloseEditor
    have "wiki_inv (case (if truthy (wa_editing a) then find_draft (the (wa_editing a)) a else None) of
            Some base \<Rightarrow> if wd_markdown base \<noteq> wa_md a \<or> wd_title base \<noteq> wa_title a
                         then save (wa_project a) (flushed lower untitled base (wa_md a) (wa_title a) now) a else a
          | None \<Rightarrow> a)"
      using inv find_draft_ok[OF inv] by (auto intro!: save_inv split: option.split)
    then show ?thesis by (simp add: te CloseEditor closeEditor_def Let_def rerender_inv)
  next
    case (DeleteDraft k)
    have "wiki_inv (remove (wa_project a) k a)"
      unfolding remove_def using inv by (intro reload_inv) (auto simp: wiki_inv_def store_delete)
    then show ?thesis by (simp add: te DeleteDraft handleDelete_def Let_def rerender_inv)
  next
    case (SwitchProject p)
    let ?b = "rerender a (a\<lparr>wa_project := p, wa_selected := None, wa_editing := None\<rparr>)"
    have "store_ok (wa_store ?b) \<and> (\<forall>b m t. wa_timer ?b = Some (b, m, t) \<longrightarrow> draft_ok b) \<and>
        (\<forall>r \<in> set (wa_awaiting ?b). request_ok (snd r))"
      using inv by (auto simp: rerender_def autosave_def wiki_inv_def)
    then have "wiki_inv (reload p ?b)" by (intro reload_inv) auto
    then show ?thesis using inv by (simp add: te SwitchProject switchProject_def)
  next
    case (PublishClick w)
    then show ?thesis
      using inv find_draft_ok[OF inv]
      by (auto simp: te handlePublish_def Let_def request_ok_def intro!: request_inv split: option.split)
  next
    case (RefreshClick dm pages en)
    then show ?thesis
      using inv find_draft_ok[OF inv] by (auto simp: te handleRefresh_def request_ok_def intro!: request_inv split: option.split)
  next
    case (RenameSave w en v)
    then show ?thesis
      using inv find_draft_ok[OF inv]
      by (auto simp: te doRename_def Let_def request_ok_def intro!: request_inv rename_inv split: if_splits)
  next
    case (Answered r ans)
    have "wiki_inv (a\<lparr>wa_awaiting := remove1 r (wa_awaiting a)\<rparr>)"
      using inv set_remove1_subset[of r "wa_awaiting a"] by (auto simp: wiki_inv_def reload_def)
    moreover have "request_ok (snd r)" if "r \<in> set (wa_awaiting a)" using inv that by (simp add: wiki_inv_def)
    ultimately show ?thesis using inv by (simp add: te Answered wiki_answer_step_def answer_inv)
  qed (use inv in \<open>simp_all add: te handleNew_def handleEditAsDraft_def Let_def onSelect_def handleRestore_def
      request_ok_def edit make save_inv rerender_inv request_inv\<close>)
qed

lemma wiki_run_inv: "wiki_inv a \<Longrightarrow> wiki_inv (wiki_run lower untitled a evs)"
  unfolding wiki_run_def by (induction evs arbitrary: a) (simp_all add: wiki_step_inv)

lemma wiki_start_inv: "store_ok store \<Longrightarrow> wiki_inv (wiki_start store p)"
  unfolding wiki_start_def by (rule reload_inv) auto

text \<open>Without a switch, all is of one project.\<close>

lemma stays_other [simp]:
  "wiki_stays p (a\<lparr>wa_saved := x\<rparr>) = wiki_stays p a" "wiki_stays p (a\<lparr>wa_selected := y\<rparr>) = wiki_stays p a"
  "wiki_stays p (a\<lparr>wa_editing := z\<rparr>) = wiki_stays p a" "wiki_stays p (a\<lparr>wa_md := m\<rparr>) = wiki_stays p a"
  "wiki_stays p (a\<lparr>wa_title := t\<rparr>) = wiki_stays p a" "wiki_stays p (a\<lparr>wa_timer := u\<rparr>) = wiki_stays p a"
  by (simp_all add: wiki_stays_def reload_def)

lemma stays_rerender [simp]: "wiki_stays p (rerender b a) = wiki_stays p a"
  by (simp add: rerender_def autosave_def split: option.split)

lemma stays_show [simp]: "wiki_stays p (show_text editing d md a) = wiki_stays p a"
  by (simp add: show_text_def)

lemma stays_save: "wiki_stays p a \<Longrightarrow> q = p \<Longrightarrow> wiki_stays p (save q d a)"
  by (simp add: wiki_stays_def save_def)

lemma stays_request: "wiki_stays p a \<Longrightarrow> q = p \<Longrightarrow> wiki_stays p (a\<lparr>wa_awaiting := (q, r) # wa_awaiting a\<rparr>)"
  by (simp add: wiki_stays_def reload_def)

lemma stays_rename: "wiki_stays p a \<Longrightarrow> q = p \<Longrightarrow> wiki_stays p (rename_done lower now q x v editing a)"
  by (auto simp: rename_done_def Let_def stays_save split: option.split)

lemma stays_answer: "wiki_stays p a \<Longrightarrow> wiki_stays p (wiki_answered lower now p r ans a)"
  by (cases "(lower, now, p, r, ans, a)" rule: wiki_answered.cases)
    (auto simp: publish_done_def refresh_done_def restore_done_def stays_save stays_rename split: option.split)

lemma wiki_step_stays:
  assumes st: "wiki_stays p a" and "\<And>q. snd te \<noteq> SwitchProject q"
  shows "wiki_stays p (wiki_step lower untitled a te)"
proof -
  obtain now e where te: "te = (now, e)" by (cases te)
  have pr: "wa_project a = p" using st by (simp add: wiki_stays_def)
  have edit: "wiki_stays p (beginEdit d b) = wiki_stays p b" for d b by (simp add: beginEdit_def)
  show ?thesis
  proof (cases e)
    case (SwitchProject q)
    then show ?thesis using assms(2)[of q] te by simp
  next
    case (DeleteDraft k)
    have "wiki_stays p (remove (wa_project a) k a)" using st by (simp add: remove_def wiki_stays_def)
    then show ?thesis by (simp add: te DeleteDraft handleDelete_def Let_def)
  next
    case (Answered r ans)
    have "wiki_stays p (a\<lparr>wa_awaiting := remove1 r (wa_awaiting a)\<rparr>)"
      using st set_remove1_subset[of r "wa_awaiting a"] by (auto simp: wiki_stays_def reload_def)
    moreover have "fst r = p" if "r \<in> set (wa_awaiting a)" using st that by (simp add: wiki_stays_def)
    ultimately show ?thesis using st stays_answer[of p] by (simp add: te Answered wiki_answer_step_def)
  qed (use st in \<open>auto simp: te pr edit handleNew_def handleEditAsDraft_def Let_def onSelect_def handleRestore_def
      handlePublish_def handleRefresh_def doRename_def typed_def autosave_fires_def closeEditor_def
      stays_save stays_request stays_rename split: option.split\<close>)
qed

lemma wiki_run_stays:
  "wiki_stays p a \<Longrightarrow> \<forall>te \<in> set evs. \<forall>q. snd te \<noteq> SwitchProject q \<Longrightarrow> wiki_stays p (wiki_run lower untitled a evs)"
  unfolding wiki_run_def by (induction evs arbitrary: a) (simp_all add: wiki_step_stays)

lemma wiki_start_stays: "wiki_stays p (wiki_start store p)"
  by (simp add: wiki_start_def wiki_stays_def)

text \<open>
  C26. The draft store stays well formed through any sequence of edits, autosaves, deletions, project
  switches, requests and answers: every draft is filed under the key of its own project and page, once;
  and the list is the drafts of one project, newest first - the project on screen, while the user stays
  in it.
\<close>

theorem wiki_store_typed:
  assumes "store_ok store" and a: "a = wiki_run lower untitled (wiki_start store p) evs"
  shows "distinct (map wd_key (wa_store a)) \<and>
    (\<forall>d \<in> set (wa_store a). wd_key d = draftKey (wd_projectId d) (wd_pageKey d)) \<and>
    (\<exists>q. set (wa_drafts a) = {d \<in> set (wa_store a). truthy q \<and> Some (wd_projectId d) = q} \<and>
      ((\<forall>te \<in> set evs. \<forall>q. snd te \<noteq> SwitchProject q) \<longrightarrow> q = wa_project a \<and> q = p)) \<and>
    sorted_wrt (\<lambda>d e. wd_updatedAt e \<le> wd_updatedAt d) (wa_drafts a)"
proof -
  have inv: "wiki_inv a" unfolding a by (rule wiki_run_inv[OF wiki_start_inv[OF assms(1)]])
  have "\<exists>q. wa_drafts a = wa_drafts (reload q a) \<and>
      ((\<forall>te \<in> set evs. \<forall>q. snd te \<noteq> SwitchProject q) \<longrightarrow> q = wa_project a \<and> q = p)"
  proof (cases "\<forall>te \<in> set evs. \<forall>q. snd te \<noteq> SwitchProject q")
    case True
    then have "wiki_stays p a" unfolding a by (intro wiki_run_stays wiki_start_stays)
    then show ?thesis by (intro exI[of _ p]) (simp add: wiki_stays_def)
  next
    case False
    obtain q where "wa_drafts a = wa_drafts (reload q a)" using inv by (auto simp: wiki_inv_def)
    with False show ?thesis by (intro exI[of _ q] conjI impI; blast)
  qed
  then obtain q where dr: "wa_drafts a = wa_drafts (reload q a)"
    and q: "(\<forall>te \<in> set evs. \<forall>q. snd te \<noteq> SwitchProject q) \<longrightarrow> q = wa_project a \<and> q = p" by blast
  have "set (wa_drafts a) = {d \<in> set (wa_store a). truthy q \<and> Some (wd_projectId d) = q}"
    unfolding dr by (cases q) (auto simp: reload_def set_listDrafts)
  moreover have "sorted_wrt (\<lambda>d e. wd_updatedAt e \<le> wd_updatedAt d) (wa_drafts a)"
    unfolding dr using by_updated.sorted_sort[of "filter (\<lambda>e. wd_projectId e = the q) (wa_store a)"]
    by (simp add: reload_def listDrafts_def)
  moreover have "distinct (map wd_key (wa_store a))" "\<forall>d \<in> set (wa_store a). wd_key d = draftKey (wd_projectId d) (wd_pageKey d)"
    using inv by (simp_all add: wiki_inv_def store_ok_def draft_ok_def)
  ultimately show ?thesis using q by blast
qed

lemma trim_demo: "js_trim ''untitled'' = ''untitled''"
  by code_simp

lemmas wiki_eval = wiki_run_def wiki_start_def handleNew_def create_def save_def putDraft_def reload_def
  listDrafts_def beginEdit_def rerender_def autosave_def find_draft_def draftKey_def trim_demo typed_def
  autosave_fires_def flushed_def closeEditor_def handleEditAsDraft_def importPage_def Let_def

text \<open>A project with two pages: one made here and one pulled from the published pages.\<close>

definition wiki_demo :: wiki_app where
  "wiki_demo = wiki_run (\<lambda>s. s) ''untitled'' (wiki_start [] (Some ''p''))
     [(1, NewPage ''k''), (2, Typed ''text'' ''notes''), (3, AutosaveFires), (4, CloseEditor),
      (5, EditAsDraft ''urn'' (Some ''v1'') ''guide'' ''body'')]"

lemma wiki_demo_drafts:
  "map (\<lambda>d. (wd_key d, wd_title d, wd_markdown d, wd_status d)) (wa_drafts wiki_demo) =
    [(''p::urn'', ''guide'', ''body'', ''published''), (''p::k'', ''notes'', ''text'', ''draft'')] \<and>
    wa_editing wiki_demo = Some ''p::urn'' \<and> wa_md wiki_demo = ''body'' \<and> wa_title wiki_demo = ''guide''"
  by (simp add: wiki_demo_def wiki_eval)

lemma wiki_store_typed_witness:
  "distinct (map wd_key (wa_store wiki_demo)) \<and> length (wa_drafts wiki_demo) = 2 \<and>
    sorted_wrt (\<lambda>d e. wd_updatedAt e \<le> wd_updatedAt d) (wa_drafts wiki_demo)"
proof -
  have "length (wa_drafts wiki_demo) = 2" using arg_cong[OF conjunct1[OF wiki_demo_drafts], of length] by simp
  moreover have "store_ok []" by (simp add: store_ok_def)
  ultimately show ?thesis using wiki_store_typed[OF _ wiki_demo_def] by blast
qed

subsection \<open>What happens to the text in the editor\<close>

text \<open>
  C27. Closing the editor keeps the text: whatever was typed, saved, published, refreshed or renamed
  before, after closing the store holds under the page's key the text and the title that were on
  screen (an empty title as the untitled one), if the page is still among the drafts.
\<close>

theorem close_keeps_text:
  assumes "store_ok store" and a: "a = wiki_run lower untitled (wiki_start store p) evs"
    and k: "wa_editing a = Some k" "k \<noteq> []" "k \<in> set (map wd_key (wa_drafts a))"
  shows "\<exists>d. getDraft k (wa_store (closeEditor lower untitled now a)) = Some d \<and> wd_markdown d = wa_md a \<and>
    (wd_title d = wa_title a \<or> wa_title a = [] \<and> wd_title d = untitled)"
proof -
  have inv: "wiki_inv a" unfolding a by (rule wiki_run_inv[OF wiki_start_inv[OF assms(1)]])
  then have st: "store_ok (wa_store a)" by (simp add: wiki_inv_def)
  obtain b where b: "find_draft k a = Some b"
    using k(3) by (cases "find_draft k a") (auto simp: find_draft_def find_None_iff)
  then have ok: "draft_ok b" "b \<in> set (wa_store a)" and key: "wd_key b = k" using find_draft_ok[OF inv b] by auto
  have store: "wa_store (rerender x y) = wa_store y" for x y
    by (simp add: rerender_def autosave_def split: option.split)
  show ?thesis
  proof (cases "wd_markdown b \<noteq> wa_md a \<or> wd_title b \<noteq> wa_title a")
    case True
    let ?d = "flushed lower untitled b (wa_md a) (wa_title a) now"
    have "wa_store (closeEditor lower untitled now a) = putDraft ?d (wa_store a)"
      using True k(1,2) b by (simp add: closeEditor_def Let_def store save_def)
    moreover have "getDraft k (putDraft ?d (wa_store a)) = Some ?d"
      using getDraft_put[OF st, of ?d] ok(1) key by simp
    ultimately show ?thesis by (intro exI[of _ ?d]) (simp add: flushed_def)
  next
    case False
    then have "wa_store (closeEditor lower untitled now a) = wa_store a"
      using k(1,2) b by (simp add: closeEditor_def Let_def store)
    moreover have "getDraft k (wa_store a) = Some b"
      using find_by_key[of "wa_store a" b] st ok(2) key by (simp add: getDraft_def store_ok_def)
    ultimately show ?thesis using False by auto
  qed
qed

lemma close_keeps_text_witness:
  "\<exists>d. getDraft ''p::urn'' (wa_store (closeEditor (\<lambda>s. s) ''untitled'' 9 wiki_demo)) = Some d \<and> wd_markdown d = ''body''"
proof -
  have k: "''p::urn'' \<in> set (map wd_key (wa_drafts wiki_demo))"
    using arg_cong[OF conjunct1[OF wiki_demo_drafts], of "map fst"] by (simp add: comp_def)
  have "store_ok []" by (simp add: store_ok_def)
  from close_keeps_text[OF this wiki_demo_def conjunct1[OF conjunct2[OF wiki_demo_drafts]] _ k, of 9] wiki_demo_drafts
  show ?thesis by auto
qed

text \<open>
  C50. Selecting another page in the list does not close the editor, it drops it: text typed since the
  last autosave is gone - the store holds what it held before the typing, and no timer is left that
  would write it.
\<close>

theorem select_drops_text:
  assumes "wa_editing a = Some k" "k \<noteq> []"
    and "b = wiki_run lower untitled a [(t1, Typed md title), (t2, SelectEntry i), (t3, AutosaveFires)]"
  shows "wa_store b = wa_store a \<and> wa_timer b = None \<and> wa_editing b = None"
proof -
  have ed: "wa_editing (typed md title a) = Some k" "wa_store (typed md title a) = wa_store a"
    using assms(1) by (simp_all add: typed_def rerender_def autosave_def split: option.split)
  let ?c = "onSelect i (typed md title a)"
  have c: "wa_timer ?c = None" "wa_store ?c = wa_store a" "wa_editing ?c = None"
    using ed by (simp_all add: onSelect_def rerender_def autosave_def)
  have "b = ?c" using assms(1,2) c(1) by (simp add: assms(3) wiki_run_def autosave_fires_def)
  with c show ?thesis by simp
qed

lemma select_drops_text_witness:
  "wa_store (wiki_run (\<lambda>s. s) ''untitled'' wiki_demo
     [(6, Typed ''new text'' ''guide''), (7, SelectEntry ''p::k''), (8, AutosaveFires)]) = wa_store wiki_demo"
  using select_drops_text[OF conjunct1[OF conjunct2[OF wiki_demo_drafts]] _ refl] by simp

text \<open>
  An answer that arrives after the user went to another project fills the list with the drafts of the
  project it was asked from: the handler's \<open>save\<close> reloads that one.
\<close>

lemma late_answer_shows_other_project:
  assumes "(p, PublishReq d title slug md) \<in> set (wa_awaiting a)" "p = Some (wd_projectId d)" "wd_projectId d \<noteq> []"
    and "store_ok (wa_store a)" "draft_ok d" "q \<noteq> wd_projectId d"
    and b: "b = wiki_run lower untitled a
      [(t1, SwitchProject (Some q)), (t2, Answered (p, PublishReq d title slug md) (Published i tip))]"
  shows "wa_project b = Some q \<and> (\<forall>e \<in> set (wa_drafts b). wd_projectId e \<noteq> q) \<and>
    (\<exists>e \<in> set (wa_drafts b). wd_key e = wd_key d)"
proof -
  let ?c = "switchProject (Some q) a"
  have c: "wa_project ?c = Some q" "wa_store ?c = wa_store a" "wa_awaiting ?c = wa_awaiting a"
    by (simp_all add: switchProject_def rerender_def autosave_def)
  have b: "b = publish_done t2 p d title slug md i tip
      (?c\<lparr>wa_awaiting := remove1 (p, PublishReq d title slug md) (wa_awaiting ?c)\<rparr>)"
    using assms(1) by (simp add: b wiki_run_def wiki_answer_step_def c)
  have "set (wa_drafts b) = {e \<in> set (wa_store b). wd_projectId e = wd_projectId d}"
    using assms(2,3) by (simp add: b publish_done_def save_def reload_def truthy_def set_listDrafts)
  moreover have "\<exists>e \<in> set (wa_store b). wd_key e = wd_key d \<and> wd_projectId e = wd_projectId d"
    by (simp add: b publish_done_def save_def set_putDraft)
  moreover have "wa_project b = Some q" by (simp add: b publish_done_def save_def c)
  ultimately show ?thesis using assms(6) by auto
qed

text \<open>
  An autosave that fires after the answer to a publish undoes it: it was armed, before the answer,
  with the draft of that time, so when the user goes on typing while the page is being published, the
  store ends with a draft that is linked to the page and version it was linked to before - a new page
  is unlinked again, and its next publish names no page.
\<close>

theorem autosave_undoes_publish:
  assumes "store_ok store" and a: "a = wiki_run lower untitled (wiki_start store p) evs"
    and k: "wa_editing a = Some k" "k \<noteq> []" "find_draft k a = Some d"
    and md: "md \<noteq> wa_md a" "md \<noteq> wd_markdown d" "wa_title a \<noteq> []"
    and r_def: "r = (wa_project a, PublishReq d (wa_title a)
      (if truthy (wd_baseItemId d) then wd_slug d else slugify lower (wa_title a)) (wa_md a))"
  shows "\<exists>e. getDraft k (wa_store (wiki_run lower untitled a
      [(t1, PublishClick True), (t2, Typed md (wa_title a)), (t3, Answered r (Published i tip)), (t4, AutosaveFires)])) = Some e \<and>
    wd_markdown e = md \<and> wd_baseItemId e = wd_baseItemId d \<and> wd_baseVersion e = wd_baseVersion d"
proof -
  have inv: "wiki_inv a" unfolding a by (rule wiki_run_inv[OF wiki_start_inv[OF assms(1)]])
  note d = find_draft_ok[OF inv k(3)]
  let ?b = "a\<lparr>wa_awaiting := r # wa_awaiting a\<rparr>"
  have b: "wiki_step lower untitled a (t1, PublishClick True) = ?b"
    using k md(3) by (simp add: handlePublish_def r_def Let_def)
  let ?c = "?b\<lparr>wa_md := md, wa_saved := False, wa_timer := Some (d, md, wa_title a)\<rparr>"
  have "find_draft k (?b\<lparr>wa_md := md, wa_title := wa_title a\<rparr>) = Some d" using k(3) by (simp add: find_draft_def)
  then have c: "wiki_step lower untitled ?b (t2, Typed md (wa_title a)) = ?c"
    using k(1,2) md by (simp add: typed_def rerender_def autosave_def)
  have "wiki_inv ?b" unfolding r_def using inv d by (intro request_inv) (simp_all add: request_ok_def)
  with d have "wiki_inv ?c"
    using wiki_inv_timer(2)[of "?b\<lparr>wa_md := md, wa_saved := False\<rparr>" d md "wa_title a"] by simp
  let ?e = "wiki_step lower untitled ?c (t3, Answered r (Published i tip))"
  have e: "wiki_inv ?e" "wa_timer ?e = Some (d, md, wa_title a)"
    using wiki_step_inv[OF \<open>wiki_inv ?c\<close>, of lower untitled "(t3, Answered r (Published i tip))"]
    by (simp_all add: wiki_answer_step_def r_def publish_done_def save_def)
  let ?f = "flushed lower untitled d md (wa_title a) t4"
  have "wa_store (wiki_step lower untitled ?e (t4, AutosaveFires)) = putDraft ?f (wa_store ?e)"
    using e(2) by (simp add: autosave_fires_def save_def)
  moreover have "getDraft k (putDraft ?f (wa_store ?e)) = Some ?f"
    using getDraft_put[of "wa_store ?e" ?f] e(1) d by (simp add: wiki_inv_def)
  ultimately have "getDraft k (wa_store (wiki_run lower untitled a
      [(t1, PublishClick True), (t2, Typed md (wa_title a)), (t3, Answered r (Published i tip)), (t4, AutosaveFires)])) = Some ?f"
    by (simp only: wiki_run_def foldl.simps b c)
  then show ?thesis by (intro exI[of _ ?f]) (simp add: flushed_def)
qed

definition wiki_new :: wiki_app where
  "wiki_new = wiki_run (\<lambda>s. s) ''untitled'' (wiki_start [] (Some ''p'')) [(1, NewPage ''k'')]"

definition wiki_new_draft :: wiki_draft where
  "wiki_new_draft = create (\<lambda>s. s) ''p'' ''untitled'' ''k'' 1"

lemma autosave_undoes_publish_witness:
  "\<exists>r e. getDraft ''p::k'' (wa_store (wiki_run (\<lambda>s. s) ''untitled'' wiki_new
      [(2, PublishClick True), (3, Typed ''more'' ''untitled''), (4, Answered r (Published ''urn'' (Some ''v1''))),
       (5, AutosaveFires)])) = Some e \<and> wd_markdown e = ''more'' \<and> wd_baseItemId e = None"
proof -
  have ok: "store_ok []" by (simp add: store_ok_def)
  have ed: "wa_editing wiki_new = Some ''p::k''" "find_draft ''p::k'' wiki_new = Some wiki_new_draft"
    by (simp_all add: wiki_new_def wiki_new_draft_def wiki_eval)
  have md: "''more'' \<noteq> wa_md wiki_new" "''more'' \<noteq> wd_markdown wiki_new_draft" "wa_title wiki_new \<noteq> []"
    by (simp_all add: wiki_new_def wiki_new_draft_def wiki_eval)
  have facts: "wa_title wiki_new = ''untitled''" "wd_baseItemId wiki_new_draft = None"
    by (simp_all add: wiki_new_def wiki_new_draft_def wiki_eval)
  from autosave_undoes_publish[OF ok wiki_new_def ed(1) _ ed(2) md refl, of 2 3 4 "''urn''" "Some ''v1''" 5] facts
  show ?thesis by auto
qed

subsection \<open>The list of pages\<close>

lemma linked_lookup:
  assumes "distinct (map wd_baseItemId (filter (\<lambda>d. truthy (wd_baseItemId d)) drafts))"
  shows "map_of (List.rev (linked_drafts drafts)) i = Some x \<longleftrightarrow> x \<in> set drafts \<and> wd_baseItemId x = Some i \<and> i \<noteq> []"
proof -
  have "map fst (linked_drafts drafts) = map the (map wd_baseItemId (filter (\<lambda>d. truthy (wd_baseItemId d)) drafts))"
    by (simp add: linked_drafts_def comp_def)
  moreover have "inj_on the (set (map wd_baseItemId (filter (\<lambda>d. truthy (wd_baseItemId d)) drafts)))"
    by (auto simp: inj_on_def truthy_def split: option.splits)
  ultimately have "distinct (map fst (linked_drafts drafts))"
    using assms by (simp only: distinct_map[of the] simp_thms)
  then have "distinct (map fst (List.rev (linked_drafts drafts)))" by (simp add: rev_map [symmetric])
  then have "map_of (List.rev (linked_drafts drafts)) i = Some x \<longleftrightarrow> (i, x) \<in> set (linked_drafts drafts)"
    by (simp add: map_of_eq_Some_iff)
  moreover have "(i, x) \<in> set (linked_drafts drafts) \<longleftrightarrow> x \<in> set drafts \<and> wd_baseItemId x = Some i \<and> i \<noteq> []"
    by (cases "wd_baseItemId x") (auto simp: linked_drafts_def truthy_def image_iff split: option.splits)
  ultimately show ?thesis by simp
qed

lemma page_entry_key:
  assumes d: "d \<in> set drafts" and same: "\<And>x. x \<in> set drafts \<Longrightarrow> wd_key x = wd_key d \<Longrightarrow> x = d"
    and links: "distinct (map wd_baseItemId (filter (\<lambda>d. truthy (wd_baseItemId d)) drafts))"
  shows "we_draftKey (page_entry drafts p) = Some (wd_key d) \<longleftrightarrow> wd_baseItemId d = Some (wg_itemId p) \<and> wg_itemId p \<noteq> []"
proof (cases "map_of (List.rev (linked_drafts drafts)) (wg_itemId p)")
  case None
  then show ?thesis using linked_lookup[OF links, of "wg_itemId p" d] d by (auto simp: page_entry_def)
next
  case (Some x)
  then show ?thesis
    using linked_lookup[OF links, of "wg_itemId p" x] linked_lookup[OF links, of "wg_itemId p" d] d same[of x]
    by (auto simp: page_entry_def)
qed

text \<open>
  The list shows every published page once and every draft that was never published once; a draft
  that belongs to a published page is shown as that page's entry - so only while the page is in the
  list of published pages: with no answer from the server (or after the page was deleted there) such a
  draft, with all its edits, is not in the list at all.
\<close>

theorem wiki_list_shows:
  assumes keys: "distinct (map wd_key drafts)"
    and links: "distinct (map wd_baseItemId (filter (\<lambda>d. truthy (wd_baseItemId d)) drafts))"
    and q: "foldSearch (js_trim query) = []"
    and shown_def: "shown = wiki_entries cmp foldSearch pages drafts query"
  shows "mset (map we_itemId shown) = image_mset Some (mset (map wg_itemId (nullish pages []))) +
      replicate_mset (length (filter (\<lambda>d. \<not> truthy (wd_baseItemId d)) drafts)) None \<and>
    (\<forall>d \<in> set drafts. (\<exists>e \<in> set shown. we_draftKey e = Some (wd_key d)) \<longleftrightarrow>
      \<not> truthy (wd_baseItemId d) \<or> wd_baseItemId d \<in> Some ` set (map wg_itemId (nullish pages [])))"
proof
  have size_filter: "size {#x \<in># mset xs. P x#} = length (filter P xs)" for P and xs :: "wiki_draft list"
    by (metis mset_filter size_mset)
  let ?pages = "nullish pages []" and ?loc = "filter (\<lambda>d. \<not> truthy (wd_baseItemId d)) drafts"
  have ms: "mset shown = mset (map (page_entry drafts) ?pages) + mset (map local_entry ?loc)"
    by (simp add: shown_def wiki_entries_def q Let_def)
  then have st: "set shown = page_entry drafts ` set ?pages \<union> local_entry ` set ?loc"
    by (metis ms set_mset_mset set_mset_union set_map)
  have pe: "we_itemId (page_entry drafts p) = Some (wg_itemId p)" for p
    by (simp add: page_entry_def split: option.split)
  have "mset (map we_itemId shown) = image_mset we_itemId (mset shown)" by simp
  also have "\<dots> = image_mset Some (mset (map wg_itemId ?pages)) + replicate_mset (length ?loc) None"
    unfolding ms
    by (simp add: image_mset.compositionality comp_def pe local_entry_def image_mset_const_eq size_filter)
  finally show "mset (map we_itemId shown) = image_mset Some (mset (map wg_itemId ?pages)) + replicate_mset (length ?loc) None" .
  show "\<forall>d \<in> set drafts. (\<exists>e \<in> set shown. we_draftKey e = Some (wd_key d)) \<longleftrightarrow>
      \<not> truthy (wd_baseItemId d) \<or> wd_baseItemId d \<in> Some ` set (map wg_itemId ?pages)"
  proof
    fix d assume d: "d \<in> set drafts"
    have same: "x = d" if "x \<in> set drafts" "wd_key x = wd_key d" for x
      using keys d that by (auto simp: distinct_map dest: inj_onD)
    note page = page_entry_key[OF d same links]
    have loc: "(\<exists>x \<in> set ?loc. we_draftKey (local_entry x) = Some (wd_key d)) \<longleftrightarrow> \<not> truthy (wd_baseItemId d)"
      using d same by (auto simp: local_entry_def)
    have "(\<exists>e \<in> set shown. we_draftKey e = Some (wd_key d)) \<longleftrightarrow>
        (\<exists>p \<in> set ?pages. wd_baseItemId d = Some (wg_itemId p) \<and> wg_itemId p \<noteq> []) \<or> \<not> truthy (wd_baseItemId d)"
      unfolding st by (simp only: bex_Un bex_simps(7) page loc)
    then show "(\<exists>e \<in> set shown. we_draftKey e = Some (wd_key d)) \<longleftrightarrow>
        \<not> truthy (wd_baseItemId d) \<or> wd_baseItemId d \<in> Some ` set (map wg_itemId ?pages)"
      by (auto simp: truthy_def split: option.splits)
  qed
qed

lemma wiki_list_shows_witness:
  "map we_itemId (wiki_entries (\<lambda>a b. 0) (\<lambda>s. s) None (wa_drafts wiki_demo) []) = [None] \<and>
    \<not> (\<exists>e \<in> set (wiki_entries (\<lambda>a b. 0) (\<lambda>s. s) None (wa_drafts wiki_demo) []). we_draftKey e = Some ''p::urn'')"
proof -
  have base: "map wd_baseItemId (wa_drafts wiki_demo) = [Some ''urn'', None]"
    "map wd_key (wa_drafts wiki_demo) = [''p::urn'', ''p::k'']"
    by (simp_all add: wiki_demo_def wiki_eval)
  obtain d e where de: "wa_drafts wiki_demo = [d, e]" using base(1) by (auto simp: map_eq_Cons_conv)
  with base have v: "wd_baseItemId d = Some ''urn''" "wd_baseItemId e = None" "wd_key d = ''p::urn''" "wd_key e = ''p::k''" by simp_all
  have keys: "distinct (map wd_key (wa_drafts wiki_demo))" by (simp add: base)
  have links: "distinct (map wd_baseItemId (filter (\<lambda>d. truthy (wd_baseItemId d)) (wa_drafts wiki_demo)))"
    by (simp add: de v)
  have "(\<lambda>s. s) (js_trim []) = []" by (simp add: js_trim_def trim_spaces_def)
  note th = wiki_list_shows[where foldSearch = "\<lambda>s. s" and query = "[]", OF keys links this refl, of "\<lambda>a b. 0" None]
  have "length (filter (\<lambda>d. \<not> truthy (wd_baseItemId d)) (wa_drafts wiki_demo)) = 1" by (simp add: de v)
  then have "mset (map we_itemId (wiki_entries (\<lambda>a b. 0) (\<lambda>s. s) None (wa_drafts wiki_demo) [])) = {#None#}"
    using conjunct1[OF th] by simp
  then have "map we_itemId (wiki_entries (\<lambda>a b. 0) (\<lambda>s. s) None (wa_drafts wiki_demo) []) = [None]"
    by (metis mset_single_iff_right)
  with conjunct2[OF th] show ?thesis by (simp add: de v)
qed

subsection \<open>Slugs\<close>

lemma squeeze_chars: "c \<in> set (squeeze b s) \<Longrightarrow> page_slug_char c \<or> c = CHR ''-''"
  by (induction b s rule: squeeze.induct) (auto split: if_splits)

text \<open>A slug names a file: it is never empty, at most 80 characters, of lower-case letters, digits and
  dashes, and does not start with a dash.\<close>

lemma slugify_shape:
  "slugify lower t \<noteq> [] \<and> length (slugify lower t) \<le> 80 \<and>
    (\<forall>c \<in> set (slugify lower t). page_slug_char c \<or> c = CHR ''-'') \<and> hd (slugify lower t) \<noteq> CHR ''-''"
proof -
  let ?q = "squeeze False (js_trim (lower t))"
  let ?d = "dropWhile (\<lambda>c. c = CHR ''-'') ?q"
  let ?s = "take 80 (strip_dashes ?q)"
  have sub: "set ?s \<subseteq> set ?q"
  proof
    fix c assume "c \<in> set ?s"
    then have "c \<in> set (strip_dashes ?q)" by (rule in_set_takeD)
    moreover obtain t where "?d = strip_dashes ?q @ t"
      using drop_end_prefix[of ?d "\<lambda>c. c = CHR ''-''"] unfolding strip_dashes_def by blast
    ultimately have "c \<in> set ?d" by (metis UnI1 set_append)
    then show "c \<in> set ?q" by (rule set_dropWhileD)
  qed
  have hd: "hd ?s \<noteq> CHR ''-''" if ne: "?s \<noteq> []"
  proof -
    have sne: "strip_dashes ?q \<noteq> []" using ne by (metis take_Nil)
    obtain u where u: "?d = strip_dashes ?q @ u"
      using drop_end_prefix[of ?d "\<lambda>c. c = CHR ''-''"] unfolding strip_dashes_def by blast
    have "hd ?s = hd (strip_dashes ?q)" by (rule hd_take) simp
    moreover have "hd ?d = hd (strip_dashes ?q)" "?d \<noteq> []" using u sne by (metis hd_append2, metis append_is_Nil_conv)
    ultimately have "hd ?s = hd ?d" "?d \<noteq> []" by metis+
    then show ?thesis using hd_dropWhile[of "\<lambda>c. c = CHR ''-''" ?q] by simp
  qed
  have chars: "\<forall>c \<in> set ?s. page_slug_char c \<or> c = CHR ''-''"
    using sub squeeze_chars by blast
  have unt: "\<forall>c \<in> set ''untitled''. page_slug_char c" by (simp add: page_slug_char_def)
  show ?thesis
  proof (cases "?s = []")
    case True
    then have "slugify lower t = ''untitled''" by (simp only: slugify_def Let_def if_True simp_thms)
    then show ?thesis using unt by simp
  next
    case False
    then have "slugify lower t = ?s" by (simp only: slugify_def Let_def if_False)
    moreover have "length ?s \<le> 80" by (simp only: length_take)
    ultimately show ?thesis using False chars hd[OF False] by metis
  qed
qed

text \<open>The cut at 80 characters comes after the dashes are stripped, so a slug can end in one.\<close>

lemma slug_ends_in_dash: "drop 78 (take 80 (strip_dashes (squeeze False (replicate 79 (CHR ''a'') @ '' b'')))) = ''a-''"
  by code_simp

end
