(* ===== verification/QueryHooks.thy ===== *)
theory QueryHooks
  imports ApiRoutes
begin

section \<open>The queries of the client\<close>

text \<open>
  The query hooks of \<open>api/queries.ts\<close>, and the queries of \<open>state/uploads.tsx\<close>,
  \<open>state/fusionActions.tsx\<close>, \<open>state/useQuotaStatus.ts\<close> and \<open>components/DmDeepLinkGate.tsx\<close>: each gives the
  query library a key, under which the answer is cached, and the request that fetches it, with the
  rules for when to fetch. The defaults are those of \<open>api/queryDefaults.ts\<close>; the filter that decides
  what is written to \<open>localStorage\<close> is in \<open>main.tsx\<close>. An absent id in a request is the empty string: a
  query with such a request is disabled. The options \<open>priority\<close>, \<open>layers\<close> and \<open>all\<close> are arguments.
\<close>

subsection \<open>Options\<close>

text \<open>A key is a list; \<open>null\<close> and \<open>undefined\<close> in it have the same hash.\<close>

datatype key_part = KS "string option" | KN "int option" | KL "string list"

type_synonym query_key = "key_part list"

text \<open>
  What the rules look at: the \<open>status\<close> field of the last answer, if there is one, and how many answers
  came. A wait of \<^const>\<open>None\<close> means no further fetch, a stale time of \<^const>\<open>None\<close> means never stale.
\<close>

record poll_state =
  ps_status :: "string option"
  ps_updates :: nat

datatype retry_rule = RetryDefault | RetryNever | RetryUnless404

fun retries :: "retry_rule \<Rightarrow> nat \<Rightarrow> js_error \<Rightarrow> bool" where
  "retries RetryDefault n e = shouldRetry n e"
| "retries RetryNever n e = False"
| "retries RetryUnless404 n e = (\<not> (case e of ApiErr a \<Rightarrow> ae_status a = 404 | OtherErr \<Rightarrow> False) \<and> n < 2)"

record query_opts =
  qo_key :: query_key
  qo_request :: "nat \<Rightarrow> api_request"
  qo_enabled :: bool
  qo_stale :: "int option"
  qo_interval :: "poll_state \<Rightarrow> int option"
  qo_reconnect :: bool
  qo_focus :: bool
  qo_retry :: retry_rule

definition STALE_FLOOR :: int where "STALE_FLOOR = 30 * 1000"
definition STALE :: int where "STALE = 5 * 60 * 1000"
definition THUMB_POLL_MAX :: nat where "THUMB_POLL_MAX = 15"

definition query_options :: "query_key \<Rightarrow> (nat \<Rightarrow> api_request) \<Rightarrow> query_opts" where
  "query_options key req = \<lparr>qo_key = key, qo_request = req, qo_enabled = True, qo_stale = Some STALE_FLOOR,
     qo_interval = (\<lambda>_. None), qo_reconnect = False, qo_focus = False, qo_retry = RetryDefault\<rparr>"

definition poll_until :: "string list \<Rightarrow> nat \<Rightarrow> poll_state \<Rightarrow> int option" where
  "poll_until settled most s =
     (if (\<exists>x \<in> set settled. ps_status s = Some x) then None
      else if ps_updates s \<ge> most then None else Some 2000)"

subsection \<open>Hooks\<close>

definition useMeta :: "query_opts" where
  "useMeta =
     (query_options [KS (Some ''meta'')]
       (\<lambda>_. api_meta))\<lparr>qo_stale := Some STALE\<rparr>"

definition useAuthMe :: "query_opts" where
  "useAuthMe =
     (query_options [KS (Some ''authMe'')]
       (\<lambda>_. api_authMe))\<lparr>qo_stale := Some 0, qo_retry := RetryNever\<rparr>"

definition useAdminStatus :: "bool \<Rightarrow> query_opts" where
  "useAdminStatus active =
     (query_options [KS (Some ''adminStatus'')]
       (\<lambda>_. api_adminStatus))\<lparr>qo_enabled := active, qo_stale := Some 0,
         qo_interval := (\<lambda>_. if active then Some 30000 else None)\<rparr>"

definition useAdminLogTail :: "bool \<Rightarrow> query_opts" where
  "useAdminLogTail active =
     (query_options [KS (Some ''adminLogTail'')]
       (\<lambda>_. api_adminLogTail 65536))\<lparr>qo_enabled := active, qo_stale := Some 0\<rparr>"

definition useAdminBackups :: "bool \<Rightarrow> query_opts" where
  "useAdminBackups active =
     (query_options [KS (Some ''adminBackups'')]
       (\<lambda>_. api_adminBackups))\<lparr>qo_enabled := active, qo_stale := Some 0\<rparr>"

definition useAdminBackupConfig :: "bool \<Rightarrow> query_opts" where
  "useAdminBackupConfig active =
     (query_options [KS (Some ''adminBackupConfig'')]
       (\<lambda>_. api_adminBackupConfig))\<lparr>qo_enabled := active, qo_stale := Some 0\<rparr>"

definition useAdminFsDirs :: "string option \<Rightarrow> bool \<Rightarrow> query_opts" where
  "useAdminFsDirs path active =
     (query_options [KS (Some ''adminFsDirs''), KS (Some (nullish path []))]
       (\<lambda>_. api_adminFsDirs path))\<lparr>qo_enabled := active, qo_stale := Some 0\<rparr>"

definition useAdminDisk :: "bool \<Rightarrow> query_opts" where
  "useAdminDisk active =
     (query_options [KS (Some ''adminDisk'')]
       (\<lambda>_. api_adminDisk))\<lparr>qo_enabled := active, qo_stale := Some 0\<rparr>"

definition useHubs :: "query_opts" where
  "useHubs =
     (query_options [KS (Some ''hubs'')]
       (\<lambda>_. api_hubs (Some 0)))\<lparr>qo_stale := Some STALE\<rparr>"

definition useProjects :: "string option \<Rightarrow> int option \<Rightarrow> query_opts" where
  "useProjects hubId prio =
     (query_options [KS (Some ''projects''), KS hubId]
       (\<lambda>_. api_projects (nullish hubId []) (Some (nullish prio 0))))\<lparr>
         qo_enabled := (truthy hubId), qo_stale := Some STALE\<rparr>"

definition useProjectContents :: "string option \<Rightarrow> int option \<Rightarrow> query_opts" where
  "useProjectContents projectId prio =
     (query_options [KS (Some ''projectContents''), KS projectId]
       (\<lambda>_. api_projectContents (nullish projectId []) (Some (nullish prio 0))))\<lparr>
         qo_enabled := (truthy projectId), qo_stale := Some STALE\<rparr>"

definition useFolderContents :: "string option \<Rightarrow> string option \<Rightarrow> int option \<Rightarrow> query_opts" where
  "useFolderContents hubId folderId prio =
     (query_options [KS (Some ''folderContents''), KS hubId, KS folderId]
       (\<lambda>_. api_folderContents (nullish hubId []) (nullish folderId []) (Some
          (nullish prio 0))))\<lparr>qo_enabled := (truthy hubId \<and> truthy folderId), qo_stale := Some STALE\<rparr>"

definition useBrowseContents :: "string option \<Rightarrow> string option \<Rightarrow> string \<Rightarrow> int option \<Rightarrow> query_opts" where
  "useBrowseContents hubId dmProjectId folderId prio =
     (query_options [KS (Some ''browseContents''), KS dmProjectId, KS (Some folderId)]
       (\<lambda>_. api_browseContents (nullish hubId []) (nullish dmProjectId [])
          (if folderId = [] then None else Some folderId) (Some (nullish prio 0))))\<lparr>
         qo_enabled := (truthy hubId \<and> truthy dmProjectId), qo_stale := Some STALE\<rparr>"

definition useItemDetails :: "string option \<Rightarrow> string option \<Rightarrow> int option \<Rightarrow> query_opts" where
  "useItemDetails hubId itemId prio =
     (query_options [KS (Some ''details''), KS hubId, KS itemId]
       (\<lambda>_. api_itemDetails (nullish hubId []) (nullish itemId []) (Some
          (nullish prio 0))))\<lparr>qo_enabled := (truthy hubId \<and> truthy itemId), qo_stale := Some STALE\<rparr>"

definition useItemSummary :: "string option \<Rightarrow> string option \<Rightarrow> int option \<Rightarrow> query_opts" where
  "useItemSummary hubId itemId prio =
     (query_options [KS (Some ''summary''), KS hubId, KS itemId]
       (\<lambda>_. api_itemSummary (nullish hubId []) (nullish itemId []) (Some
          (nullish prio 1))))\<lparr>qo_enabled := (truthy hubId \<and> truthy itemId), qo_stale := Some STALE\<rparr>"

definition useItemHistory :: "string option \<Rightarrow> string option \<Rightarrow> int option \<Rightarrow> query_opts" where
  "useItemHistory hubId itemId prio =
     (query_options [KS (Some ''itemHistory''), KS hubId, KS itemId]
       (\<lambda>_. api_itemHistory (nullish hubId []) (nullish itemId []) (Some
          (nullish prio 0))))\<lparr>qo_enabled := (truthy hubId \<and> truthy itemId), qo_stale := Some STALE\<rparr>"

definition useClassify :: "string option \<Rightarrow> int option \<Rightarrow> query_opts" where
  "useClassify cvId prio =
     (query_options [KS (Some ''classify''), KS cvId]
       (\<lambda>_. api_classify (nullish cvId []) (Some (nullish prio 1))))\<lparr>
         qo_enabled := (truthy cvId), qo_stale := None\<rparr>"

definition useThumbnail :: "string option \<Rightarrow> bool \<Rightarrow> int option \<Rightarrow> query_opts" where
  "useThumbnail cvId enabled prio =
     (query_options [KS (Some ''thumbnail''), KS cvId]
       (\<lambda>n. api_thumbnail (nullish cvId []) (Some
          (if n > 0 then 2 else nullish prio 1))))\<lparr>
         qo_enabled := (enabled \<and> truthy cvId), qo_stale := None,
         qo_interval := (poll_until [''SUCCESS'', ''FAILED''] THUMB_POLL_MAX)\<rparr>"

definition useProperties :: "string option \<Rightarrow> bool \<Rightarrow> int option \<Rightarrow> query_opts" where
  "useProperties cvId enabled prio =
     (query_options [KS (Some ''properties''), KS cvId]
       (\<lambda>n. api_properties (nullish cvId []) (Some
          (if n > 0 then 2 else nullish prio 0))))\<lparr>
         qo_enabled := (enabled \<and> truthy cvId), qo_stale := None,
         qo_interval := (poll_until [''COMPLETED'', ''FAILED''] 15)\<rparr>"

definition useUses :: "string option \<Rightarrow> string option \<Rightarrow> string option \<Rightarrow> bool \<Rightarrow> query_opts" where
  "useUses cvId hubId drawingItemId enabled =
     (query_options [KS (Some ''uses''), KS cvId, KS hubId, KS drawingItemId]
       (\<lambda>_. api_uses cvId hubId drawingItemId (Some 0)))\<lparr>qo_enabled := enabled, qo_stale := Some STALE\<rparr>"

definition useDescendants :: "string option \<Rightarrow> bool \<Rightarrow> int option \<Rightarrow> query_opts" where
  "useDescendants cvId enabled prio =
     (query_options [KS (Some ''descendants''), KS cvId]
       (\<lambda>_. api_descendants (nullish cvId []) (Some (nullish prio 2))))\<lparr>
         qo_enabled := (enabled \<and> truthy cvId), qo_stale := Some STALE\<rparr>"

definition usePermissionsPath :: "string option \<Rightarrow> string option \<Rightarrow> string option \<Rightarrow> (string \<times> string) list \<Rightarrow> bool \<Rightarrow> int option \<Rightarrow> string option \<Rightarrow> query_opts" where
  "usePermissionsPath hubId projectId projectName folders enabled prio layers =
     (query_options [KS (Some ''permPath''), KS hubId, KS projectId, KL (map fst folders), KS (Some (nullish layers ''all''))]
       (\<lambda>_. api_permissionsPath (nullish hubId [])
          (nullish projectId []) projectName folders layers (Some (nullish prio 0))))\<lparr>
         qo_enabled := (enabled \<and> truthy hubId \<and> truthy projectId), qo_stale := Some STALE\<rparr>"

definition useWhereUsed :: "string option \<Rightarrow> bool \<Rightarrow> query_opts" where
  "useWhereUsed cvId enabled =
     (query_options [KS (Some ''whereUsed''), KS cvId]
       (\<lambda>_. api_whereUsed (nullish cvId []) (Some 0)))\<lparr>
         qo_enabled := (enabled \<and> truthy cvId), qo_stale := Some STALE\<rparr>"

definition useCustomProperties :: "string option \<Rightarrow> bool \<Rightarrow> query_opts" where
  "useCustomProperties cvId enabled =
     (query_options [KS (Some ''customProperties''), KS cvId]
       (\<lambda>_. api_customProperties (nullish cvId []) (Some 0)))\<lparr>
         qo_enabled := (enabled \<and> truthy cvId), qo_stale := Some STALE\<rparr>"

definition useBOM :: "string option \<Rightarrow> bool \<Rightarrow> query_opts" where
  "useBOM cvId enabled =
     (query_options [KS (Some ''bom''), KS cvId]
       (\<lambda>_. api_bom (nullish cvId []) (Some 0)))\<lparr>
         qo_enabled := (enabled \<and> truthy cvId), qo_stale := Some STALE\<rparr>"

definition useDrawings :: "string option \<Rightarrow> string option \<Rightarrow> bool \<Rightarrow> query_opts" where
  "useDrawings hubId designItemId enabled =
     (query_options [KS (Some ''drawings''), KS hubId, KS designItemId]
       (\<lambda>_. api_drawings (nullish hubId []) (nullish designItemId []) (Some 0)))\<lparr>
         qo_enabled := (enabled \<and> truthy hubId \<and> truthy designItemId),
         qo_stale := Some STALE\<rparr>"

definition useLocalRefs :: "string option \<Rightarrow> string list \<Rightarrow> bool \<Rightarrow> query_opts" where
  "useLocalRefs itemId sources enabled =
     (query_options [KS (Some ''localRefs''), KS itemId, KS (Some (join_with '','' (sort sources)))]
       (\<lambda>_. api_localRefs (nullish itemId []) sources (Some 0)))\<lparr>
         qo_enabled := (enabled \<and> truthy itemId \<and> sources \<noteq> []),
         qo_stale := Some STALE\<rparr>"

definition useProjectGroups :: "string option \<Rightarrow> query_opts" where
  "useProjectGroups projectId =
     (query_options [KS (Some ''projectGroups''), KS projectId]
       (\<lambda>_. api_projectGroups (nullish projectId []) (Some 0)))\<lparr>
         qo_enabled := (truthy projectId), qo_stale := Some STALE\<rparr>"

definition useGroupMembers :: "string option \<Rightarrow> string option \<Rightarrow> bool \<Rightarrow> query_opts" where
  "useGroupMembers hubId groupId enabled =
     (query_options [KS (Some ''groupMembers''), KS hubId, KS groupId]
       (\<lambda>_. api_groupMembers (nullish hubId []) (nullish groupId []) (Some 0)))\<lparr>
         qo_enabled := (enabled \<and> truthy hubId \<and> truthy groupId), qo_stale := Some STALE,
         qo_retry := RetryNever\<rparr>"

definition useItemLocation :: "string option \<Rightarrow> string option \<Rightarrow> bool \<Rightarrow> int option \<Rightarrow> query_opts" where
  "useItemLocation hubId itemId enabled prio =
     (query_options [KS (Some ''location''), KS hubId, KS itemId]
       (\<lambda>_. api_itemLocation (nullish hubId []) (nullish itemId []) (Some
          (nullish prio 0))))\<lparr>
         qo_enabled := (enabled \<and> truthy hubId \<and> truthy itemId), qo_stale := Some STALE\<rparr>"

definition useDesignActivity :: "string option \<Rightarrow> string option \<Rightarrow> query_opts" where
  "useDesignActivity hubId itemId =
     (query_options [KS (Some ''designActivity''), KS hubId, KS itemId]
       (\<lambda>_. api_designActivity (nullish hubId []) (nullish itemId []) (Some ''day'')
          (Some 0)))\<lparr>qo_enabled := (truthy hubId \<and> truthy itemId), qo_stale := Some STALE\<rparr>"

definition useRollupActivity :: "string option \<Rightarrow> string option \<Rightarrow> string list \<Rightarrow> bool \<Rightarrow> int option \<Rightarrow> bool option \<Rightarrow> query_opts" where
  "useRollupActivity hubId itemId childItemIds enabled prio all =
     (query_options [KS (Some ''rollupActivity''), KS hubId, KS itemId, KS (Some (join_with '','' (sort childItemIds))), KS (Some (if all = Some True then ''all'' else ''capped''))]
       (\<lambda>_. api_rollupActivity (nullish hubId [])
          (nullish itemId []) childItemIds all (Some (nullish prio 2))))\<lparr>
         qo_enabled := (enabled \<and> truthy hubId \<and> truthy itemId), qo_stale := Some 0\<rparr>"

definition usePins :: "string option \<Rightarrow> query_opts" where
  "usePins hubId =
     (query_options [KS (Some ''pins''), KS hubId]
       (\<lambda>_. api_pins (nullish hubId [])))\<lparr>qo_enabled := (truthy hubId), qo_stale := Some STALE\<rparr>"

definition useHubOverview :: "string option \<Rightarrow> int option \<Rightarrow> query_opts" where
  "useHubOverview hubId prio =
     (query_options [KS (Some ''hubOverview''), KS hubId]
       (\<lambda>_. api_hubOverview (Some (nullish prio 2))))\<lparr>qo_enabled := (truthy hubId), qo_stale := Some STALE\<rparr>"

definition useChatChannels :: "string option \<Rightarrow> bool \<Rightarrow> bool \<Rightarrow> query_opts" where
  "useChatChannels projectId active live =
     (query_options [KS (Some ''chatChannels''), KS projectId]
       (\<lambda>_. api_chatChannels (nullish projectId [])))\<lparr>
         qo_enabled := (active \<and> truthy projectId), qo_stale := Some 0,
         qo_interval := (\<lambda>_. if active \<and> \<not> live then Some 10000 else None),
         qo_reconnect := True\<rparr>"

definition useChatMessages :: "string option \<Rightarrow> string option \<Rightarrow> bool \<Rightarrow> bool \<Rightarrow> query_opts" where
  "useChatMessages projectId channelId active live =
     (query_options [KS (Some ''chatMessages''), KS projectId, KS channelId]
       (\<lambda>_. api_chatMessages (nullish projectId [])
          (nullish channelId []) None None None))\<lparr>
         qo_enabled := (active \<and> truthy projectId \<and> truthy channelId), qo_stale := Some 0,
         qo_interval := (\<lambda>_. if active \<and> \<not> live then Some 2000 else None),
         qo_reconnect := True\<rparr>"

definition useChatThread :: "string option \<Rightarrow> string option \<Rightarrow> int option \<Rightarrow> bool \<Rightarrow> bool \<Rightarrow> query_opts" where
  "useChatThread projectId channelId rootSeq active live =
     (query_options [KS (Some ''chatThread''), KS projectId, KS channelId, KN rootSeq]
       (\<lambda>_. api_chatThread (nullish projectId []) (nullish channelId [])
          (nullish rootSeq 0)))\<lparr>
         qo_enabled := (active \<and> truthy projectId \<and> truthy channelId \<and> rootSeq \<noteq> None),
         qo_stale := Some 0,
         qo_interval := (\<lambda>_. if active \<and> \<not> live then Some 2000 else None),
         qo_reconnect := True\<rparr>"

definition useChatMembers :: "string option \<Rightarrow> bool \<Rightarrow> query_opts" where
  "useChatMembers projectId enabled =
     (query_options [KS (Some ''chatMembers''), KS projectId]
       (\<lambda>_. api_chatMembers (nullish projectId [])))\<lparr>
         qo_enabled := (enabled \<and> truthy projectId), qo_stale := Some 60000,
         qo_reconnect := True\<rparr>"

definition useChatUnreads :: "string option \<Rightarrow> bool \<Rightarrow> query_opts" where
  "useChatUnreads projectId live =
     (query_options [KS (Some ''chatUnreads''), KS projectId]
       (\<lambda>_. api_chatUnreads (nullish projectId [])))\<lparr>qo_enabled := (truthy projectId), qo_stale := Some 0,
         qo_interval := (\<lambda>_. if live then Some 60000 else Some 10000), qo_reconnect := True\<rparr>"

definition useTasks :: "string option \<Rightarrow> bool \<Rightarrow> query_opts" where
  "useTasks projectId active =
     (query_options [KS (Some ''tasks''), KS projectId]
       (\<lambda>_. api_tasks (nullish projectId [])))\<lparr>
         qo_enabled := (active \<and> truthy projectId), qo_stale := Some 10000,
         qo_interval := (\<lambda>_. if active then Some 15000 else None), qo_reconnect := True\<rparr>"

definition useTask :: "string option \<Rightarrow> string option \<Rightarrow> query_opts" where
  "useTask projectId taskId =
     (query_options [KS (Some ''task''), KS projectId, KS taskId]
       (\<lambda>_. api_taskGet (nullish projectId []) (nullish taskId [])))\<lparr>
         qo_enabled := (truthy projectId \<and> truthy taskId), qo_stale := Some 30000,
         qo_reconnect := True, qo_retry := RetryUnless404\<rparr>"

definition useMyTasks :: "bool \<Rightarrow> query_opts" where
  "useMyTasks active =
     (query_options [KS (Some ''tasksMine'')]
       (\<lambda>_. api_myTasks))\<lparr>qo_enabled := active, qo_stale := Some 10000,
         qo_interval := (\<lambda>_. if active then Some 30000 else None), qo_reconnect := True\<rparr>"

definition useJobs :: "string option \<Rightarrow> bool \<Rightarrow> query_opts" where
  "useJobs projectId active =
     (query_options [KS (Some ''prodJobs''), KS projectId]
       (\<lambda>_. api_prodJobs (nullish projectId [])))\<lparr>
         qo_enabled := (active \<and> truthy projectId), qo_stale := Some 10000,
         qo_interval := (\<lambda>_. if active then Some 15000 else None), qo_reconnect := True\<rparr>"

definition useMyProduction :: "bool \<Rightarrow> query_opts" where
  "useMyProduction active =
     (query_options [KS (Some ''prodMine'')]
       (\<lambda>_. api_myProduction))\<lparr>qo_enabled := active, qo_stale := Some 10000,
         qo_interval := (\<lambda>_. if active then Some 30000 else None), qo_reconnect := True\<rparr>"

definition useJob :: "string option \<Rightarrow> string option \<Rightarrow> bool \<Rightarrow> query_opts" where
  "useJob projectId jobId active =
     (query_options [KS (Some ''prodJob''), KS projectId, KS jobId]
       (\<lambda>_. api_prodJob (nullish projectId []) (nullish jobId [])))\<lparr>
         qo_enabled := (active \<and> truthy projectId \<and> truthy jobId), qo_stale := Some 10000,
         qo_interval := (\<lambda>_. if active then Some 15000 else None), qo_reconnect := True,
         qo_retry := RetryUnless404\<rparr>"

definition useJobCard :: "string option \<Rightarrow> string option \<Rightarrow> bool \<Rightarrow> query_opts" where
  "useJobCard projectId jobId enabled =
     (query_options [KS (Some ''prodJob''), KS projectId, KS jobId]
       (\<lambda>_. api_prodJob (nullish projectId []) (nullish jobId [])))\<lparr>
         qo_enabled := (enabled \<and> truthy projectId \<and> truthy jobId), qo_stale := Some 30000,
         qo_retry := RetryUnless404\<rparr>"

definition useWhiteboards :: "string option \<Rightarrow> bool \<Rightarrow> query_opts" where
  "useWhiteboards projectId active =
     (query_options [KS (Some ''whiteboards''), KS projectId]
       (\<lambda>_. api_whiteboards (nullish projectId [])))\<lparr>
         qo_enabled := (active \<and> truthy projectId), qo_stale := Some 10000,
         qo_interval := (\<lambda>_. if active then Some 15000 else None), qo_reconnect := True\<rparr>"

definition useWhiteboard :: "string option \<Rightarrow> bool \<Rightarrow> query_opts" where
  "useWhiteboard projectId enabled =
     (query_options [KS (Some ''whiteboards''), KS projectId]
       (\<lambda>_. api_whiteboards (nullish projectId [])))\<lparr>
         qo_enabled := (enabled \<and> truthy projectId), qo_stale := Some 30000,
         qo_reconnect := True\<rparr>"

definition useWikiPages :: "string option \<Rightarrow> string option \<Rightarrow> bool \<Rightarrow> query_opts" where
  "useWikiPages hubId dmProjectId enabled =
     (query_options [KS (Some ''wikiPages''), KS hubId, KS dmProjectId]
       (\<lambda>_. api_wikiPages (nullish hubId []) (nullish dmProjectId []) None))\<lparr>
         qo_enabled := (enabled \<and> truthy hubId \<and> truthy dmProjectId),
         qo_stale := Some 30000, qo_focus := True\<rparr>"

definition useWikiPage :: "string option \<Rightarrow> string option \<Rightarrow> bool \<Rightarrow> query_opts" where
  "useWikiPage dmProjectId itemId enabled =
     (query_options [KS (Some ''wikiPage''), KS dmProjectId, KS itemId]
       (\<lambda>_. api_wikiPage (nullish dmProjectId []) (nullish itemId []) None None))\<lparr>
         qo_enabled := (enabled \<and> truthy dmProjectId \<and> truthy itemId),
         qo_stale := Some STALE\<rparr>"

definition useWikiVersions :: "string option \<Rightarrow> string option \<Rightarrow> bool \<Rightarrow> query_opts" where
  "useWikiVersions dmProjectId itemId enabled =
     (query_options [KS (Some ''wikiVersions''), KS dmProjectId, KS itemId]
       (\<lambda>_. api_wikiVersions (nullish dmProjectId []) (nullish itemId []) None))\<lparr>
         qo_enabled := (enabled \<and> truthy dmProjectId \<and> truthy itemId),
         qo_stale := Some 30000\<rparr>"

definition useWikiPageVersion :: "string option \<Rightarrow> string option \<Rightarrow> string option \<Rightarrow> bool \<Rightarrow> query_opts" where
  "useWikiPageVersion dmProjectId itemId versionId enabled =
     (query_options [KS (Some ''wikiPageVersion''), KS dmProjectId, KS itemId, KS versionId]
       (\<lambda>_. api_wikiPage (nullish dmProjectId []) (nullish itemId []) (Some
          (nullish versionId [])) None))\<lparr>
         qo_enabled := (enabled \<and> truthy dmProjectId \<and> truthy itemId \<and> truthy versionId),
         qo_stale := None\<rparr>"

definition useNotifications :: "bool \<Rightarrow> query_opts" where
  "useNotifications enabled =
     (query_options [KS (Some ''notifs'')]
       (\<lambda>_. api_notifications))\<lparr>qo_enabled := enabled, qo_stale := Some 15000,
         qo_interval := (\<lambda>_. if enabled then Some 45000 else None), qo_reconnect := True,
         qo_focus := enabled\<rparr>"

definition uploads_query :: "query_opts" where
  "uploads_query =
     (query_options [KS (Some ''uploads'')]
       (\<lambda>_. api_uploads))\<lparr>qo_stale := Some 0\<rparr>"

definition archives_query :: "query_opts" where
  "archives_query =
     (query_options [KS (Some ''archives'')]
       (\<lambda>_. api_archives))\<lparr>qo_stale := Some 0\<rparr>"

definition quota_query :: "bool \<Rightarrow> query_opts" where
  "quota_query hot =
     (query_options [KS (Some ''quota'')]
       (\<lambda>_. api_quota))\<lparr>qo_enabled := hot, qo_stale := Some 0,
         qo_interval := (\<lambda>_. if hot then Some 2000 else None), qo_retry := RetryNever\<rparr>"

definition resolve_query :: "string \<Rightarrow> string \<Rightarrow> query_opts" where
  "resolve_query dmHubId dmProjectId =
     (query_options [KS (Some ''resolveProject''), KS (Some dmHubId), KS (Some dmProjectId)]
       (\<lambda>_. api_resolveProject dmHubId dmProjectId))\<lparr>qo_stale := Some 0, qo_retry := RetryNever\<rparr>"

subsection \<open>All queries\<close>

datatype session_query =
    QMeta
  | QAuthMe
  | QAdminStatus bool
  | QAdminLogTail bool
  | QAdminBackups bool
  | QAdminBackupConfig bool
  | QAdminFsDirs "string option" bool
  | QAdminDisk bool
  | QHubs
  | QUploadsQuery
  | QArchivesQuery
  | QQuotaQuery bool
  | QResolveQuery string string

datatype browse_query =
    QProjects "string option" "int option"
  | QProjectContents "string option" "int option"
  | QFolderContents "string option" "string option" "int option"
  | QBrowseContents "string option" "string option" string "int option"
  | QItemDetails "string option" "string option" "int option"
  | QItemSummary "string option" "string option" "int option"
  | QItemHistory "string option" "string option" "int option"
  | QItemLocation "string option" "string option" bool "int option"
  | QProjectGroups "string option"
  | QGroupMembers "string option" "string option" bool
  | QPins "string option"
  | QHubOverview "string option" "int option"

datatype version_query =
    QClassify "string option" "int option"
  | QThumbnail "string option" bool "int option"
  | QProperties "string option" bool "int option"
  | QUses "string option" "string option" "string option" bool
  | QDescendants "string option" bool "int option"
  | QWhereUsed "string option" bool
  | QCustomProperties "string option" bool
  | QBOM "string option" bool
  | QDrawings "string option" "string option" bool

datatype report_query =
    QPermissionsPath "string option" "string option" "string option" "(string \<times> string) list" bool "int option" "string option"
  | QLocalRefs "string option" "string list" bool
  | QDesignActivity "string option" "string option"
  | QRollupActivity "string option" "string option" "string list" bool "int option" "bool option"

datatype chat_query =
    QChatChannels "string option" bool bool
  | QChatMessages "string option" "string option" bool bool
  | QChatThread "string option" "string option" "int option" bool bool
  | QChatMembers "string option" bool
  | QChatUnreads "string option" bool

datatype work_query =
    QTasks "string option" bool
  | QTask "string option" "string option"
  | QMyTasks bool
  | QJobs "string option" bool
  | QMyProduction bool
  | QJob "string option" "string option" bool
  | QJobCard "string option" "string option" bool
  | QWhiteboards "string option" bool
  | QWhiteboard "string option" bool
  | QNotifications bool

datatype wiki_query =
    QWikiPages "string option" "string option" bool
  | QWikiPage "string option" "string option" bool
  | QWikiVersions "string option" "string option" bool
  | QWikiPageVersion "string option" "string option" "string option" bool

datatype query_call =
    SessionQ session_query
  | BrowseQ browse_query
  | VersionQ version_query
  | ReportQ report_query
  | ChatQ chat_query
  | WorkQ work_query
  | WikiQ wiki_query

fun session_query_of :: "session_query \<Rightarrow> query_opts" where
  "session_query_of QMeta = useMeta"
| "session_query_of QAuthMe = useAuthMe"
| "session_query_of (QAdminStatus active) = useAdminStatus active"
| "session_query_of (QAdminLogTail active) = useAdminLogTail active"
| "session_query_of (QAdminBackups active) = useAdminBackups active"
| "session_query_of (QAdminBackupConfig active) = useAdminBackupConfig active"
| "session_query_of (QAdminFsDirs path active) = useAdminFsDirs path active"
| "session_query_of (QAdminDisk active) = useAdminDisk active"
| "session_query_of QHubs = useHubs"
| "session_query_of QUploadsQuery = uploads_query"
| "session_query_of QArchivesQuery = archives_query"
| "session_query_of (QQuotaQuery hot) = quota_query hot"
| "session_query_of (QResolveQuery dmHubId dmProjectId) = resolve_query dmHubId dmProjectId"

fun browse_query_of :: "browse_query \<Rightarrow> query_opts" where
  "browse_query_of (QProjects hubId prio) = useProjects hubId prio"
| "browse_query_of (QProjectContents projectId prio) = useProjectContents projectId prio"
| "browse_query_of (QFolderContents hubId folderId prio) = useFolderContents hubId folderId prio"
| "browse_query_of (QBrowseContents hubId dmProjectId folderId prio) = useBrowseContents hubId dmProjectId folderId prio"
| "browse_query_of (QItemDetails hubId itemId prio) = useItemDetails hubId itemId prio"
| "browse_query_of (QItemSummary hubId itemId prio) = useItemSummary hubId itemId prio"
| "browse_query_of (QItemHistory hubId itemId prio) = useItemHistory hubId itemId prio"
| "browse_query_of (QItemLocation hubId itemId enabled prio) = useItemLocation hubId itemId enabled prio"
| "browse_query_of (QProjectGroups projectId) = useProjectGroups projectId"
| "browse_query_of (QGroupMembers hubId groupId enabled) = useGroupMembers hubId groupId enabled"
| "browse_query_of (QPins hubId) = usePins hubId"
| "browse_query_of (QHubOverview hubId prio) = useHubOverview hubId prio"

fun version_query_of :: "version_query \<Rightarrow> query_opts" where
  "version_query_of (QClassify cvId prio) = useClassify cvId prio"
| "version_query_of (QThumbnail cvId enabled prio) = useThumbnail cvId enabled prio"
| "version_query_of (QProperties cvId enabled prio) = useProperties cvId enabled prio"
| "version_query_of (QUses cvId hubId drawingItemId enabled) = useUses cvId hubId drawingItemId enabled"
| "version_query_of (QDescendants cvId enabled prio) = useDescendants cvId enabled prio"
| "version_query_of (QWhereUsed cvId enabled) = useWhereUsed cvId enabled"
| "version_query_of (QCustomProperties cvId enabled) = useCustomProperties cvId enabled"
| "version_query_of (QBOM cvId enabled) = useBOM cvId enabled"
| "version_query_of (QDrawings hubId designItemId enabled) = useDrawings hubId designItemId enabled"

fun report_query_of :: "report_query \<Rightarrow> query_opts" where
  "report_query_of (QPermissionsPath hubId projectId projectName folders enabled prio layers) = usePermissionsPath hubId projectId projectName folders enabled prio layers"
| "report_query_of (QLocalRefs itemId sources enabled) = useLocalRefs itemId sources enabled"
| "report_query_of (QDesignActivity hubId itemId) = useDesignActivity hubId itemId"
| "report_query_of (QRollupActivity hubId itemId childItemIds enabled prio all) = useRollupActivity hubId itemId childItemIds enabled prio all"

fun chat_query_of :: "chat_query \<Rightarrow> query_opts" where
  "chat_query_of (QChatChannels projectId active live) = useChatChannels projectId active live"
| "chat_query_of (QChatMessages projectId channelId active live) = useChatMessages projectId channelId active live"
| "chat_query_of (QChatThread projectId channelId rootSeq active live) = useChatThread projectId channelId rootSeq active live"
| "chat_query_of (QChatMembers projectId enabled) = useChatMembers projectId enabled"
| "chat_query_of (QChatUnreads projectId live) = useChatUnreads projectId live"

fun work_query_of :: "work_query \<Rightarrow> query_opts" where
  "work_query_of (QTasks projectId active) = useTasks projectId active"
| "work_query_of (QTask projectId taskId) = useTask projectId taskId"
| "work_query_of (QMyTasks active) = useMyTasks active"
| "work_query_of (QJobs projectId active) = useJobs projectId active"
| "work_query_of (QMyProduction active) = useMyProduction active"
| "work_query_of (QJob projectId jobId active) = useJob projectId jobId active"
| "work_query_of (QJobCard projectId jobId enabled) = useJobCard projectId jobId enabled"
| "work_query_of (QWhiteboards projectId active) = useWhiteboards projectId active"
| "work_query_of (QWhiteboard projectId enabled) = useWhiteboard projectId enabled"
| "work_query_of (QNotifications enabled) = useNotifications enabled"

fun wiki_query_of :: "wiki_query \<Rightarrow> query_opts" where
  "wiki_query_of (QWikiPages hubId dmProjectId enabled) = useWikiPages hubId dmProjectId enabled"
| "wiki_query_of (QWikiPage dmProjectId itemId enabled) = useWikiPage dmProjectId itemId enabled"
| "wiki_query_of (QWikiVersions dmProjectId itemId enabled) = useWikiVersions dmProjectId itemId enabled"
| "wiki_query_of (QWikiPageVersion dmProjectId itemId versionId enabled) = useWikiPageVersion dmProjectId itemId versionId enabled"

fun query_of :: "query_call \<Rightarrow> query_opts" where
  "query_of (SessionQ x) = session_query_of x"
| "query_of (BrowseQ x) = browse_query_of x"
| "query_of (VersionQ x) = version_query_of x"
| "query_of (ReportQ x) = report_query_of x"
| "query_of (ChatQ x) = chat_query_of x"
| "query_of (WorkQ x) = work_query_of x"
| "query_of (WikiQ x) = wiki_query_of x"

lemmas query_hook_defs =
  useMeta_def useAuthMe_def useAdminStatus_def useAdminLogTail_def
  useAdminBackups_def useAdminBackupConfig_def useAdminFsDirs_def useAdminDisk_def
  useHubs_def useProjects_def useProjectContents_def useFolderContents_def
  useBrowseContents_def useItemDetails_def useItemSummary_def useItemHistory_def
  useClassify_def useThumbnail_def useProperties_def useUses_def
  useDescendants_def usePermissionsPath_def useWhereUsed_def useCustomProperties_def
  useBOM_def useDrawings_def useLocalRefs_def useProjectGroups_def
  useGroupMembers_def useItemLocation_def useDesignActivity_def useRollupActivity_def
  usePins_def useHubOverview_def useChatChannels_def useChatMessages_def
  useChatThread_def useChatMembers_def useChatUnreads_def useTasks_def
  useTask_def useMyTasks_def useJobs_def useMyProduction_def
  useJob_def useJobCard_def useWhiteboards_def useWhiteboard_def
  useWikiPages_def useWikiPage_def useWikiVersions_def useWikiPageVersion_def
  useNotifications_def uploads_query_def archives_query_def quota_query_def
  resolve_query_def

lemmas query_api_defs =
  api_adminBackupConfig_def api_adminBackups_def api_adminDisk_def api_adminFsDirs_def api_adminLogTail_def
  api_adminStatus_def api_archives_def api_authMe_def api_bom_def api_browseContents_def
  api_chatChannels_def api_chatMembers_def api_chatMessages_def api_chatThread_def api_chatUnreads_def
  api_classify_def api_customProperties_def api_descendants_def api_designActivity_def api_drawings_def
  api_folderContents_def api_groupMembers_def api_hubOverview_def api_hubs_def api_itemDetails_def
  api_itemHistory_def api_itemLocation_def api_itemSummary_def api_localRefs_def api_meta_def
  api_myProduction_def api_myTasks_def api_notifications_def api_permissionsPath_def api_pins_def
  api_prodJob_def api_prodJobs_def api_projectContents_def api_projectGroups_def api_projects_def
  api_properties_def api_quota_def api_resolveProject_def api_rollupActivity_def api_taskGet_def
  api_tasks_def api_thumbnail_def api_uploads_def api_uses_def api_whereUsed_def
  api_whiteboards_def api_wikiPage_def api_wikiPages_def api_wikiVersions_def

subsection \<open>A key names its question\<close>

text \<open>
  \<open>canonical\<close> forgets what is deliberately not in the key: the hub of a data-management project, the
  names in a permission path, the order of the sources and of the children, and the priority.
\<close>

definition canonical :: "query_call \<Rightarrow> query_call" where
  "canonical c =
     (case c of
        BrowseQ (QBrowseContents hubId dmProjectId folderId prio) \<Rightarrow>
          BrowseQ (QBrowseContents None dmProjectId folderId prio)
      | ReportQ (QPermissionsPath hubId projectId projectName folders enabled prio layers) \<Rightarrow>
          ReportQ (QPermissionsPath hubId projectId None (map (\<lambda>f. (fst f, [])) folders) enabled prio layers)
      | ReportQ (QLocalRefs itemId sources enabled) \<Rightarrow> ReportQ (QLocalRefs itemId (sort sources) enabled)
      | ReportQ (QRollupActivity hubId itemId children enabled prio all) \<Rightarrow>
          ReportQ (QRollupActivity hubId itemId (sort children) enabled prio (if all = Some True then all else None))
      | _ \<Rightarrow> c)"

definition asked :: "query_call \<Rightarrow> string \<times> string \<times> req_body" where
  "asked c = (let r = qo_request (query_of (canonical c)) 0 in (rq_method r, rq_url r, rq_body r))"

text \<open>Ids are joined with commas, and hold none; a layer selection is one of two.\<close>

definition plain_id :: "string \<Rightarrow> bool" where
  "plain_id s \<longleftrightarrow> s \<noteq> [] \<and> CHR '','' \<notin> set s"

definition call_ok :: "query_call \<Rightarrow> bool" where
  "call_ok c =
     (case c of
        ReportQ (QLocalRefs itemId sources enabled) \<Rightarrow> list_all plain_id sources
      | ReportQ (QRollupActivity hubId itemId children enabled prio all) \<Rightarrow> list_all plain_id children
      | ReportQ (QPermissionsPath hubId projectId projectName folders enabled prio layers) \<Rightarrow>
          layers \<in> {None, Some ''all'', Some ''leaf''}
      | _ \<Rightarrow> True)"

lemma join_with_plain_inj:
  assumes "list_all plain_id xs" "list_all plain_id ys" "join_with '','' xs = join_with '','' ys"
  shows "xs = ys"
proof -
  have ne: "join_with '','' zs = [] \<longleftrightarrow> zs = []" if "list_all plain_id zs" for zs
    using that by (cases zs rule: remdups_adj.cases) (auto simp: plain_id_def)
  have sep: "\<forall>w \<in> set zs. CHR '','' \<notin> set w" if "list_all plain_id zs" for zs
    using that by (auto simp: list_all_iff plain_id_def)
  show ?thesis
  proof (cases "xs = [] \<or> ys = []")
    case True
    then show ?thesis using assms ne[of xs] ne[of ys] by auto
  next
    case False
    then have "xs = split_on (CHR '','') (join_with '','' xs)" using sep[OF assms(1)] by (simp add: split_join)
    also have "\<dots> = split_on (CHR '','') (join_with '','' ys)" by (simp only: assms(3))
    also have "\<dots> = ys" using False sep[OF assms(2)] by (simp add: split_join)
    finally show ?thesis .
  qed
qed

lemma plain_sort [simp]: "list_all plain_id (sort xs) = list_all plain_id xs"
  by (simp add: list_all_iff)

lemma join_sort_inj:
  "list_all plain_id xs \<Longrightarrow> list_all plain_id ys \<Longrightarrow>
    (join_with '','' (sort xs) = join_with '','' (sort ys)) = (sort xs = sort ys)"
  using join_with_plain_inj[of "sort xs" "sort ys"] by auto

lemmas query_key_simps = query_hook_defs query_options_def

lemma request_prio_simps [simp]:
  "rq_method (request_prio u m b p) = m" "rq_url (request_prio u m b p) = u" "rq_body (request_prio u m b p) = b"
  "rq_priority (request_prio u m b p) = nullish p DEFAULT_PRIORITY"
  by (simp_all add: request_prio_def)

lemma qs_absent: "nullish v [] = nullish w [] \<Longrightarrow> qs [(k, v)] = qs [(k, w)]"
  by (cases v; cases w) (simp_all add: qs_def qs_params_def)

text \<open>The first part of a key says which group of hooks made it.\<close>

definition KEY_GROUPS :: "(key_part \<times> nat) list" where
  "KEY_GROUPS =
     map (\<lambda>t. (KS (Some t), 0)) [''meta'', ''authMe'', ''adminStatus'', ''adminLogTail'', ''adminBackups'',
       ''adminBackupConfig'', ''adminFsDirs'', ''adminDisk'', ''hubs'', ''uploads'',
       ''archives'', ''quota'', ''resolveProject''] @
     map (\<lambda>t. (KS (Some t), 1)) [''projects'', ''projectContents'', ''folderContents'', ''browseContents'', ''details'',
       ''summary'', ''itemHistory'', ''location'', ''projectGroups'', ''groupMembers'',
       ''pins'', ''hubOverview''] @
     map (\<lambda>t. (KS (Some t), 2)) [''classify'', ''thumbnail'', ''properties'', ''uses'', ''descendants'', ''whereUsed'',
       ''customProperties'', ''bom'', ''drawings''] @
     map (\<lambda>t. (KS (Some t), 3)) [''permPath'', ''localRefs'', ''designActivity'', ''rollupActivity''] @
     map (\<lambda>t. (KS (Some t), 4)) [''chatChannels'', ''chatMessages'', ''chatThread'', ''chatMembers'', ''chatUnreads''] @
     map (\<lambda>t. (KS (Some t), 5)) [''tasks'', ''task'', ''tasksMine'', ''prodJobs'', ''prodMine'', ''prodJob'',
       ''whiteboards'', ''notifs''] @
     map (\<lambda>t. (KS (Some t), 6)) [''wikiPages'', ''wikiPage'', ''wikiVersions'', ''wikiPageVersion'']"

lemma key_groups:
  "map_of KEY_GROUPS (hd (qo_key (session_query_of x0))) = Some 0"
  "map_of KEY_GROUPS (hd (qo_key (browse_query_of x1))) = Some 1"
  "map_of KEY_GROUPS (hd (qo_key (version_query_of x2))) = Some 2"
  "map_of KEY_GROUPS (hd (qo_key (report_query_of x3))) = Some 3"
  "map_of KEY_GROUPS (hd (qo_key (chat_query_of x4))) = Some 4"
  "map_of KEY_GROUPS (hd (qo_key (work_query_of x5))) = Some 5"
  "map_of KEY_GROUPS (hd (qo_key (wiki_query_of x6))) = Some 6"
  subgoal by (cases x0) (simp_all add: KEY_GROUPS_def query_key_simps)
  subgoal by (cases x1) (simp_all add: KEY_GROUPS_def query_key_simps)
  subgoal by (cases x2) (simp_all add: KEY_GROUPS_def query_key_simps)
  subgoal by (cases x3) (simp_all add: KEY_GROUPS_def query_key_simps)
  subgoal by (cases x4) (simp_all add: KEY_GROUPS_def query_key_simps)
  subgoal by (cases x5) (simp_all add: KEY_GROUPS_def query_key_simps)
  subgoal by (cases x6) (simp_all add: KEY_GROUPS_def query_key_simps)
  done



subsection \<open>What is written to the browser's storage\<close>

definition shouldDehydrateQuery :: "bool \<Rightarrow> query_key \<Rightarrow> bool" where
  "shouldDehydrateQuery success key =
     (success \<and> key \<noteq> [] \<and>
      (case hd key of
         KS (Some k) \<Rightarrow>
           k \<noteq> ''authMe'' \<and> k \<noteq> ''quota'' \<and> k \<noteq> ''resolveProject'' \<and> k \<noteq> ''uploads'' \<and> k \<noteq> ''archives'' \<and>
           \<not> startsWith k ''chat'' \<and> \<not> startsWith k ''task'' \<and> \<not> startsWith k ''prod'' \<and>
           \<not> startsWith k ''whiteboard'' \<and> \<not> startsWith k ''notif'' \<and> \<not> startsWith k ''localRefs'' \<and>
           \<not> startsWith k ''admin''
       | _ \<Rightarrow> True))"

text \<open>The endpoints whose answers are of the session, of one user, or live.\<close>

definition PRIVATE_APIS :: "string list" where
  "PRIVATE_APIS =
     [''/api/auth/'', ''/api/quota'', ''/api/resolve/'', ''/api/uploads'', ''/api/archives'', ''/api/chat/'',
      ''/api/tasks'', ''/api/production/'', ''/api/whiteboards'', ''/api/notifications'', ''/api/items/local-refs'',
      ''/api/admin/'']"

text \<open>
  No answer of the session, of one user's work or of live server state is written to the storage of
  a browser that others may use, and every other answer is: a successful query is stored exactly when
  its request does not go to one of these endpoints.
\<close>

theorem stored_unless_private:
  "shouldDehydrateQuery success (qo_key (query_of c)) \<longleftrightarrow>
    success \<and> \<not> list_ex (startsWith (rq_url (qo_request (query_of c) n))) PRIVATE_APIS"
proof (cases c)
  case (SessionQ x)
  then show ?thesis
    by (cases x) (simp_all add: query_key_simps shouldDehydrateQuery_def PRIVATE_APIS_def query_api_defs)
next
  case (BrowseQ x)
  then show ?thesis
    by (cases x) (simp_all add: query_key_simps shouldDehydrateQuery_def PRIVATE_APIS_def query_api_defs)
next
  case (VersionQ x)
  then show ?thesis
    by (cases x) (simp_all add: query_key_simps shouldDehydrateQuery_def PRIVATE_APIS_def query_api_defs)
next
  case (ReportQ x)
  then show ?thesis
    by (cases x) (simp_all add: query_key_simps shouldDehydrateQuery_def PRIVATE_APIS_def query_api_defs)
next
  case (ChatQ x)
  then show ?thesis
    by (cases x) (simp_all add: query_key_simps shouldDehydrateQuery_def PRIVATE_APIS_def query_api_defs)
next
  case (WorkQ x)
  then show ?thesis
    by (cases x) (simp_all add: query_key_simps shouldDehydrateQuery_def PRIVATE_APIS_def query_api_defs)
next
  case (WikiQ x)
  then show ?thesis
    by (cases x) (simp_all add: query_key_simps shouldDehydrateQuery_def PRIVATE_APIS_def query_api_defs)
qed

subsection \<open>Polls come to an end\<close>

text \<open>
  The requests of a mounted query, by the answers: \<^const>\<open>None\<close> is a failed fetch, otherwise the status the
  server reports. After each answer the rule decides whether there is another fetch.
\<close>

fun poll_run :: "query_opts \<Rightarrow> poll_state \<Rightarrow> string option list \<Rightarrow> api_request list" where
  "poll_run q s [] = []"
| "poll_run q s (a # as) =
     qo_request q (ps_updates s) #
     (let s' = (case a of None \<Rightarrow> s | Some st \<Rightarrow> \<lparr>ps_status = Some st, ps_updates = Suc (ps_updates s)\<rparr>)
      in case qo_interval q s' of None \<Rightarrow> [] | Some ms \<Rightarrow> poll_run q s' as)"

definition poll_start :: poll_state where "poll_start = \<lparr>ps_status = None, ps_updates = 0\<rparr>"

lemma poll_run_length:
  assumes "qo_interval q = poll_until settled most" "ps_updates s < most"
  shows "length (poll_run q s (map Some ss)) =
    min (length ss) (min (most - ps_updates s) (Suc (length (takeWhile (\<lambda>x. x \<notin> set settled) ss))))"
  using assms(2)
proof (induction ss arbitrary: s)
  case (Cons x ss)
  show ?case
  proof (cases "x \<in> set settled \<or> most \<le> Suc (ps_updates s)")
    case True
    then show ?thesis using Cons.prems by (auto simp: assms(1) poll_until_def)
  next
    case False
    then show ?thesis
      using Cons.IH[of "\<lparr>ps_status = Some x, ps_updates = Suc (ps_updates s)\<rparr>"]
      by (auto simp: assms(1) poll_until_def)
  qed
qed simp

lemma poll_run_later:
  "r \<in> set (poll_run q s (map Some ss)) \<Longrightarrow> \<exists>n \<ge> ps_updates s. r = qo_request q n"
proof (induction ss arbitrary: s)
  case (Cons x ss)
  then show ?case by (fastforce simp: Let_def split: option.splits dest: Suc_leD)
qed simp

lemma poll_run_tl:
  "r \<in> set (tl (poll_run q s (map Some ss))) \<Longrightarrow> \<exists>n > ps_updates s. r = qo_request q n"
proof (cases ss)
  case (Cons x xs)
  assume "r \<in> set (tl (poll_run q s (map Some ss)))"
  then have "r \<in> set (poll_run q \<lparr>ps_status = Some x, ps_updates = Suc (ps_updates s)\<rparr> (map Some xs))"
    by (simp add: Cons Let_def split: option.splits)
  from poll_run_later[OF this] show ?thesis by (auto simp: Suc_le_eq)
qed simp

text \<open>
  C29. The polls for a thumbnail and for the mass properties end with the first answer that settles them,
  and with the 15th answer if none does; the first fetch has the priority of its caller, every poll the
  lowest.
\<close>

theorem polls_settle:
  assumes q: "q = useThumbnail cv enabled prio \<and> settled = [''SUCCESS'', ''FAILED''] \<or>
    q = useProperties cv enabled prio \<and> settled = [''COMPLETED'', ''FAILED'']"
  shows "length (poll_run q poll_start (map Some ss)) =
      min (length ss) (min 15 (Suc (length (takeWhile (\<lambda>x. x \<notin> set settled) ss)))) \<and>
    (\<forall>r \<in> set (tl (poll_run q poll_start (map Some ss))). rq_priority r = 2)"
proof
  have "qo_interval q = poll_until settled 15"
    using q by (auto simp: useThumbnail_def useProperties_def query_options_def THUMB_POLL_MAX_def)
  from poll_run_length[OF this, of poll_start ss] 
  show "length (poll_run q poll_start (map Some ss)) =
      min (length ss) (min 15 (Suc (length (takeWhile (\<lambda>x. x \<notin> set settled) ss))))"
    by (simp add: poll_start_def)
  have "rq_priority (qo_request q n) = 2" if "n > 0" for n
    using q that by (auto simp: useThumbnail_def useProperties_def query_options_def api_thumbnail_def api_properties_def)
  then show "\<forall>r \<in> set (tl (poll_run q poll_start (map Some ss))). rq_priority r = 2"
    using poll_run_tl[of _ q poll_start ss] by (auto simp: poll_start_def)
qed

lemma polls_settle_witness:
  "length (poll_run (useThumbnail (Some ''cv'') True None) poll_start (map Some (replicate 40 ''PENDING''))) = 15 \<and>
    length (poll_run (useProperties (Some ''cv'') True None) poll_start (map Some [''RUNNING'', ''COMPLETED'', ''COMPLETED''])) = 2"
proof
  have "takeWhile (\<lambda>x. x \<notin> set [''SUCCESS'', ''FAILED'']) (replicate 40 ''PENDING'') = replicate 40 ''PENDING''"
    by (intro takeWhile_eq_all_conv[THEN iffD2]) simp
  then show "length (poll_run (useThumbnail (Some ''cv'') True None) poll_start (map Some (replicate 40 ''PENDING''))) = 15"
    using polls_settle[OF disjI1[OF conjI[OF refl refl]], of "Some ''cv''" True None "replicate 40 ''PENDING''"] by simp
  show "length (poll_run (useProperties (Some ''cv'') True None) poll_start (map Some [''RUNNING'', ''COMPLETED'', ''COMPLETED''])) = 2"
    using polls_settle[OF disjI2[OF conjI[OF refl refl]], of "Some ''cv''" True None "[''RUNNING'', ''COMPLETED'', ''COMPLETED'']"]
    by simp
qed

text \<open>A failed fetch is no answer: while every fetch fails, the polls go on, at the priority of a first one.\<close>

lemma failing_poll_never_ends:
  "poll_run (useThumbnail cv enabled prio) poll_start (replicate k None) =
    replicate k (api_thumbnail (nullish cv []) (Some (nullish prio 1)))"
  by (induction k) (simp_all add: useThumbnail_def query_options_def poll_until_def poll_start_def THUMB_POLL_MAX_def)

end
