(* ===== verification/TaskStore.thy ===== *)
theory TaskStore
  imports GanttDrag
begin

section \<open>The tasks of a project on the server\<close>

text \<open>
  \<open>src/tasks/store.go\<close> and \<open>src/tasks/types.go\<close>: the file of a project's tasks with its operations, on
  the same task records as the client's (\<open>taskDTO\<close> of \<open>src/server/dto_tasks.go\<close> adds the project; an
  empty text is an absent field). An operation gives an error and leaves the file as it was, or the new
  file; \<open>saved\<close> is whether writing it succeeded, \<open>now\<close> the text of the clock. The dates moved
  by \<open>ShiftTasks\<close> are in \<open>GanttDrag\<close>.
\<close>

subsection \<open>Fields\<close>

definition MaxTitleRunes :: nat where "MaxTitleRunes = 200"
definition MaxDescRunes :: nat where "MaxDescRunes = 20000"
definition MaxDocRefs :: nat where "MaxDocRefs = 20"
definition MaxDocRefLen :: nat where "MaxDocRefLen = 2048"
definition MaxTasksPerProject :: nat where "MaxTasksPerProject = 5000"
definition MaxDependsOn :: nat where "MaxDependsOn = 20"
definition MaxStageRunes :: nat where "MaxStageRunes = 100"

record task_draft =
  td_hubId :: string
  td_projectName :: string
  td_title :: string
  td_description :: "string option"
  td_status :: "string option"
  td_priority :: "string option"
  td_dueDate :: "string option"
  td_assignee :: "task_user option"
  td_docRefs :: "string list option"
  td_startDate :: "string option"
  td_endDate :: "string option"
  td_progress :: "int option"
  td_milestone :: "bool option"
  td_dependsOn :: "string list option"
  td_stage :: "string option"

record task_file =
  pf_hubId :: string
  pf_projectName :: string
  pf_nextTaskId :: int
  pf_tasks :: "task list"

text \<open>\<open>utf8.RuneCountInString\<close> of a valid text: the bytes that do not continue a character.\<close>

definition rune_count :: "string \<Rightarrow> nat" where
  "rune_count s = length (filter (\<lambda>c. (of_char c :: nat) < 128 \<or> 192 \<le> (of_char c :: nat)) s)"

definition validStatus :: "string \<Rightarrow> bool" where "validStatus s = (s \<in> set STATUSES)"
definition validPriority :: "string \<Rightarrow> bool" where "validPriority p = (p \<in> set PRIORITIES)"

record schedule_fields =
  sf_start :: string
  sf_end :: string
  sf_progress :: int
  sf_milestone :: bool
  sf_stage :: string

definition ref_ok :: "string \<Rightarrow> bool" where
  "ref_ok ref = ((startsWith ref ''fls:doc?'' \<or> startsWith ref ''fls:job?'' \<or> startsWith ref ''fls:batch?'' \<or>
     startsWith ref ''fls:whiteboard?'') \<and> length ref \<le> MaxDocRefLen)"

text \<open>Each line is one check of \<open>validateFields\<close>; it fails if one fails.\<close>

definition validateFields ::
    "string \<Rightarrow> string \<Rightarrow> string \<Rightarrow> string \<Rightarrow> string \<Rightarrow> string list \<Rightarrow> schedule_fields \<Rightarrow> bool" where
  "validateFields title desc status priority due docRefs sched =
     (title \<noteq> [] \<and> rune_count title \<le> MaxTitleRunes \<and> rune_count desc \<le> MaxDescRunes \<and>
      validStatus status \<and> validPriority priority \<and>
      (due = [] \<or> go_parse_day due \<noteq> None) \<and>
      length docRefs \<le> MaxDocRefs \<and> list_all ref_ok docRefs \<and>
      (sf_start sched = []) = (sf_end sched = []) \<and>
      (sf_start sched = [] \<or> go_parse_day (sf_start sched) \<noteq> None \<and> go_parse_day (sf_end sched) \<noteq> None \<and>
         \<not> sf_end sched < sf_start sched) \<and>
      0 \<le> sf_progress sched \<and> sf_progress sched \<le> 100 \<and>
      (sf_milestone sched \<longrightarrow> sf_start sched \<noteq> [] \<and> sf_end sched = sf_start sched) \<and>
      rune_count (sf_stage sched) \<le> MaxStageRunes)"

subsection \<open>Dependencies\<close>

text \<open>The walk of \<open>dependsOnCycle\<close>: \<open>stack\<close> has its top first; the list grows at that end.\<close>

function cycle_walk :: "task list \<Rightarrow> string \<Rightarrow> string list \<Rightarrow> string list \<Rightarrow> bool" where
  "cycle_walk ts self seen [] = False"
| "cycle_walk ts self seen (i # stack) =
     (if i = self then True
      else if i \<in> set seen then cycle_walk ts self seen stack
      else cycle_walk ts self (i # seen)
             ((case findTask ts i of Some t \<Rightarrow> List.rev (tk_dependsOn t) | None \<Rightarrow> []) @ stack))"
  by pat_completeness auto

lemma findTask_in: "findTask ts i = Some t \<Longrightarrow> t \<in> set ts \<and> tk_id t = i"
  by (auto simp: findTask_def dest: find_Some_in)

lemma findTask_None: "findTask ts i = None \<longleftrightarrow> i \<notin> tk_id ` set ts"
  by (auto simp: findTask_def find_None_iff)

text \<open>Either a task that was not seen is seen now, or the stack gets shorter.\<close>

lemma walk_shrinks:
  assumes new: "i \<notin> set seen"
  shows "card (tk_id ` set ts - insert i (set seen)) < card (tk_id ` set ts - set seen) \<or>
      card (tk_id ` set ts - insert i (set seen)) = card (tk_id ` set ts - set seen) \<and>
      (case findTask ts i of None \<Rightarrow> [] | Some t \<Rightarrow> List.rev (tk_dependsOn t)) = []"
proof (cases "findTask ts i")
  case None
  then have "tk_id ` set ts - insert i (set seen) = tk_id ` set ts - set seen" by (auto simp: findTask_None)
  with None show ?thesis by simp
next
  case (Some t)
  then have "i \<in> tk_id ` set ts - set seen" using new findTask_in by fastforce
  then have "card (tk_id ` set ts - set seen - {i}) < card (tk_id ` set ts - set seen)"
    by (intro card_Diff1_less) simp_all
  moreover have "tk_id ` set ts - insert i (set seen) = tk_id ` set ts - set seen - {i}" by blast
  ultimately show ?thesis by simp
qed

termination cycle_walk
proof (relation "measures [\<lambda>(ts, self, seen, stack). card (tk_id ` set ts - set seen),
    \<lambda>(ts, self, seen, stack). length stack]")
  fix ts self i and seen stack :: "string list"
  assume "i \<noteq> self" "i \<notin> set seen"
  then show "((ts, self, i # seen, (case findTask ts i of None \<Rightarrow> [] | Some t \<Rightarrow> List.rev (tk_dependsOn t)) @ stack),
      (ts, self, seen, i # stack)) \<in> measures [\<lambda>(ts, self, seen, stack). card (tk_id ` set ts - set seen),
        \<lambda>(ts, self, seen, stack). length stack]"
    using walk_shrinks[OF \<open>i \<notin> set seen\<close>, of ts] by (elim disjE conjE) simp_all
qed simp_all

definition dependsOnCycle :: "task list \<Rightarrow> string \<Rightarrow> string list \<Rightarrow> bool" where
  "dependsOnCycle ts selfID newDeps = cycle_walk ts selfID [selfID] (List.rev newDeps)"

definition validateDependsOn :: "task list \<Rightarrow> string \<Rightarrow> string list \<Rightarrow> bool" where
  "validateDependsOn ts selfID deps =
     (length deps \<le> MaxDependsOn \<and> list_all (\<lambda>d. d \<noteq> selfID \<and> findTask ts d \<noteq> None) deps \<and>
      \<not> dependsOnCycle ts selfID deps)"

definition normalizeDocRefs :: "string list \<Rightarrow> string list" where
  "normalizeDocRefs refs = filter (\<lambda>r. r \<noteq> []) (map go_trim refs)"

definition maxRankInStatus :: "task list \<Rightarrow> string \<Rightarrow> rat" where
  "maxRankInStatus ts status = foldl (\<lambda>m t. if tk_status t = status \<and> tk_rank t > m then tk_rank t else m) 0 ts"

subsection \<open>Operations\<close>

definition opt_text :: "string \<Rightarrow> string option" where
  "opt_text s = (if s = [] then None else Some s)"

definition Create :: "bool \<Rightarrow> string \<Rightarrow> task_user \<Rightarrow> task_file \<Rightarrow> task_draft \<Rightarrow> store_error + task_file \<times> task" where
  "Create saved now createdBy pf d =
     (let status = str_or (td_status d) ''todo'';
          priority = str_or (td_priority d) ''medium'';
          title = go_trim (td_title d); stage = go_trim (nullish (td_stage d) []);
          start = nullish (td_startDate d) []; milestone = nullish (td_milestone d) False;
          end' = (if milestone \<and> start \<noteq> [] then start else nullish (td_endDate d) []);
          desc = nullish (td_description d) []; due = nullish (td_dueDate d) [];
          docRefs = nullish (td_docRefs d) []; progress = nullish (td_progress d) 0;
          deps = normalizeDependsOn (nullish (td_dependsOn d) [])
      in if \<not> validateFields title desc status priority due docRefs
              \<lparr>sf_start = start, sf_end = end', sf_progress = progress, sf_milestone = milestone, sf_stage = stage\<rparr>
         then Inl ErrInvalid
         else if length (pf_tasks pf) \<ge> MaxTasksPerProject then Inl ErrInvalid
         else if \<not> validateDependsOn (pf_tasks pf) [] deps then Inl ErrInvalid
         else if \<not> saved then Inl ErrSave
         else let t = \<lparr>tk_id = ''t'' @ show_int (pf_nextTaskId pf), tk_num = pf_nextTaskId pf, tk_projectId = [],
                tk_hubId = [], tk_projectName = [], tk_title = title, tk_description = opt_text desc,
                tk_status = status, tk_priority = priority, tk_dueDate = opt_text due, tk_assignee = td_assignee d,
                tk_createdBy = createdBy, tk_createdAt = now, tk_updatedAt = now,
                tk_docRefs = normalizeDocRefs docRefs, tk_rank = maxRankInStatus (pf_tasks pf) status + 1024,
                tk_startDate = opt_text start, tk_endDate = opt_text end', tk_progress = Some progress,
                tk_milestone = Some milestone, tk_dependsOn = deps, tk_stage = opt_text stage\<rparr>
              in Inr (pf\<lparr>pf_hubId := td_hubId d, pf_projectName := td_projectName d,
                   pf_nextTaskId := pf_nextTaskId pf + 1, pf_tasks := pf_tasks pf @ [t]\<rparr>, t))"

definition patched :: "string \<Rightarrow> task list \<Rightarrow> task_patch \<Rightarrow> task \<Rightarrow> task" where
  "patched now ts p t =
     (let cleared = (tp_clearSchedule p = Some True);
          start = (if cleared then [] else nullish (tp_startDate p) (nullish (tk_startDate t) []));
          milestone = (\<not> cleared \<and> nullish (tp_milestone p) (tk_milestone t = Some True));
          end' = (if cleared then [] else if milestone \<and> start \<noteq> [] then start
                  else nullish (tp_endDate p) (nullish (tk_endDate t) []));
          status = nullish (tp_status p) (tk_status t)
      in t\<lparr>tk_title := (case tp_title p of None \<Rightarrow> tk_title t | Some s \<Rightarrow> go_trim s),
           tk_description := opt_text (nullish (tp_description p) (nullish (tk_description t) [])),
           tk_status := status, tk_priority := nullish (tp_priority p) (tk_priority t),
           tk_dueDate := opt_text (if tp_clearDueDate p = Some True then []
             else nullish (tp_dueDate p) (nullish (tk_dueDate t) [])),
           tk_assignee := (if tp_clearAssignee p = Some True then None
             else case tp_assignee p of None \<Rightarrow> tk_assignee t | Some u \<Rightarrow> Some u),
           tk_docRefs := (case tp_docRefs p of None \<Rightarrow> tk_docRefs t | Some rs \<Rightarrow> normalizeDocRefs rs),
           tk_rank := (case tp_rank p of Some r \<Rightarrow> r
             | None \<Rightarrow> if status \<noteq> tk_status t
                       then maxRankInStatus (map (\<lambda>u. if tk_id u = tk_id t then u\<lparr>tk_status := status\<rparr> else u) ts) status + 1024
                       else tk_rank t),
           tk_startDate := opt_text start, tk_endDate := opt_text end',
           tk_progress := Some (nullish (tp_progress p) (nullish (tk_progress t) 0)), tk_milestone := Some milestone,
           tk_dependsOn := (case tp_dependsOn p of None \<Rightarrow> tk_dependsOn t | Some ds \<Rightarrow> normalizeDependsOn ds),
           tk_stage := opt_text (case tp_stage p of None \<Rightarrow> nullish (tk_stage t) [] | Some s \<Rightarrow> go_trim s),
           tk_updatedAt := now\<rparr>)"

definition task_fields_ok :: "task \<Rightarrow> string list \<Rightarrow> bool" where
  "task_fields_ok t docRefs =
     validateFields (tk_title t) (nullish (tk_description t) []) (tk_status t) (tk_priority t)
       (nullish (tk_dueDate t) []) docRefs
       \<lparr>sf_start = nullish (tk_startDate t) [], sf_end = nullish (tk_endDate t) [],
        sf_progress = nullish (tk_progress t) 0, sf_milestone = (tk_milestone t = Some True),
        sf_stage = nullish (tk_stage t) []\<rparr>"

definition replace_task :: "task \<Rightarrow> task list \<Rightarrow> task list" where
  "replace_task u ts = map (\<lambda>t. if tk_id t = tk_id u then u else t) ts"

definition Update :: "bool \<Rightarrow> string \<Rightarrow> task_file \<Rightarrow> string \<Rightarrow> task_patch \<Rightarrow> store_error + task_file \<times> task" where
  "Update saved now pf taskID p =
     (case findTask (pf_tasks pf) taskID of
        None \<Rightarrow> Inl ErrNotFound
      | Some t \<Rightarrow>
          (let u = patched now (pf_tasks pf) p t
           in if \<not> task_fields_ok u (nullish (tp_docRefs p) (tk_docRefs t)) then Inl ErrInvalid
              else if tp_dependsOn p \<noteq> None \<and> \<not> validateDependsOn (pf_tasks pf) (tk_id t) (tk_dependsOn u)
              then Inl ErrInvalid
              else if \<not> saved then Inl ErrSave
              else Inr (pf\<lparr>pf_tasks := replace_task u (pf_tasks pf)\<rparr>, u)))"

definition prune :: "string \<Rightarrow> task \<Rightarrow> task" where
  "prune taskID t = t\<lparr>tk_dependsOn := filter (\<lambda>d. d \<noteq> taskID) (tk_dependsOn t)\<rparr>"

fun drop_first :: "('a \<Rightarrow> bool) \<Rightarrow> 'a list \<Rightarrow> 'a list" where
  "drop_first P [] = []"
| "drop_first P (x # xs) = (if P x then xs else x # drop_first P xs)"

definition Delete :: "bool \<Rightarrow> task_file \<Rightarrow> string \<Rightarrow> store_error + task_file" where
  "Delete saved pf taskID =
     (if findTask (pf_tasks pf) taskID = None then Inl ErrNotFound
      else if \<not> saved then Inl ErrSave
      else Inr (pf\<lparr>pf_tasks := map (prune taskID) (drop_first (\<lambda>t. tk_id t = taskID) (pf_tasks pf))\<rparr>))"

definition shift_in_file :: "bool \<Rightarrow> string \<Rightarrow> task_file \<Rightarrow> string list \<Rightarrow> int \<Rightarrow> store_error + task_file \<times> task list" where
  "shift_in_file saved now pf taskIDs days =
     (case shift_tasks saved now (pf_tasks pf) taskIDs days of
        Inl e \<Rightarrow> Inl e
      | Inr ts \<Rightarrow> Inr (pf\<lparr>pf_tasks := ts\<rparr>, List.map_filter (findTask ts) (normalizeDependsOn taskIDs)))"

definition taskDTO :: "string \<Rightarrow> task_file \<Rightarrow> task \<Rightarrow> task" where
  "taskDTO projectID pf t =
     t\<lparr>tk_projectId := projectID, tk_hubId := pf_hubId pf, tk_projectName := pf_projectName pf,
       tk_progress := (if tk_progress t = Some 0 then None else tk_progress t),
       tk_milestone := (if tk_milestone t = Some True then Some True else None)\<rparr>"

text \<open>
  A request on the tasks of one project, whatever the answer. \<open>new_file\<close> is the file of a project that
  has none yet.
\<close>

datatype store_op =
    OpCreate bool string task_user task_draft
  | OpUpdate bool string string task_patch
  | OpDelete bool string
  | OpShift bool string "string list" int

definition new_file :: task_file where
  "new_file = \<lparr>pf_hubId = [], pf_projectName = [], pf_nextTaskId = 1, pf_tasks = []\<rparr>"

definition kept :: "task_file \<Rightarrow> store_error + 'a \<Rightarrow> ('a \<Rightarrow> task_file) \<Rightarrow> task_file" where
  "kept pf r f = (case r of Inl e \<Rightarrow> pf | Inr x \<Rightarrow> f x)"

fun store_step :: "store_op \<Rightarrow> task_file \<Rightarrow> task_file" where
  "store_step (OpCreate saved now by d) pf = kept pf (Create saved now by pf d) fst"
| "store_step (OpUpdate saved now i p) pf = kept pf (Update saved now pf i p) fst"
| "store_step (OpDelete saved i) pf = kept pf (Delete saved pf i) id"
| "store_step (OpShift saved now ids n) pf = kept pf (shift_in_file saved now pf ids n) fst"

subsection \<open>The walk finds a cycle exactly when there is one\<close>

definition dep_rel :: "task list \<Rightarrow> (string \<times> string) set" where
  "dep_rel ts = {(tk_id t, d) |t d. t \<in> set ts \<and> d \<in> set (tk_dependsOn t)}"

lemma findTask_iff: "distinct (map tk_id ts) \<Longrightarrow> findTask ts i = Some t \<longleftrightarrow> t \<in> set ts \<and> tk_id t = i"
proof
  assume d: "distinct (map tk_id ts)" and t: "t \<in> set ts \<and> tk_id t = i"
  then obtain u where u: "findTask ts i = Some u" by (cases "findTask ts i") (auto simp: findTask_None)
  then have "u \<in> set ts" "tk_id u = i" using findTask_in by auto
  then have "u = t" using d t by (auto simp: distinct_map dest: inj_onD)
  then show "findTask ts i = Some t" using u by simp
qed (auto dest: findTask_in)

lemma dep_step:
  "distinct (map tk_id ts) \<Longrightarrow>
   (i, d) \<in> dep_rel ts \<longleftrightarrow> d \<in> set (case findTask ts i of Some t \<Rightarrow> List.rev (tk_dependsOn t) | None \<Rightarrow> [])"
proof (cases "findTask ts i")
  case None
  then have "i \<notin> tk_id ` set ts" by (simp add: findTask_None)
  then show ?thesis using None by (auto simp: dep_rel_def)
next
  case (Some t)
  assume d: "distinct (map tk_id ts)"
  have t: "t \<in> set ts" "tk_id t = i" using findTask_in[OF Some] by auto
  have u: "u = t" if "u \<in> set ts" "i = tk_id u" for u
    using findTask_iff[OF d, of i u] that Some by simp
  have "(i, d) \<in> dep_rel ts \<longleftrightarrow> (\<exists>v. v \<in> set ts \<and> i = tk_id v \<and> d \<in> set (tk_dependsOn v))"
    by (auto simp: dep_rel_def)
  also have "\<dots> \<longleftrightarrow> d \<in> set (tk_dependsOn t)" using t u by metis
  finally show ?thesis using Some by simp
qed

text \<open>The tasks seen, without the task itself, depend only on tasks seen or on the stack.\<close>

lemma walk_sound: "distinct (map tk_id ts) \<Longrightarrow> cycle_walk ts self seen stack \<Longrightarrow> \<exists>d\<in>set stack. (d, self) \<in> (dep_rel ts)\<^sup>*"
proof (induction ts self seen stack rule: cycle_walk.induct)
  case (2 ts self seen i stack)
  let ?ds = "case findTask ts i of Some t \<Rightarrow> List.rev (tk_dependsOn t) | None \<Rightarrow> []"
  show ?case
  proof (cases "i = self \<or> i \<in> set seen")
    case True
    then show ?thesis using 2 by auto
  next
    case False
    then obtain d where d: "d \<in> set ?ds \<union> set stack" "(d, self) \<in> (dep_rel ts)\<^sup>*" using 2 by auto
    show ?thesis
    proof (cases "d \<in> set stack")
      case False
      then have "(i, d) \<in> dep_rel ts" using d(1) dep_step[OF 2(3)] by blast
      then show ?thesis using d(2) by (auto intro: converse_rtrancl_into_rtrancl)
    qed (use d in auto)
  qed
qed simp

definition dep_closed :: "task list \<Rightarrow> string \<Rightarrow> string set \<Rightarrow> string set \<Rightarrow> bool" where
  "dep_closed ts self A B \<longleftrightarrow> (\<forall>i d. i \<in> A - {self} \<longrightarrow> (i, d) \<in> dep_rel ts \<longrightarrow> d \<in> (A - {self}) \<union> B)"

lemma walk_complete:
  "distinct (map tk_id ts) \<Longrightarrow> \<not> cycle_walk ts self seen stack \<Longrightarrow> dep_closed ts self (set seen) (set stack) \<Longrightarrow>
   \<exists>S. set stack \<union> (set seen - {self}) \<subseteq> S \<and> dep_closed ts self S {}"
proof (induction ts self seen stack rule: cycle_walk.induct)
  case (1 ts self seen)
  then show ?case by (intro exI[of _ "set seen"]) auto
next
  case (2 ts self seen i stack)
  let ?ds = "case findTask ts i of Some t \<Rightarrow> List.rev (tk_dependsOn t) | None \<Rightarrow> []"
  have ne: "i \<noteq> self" using 2(4) by auto
  show ?case
  proof (cases "i \<in> set seen")
    case True
    have "dep_closed ts self (set seen) (set stack)" using 2(5) True ne unfolding dep_closed_def by auto
    then have "\<exists>S. set stack \<union> (set seen - {self}) \<subseteq> S \<and> dep_closed ts self S {}"
      by (intro 2(1)[OF ne True 2(3)]) (use 2(4) True ne in auto)
    then show ?thesis using True ne by auto
  next
    case False
    have "dep_closed ts self (set (i # seen)) (set (?ds @ stack))"
      unfolding dep_closed_def
    proof (intro allI impI)
      fix j d assume j: "j \<in> set (i # seen) - {self}" "(j, d) \<in> dep_rel ts"
      show "d \<in> set (i # seen) - {self} \<union> set (?ds @ stack)"
      proof (cases "j = i")
        case True
        then show ?thesis using j(2) dep_step[OF 2(3)] by auto
      next
        case False
        then have "d \<in> (set seen - {self}) \<union> set (i # stack)" using 2(5) j unfolding dep_closed_def by auto
        then show ?thesis using ne by auto
      qed
    qed
    moreover have "\<not> cycle_walk ts self (i # seen) (?ds @ stack)" using 2(4) ne False by simp
    ultimately have "\<exists>S. set (?ds @ stack) \<union> (set (i # seen) - {self}) \<subseteq> S \<and> dep_closed ts self S {}"
      using 2(2)[OF ne False 2(3)] by blast
    then obtain S where S: "set (?ds @ stack) \<union> (set (i # seen) - {self}) \<subseteq> S" "dep_closed ts self S {}" by blast
    then have "set (i # stack) \<union> (set seen - {self}) \<subseteq> S" using ne by auto
    then show ?thesis using S(2) by blast
  qed
qed

text \<open>The walk answers no only without meeting the task itself on the stack.\<close>

lemma walk_self: "self \<in> set stack \<Longrightarrow> cycle_walk ts self seen stack"
proof (induction ts self seen stack rule: cycle_walk.induct)
  case (2 ts self seen i stack)
  then show ?case by (cases "i = self"; cases "i \<in> set seen") simp_all
qed simp

lemma dependsOnCycle_iff:
  assumes "distinct (map tk_id ts)"
  shows "dependsOnCycle ts self deps \<longleftrightarrow> (\<exists>d\<in>set deps. (d, self) \<in> (dep_rel ts)\<^sup>*)"
proof
  assume "dependsOnCycle ts self deps"
  then show "\<exists>d\<in>set deps. (d, self) \<in> (dep_rel ts)\<^sup>*"
    using walk_sound[OF assms] by (fastforce simp: dependsOnCycle_def)
next
  assume ex: "\<exists>d\<in>set deps. (d, self) \<in> (dep_rel ts)\<^sup>*"
  show "dependsOnCycle ts self deps"
  proof (rule ccontr)
    assume "\<not> dependsOnCycle ts self deps"
    then have "\<not> cycle_walk ts self [self] (List.rev deps)" by (simp add: dependsOnCycle_def)
    from walk_complete[OF assms this] obtain S where S: "set deps \<subseteq> S" "dep_closed ts self S {}"
      by (auto simp: dep_closed_def)
    obtain d where d: "d \<in> set deps" "(d, self) \<in> (dep_rel ts)\<^sup>*" using ex by auto
    have "self \<notin> set deps" using \<open>\<not> cycle_walk _ _ _ _\<close> walk_self[of self "List.rev deps" ts "[self]"] by simp blast
    then have d0: "d \<in> S - {self}" using d(1) S(1) by blast
    have "x \<in> S - {self}" if "(d, x) \<in> (dep_rel ts)\<^sup>*" for x
      using that
    proof induction
      case (step y z)
      then show ?case using S(2) unfolding dep_closed_def by blast
    qed (rule d0)
    from this[OF d(2)] show False by simp
  qed
qed

text \<open>New edges from one node close no cycle if no path leads from their ends to the node.\<close>

lemma acyclic_fan:
  assumes "acyclic r" and no: "\<And>d. d \<in> A \<Longrightarrow> (d, a) \<notin> r\<^sup>*"
  shows "acyclic (r \<union> {a} \<times> A)"
proof (rule acyclicI, rule allI)
  have path: "(x, y) \<in> r\<^sup>+ \<or> ((x, a) \<in> r\<^sup>* \<and> (\<exists>d\<in>A. (d, y) \<in> r\<^sup>*))" if "(x, y) \<in> (r \<union> {a} \<times> A)\<^sup>+" for x y
    using that
  proof induction
    case (base y)
    then show ?case by auto
  next
    case (step y z)
    then show ?case using no by (auto intro: trancl_into_trancl trancl_into_rtrancl rtrancl_into_rtrancl)
  qed
  fix x show "(x, x) \<notin> (r \<union> {a} \<times> A)\<^sup>+"
  proof
    assume "(x, x) \<in> (r \<union> {a} \<times> A)\<^sup>+"
    from path[OF this] show False using assms rtrancl_trans[of _ x r a] by (auto simp: acyclic_def)
  qed
qed

subsection \<open>The file stays a graph without cycles\<close>

definition file_ok :: "task_file \<Rightarrow> bool" where
  "file_ok pf \<longleftrightarrow>
     1 \<le> pf_nextTaskId pf \<and>
     (\<forall>t\<in>set (pf_tasks pf). tk_id t = ''t'' @ show_int (tk_num t) \<and> 1 \<le> tk_num t \<and> tk_num t < pf_nextTaskId pf) \<and>
     distinct (map tk_num (pf_tasks pf)) \<and>
     (\<forall>t\<in>set (pf_tasks pf). set (tk_dependsOn t) \<subseteq> tk_id ` set (pf_tasks pf)) \<and>
     acyclic (dep_rel (pf_tasks pf))"

lemma task_id_num:
  "file_ok pf \<Longrightarrow> t \<in> set (pf_tasks pf) \<Longrightarrow> 1 \<le> n \<Longrightarrow> tk_id t = ''t'' @ show_int n \<longleftrightarrow> tk_num t = n"
  using show_int_inj[of "tk_num t" n] unfolding file_ok_def by force

lemma file_ids:
  assumes ok: "file_ok pf"
  shows "distinct (map tk_id (pf_tasks pf))"
proof -
  have "inj_on tk_id (set (pf_tasks pf))"
  proof (rule inj_onI)
    fix t u assume t: "t \<in> set (pf_tasks pf)" "u \<in> set (pf_tasks pf)" and eq: "tk_id t = tk_id u"
    then have "tk_id u = ''t'' @ show_int (tk_num t)" "1 \<le> tk_num t" using ok by (simp_all add: file_ok_def)
    then have "tk_num u = tk_num t" using task_id_num[OF ok t(2), of "tk_num t"] by simp
    then show "t = u" using ok t by (auto simp: file_ok_def distinct_map dest: inj_onD)
  qed
  then show ?thesis using ok by (simp add: file_ok_def distinct_map)
qed

lemma file_okI:
  assumes "1 \<le> pf_nextTaskId pf" "distinct (map tk_num (pf_tasks pf))" "acyclic (dep_rel (pf_tasks pf))"
    and "\<And>t. t \<in> set (pf_tasks pf) \<Longrightarrow> tk_id t = ''t'' @ show_int (tk_num t) \<and> 1 \<le> tk_num t \<and> tk_num t < pf_nextTaskId pf"
    and "\<And>t. t \<in> set (pf_tasks pf) \<Longrightarrow> set (tk_dependsOn t) \<subseteq> tk_id ` set (pf_tasks pf)"
  shows "file_ok pf"
  using assms unfolding file_ok_def by blast

lemma file_okD:
  assumes "file_ok pf"
  shows "1 \<le> pf_nextTaskId pf" "distinct (map tk_num (pf_tasks pf))" "acyclic (dep_rel (pf_tasks pf))"
    "t \<in> set (pf_tasks pf) \<Longrightarrow> tk_id t = ''t'' @ show_int (tk_num t) \<and> 1 \<le> tk_num t \<and> tk_num t < pf_nextTaskId pf"
    "t \<in> set (pf_tasks pf) \<Longrightarrow> set (tk_dependsOn t) \<subseteq> tk_id ` set (pf_tasks pf)"
  using assms unfolding file_ok_def by blast+

text \<open>What an operation does to the ids and the edges decides.\<close>

lemma map_ok:
  assumes ok: "file_ok pf" and f: "\<And>t. t \<in> set (pf_tasks pf) \<Longrightarrow> tk_id (f t) = tk_id t \<and> tk_num (f t) = tk_num t"
    and deps: "\<And>t. t \<in> set (pf_tasks pf) \<Longrightarrow> set (tk_dependsOn (f t)) \<subseteq> tk_id ` set (pf_tasks pf)"
    and ac: "acyclic (dep_rel (map f (pf_tasks pf)))"
  shows "file_ok (pf\<lparr>pf_tasks := map f (pf_tasks pf)\<rparr>)"
proof (rule file_okI)
  have "map tk_num (map f (pf_tasks pf)) = map tk_num (pf_tasks pf)" using f by simp
  then show "distinct (map tk_num (pf_tasks (pf\<lparr>pf_tasks := map f (pf_tasks pf)\<rparr>)))"
    using file_okD(2)[OF ok] by (simp del: map_map)
  show "1 \<le> pf_nextTaskId (pf\<lparr>pf_tasks := map f (pf_tasks pf)\<rparr>)" using file_okD(1)[OF ok] by simp
  fix t assume "t \<in> set (pf_tasks (pf\<lparr>pf_tasks := map f (pf_tasks pf)\<rparr>))"
  then obtain u where u: "u \<in> set (pf_tasks pf)" "t = f u" by auto
  show "tk_id t = ''t'' @ show_int (tk_num t) \<and> 1 \<le> tk_num t \<and> tk_num t < pf_nextTaskId (pf\<lparr>pf_tasks := map f (pf_tasks pf)\<rparr>)"
    using file_okD(4)[OF ok u(1)] u f[OF u(1)] by simp
  have "tk_id ` set (map f (pf_tasks pf)) = tk_id ` set (pf_tasks pf)" by (simp add: image_image f cong: image_cong)
  then show "set (tk_dependsOn t) \<subseteq> tk_id ` set (pf_tasks (pf\<lparr>pf_tasks := map f (pf_tasks pf)\<rparr>))"
    using deps[OF u(1)] u(2) by simp
qed (use ac in simp)

lemma dep_rel_map: "dep_rel (map f ts) = (\<Union>t\<in>set ts. {tk_id (f t)} \<times> set (tk_dependsOn (f t)))"
  by (auto simp: dep_rel_def)

lemma same_edges:
  assumes ok: "file_ok pf" and f: "\<And>t. t \<in> set (pf_tasks pf) \<Longrightarrow> tk_id (f t) = tk_id t \<and> tk_num (f t) = tk_num t"
    "\<And>t. t \<in> set (pf_tasks pf) \<Longrightarrow> tk_dependsOn (f t) = tk_dependsOn t"
  shows "file_ok (pf\<lparr>pf_tasks := map f (pf_tasks pf)\<rparr>)"
proof (rule map_ok[OF ok f(1)])
  have "dep_rel (map f (pf_tasks pf)) = dep_rel (map (\<lambda>t. t) (pf_tasks pf))"
    unfolding dep_rel_map by (intro SUP_cong) (simp_all add: f)
  then show "acyclic (dep_rel (map f (pf_tasks pf)))" using file_okD(3)[OF ok] by simp
qed (simp_all add: f file_okD(5)[OF ok])

lemma Shift_ok:
  assumes "file_ok pf"
  shows "file_ok (kept pf (shift_in_file saved now pf ids n) fst)"
proof -
  have "file_ok (pf\<lparr>pf_tasks := map (shift_stored ks n now) (pf_tasks pf)\<rparr>)" for ks
    by (rule same_edges[OF assms]) (simp_all add: shift_stored_def)
  then show ?thesis using assms
    by (auto simp: kept_def shift_in_file_def shift_tasks_def Let_def split: option.splits)
qed

lemma Create_ok:
  assumes ok: "file_ok pf"
  shows "file_ok (kept pf (Create saved now by' pf d) fst)"
proof (cases "Create saved now by' pf d")
  case (Inr r)
  then obtain t where r: "fst r = pf\<lparr>pf_hubId := td_hubId d, pf_projectName := td_projectName d,
        pf_nextTaskId := pf_nextTaskId pf + 1, pf_tasks := pf_tasks pf @ [t]\<rparr>"
      and t: "tk_id t = ''t'' @ show_int (pf_nextTaskId pf)" "tk_num t = pf_nextTaskId pf"
      and deps: "list_all (\<lambda>d. findTask (pf_tasks pf) d \<noteq> None) (tk_dependsOn t)"
    by (auto simp: Create_def Let_def validateDependsOn_def list_all_iff split: if_splits)
  let ?ts = "pf_tasks pf" and ?i = "tk_id t"
  have old: "set (tk_dependsOn t) \<subseteq> tk_id ` set ?ts"
    using deps findTask_None by (fastforce simp: list_all_iff)
  have new: "?i \<notin> tk_id ` set ?ts"
  proof
    assume "?i \<in> tk_id ` set ?ts"
    then obtain u where u: "u \<in> set ?ts" "tk_id u = ?i" by auto
    then have "tk_num u = pf_nextTaskId pf" using task_id_num[OF ok u(1) file_okD(1)[OF ok]] t(1) by simp
    then show False using file_okD(4)[OF ok u(1)] by simp
  qed
  have split: "dep_rel (?ts @ [t]) = dep_rel ?ts \<union> {?i} \<times> set (tk_dependsOn t)" by (auto simp: dep_rel_def)
  have rng: "y \<in> tk_id ` set ?ts" if "(x, y) \<in> dep_rel ?ts" for x y
    using that file_okD(5)[OF ok] by (fastforce simp: dep_rel_def)
  have "(x, ?i) \<notin> (dep_rel ?ts)\<^sup>*" if "x \<in> set (tk_dependsOn t)" for x
  proof
    assume "(x, ?i) \<in> (dep_rel ?ts)\<^sup>*"
    then have "?i \<in> tk_id ` set ?ts" by cases (use that old rng in auto)
    then show False using new by simp
  qed
  then have ac: "acyclic (dep_rel (?ts @ [t]))" unfolding split by (rule acyclic_fan[OF file_okD(3)[OF ok]])
  have "file_ok (fst r)" unfolding r
  proof (rule file_okI, goal_cases)
    case 2
    then show ?case using file_okD(2,4)[OF ok] t(2) by fastforce
  next
    case (4 u)
    then show ?case using file_okD(1,4)[OF ok] t by fastforce
  next
    case (5 u)
    then show ?case using file_okD(5)[OF ok, of u] old by auto
  qed (use ac file_okD(1)[OF ok] in simp_all)
  then show ?thesis by (simp add: kept_def Inr)
qed (simp add: kept_def ok)

lemma drop_first_filter: "distinct (map f xs) \<Longrightarrow> drop_first (\<lambda>x. f x = k) xs = filter (\<lambda>x. f x \<noteq> k) xs"
proof (induction xs)
  case (Cons x xs)
  have "filter (\<lambda>y. f y \<noteq> f x) xs = xs" using Cons(2)
    by (metis (mono_tags, lifting) distinct.simps(2) filter_True image_eqI list.set_map list.simps(9))
  then show ?case using Cons by auto
qed simp

lemma Delete_ok:
  assumes ok: "file_ok pf"
  shows "file_ok (kept pf (Delete saved pf i) id)"
proof -
  let ?ts = "map (prune i) (filter (\<lambda>t. tk_id t \<noteq> i) (pf_tasks pf))"
  have "file_ok (pf\<lparr>pf_tasks := ?ts\<rparr>)"
  proof (rule file_okI)
    have "dep_rel ?ts \<subseteq> dep_rel (pf_tasks pf)" by (auto simp: dep_rel_def prune_def)
    then show "acyclic (dep_rel (pf_tasks (pf\<lparr>pf_tasks := ?ts\<rparr>)))"
      using file_okD(3)[OF ok] acyclic_subset by simp blast
    have "map tk_num ?ts = map tk_num (filter (\<lambda>t. tk_id t \<noteq> i) (pf_tasks pf))" by (simp add: prune_def)
    then show "distinct (map tk_num (pf_tasks (pf\<lparr>pf_tasks := ?ts\<rparr>)))"
      using distinct_map_filter[OF file_okD(2)[OF ok]] by (simp del: map_map)
    show "1 \<le> pf_nextTaskId (pf\<lparr>pf_tasks := ?ts\<rparr>)" using file_okD(1)[OF ok] by simp
    fix t assume "t \<in> set (pf_tasks (pf\<lparr>pf_tasks := ?ts\<rparr>))"
    then obtain u where u: "u \<in> set (pf_tasks pf)" "tk_id u \<noteq> i" "t = prune i u" by auto
    show "tk_id t = ''t'' @ show_int (tk_num t) \<and> 1 \<le> tk_num t \<and> tk_num t < pf_nextTaskId (pf\<lparr>pf_tasks := ?ts\<rparr>)"
      using file_okD(4)[OF ok u(1)] u by (simp add: prune_def)
    have "tk_id ` set ?ts = tk_id ` {t \<in> set (pf_tasks pf). tk_id t \<noteq> i}" by (simp add: image_image prune_def)
    also have "\<dots> = tk_id ` set (pf_tasks pf) - {i}" by auto
    finally have "tk_id ` set ?ts = tk_id ` set (pf_tasks pf) - {i}" .
    then show "set (tk_dependsOn t) \<subseteq> tk_id ` set (pf_tasks (pf\<lparr>pf_tasks := ?ts\<rparr>))"
      using file_okD(5)[OF ok u(1)] u(3) by (auto simp: prune_def)
  qed
  then show ?thesis using ok by (simp add: kept_def Delete_def drop_first_filter[OF file_ids[OF ok]])
qed

lemma Update_ok:
  assumes ok: "file_ok pf"
  shows "file_ok (kept pf (Update saved now pf i p) fst)"
proof (cases "Update saved now pf i p")
  case (Inr r)
  define ts where "ts = pf_tasks pf"
  obtain t where t: "findTask ts i = Some t" using Inr by (auto simp: Update_def ts_def split: option.splits)
  let ?u = "patched now ts p t"
  let ?f = "\<lambda>v. if tk_id v = tk_id ?u then ?u else v"
  have r: "fst r = pf\<lparr>pf_tasks := map ?f (pf_tasks pf)\<rparr>"
    and valid: "tp_dependsOn p \<noteq> None \<longrightarrow> validateDependsOn ts (tk_id t) (tk_dependsOn ?u)"
    using Inr t by (auto simp: Update_def ts_def replace_task_def Let_def split: if_splits)
  have u: "tk_id ?u = tk_id t" "tk_num ?u = tk_num t" by (simp_all add: patched_def Let_def)
  have tin: "t \<in> set ts" "tk_id t = i" using findTask_in[OF t] by auto
  have same: "v = t" if "v \<in> set ts" "tk_id v = tk_id t" for v
    using file_ids[OF ok] that tin by (auto simp: ts_def distinct_map dest: inj_onD)
  have ids: "tk_id (?f v) = tk_id v \<and> tk_num (?f v) = tk_num v" if "v \<in> set (pf_tasks pf)" for v
    using same[of v] that u by (auto simp: ts_def)
  have "file_ok (fst r)"
  proof (cases "tp_dependsOn p")
    case None
    then have d: "tk_dependsOn ?u = tk_dependsOn t" by (simp add: patched_def Let_def)
    show ?thesis unfolding r
      by (rule same_edges[OF ok ids]) (use same u d in \<open>auto simp: ts_def\<close>)
  next
    case (Some ds)
    let ?D = "tk_dependsOn ?u"
    have vd: "list_all (\<lambda>d. findTask ts d \<noteq> None) ?D" "\<not> dependsOnCycle ts (tk_id t) ?D"
      using valid Some by (auto simp: validateDependsOn_def list_all_iff)
    have ex: "set ?D \<subseteq> tk_id ` set ts" using vd(1) findTask_None by (fastforce simp: list_all_iff)
    have "dep_rel (map ?f ts) \<subseteq> dep_rel ts \<union> {tk_id t} \<times> set ?D"
      by (auto simp: dep_rel_def u)
    moreover have "acyclic (dep_rel ts \<union> {tk_id t} \<times> set ?D)"
    proof (rule acyclic_fan)
      show "acyclic (dep_rel ts)" using file_okD(3)[OF ok] by (simp add: ts_def)
      show "(d, tk_id t) \<notin> (dep_rel ts)\<^sup>*" if "d \<in> set ?D" for d
        using vd(2) that file_ids[OF ok] by (auto simp: dependsOnCycle_iff ts_def)
    qed
    ultimately have ac: "acyclic (dep_rel (map ?f ts))" by (rule acyclic_subset[rotated])
    show ?thesis unfolding r
    proof (rule map_ok[OF ok ids])
      show "set (tk_dependsOn (?f v)) \<subseteq> tk_id ` set (pf_tasks pf)" if "v \<in> set (pf_tasks pf)" for v
        using ex file_okD(5)[OF ok that] by (simp add: ts_def)
    qed (use ac in \<open>simp_all add: ts_def\<close>)
  qed
  then show ?thesis by (simp add: kept_def Inr)
qed (simp add: kept_def ok)

lemma step_ok: "file_ok pf \<Longrightarrow> file_ok (store_step o' pf)"
  by (cases o') (simp_all add: Create_ok Update_ok Delete_ok Shift_ok)

lemma new_file_ok: "file_ok new_file"
  by (simp add: file_ok_def new_file_def dep_rel_def acyclic_def)

lemma run_ok: "file_ok pf \<Longrightarrow> file_ok (fold store_step ops pf)"
  by (induction ops arbitrary: pf) (simp_all add: step_ok)

text \<open>
  C30. Whatever requests a project's file has answered, its tasks have different ids \<open>t<num>\<close> below the
  next number, every dependency names a task of the file, and no task depends on itself, directly or
  through others; and the check made before a change of dependencies refuses exactly what would close
  such a cycle.
\<close>

theorem task_store_inv:
  fixes ops :: "store_op list"
  defines "pf \<equiv> fold store_step ops new_file"
  shows "distinct (map tk_id (pf_tasks pf)) \<and>
    list_all (\<lambda>t. tk_id t = ''t'' @ show_int (tk_num t) \<and> tk_num t < pf_nextTaskId pf \<and>
      list_all (\<lambda>d. findTask (pf_tasks pf) d \<noteq> None) (tk_dependsOn t)) (pf_tasks pf) \<and>
    acyclic (dep_rel (pf_tasks pf)) \<and>
    (\<forall>i deps. dependsOnCycle (pf_tasks pf) i deps = (\<exists>d. d \<in> set deps \<and> (d, i) \<in> (dep_rel (pf_tasks pf))\<^sup>*))"
proof -
  have ok: "file_ok pf" unfolding pf_def by (rule run_ok[OF new_file_ok])
  have "list_all (\<lambda>d. findTask (pf_tasks pf) d \<noteq> None) (tk_dependsOn t)" if "t \<in> set (pf_tasks pf)" for t
    using file_okD(5)[OF ok that] findTask_None[of "pf_tasks pf"] by (auto simp: list_all_iff)
  then have "list_all (\<lambda>t. tk_id t = ''t'' @ show_int (tk_num t) \<and> tk_num t < pf_nextTaskId pf \<and>
      list_all (\<lambda>d. findTask (pf_tasks pf) d \<noteq> None) (tk_dependsOn t)) (pf_tasks pf)"
    using file_okD(4)[OF ok] by (simp add: list_all_iff)
  then show ?thesis using file_ids[OF ok] file_okD(3)[OF ok] dependsOnCycle_iff[OF file_ids[OF ok]] by blast
qed

end
