(* ===== verification/QueryWrites.thy ===== *)
theory QueryWrites
  imports QueryHooks TaskStore ChatCache Pins
begin

section \<open>The writes of the client\<close>

text \<open>
  The mutation hooks of \<open>api/queries.ts\<close>: for each write the request and what its success does to the
  query cache. The cache is the map the query library documents: \<open>setQueryData\<close> stores a fresh value
  (an updater is not called when there is none), \<open>invalidateQueries\<close> marks every entry whose key starts
  with the given one as to be fetched again, \<open>removeQueries\<close> drops them. The bodies of requests that
  are a DTO of the caller are \<^typ>\<open>json\<close> values; drafts and patches of tasks are turned into them by
  parameters. \<open>void\<close> and \<open>await\<close> differ in when the caller goes on, not in the cache.
\<close>

subsection \<open>The query cache\<close>

record notification =
  nf_id :: string
  nf_kind :: string
  nf_hubId :: "string option"
  nf_projectId :: "string option"
  nf_projectName :: "string option"
  nf_actor :: "task_user option"
  nf_subject :: "string option"
  nf_ref :: "string option"
  nf_channelId :: "string option"
  nf_channelName :: "string option"
  nf_messageSeq :: "int option"
  nf_count :: "int option"
  nf_derived :: "bool option"
  nf_read :: bool
  nf_createdAt :: string
  nf_readAt :: "string option"

record notification_list =
  nl_notifications :: "notification list"
  nl_unread :: int

text \<open>What the writes answer and what they put into the cache; an answer no hook looks into is \<open>Other\<close>.\<close>

datatype cached =
    Me json
  | Pinned "pin list"
  | OneTask task
  | TaskPage "task list"
  | OneJob string json
  | PageText string string
  | Notifs notification_list
  | Unread int
  | Other

type_synonym query_cache = "query_key \<Rightarrow> (cached \<times> bool) option"

datatype cache_effect =
    SetData query_key cached
  | UpdateData query_key "cached \<Rightarrow> cached"
  | Invalidate query_key
  | RemoveQueries query_key

definition key_matches :: "query_key \<Rightarrow> query_key \<Rightarrow> bool" where
  "key_matches p k = (take (length p) k = p)"

fun apply_effect :: "cache_effect \<Rightarrow> query_cache \<Rightarrow> query_cache" where
  "apply_effect (SetData k d) c = c(k \<mapsto> (d, False))"
| "apply_effect (UpdateData k f) c = (case c k of None \<Rightarrow> c | Some (d, _) \<Rightarrow> c(k \<mapsto> (f d, False)))"
| "apply_effect (Invalidate p) c = (\<lambda>k. if key_matches p k then map_option (\<lambda>(d, _). (d, True)) (c k) else c k)"
| "apply_effect (RemoveQueries p) c = (\<lambda>k. if key_matches p k then None else c k)"

definition apply_effects :: "cache_effect list \<Rightarrow> query_cache \<Rightarrow> query_cache" where
  "apply_effects es c = fold apply_effect es c"

record mutation =
  mu_request :: api_request
  mu_success :: "cached \<Rightarrow> cache_effect list"

definition mutate :: "api_request \<Rightarrow> (cached \<Rightarrow> cache_effect list) \<Rightarrow> mutation" where
  "mutate req f = \<lparr>mu_request = req, mu_success = f\<rparr>"

definition stale_after :: "api_request \<Rightarrow> query_key list \<Rightarrow> mutation" where
  "stale_after req ks = mutate req (\<lambda>_. map Invalidate ks)"

subsection \<open>Session, administration and branding\<close>

definition useSetSessionHub :: "string \<Rightarrow> mutation" where
  "useSetSessionHub hub = mutate (api_sessionHub hub) (\<lambda>me. [SetData [KS (Some ''authMe'')] me])"

definition useAdminBackupRun :: mutation where
  "useAdminBackupRun = stale_after api_adminBackupRun [[KS (Some ''adminBackups'')]]"

definition useAdminBackupVerify :: "string \<Rightarrow> mutation" where
  "useAdminBackupVerify path = stale_after (api_adminBackupVerify path) []"

definition useAdminBackupRestore :: "string \<Rightarrow> string \<Rightarrow> mutation" where
  "useAdminBackupRestore path confirm = stale_after (api_adminBackupRestore path confirm) []"

definition useAdminBackupConfigSet :: "json \<Rightarrow> mutation" where
  "useAdminBackupConfigSet cfg = stale_after (api_adminBackupConfigSet cfg)
     [[KS (Some ''adminBackups'')], [KS (Some ''adminBackupConfig'')]]"

definition useAdminProjectDataDelete :: "string \<Rightarrow> string list \<Rightarrow> mutation" where
  "useAdminProjectDataDelete projectId apps =
     stale_after (api_adminProjectDataDelete projectId apps) [[KS (Some ''adminDisk'')]]"

definition useAdminCleanup :: mutation where
  "useAdminCleanup = stale_after api_adminCleanup [[KS (Some ''adminDisk'')]]"

definition useSetPort :: "int \<Rightarrow> mutation" where
  "useSetPort port = stale_after (api_setPort port) []"

datatype logo_write = LogoUpload string | LogoRemove

definition useLogoMutations :: "logo_write \<Rightarrow> mutation" where
  "useLogoMutations w = stale_after (case w of LogoUpload file \<Rightarrow> api_uploadLogo file | LogoRemove \<Rightarrow> api_deleteLogo)
     [[KS (Some ''meta'')]]"

datatype pin_write = PinAdd json | PinRemove string

definition usePinMutations :: "string option \<Rightarrow> pin_write \<Rightarrow> mutation" where
  "usePinMutations hub w =
     mutate (case w of PinAdd pin \<Rightarrow> api_addPin (nullish hub []) pin | PinRemove i \<Rightarrow> api_removePin (nullish hub []) i)
       (\<lambda>pins. [SetData [KS (Some ''pins''), KS hub] pins, Invalidate [KS (Some ''pins''), KS hub]])"

subsection \<open>Chat\<close>

text \<open>The writes of a channel go into the chat caches, before the request and on either outcome.\<close>

record chat_mutation =
  xm_request :: api_request
  xm_before :: "chat_cache \<Rightarrow> chat_cache"
  xm_success :: "chat_message \<Rightarrow> chat_cache \<Rightarrow> chat_cache"
  xm_error :: "chat_cache \<Rightarrow> chat_cache"

datatype chat_write =
    ChatSend int string string string "int option"
  | ChatEdit int string
  | ChatRemove int
  | ChatReact int string bool

definition useChatMutations ::
    "string \<times> string \<times> string \<Rightarrow> string option \<Rightarrow> string option \<Rightarrow> chat_write \<Rightarrow> chat_mutation" where
  "useChatMutations me projectId channel w =
     (let p = nullish projectId []; ch = nullish channel [];
          plain = (\<lambda>req. \<lparr>xm_request = req, xm_before = id, xm_success = upsertMessage p ch, xm_error = id\<rparr>)
      in case w of
           ChatSend now createdAt clientMsgId body rootSeq \<Rightarrow>
             \<lparr>xm_request = api_chatSend p ch body clientMsgId rootSeq,
              xm_before = (case me of (i, name, email) \<Rightarrow> appendPendingMessage p ch
                (pending_message now createdAt i (str_or (Some name) (str_or (Some email) ''me'')) clientMsgId body rootSeq)),
              xm_success = upsertMessage p ch,
              xm_error = removePendingMessage p ch clientMsgId\<rparr>
         | ChatEdit seq body \<Rightarrow> plain (api_chatEditMessage p ch seq body)
         | ChatRemove seq \<Rightarrow> plain (api_chatDeleteMessage p ch seq)
         | ChatReact seq emoji on \<Rightarrow> plain (if on then api_chatReact p ch seq emoji else api_chatUnreact p ch seq emoji))"

definition useCreateChatChannel ::
    "string option \<Rightarrow> string \<Rightarrow> string option \<Rightarrow> bool option \<Rightarrow> string list option \<Rightarrow> mutation" where
  "useCreateChatChannel projectId name topic isPrivate memberIds =
     stale_after (api_chatCreateChannel (nullish projectId []) name topic isPrivate memberIds)
       [[KS (Some ''chatChannels''), KS projectId]]"

datatype channel_write =
    ChannelUpdate string "string option" "string option"
  | ChannelArchive string
  | ChannelAddMember string string
  | ChannelRemoveMember string string

definition useChatChannelAdmin :: "string option \<Rightarrow> channel_write \<Rightarrow> mutation" where
  "useChatChannelAdmin projectId w =
     (let p = nullish projectId [] in
      stale_after (case w of
          ChannelUpdate ch name topic \<Rightarrow> api_chatUpdateChannel p ch name topic
        | ChannelArchive ch \<Rightarrow> api_chatArchiveChannel p ch
        | ChannelAddMember ch u \<Rightarrow> api_chatAddChannelMember p ch u
        | ChannelRemoveMember ch u \<Rightarrow> api_chatRemoveChannelMember p ch u)
       [[KS (Some ''chatChannels''), KS projectId], [KS (Some ''chatUnreads''), KS projectId]])"

text \<open>The answer to a mark-read is the fresh summary of the channel.\<close>

definition useMarkChatRead ::
    "string option \<Rightarrow> string \<Rightarrow> int \<Rightarrow> api_request \<times> (chat_unread \<Rightarrow> chat_cache \<Rightarrow> chat_cache)" where
  "useMarkChatRead projectId channel lastReadSeq =
     (api_chatMarkRead (nullish projectId []) channel lastReadSeq, applyUnread (nullish projectId []))"

subsection \<open>Tasks\<close>

datatype task_write =
    TaskCreate task_draft
  | TaskUpdate string task_patch
  | TaskRemove string
  | TaskShift "string list" int

abbreviation task_key :: "string option \<Rightarrow> string \<Rightarrow> query_key" where
  "task_key p i \<equiv> [KS (Some ''task''), KS p, KS (Some i)]"

definition settle_tasks :: "string option \<Rightarrow> cache_effect list" where
  "settle_tasks projectId = [Invalidate [KS (Some ''tasks''), KS projectId], Invalidate [KS (Some ''tasksMine'')]]"

definition set_tasks :: "string option \<Rightarrow> cached \<Rightarrow> cache_effect list" where
  "set_tasks projectId res =
     (case res of
        OneTask t \<Rightarrow> [SetData (task_key projectId (tk_id t)) (OneTask t)]
      | TaskPage ts \<Rightarrow> map (\<lambda>t. SetData (task_key projectId (tk_id t)) (OneTask t)) ts
      | _ \<Rightarrow> [])"

fun useTaskMutations ::
    "(task_draft \<Rightarrow> json) \<Rightarrow> (task_patch \<Rightarrow> json) \<Rightarrow> string option \<Rightarrow> task_write \<Rightarrow> mutation" where
  "useTaskMutations draftJson patchJson projectId (TaskCreate body) =
     mutate (api_taskCreate (nullish projectId []) (draftJson body))
       (\<lambda>t. set_tasks projectId t @ settle_tasks projectId)"
| "useTaskMutations draftJson patchJson projectId (TaskUpdate taskId patch) =
     mutate (api_taskUpdate (nullish projectId []) taskId (patchJson patch))
       (\<lambda>t. set_tasks projectId t @ settle_tasks projectId)"
| "useTaskMutations draftJson patchJson projectId (TaskRemove taskId) =
     mutate (api_taskDelete (nullish projectId []) taskId)
       (\<lambda>_. RemoveQueries (task_key projectId taskId) # settle_tasks projectId)"
| "useTaskMutations draftJson patchJson projectId (TaskShift taskIds days) =
     mutate (api_taskShift (nullish projectId []) taskIds days)
       (\<lambda>ts. set_tasks projectId ts @ settle_tasks projectId)"

subsection \<open>Production\<close>

definition set_job :: "string option \<Rightarrow> cached \<Rightarrow> cache_effect list" where
  "set_job projectId res =
     (case res of OneJob i body \<Rightarrow> [SetData [KS (Some ''prodJob''), KS projectId, KS (Some i)] (OneJob i body)] | _ \<Rightarrow> [])"

definition settle_jobs :: "string option \<Rightarrow> cached \<Rightarrow> cache_effect list" where
  "settle_jobs projectId res = set_job projectId res @ [Invalidate [KS (Some ''prodJobs''), KS projectId]]"

datatype job_write =
    JobCreate json
  | JobUpdate string json
  | JobDuplicate string string string
  | JobRemove string

fun useProductionMutations :: "string option \<Rightarrow> job_write \<Rightarrow> mutation" where
  "useProductionMutations projectId (JobCreate body) =
     mutate (api_prodJobCreate (nullish projectId []) body) (settle_jobs projectId)"
| "useProductionMutations projectId (JobUpdate jobId patch) =
     mutate (api_prodJobUpdate (nullish projectId []) jobId patch) (settle_jobs projectId)"
| "useProductionMutations projectId (JobDuplicate jobId hub projectName) =
     mutate (api_prodJobDuplicate (nullish projectId []) jobId hub projectName) (settle_jobs projectId)"
| "useProductionMutations projectId (JobRemove jobId) =
     mutate (api_prodJobDelete (nullish projectId []) jobId)
       (\<lambda>_. [RemoveQueries [KS (Some ''prodJob''), KS projectId, KS (Some jobId)],
            Invalidate [KS (Some ''prodJobs''), KS projectId]])"

datatype graph_write =
    StepAdd json
  | StepUpdate string json
  | StepRemove string
  | EdgeAdd string string "string option"
  | EdgeRemove string
  | ResultAdd string json
  | ResultUpdate string string json
  | ResultRemove string string
  | PlaceholderAdd string json
  | PlaceholderRemove string string
  | PlanDocAdd string json
  | PlanDocRemove string string

definition useJobGraphMutations :: "string option \<Rightarrow> string option \<Rightarrow> graph_write \<Rightarrow> mutation" where
  "useJobGraphMutations projectId jobId w =
     (let p = nullish projectId []; j = nullish jobId [] in
      mutate (case w of
          StepAdd body \<Rightarrow> api_prodStepCreate p j body
        | StepUpdate s patch \<Rightarrow> api_prodStepUpdate p j s patch
        | StepRemove s \<Rightarrow> api_prodStepDelete p j s
        | EdgeAdd from' to' r \<Rightarrow> api_prodEdgeCreate p j from' to' r
        | EdgeRemove e \<Rightarrow> api_prodEdgeDelete p j e
        | ResultAdd s body \<Rightarrow> api_prodResultCreate p j s body
        | ResultUpdate s r patch \<Rightarrow> api_prodResultUpdate p j s r patch
        | ResultRemove s r \<Rightarrow> api_prodResultDelete p j s r
        | PlaceholderAdd s body \<Rightarrow> api_prodPlaceholderCreate p j s body
        | PlaceholderRemove s ph \<Rightarrow> api_prodPlaceholderDelete p j s ph
        | PlanDocAdd s body \<Rightarrow> api_prodPlanDocCreate p j s body
        | PlanDocRemove s d \<Rightarrow> api_prodPlanDocDelete p j s d)
       (settle_jobs projectId))"

datatype batch_write =
    BatchCreate json
  | BatchUpdate string json
  | BatchRemove string
  | FulfillmentAdd string json
  | FulfillmentRemove string string
  | StepHidden string string bool
  | RefAdd string string
  | RefRemove string string

definition useBatchMutations :: "string option \<Rightarrow> string option \<Rightarrow> batch_write \<Rightarrow> mutation" where
  "useBatchMutations projectId jobId w =
     (let p = nullish projectId []; j = nullish jobId [] in
      stale_after (case w of
          BatchCreate body \<Rightarrow> api_prodBatchCreate p j body
        | BatchUpdate b patch \<Rightarrow> api_prodBatchUpdate p j b patch
        | BatchRemove b \<Rightarrow> api_prodBatchDelete p j b
        | FulfillmentAdd b body \<Rightarrow> api_prodFulfillmentCreate p j b body
        | FulfillmentRemove b f \<Rightarrow> api_prodFulfillmentDelete p j b f
        | StepHidden b s hidden \<Rightarrow> if hidden then api_prodBatchStepHide p j b s else api_prodBatchStepShow p j b s
        | RefAdd b token \<Rightarrow> api_prodBatchRefAdd p j b token
        | RefRemove b token \<Rightarrow> api_prodBatchRefDelete p j b token)
       [[KS (Some ''prodJob''), KS projectId, KS jobId]])"

subsection \<open>Whiteboards, wiki and notifications\<close>

datatype board_write = BoardCreate json | BoardRename string json | BoardRemove string

definition useWhiteboardMutations :: "string option \<Rightarrow> board_write \<Rightarrow> mutation" where
  "useWhiteboardMutations projectId w =
     stale_after (case w of
         BoardCreate body \<Rightarrow> api_whiteboardCreate (nullish projectId []) body
       | BoardRename b patch \<Rightarrow> api_whiteboardUpdate (nullish projectId []) b patch
       | BoardRemove b \<Rightarrow> api_whiteboardDelete (nullish projectId []) b)
      [[KS (Some ''whiteboards''), KS projectId]]"

definition useWikiRestore ::
    "string option \<Rightarrow> string option \<Rightarrow> string \<Rightarrow> string \<Rightarrow> string option \<Rightarrow> bool option \<Rightarrow> mutation" where
  "useWikiRestore hub dmProjectId itemId versionId baseVersion force =
     mutate (api_wikiRestore (nullish hub []) (nullish dmProjectId []) itemId versionId baseVersion force)
       (\<lambda>res. (case res of
            PageText _ markdown \<Rightarrow> [SetData [KS (Some ''wikiPage''), KS dmProjectId, KS (Some itemId)] (PageText itemId markdown)]
          | _ \<Rightarrow> []) @
          [Invalidate [KS (Some ''wikiPages''), KS hub, KS dmProjectId],
           Invalidate [KS (Some ''wikiVersions''), KS dmProjectId, KS (Some itemId)]])"

definition useWikiPublish ::
    "string option \<Rightarrow> string option \<Rightarrow> string option \<Rightarrow> string \<Rightarrow> string \<Rightarrow> string option \<Rightarrow> bool option \<Rightarrow> mutation" where
  "useWikiPublish hub dmProjectId itemId slug markdown baseVersion force =
     stale_after (api_wikiPublish (nullish hub []) (nullish dmProjectId []) itemId slug markdown baseVersion force)
       [[KS (Some ''wikiPages''), KS hub, KS dmProjectId]]"

definition useWikiRename :: "string option \<Rightarrow> string option \<Rightarrow> string \<Rightarrow> string \<Rightarrow> string \<Rightarrow> mutation" where
  "useWikiRename hub dmProjectId itemId oldSlug newSlug =
     stale_after (api_wikiRename (nullish hub []) (nullish dmProjectId []) itemId oldSlug newSlug)
       [[KS (Some ''wikiPages''), KS hub, KS dmProjectId]]"

datatype notif_write = MarkRead "string list" | MarkAllRead | Dismiss string

definition patch_notifs :: "(notification_list \<Rightarrow> notification_list) \<Rightarrow> cache_effect list" where
  "patch_notifs f = [UpdateData [KS (Some ''notifs'')] (\<lambda>d. case d of Notifs l \<Rightarrow> Notifs (f l) | _ \<Rightarrow> d)]"

definition unread_of :: "cached \<Rightarrow> int" where
  "unread_of res = (case res of Unread n \<Rightarrow> n | _ \<Rightarrow> 0)"

fun useNotificationActions :: "notif_write \<Rightarrow> mutation" where
  "useNotificationActions (MarkRead ids) =
     mutate (api_notifMarkRead ids) (\<lambda>res. patch_notifs (\<lambda>l.
       \<lparr>nl_notifications = map (\<lambda>n. if nf_id n \<in> set ids then n\<lparr>nf_read := True\<rparr> else n) (nl_notifications l),
        nl_unread = unread_of res\<rparr>))"
| "useNotificationActions MarkAllRead =
     mutate api_notifMarkAllRead (\<lambda>res. patch_notifs (\<lambda>l.
       \<lparr>nl_notifications = map (\<lambda>n. n\<lparr>nf_read := True\<rparr>) (nl_notifications l), nl_unread = unread_of res\<rparr>))"
| "useNotificationActions (Dismiss i) =
     mutate (api_notifDismiss i) (\<lambda>res. patch_notifs (\<lambda>l.
       \<lparr>nl_notifications = filter (\<lambda>n. nf_id n \<noteq> i) (nl_notifications l), nl_unread = unread_of res\<rparr>))"

end
