(* ===== verification/TaskCache.thy ===== *)
theory TaskCache
  imports QueryWrites
begin

section \<open>The cached tasks and the server's\<close>

text \<open>
  The writes of \<open>useTaskMutations\<close> against the task store of \<open>src/tasks/store.go\<close>: one client writes and
  fetches, the server answers with the tasks of the file as \<open>src/server/handlers_tasks.go\<close> puts them on
  the wire, and the client's cache changes as the hook says. Shown is what an entry that is not marked
  stale can be relied upon for, without any further fetch.
\<close>

subsection \<open>One client and the file\<close>

text \<open>The answer of the server to an accepted write: the task written, or all the tasks moved.\<close>

definition task_answer ::
    "string \<Rightarrow> bool \<Rightarrow> string \<Rightarrow> task_user \<Rightarrow> task_file \<Rightarrow> task_write \<Rightarrow> store_error + task_file \<times> cached" where
  "task_answer p saved now by' pf w =
     (case w of
        TaskCreate d \<Rightarrow> (case Create saved now by' pf d of Inl e \<Rightarrow> Inl e | Inr (pf', t) \<Rightarrow> Inr (pf', OneTask (taskDTO p pf' t)))
      | TaskUpdate i patch \<Rightarrow>
          (case Update saved now pf i patch of Inl e \<Rightarrow> Inl e | Inr (pf', t) \<Rightarrow> Inr (pf', OneTask (taskDTO p pf' t)))
      | TaskRemove i \<Rightarrow> (case Delete saved pf i of Inl e \<Rightarrow> Inl e | Inr pf' \<Rightarrow> Inr (pf', Other))
      | TaskShift ids days \<Rightarrow>
          (case shift_in_file saved now pf ids days of Inl e \<Rightarrow> Inl e
           | Inr (pf', ts) \<Rightarrow> Inr (pf', TaskPage (map (taskDTO p pf') ts))))"

datatype task_sync = Wrote bool string task_user task_write | FetchedCard string | FetchedList

fun task_sync_step :: "string \<Rightarrow> task_sync \<Rightarrow> task_file \<times> query_cache \<Rightarrow> task_file \<times> query_cache" where
  "task_sync_step p (Wrote saved now by' w) (pf, c) =
     (case task_answer p saved now by' pf w of
        Inl e \<Rightarrow> (pf, c)
      | Inr (pf', res) \<Rightarrow> (pf', apply_effects (mu_success (useTaskMutations (\<lambda>_. JNull) (\<lambda>_. JNull) (Some p) w) res) c))"
| "task_sync_step p (FetchedCard i) (pf, c) =
     (pf, case findTask (pf_tasks pf) i of
            None \<Rightarrow> c
          | Some t \<Rightarrow> c(task_key (Some p) i \<mapsto> (OneTask (taskDTO p pf t), False)))"
| "task_sync_step p FetchedList (pf, c) =
     (pf, c([KS (Some ''tasks''), KS (Some p)] \<mapsto> (TaskPage (map (taskDTO p pf) (pf_tasks pf)), False)))"

definition task_session :: "string \<Rightarrow> task_sync list \<Rightarrow> task_file \<times> query_cache" where
  "task_session p evs = fold (task_sync_step p) evs (new_file, \<lambda>_. None)"

subsection \<open>What a card shows\<close>

text \<open>
  The fields of a task, without the names of its hub and project and without dependencies outside
  \<open>K\<close>, the tasks there are.
\<close>

definition shown :: "string set \<Rightarrow> task \<Rightarrow> task" where
  "shown K t = t\<lparr>tk_hubId := [], tk_projectName := [], tk_dependsOn := filter (\<lambda>d. d \<in> K) (tk_dependsOn t)\<rparr>"

abbreviation ids_of :: "task_file \<Rightarrow> string set" where
  "ids_of pf \<equiv> tk_id ` set (pf_tasks pf)"

lemma shown_sub: "(\<And>d. d \<in> set (tk_dependsOn t) \<Longrightarrow> d \<in> L \<Longrightarrow> d \<in> K) \<Longrightarrow> shown L (shown K t) = shown L t"
  by (auto simp: shown_def intro!: filter_cong arg_cong[where f = "\<lambda>x. tk_dependsOn_update x t" for t])

definition old_id :: "task_file \<Rightarrow> string \<Rightarrow> bool" where
  "old_id pf e \<longleftrightarrow> (\<exists>n. 1 \<le> n \<and> n < pf_nextTaskId pf \<and> e = ''t'' @ show_int n)"

definition card_ok :: "string \<Rightarrow> task_file \<Rightarrow> string \<Rightarrow> cached \<Rightarrow> bool" where
  "card_ok p pf i d \<longleftrightarrow> (\<exists>t u. findTask (pf_tasks pf) i = Some t \<and> d = OneTask u \<and>
     shown (ids_of pf) u = shown (ids_of pf) (taskDTO p pf t) \<and> list_all (old_id pf) (tk_dependsOn u))"

lemma old_ids: "file_ok pf \<Longrightarrow> e \<in> ids_of pf \<Longrightarrow> old_id pf e"
  using file_okD(4) by (fastforce simp: old_id_def)

lemma dto_deps [simp]: "tk_dependsOn (taskDTO p pf t) = tk_dependsOn t"
  by (simp add: taskDTO_def)

lemma dto_id [simp]: "tk_id (taskDTO p pf t) = tk_id t"
  by (simp add: taskDTO_def)

lemma card_fresh:
  assumes "file_ok pf" "findTask (pf_tasks pf) i = Some t"
  shows "card_ok p pf i (OneTask (taskDTO p pf t))"
proof -
  have "t \<in> set (pf_tasks pf)" using findTask_in[OF assms(2)] by simp
  then have "set (tk_dependsOn t) \<subseteq> ids_of pf" by (rule file_okD(5)[OF assms(1)])
  then have "list_all (old_id pf) (tk_dependsOn t)" using old_ids[OF assms(1)] by (auto simp: list_all_iff)
  then show ?thesis using assms(2) by (simp add: card_ok_def)
qed

text \<open>A card stays right if the task's own fields stay, and no task appears that it could name.\<close>

lemma card_keep:
  assumes ok: "file_ok pf" and card: "card_ok p pf i d"
    and grows: "pf_nextTaskId pf \<le> pf_nextTaskId pf'"
    and same: "\<And>t. findTask (pf_tasks pf) i = Some t \<Longrightarrow> \<exists>t'. findTask (pf_tasks pf') i = Some t' \<and>
      shown (ids_of pf') (taskDTO p pf' t') = shown (ids_of pf') (taskDTO p pf t)"
    and ids: "\<And>e. e \<in> ids_of pf' \<Longrightarrow> old_id pf e \<Longrightarrow> e \<in> ids_of pf"
  shows "card_ok p pf' i d"
proof -
  obtain t u where t: "findTask (pf_tasks pf) i = Some t" and d: "d = OneTask u"
    and u: "shown (ids_of pf) u = shown (ids_of pf) (taskDTO p pf t)" "list_all (old_id pf) (tk_dependsOn u)"
    using card by (auto simp: card_ok_def)
  obtain t' where t': "findTask (pf_tasks pf') i = Some t'"
    "shown (ids_of pf') (taskDTO p pf' t') = shown (ids_of pf') (taskDTO p pf t)" using same[OF t] by blast
  have "t \<in> set (pf_tasks pf)" using findTask_in[OF t] by simp
  then have deps: "set (tk_dependsOn t) \<subseteq> ids_of pf" by (rule file_okD(5)[OF ok])
  have "shown (ids_of pf') u = shown (ids_of pf') (shown (ids_of pf) u)"
    by (rule shown_sub[symmetric]) (use u(2) ids in \<open>simp add: list_all_iff\<close>)
  also have "\<dots> = shown (ids_of pf') (shown (ids_of pf) (taskDTO p pf t))" by (simp only: u(1))
  also have "\<dots> = shown (ids_of pf') (taskDTO p pf t)"
    by (rule shown_sub) (use deps in auto)
  finally have "shown (ids_of pf') u = shown (ids_of pf') (taskDTO p pf' t')" using t'(2) by simp
  moreover have "list_all (old_id pf') (tk_dependsOn u)"
    using u(2) grows unfolding list_all_iff old_id_def by fastforce
  ultimately show ?thesis using t'(1) d by (simp add: card_ok_def)
qed

subsection \<open>The operations of the store\<close>

lemma findTask_map: "(\<And>t. tk_id (f t) = tk_id t) \<Longrightarrow> findTask (map f ts) i = map_option f (findTask ts i)"
  by (induction ts) (simp_all add: findTask_def)

lemma findTask_filter: "i \<noteq> j \<Longrightarrow> findTask (filter (\<lambda>t. tk_id t \<noteq> i) ts) j = findTask ts j"
  by (induction ts) (auto simp: findTask_def)

lemma findTask_snoc: "findTask ts i \<noteq> None \<Longrightarrow> findTask (ts @ [t]) i = findTask ts i"
  by (induction ts) (auto simp: findTask_def)

lemma Create_Inr:
  "Create saved now by' pf d = Inr (pf', t) \<Longrightarrow>
   pf_tasks pf' = pf_tasks pf @ [t] \<and> pf_nextTaskId pf' = pf_nextTaskId pf + 1 \<and>
   tk_id t = ''t'' @ show_int (pf_nextTaskId pf)"
  by (auto simp: Create_def Let_def split: if_splits)

lemma Update_Inr:
  assumes "Update saved now pf i patch = Inr (pf', u)"
  shows "pf' = pf\<lparr>pf_tasks := replace_task u (pf_tasks pf)\<rparr>" "tk_id u = i" "i \<in> ids_of pf"
proof -
  obtain t where t: "findTask (pf_tasks pf) i = Some t" using assms by (auto simp: Update_def split: option.splits)
  then have "u = patched now (pf_tasks pf) patch t" "pf' = pf\<lparr>pf_tasks := replace_task u (pf_tasks pf)\<rparr>"
    using assms by (auto simp: Update_def Let_def split: if_splits)
  moreover have "t \<in> set (pf_tasks pf) \<and> tk_id t = i" using findTask_in[OF t] .
  ultimately show "pf' = pf\<lparr>pf_tasks := replace_task u (pf_tasks pf)\<rparr>" "tk_id u = i" "i \<in> ids_of pf"
    by (auto simp: patched_def Let_def)
qed

lemma Delete_Inr:
  "file_ok pf \<Longrightarrow> Delete saved pf i = Inr pf' \<Longrightarrow>
   pf' = pf\<lparr>pf_tasks := map (prune i) (filter (\<lambda>t. tk_id t \<noteq> i) (pf_tasks pf))\<rparr>"
  by (auto simp: Delete_def drop_first_filter[OF file_ids] split: if_splits)

lemma Shift_Inr:
  assumes "shift_in_file saved now pf ids n = Inr (pf', ts)"
  shows "\<exists>ks. pf' = pf\<lparr>pf_tasks := map (shift_stored ks n now) (pf_tasks pf)\<rparr> \<and>
    ts = List.map_filter (findTask (pf_tasks pf')) ks"
  using assms by (auto simp: shift_in_file_def shift_tasks_def Let_def split: if_splits option.splits)

subsection \<open>Every write keeps the cards right\<close>

abbreviation list_key :: "string \<Rightarrow> query_key" where
  "list_key p \<equiv> [KS (Some ''tasks''), KS (Some p)]"

lemma settle_card:
  "apply_effects (es @ settle_tasks (Some p)) c (task_key (Some p) i) = apply_effects es c (task_key (Some p) i)"
  by (simp add: apply_effects_def settle_tasks_def key_matches_def)

lemma settle_list: "apply_effects (es @ settle_tasks (Some p)) c (list_key p) \<noteq> Some (d, False)"
  by (auto simp: apply_effects_def settle_tasks_def key_matches_def)

lemma set_cards:
  assumes "\<And>t. t \<in> set ts \<Longrightarrow> tk_id t = i \<Longrightarrow> t = u"
  shows "apply_effects (set_tasks (Some p) (TaskPage ts)) c (task_key (Some p) i) =
    (if i \<in> tk_id ` set ts then Some (OneTask u, False) else c (task_key (Some p) i))"
  using assms
proof (induction ts arbitrary: c)
  case (Cons t ts)
  have IH: "apply_effects (set_tasks (Some p) (TaskPage ts)) c' (task_key (Some p) i) =
    (if i \<in> tk_id ` set ts then Some (OneTask u, False) else c' (task_key (Some p) i))" for c'
    by (rule Cons.IH) (use Cons.prems in auto)
  have "apply_effects (set_tasks (Some p) (TaskPage (t # ts))) c =
      apply_effects (set_tasks (Some p) (TaskPage ts)) (c(task_key (Some p) (tk_id t) \<mapsto> (OneTask t, False)))"
    by (simp add: apply_effects_def set_tasks_def)
  then show ?case using IH Cons.prems[of t] by auto
qed (simp add: apply_effects_def set_tasks_def)

lemma set_card:
  "apply_effects (set_tasks (Some p) (OneTask t)) c (task_key (Some p) i) =
    (if i = tk_id t then Some (OneTask t, False) else c (task_key (Some p) i))"
  by (simp add: apply_effects_def set_tasks_def)

definition cards_ok :: "string \<Rightarrow> task_file \<Rightarrow> query_cache \<Rightarrow> bool" where
  "cards_ok p pf c \<longleftrightarrow> (\<forall>i d. c (task_key (Some p) i) = Some (d, False) \<longrightarrow> card_ok p pf i d)"

definition list_ok :: "string \<Rightarrow> task_file \<Rightarrow> query_cache \<Rightarrow> bool" where
  "list_ok p pf c \<longleftrightarrow> (\<forall>d. c (list_key p) = Some (d, False) \<longrightarrow> d = TaskPage (map (taskDTO p pf) (pf_tasks pf)))"

lemma same_names: "shown K (taskDTO p pf t) = shown K (taskDTO p pf' t)"
  by (simp add: shown_def taskDTO_def)

lemma create_cards:
  assumes ok: "file_ok pf" "cards_ok p pf c" and w: "Create saved now by' pf d = Inr (pf', t)" and ok': "file_ok pf'"
  shows "cards_ok p pf' (apply_effects (set_tasks (Some p) (OneTask (taskDTO p pf' t)) @ settle_tasks (Some p)) c)"
  unfolding cards_ok_def settle_card set_card
proof (intro allI impI)
  fix i e assume e: "(if i = tk_id (taskDTO p pf' t) then Some (OneTask (taskDTO p pf' t), False)
      else c (task_key (Some p) i)) = Some (e, False)"
  note new = Create_Inr[OF w]
  show "card_ok p pf' i e"
  proof (cases "i = tk_id t")
    case True
    have "findTask (pf_tasks pf') i = Some t" using findTask_iff[OF file_ids[OF ok']] new True by simp
    then show ?thesis using card_fresh[OF ok'] e True by auto
  next
    case False
    then have "card_ok p pf i e" using e ok(2) by (simp add: cards_ok_def)
    then show ?thesis
    proof (rule card_keep[OF ok(1)])
      show "\<exists>t'. findTask (pf_tasks pf') i = Some t' \<and>
          shown (ids_of pf') (taskDTO p pf' t') = shown (ids_of pf') (taskDTO p pf v)"
        if "findTask (pf_tasks pf) i = Some v" for v
        using that findTask_snoc[of "pf_tasks pf" i t] new same_names[of "ids_of pf'" p pf' v pf] by auto
      show "x \<in> ids_of pf" if x: "x \<in> ids_of pf'" "old_id pf x" for x
      proof (rule ccontr)
        assume "x \<notin> ids_of pf"
        then have "x = ''t'' @ show_int (pf_nextTaskId pf)" using x(1) new by auto
        moreover obtain n where n: "1 \<le> n" "n < pf_nextTaskId pf" "x = ''t'' @ show_int n"
          using x(2) by (auto simp: old_id_def)
        ultimately have "show_int n = show_int (pf_nextTaskId pf)" by simp
        then have "n = pf_nextTaskId pf" using n(1,2) by (intro show_int_inj) simp_all
        then show False using n(2) by simp
      qed
    qed (use new in simp)
  qed
qed

lemma update_cards:
  assumes ok: "file_ok pf" "cards_ok p pf c" and w: "Update saved now pf i patch = Inr (pf', u)" and ok': "file_ok pf'"
  shows "cards_ok p pf' (apply_effects (set_tasks (Some p) (OneTask (taskDTO p pf' u)) @ settle_tasks (Some p)) c)"
  unfolding cards_ok_def settle_card set_card
proof (intro allI impI)
  fix j e assume e: "(if j = tk_id (taskDTO p pf' u) then Some (OneTask (taskDTO p pf' u), False)
      else c (task_key (Some p) j)) = Some (e, False)"
  note u = Update_Inr[OF w]
  define f where "f = (\<lambda>t. if tk_id t = tk_id u then u else t)"
  have f: "tk_id (f t) = tk_id t" for t by (simp add: f_def)
  have ts: "pf_tasks pf' = map f (pf_tasks pf)" using u(1) by (simp add: replace_task_def f_def)
  have ids: "ids_of pf' = ids_of pf" by (simp add: ts image_image f)
  have find: "findTask (pf_tasks pf') k = map_option f (findTask (pf_tasks pf) k)" for k
    unfolding ts by (rule findTask_map) (rule f)
  show "card_ok p pf' j e"
  proof (cases "j = i")
    case True
    obtain t where t: "findTask (pf_tasks pf) i = Some t"
      using u(3) findTask_None[of "pf_tasks pf" i] by (cases "findTask (pf_tasks pf) i") auto
    have "tk_id t = i" using findTask_in[OF t] by simp
    then have "findTask (pf_tasks pf') j = Some u" using t True u(2) by (simp add: find f_def)
    then show ?thesis using card_fresh[OF ok'] e True u(2) by auto
  next
    case False
    then have "card_ok p pf j e" using e ok(2) u(2) by (simp add: cards_ok_def)
    then show ?thesis
    proof (rule card_keep[OF ok(1)])
      show "\<exists>t'. findTask (pf_tasks pf') j = Some t' \<and>
          shown (ids_of pf') (taskDTO p pf' t') = shown (ids_of pf') (taskDTO p pf v)"
        if v: "findTask (pf_tasks pf) j = Some v" for v
        using findTask_in[OF v] v False u(2) same_names[of "ids_of pf'" p pf' v pf] by (auto simp: find f_def)
      show "pf_nextTaskId pf \<le> pf_nextTaskId pf'" by (simp add: u(1))
      show "x \<in> ids_of pf" if "x \<in> ids_of pf'" for x using that ids by simp
    qed
  qed
qed

lemma remove_cards:
  assumes ok: "file_ok pf" "cards_ok p pf c" and w: "Delete saved pf i = Inr pf'"
  shows "cards_ok p pf' (apply_effects (RemoveQueries (task_key (Some p) i) # settle_tasks (Some p)) c)"
  unfolding cards_ok_def
proof (intro allI impI)
  fix j e
  assume "apply_effects (RemoveQueries (task_key (Some p) i) # settle_tasks (Some p)) c (task_key (Some p) j) = Some (e, False)"
  then have e: "apply_effects [RemoveQueries (task_key (Some p) i)] c (task_key (Some p) j) = Some (e, False)"
    using settle_card[of "[RemoveQueries (task_key (Some p) i)]" p c j] by simp
  then have j: "j \<noteq> i" and old: "c (task_key (Some p) j) = Some (e, False)"
    by (auto simp: apply_effects_def key_matches_def split: if_splits)
  note pf' = Delete_Inr[OF ok(1) w]
  have prune: "tk_id (prune i t) = tk_id t" for t by (simp add: prune_def)
  have ids: "ids_of pf' = ids_of pf - {i}" by (force simp: pf' prune image_image)
  have find: "findTask (pf_tasks pf') j = map_option (prune i) (findTask (pf_tasks pf) j)"
    by (simp add: pf' findTask_map[OF prune] findTask_filter[OF j[symmetric]])
  have "card_ok p pf j e" using old ok(2) by (simp add: cards_ok_def)
  then show "card_ok p pf' j e"
  proof (rule card_keep[OF ok(1)])
    show "\<exists>t'. findTask (pf_tasks pf') j = Some t' \<and>
        shown (ids_of pf') (taskDTO p pf' t') = shown (ids_of pf') (taskDTO p pf v)"
      if v: "findTask (pf_tasks pf) j = Some v" for v
    proof -
      have "filter (\<lambda>d. d \<in> ids_of pf') (tk_dependsOn (prune i v)) = filter (\<lambda>d. d \<in> ids_of pf') (tk_dependsOn v)"
        by (auto simp: prune_def ids intro!: filter_cong)
      then have "shown (ids_of pf') (taskDTO p pf' (prune i v)) = shown (ids_of pf') (taskDTO p pf v)"
        by (simp add: shown_def taskDTO_def prune_def)
      then show ?thesis using v by (simp add: find)
    qed
    show "pf_nextTaskId pf \<le> pf_nextTaskId pf'" by (simp add: pf')
    show "x \<in> ids_of pf" if "x \<in> ids_of pf'" for x using that ids by simp
  qed
qed

lemma shift_cards:
  assumes ok: "file_ok pf" "cards_ok p pf c" and w: "shift_in_file saved now pf is n = Inr (pf', ts)" and ok': "file_ok pf'"
  shows "cards_ok p pf' (apply_effects (set_tasks (Some p) (TaskPage (map (taskDTO p pf') ts)) @ settle_tasks (Some p)) c)"
  unfolding cards_ok_def settle_card
proof (intro allI impI)
  fix j e
  assume e: "apply_effects (set_tasks (Some p) (TaskPage (map (taskDTO p pf') ts))) c (task_key (Some p) j) = Some (e, False)"
  obtain ks where pf': "pf' = pf\<lparr>pf_tasks := map (shift_stored ks n now) (pf_tasks pf)\<rparr>"
    and ts: "ts = List.map_filter (findTask (pf_tasks pf')) ks" using Shift_Inr[OF w] by blast
  have f: "tk_id (shift_stored ks n now t) = tk_id t" for t by (simp add: shift_stored_def)
  have ids: "ids_of pf' = ids_of pf" by (simp add: pf' image_image f)
  have find: "findTask (pf_tasks pf') k = map_option (shift_stored ks n now) (findTask (pf_tasks pf) k)" for k
    by (simp add: pf' findTask_map[OF f])
  have moved: "findTask (pf_tasks pf') (tk_id t) = Some t" if "t \<in> set ts" for t
    using that findTask_in by (fastforce simp: ts map_filter_def)
  show "card_ok p pf' j e"
  proof (cases "j \<in> tk_id ` set ts")
    case True
    then obtain t where t: "t \<in> set ts" "tk_id t = j" by auto
    have uniq: "v = taskDTO p pf' t" if "v \<in> set (map (taskDTO p pf') ts)" "tk_id v = j" for v
    proof -
      obtain x where x: "x \<in> set ts" "v = taskDTO p pf' x" using \<open>v \<in> _\<close> by auto
      then have "tk_id x = tk_id t" using \<open>tk_id v = j\<close> t(2) by simp
      then have "x = t" using moved[OF x(1)] moved[OF t(1)] by (metis option.inject)
      then show ?thesis using x(2) by simp
    qed
    have "apply_effects (set_tasks (Some p) (TaskPage (map (taskDTO p pf') ts))) c (task_key (Some p) j) =
        Some (OneTask (taskDTO p pf' t), False)"
      using True by (subst set_cards[of _ _ "taskDTO p pf' t"]) (auto intro: uniq simp: image_image)
    then have "e = OneTask (taskDTO p pf' t)" using e by simp
    moreover have "findTask (pf_tasks pf') j = Some t" using moved[OF t(1)] t(2) by simp
    ultimately show ?thesis using card_fresh[OF ok'] by simp
  next
    case False
    then have "c (task_key (Some p) j) = Some (e, False)"
      using e by (subst (asm) set_cards[of _ _ undefined]) (auto simp: image_image)
    then have "card_ok p pf j e" using ok(2) by (simp add: cards_ok_def)
    then show ?thesis
    proof (rule card_keep[OF ok(1)])
      show "\<exists>t'. findTask (pf_tasks pf') j = Some t' \<and>
          shown (ids_of pf') (taskDTO p pf' t') = shown (ids_of pf') (taskDTO p pf v)"
        if v: "findTask (pf_tasks pf) j = Some v" for v
      proof -
        have id: "tk_id v = j" using findTask_in[OF v] by simp
        have "j \<notin> set ks"
        proof
          assume "j \<in> set ks"
          then have "shift_stored ks n now v \<in> set ts" using v by (force simp: ts map_filter_def find)
          then have "tk_id (shift_stored ks n now v) \<in> tk_id ` set ts" by (rule imageI)
          then show False using False id by (simp add: f)
        qed
        then have "shift_stored ks n now v = v" using id by (simp add: shift_stored_def)
        then show ?thesis using v same_names[of "ids_of pf'" p pf' v pf] by (simp add: find)
      qed
      show "pf_nextTaskId pf \<le> pf_nextTaskId pf'" by (simp add: pf')
      show "x \<in> ids_of pf" if "x \<in> ids_of pf'" for x using that ids by simp
    qed
  qed
qed

lemma kept_Inr: "file_ok (kept pf r f) \<Longrightarrow> r = Inr x \<Longrightarrow> file_ok (f x)"
  by (simp add: kept_def)

lemma answer_file:
  assumes w: "task_answer p saved now by' pf w = Inr (pf', res)" and ok: "file_ok pf"
  shows "file_ok pf'"
proof (cases w)
  case (TaskCreate d)
  then obtain t where "Create saved now by' pf d = Inr (pf', t)" using w by (auto simp: task_answer_def split: sum.splits)
  from kept_Inr[OF Create_ok[OF ok] this] show ?thesis by simp
next
  case (TaskUpdate i patch)
  then obtain t where "Update saved now pf i patch = Inr (pf', t)" using w by (auto simp: task_answer_def split: sum.splits)
  from kept_Inr[OF Update_ok[OF ok] this] show ?thesis by simp
next
  case (TaskRemove i)
  then have "Delete saved pf i = Inr pf'" using w by (auto simp: task_answer_def split: sum.splits)
  from kept_Inr[OF Delete_ok[OF ok] this] show ?thesis by simp
next
  case (TaskShift ids days)
  then obtain ts where "shift_in_file saved now pf ids days = Inr (pf', ts)"
    using w by (auto simp: task_answer_def split: sum.splits)
  from kept_Inr[OF Shift_ok[OF ok] this] show ?thesis by simp
qed

lemma write_cards:
  assumes ok: "file_ok pf" "cards_ok p pf c" and w: "task_answer p saved now by' pf w = Inr (pf', res)"
  shows "cards_ok p pf' (apply_effects (mu_success (useTaskMutations dj pj (Some p) w) res) c)"
proof -
  note ok' = answer_file[OF w ok(1)]
  show ?thesis
  proof (cases w)
    case (TaskCreate d)
    then obtain t where "Create saved now by' pf d = Inr (pf', t)" "res = OneTask (taskDTO p pf' t)"
      using w by (auto simp: task_answer_def split: sum.splits)
    then show ?thesis using create_cards[OF ok _ ok'] TaskCreate by (simp add: mutate_def)
  next
    case (TaskUpdate i patch)
    then obtain t where "Update saved now pf i patch = Inr (pf', t)" "res = OneTask (taskDTO p pf' t)"
      using w by (auto simp: task_answer_def split: sum.splits)
    then show ?thesis using update_cards[OF ok _ ok'] TaskUpdate by (simp add: mutate_def)
  next
    case (TaskRemove i)
    then have "Delete saved pf i = Inr pf'" using w by (auto simp: task_answer_def split: sum.splits)
    then show ?thesis using remove_cards[OF ok] TaskRemove by (simp add: mutate_def)
  next
    case (TaskShift ids days)
    then obtain ts where "shift_in_file saved now pf ids days = Inr (pf', ts)"
        "res = TaskPage (map (taskDTO p pf') ts)"
      using w by (auto simp: task_answer_def split: sum.splits)
    then show ?thesis using shift_cards[OF ok _ ok'] TaskShift by (simp add: mutate_def)
  qed
qed

lemma write_list: "list_ok p pf' (apply_effects (mu_success (useTaskMutations dj pj (Some p) w) res) c)"
proof (cases w)
  case (TaskRemove i)
  show ?thesis using settle_list[of "[RemoveQueries (task_key (Some p) i)]" p c] TaskRemove
    by (simp add: list_ok_def mutate_def)
qed (use settle_list in \<open>simp_all add: list_ok_def mutate_def\<close>)

definition sync_ok :: "string \<Rightarrow> task_file \<times> query_cache \<Rightarrow> bool" where
  "sync_ok p s \<longleftrightarrow> file_ok (fst s) \<and> cards_ok p (fst s) (snd s) \<and> list_ok p (fst s) (snd s)"

lemma sync_step: "sync_ok p s \<Longrightarrow> sync_ok p (task_sync_step p e s)"
proof -
  assume ok: "sync_ok p s"
  obtain pf c where s: "s = (pf, c)" by (cases s)
  have f: "file_ok pf" and c: "cards_ok p pf c" and l: "list_ok p pf c" using ok by (auto simp: sync_ok_def s)
  show ?thesis
  proof (cases e)
    case (Wrote saved now by' w)
    show ?thesis
    proof (cases "task_answer p saved now by' pf w")
      case (Inr a)
      then obtain pf' res where a: "task_answer p saved now by' pf w = Inr (pf', res)" by (cases a) auto
      show ?thesis using answer_file[OF a f] write_cards[OF f c a] write_list by (simp add: sync_ok_def s Wrote a)
    qed (use ok in \<open>simp add: s Wrote\<close>)
  next
    case (FetchedCard i)
    then show ?thesis using f c l card_fresh[OF f]
      by (auto simp: sync_ok_def s cards_ok_def list_ok_def split: option.splits)
  next
    case FetchedList
    then show ?thesis using f c l by (auto simp: sync_ok_def s cards_ok_def list_ok_def)
  qed
qed

lemma session_ok: "sync_ok p (task_session p evs)"
proof -
  have "sync_ok p s \<Longrightarrow> sync_ok p (fold (task_sync_step p) evs s)" for s
    by (induction evs arbitrary: s) (simp_all add: sync_step)
  moreover have "sync_ok p (new_file, \<lambda>_. None)"
    by (simp add: sync_ok_def new_file_ok cards_ok_def list_ok_def)
  ultimately show ?thesis by (simp add: task_session_def)
qed



definition sample_draft :: task_draft where
  "sample_draft = \<lparr>td_hubId = ''h'', td_projectName = ''P'', td_title = ''a'', td_description = None,
     td_status = None, td_priority = None, td_dueDate = None, td_assignee = None, td_docRefs = None,
     td_startDate = None, td_endDate = None, td_progress = None, td_milestone = None, td_dependsOn = None,
     td_stage = None\<rparr>"

definition sample_user :: task_user where
  "sample_user = \<lparr>tu_id = ''u'', tu_name = None, tu_email = None\<rparr>"

lemma sample_create:
  "\<exists>pf' t. Create True ''now'' sample_user new_file sample_draft = Inr (pf', t) \<and>
     pf_tasks pf' = [t] \<and> tk_id t = ''t1'' \<and> tk_title t = ''a''"
proof -
  have trims: "go_trim ''a'' = ''a''" "go_trim [] = []" by code_simp+
  have runes: "rune_count ''a'' = 1" "rune_count [] = 0" by (simp_all add: rune_count_def)
  have num: "show_int 1 = ''1''" by code_simp
  show ?thesis
    by (simp add: Create_def sample_draft_def new_file_def validateFields_def trims runes num MaxTitleRunes_def
      MaxDescRunes_def str_or_def truthy_def nullish_def validStatus_def validPriority_def STATUSES_def PRIORITIES_def
      MaxDocRefs_def MaxStageRunes_def MaxTasksPerProject_def normalizeDependsOn_def validateDependsOn_def
      MaxDependsOn_def dependsOnCycle_def Let_def)
qed


text \<open>
  Deleting a task prunes it from the dependencies of the others, but the hook leaves their cached cards:
  a card that depends on it still names it and is not marked stale.
\<close>

lemma deleted_dependency_lingers:
  assumes "file_ok pf" "Delete saved pf i = Inr pf'" "j \<noteq> i" "c (task_key (Some p) j) = Some (OneTask u, False)"
    "i \<in> set (tk_dependsOn u)"
  shows "apply_effects (mu_success (useTaskMutations dj pj (Some p) (TaskRemove i)) Other) c (task_key (Some p) j) =
      Some (OneTask u, False) \<and>
    (\<forall>t. findTask (pf_tasks pf') j = Some t \<longrightarrow> i \<notin> set (tk_dependsOn t))"
proof -
  have "i \<notin> set (tk_dependsOn t)" if "findTask (pf_tasks pf') j = Some t" for t
    using findTask_in[OF that] Delete_Inr[OF assms(1,2)] by (auto simp: prune_def)
  then show ?thesis
    using assms(3,4) settle_card[of "[RemoveQueries (task_key (Some p) i)]" p c j]
    by (auto simp: mutate_def apply_effects_def key_matches_def)
qed

end
