(* ===== verification/Heatmap.thy ===== *)
theory Heatmap
  imports Calendar
begin

section \<open>The activity heat map\<close>

text \<open>
  \<open>components/ActivityHeatmap.tsx\<close>: the changes of a design in one window (a day, week, month or year)
  of equal cells, and the line of windows below it. All days are UTC days, the calendar of
  \<open>Calendar\<close> in the zone without offset. A time is in milliseconds; \<open>Date.parse\<close>, the clock, the texts
  of the catalog and of the locale are parameters. Coordinates are exact.
\<close>

datatype Gran = DayWindow | WeekWindow | MonthWindow | YearWindow

definition HOUR_MS :: int where "HOUR_MS = 3600000"
definition FIT_MIN_H :: rat where "FIT_MIN_H = 160"

definition utc_zone :: zone where
  "utc_zone = \<lparr>z_local = (\<lambda>t. t), z_utc = (\<lambda>t. t)\<rparr>"

abbreviation Date_UTC :: "int \<Rightarrow> int \<Rightarrow> int \<Rightarrow> int" where
  "Date_UTC \<equiv> new_Date utc_zone"

subsection \<open>Windows\<close>

definition startOfDay :: "int \<Rightarrow> int" where
  "startOfDay ms = Date_UTC (getFullYear utc_zone ms) (getMonth utc_zone ms) (getDate utc_zone ms)"

definition startOfWeek :: "int \<Rightarrow> int" where
  "startOfWeek ms = startOfDay ms - getDay utc_zone (startOfDay ms) * DAY_MS"

definition startOfMonth :: "int \<Rightarrow> int" where
  "startOfMonth ms = Date_UTC (getFullYear utc_zone ms) (getMonth utc_zone ms) 1"

definition startOfYear :: "int \<Rightarrow> int" where
  "startOfYear ms = Date_UTC (getFullYear utc_zone ms) 0 1"

definition windowStartOf :: "Gran \<Rightarrow> int \<Rightarrow> int" where
  "windowStartOf gran ms =
     (case gran of WeekWindow \<Rightarrow> startOfWeek ms | MonthWindow \<Rightarrow> startOfMonth ms | YearWindow \<Rightarrow> startOfYear ms
      | DayWindow \<Rightarrow> startOfDay ms)"

definition addWindows :: "Gran \<Rightarrow> int \<Rightarrow> int \<Rightarrow> int" where
  "addWindows gran ms n =
     (case gran of DayWindow \<Rightarrow> ms + n * DAY_MS | WeekWindow \<Rightarrow> ms + n * 7 * DAY_MS
      | MonthWindow \<Rightarrow> Date_UTC (getFullYear utc_zone ms) (getMonth utc_zone ms + n) 1
      | YearWindow \<Rightarrow> Date_UTC (getFullYear utc_zone ms + n) 0 1)"

definition windowLabel ::
    "(string list \<Rightarrow> int \<Rightarrow> string) \<Rightarrow> Gran \<Rightarrow> int \<Rightarrow> string" where
  "windowLabel localeDate gran start =
     (case gran of
        DayWindow \<Rightarrow> localeDate [''weekday'', ''month:long'', ''day'', ''year''] start
      | WeekWindow \<Rightarrow> localeDate [''month:short'', ''day''] start @ '' '' @ utf8 [226, 128, 147] @ '' '' @
          localeDate [''month:short'', ''day'', ''year''] (start + 6 * DAY_MS)
      | MonthWindow \<Rightarrow> localeDate [''month:long'', ''year''] start
      | YearWindow \<Rightarrow> show_int (getFullYear utc_zone start))"

subsection \<open>Cells\<close>

record heat_cell =
  hc_col :: int
  hc_row :: int
  hc_count :: nat

record Built =
  bu_cells :: "heat_cell list"
  bu_maxCount :: nat
  bu_total :: nat
  bu_top :: "(int \<times> string) list"
  bu_left :: "(int \<times> string) list"

type_synonym catalog = "string \<Rightarrow> int option \<Rightarrow> string"

definition MONTH_KEYS :: "string list" where
  "MONTH_KEYS = [''activity.monthJan'', ''activity.monthFeb'', ''activity.monthMar'', ''activity.monthApr'',
     ''activity.monthMay'', ''activity.monthJun'', ''activity.monthJul'', ''activity.monthAug'',
     ''activity.monthSep'', ''activity.monthOct'', ''activity.monthNov'', ''activity.monthDec'']"

definition WEEKDAY_KEYS :: "string list" where
  "WEEKDAY_KEYS = [''activity.weekdaySun'', ''activity.weekdayMon'', ''activity.weekdayTue'',
     ''activity.weekdayWed'', ''activity.weekdayThu'', ''activity.weekdayFri'', ''activity.weekdaySat'']"

definition fmtHour :: "catalog \<Rightarrow> int \<Rightarrow> string" where
  "fmtHour t h =
     (if h = 0 then t ''activity.hour12am'' None
      else if h < 12 then t ''activity.hourAm'' (Some h)
      else if h = 12 then t ''activity.hour12pm'' None
      else t ''activity.hourPm'' (Some (h - 12)))"

definition keyOf :: "Gran \<Rightarrow> int \<Rightarrow> int \<Rightarrow> int" where
  "keyOf gran winStart t =
     (case gran of DayWindow \<Rightarrow> winStart + (t - winStart) div HOUR_MS * HOUR_MS | _ \<Rightarrow> startOfDay t)"

definition window_counts :: "Gran \<Rightarrow> int \<Rightarrow> int list \<Rightarrow> int \<Rightarrow> nat option" where
  "window_counts gran winStart timestamps =
     foldl (\<lambda>counts t. if t < winStart \<or> t \<ge> addWindows gran winStart 1 then counts
         else (let k = keyOf gran winStart t in counts(k \<mapsto> nullish (counts k) 0 + 1)))
       (\<lambda>_. None) timestamps"

function days_between :: "int \<Rightarrow> int \<Rightarrow> int list" where
  "days_between dms winEnd = (if dms < winEnd then dms # days_between (dms + DAY_MS) winEnd else [])"
  by auto
termination by (relation "measure (\<lambda>(dms, winEnd). nat (winEnd - dms))") (auto simp: DAY_MS_def)

declare days_between.simps [simp del]

definition week_col :: "int \<Rightarrow> int \<Rightarrow> int" where
  "week_col base dms = js_round (of_int (startOfWeek dms - base) / of_int (7 * DAY_MS))"

definition calendar_cell :: "(int \<Rightarrow> nat option) \<Rightarrow> int \<Rightarrow> int \<Rightarrow> heat_cell" where
  "calendar_cell counts base dms =
     \<lparr>hc_col = week_col base dms, hc_row = getDay utc_zone dms, hc_count = nullish (counts (startOfDay dms)) 0\<rparr>"

text \<open>A month's name stands over the column of its first day.\<close>

fun month_labels :: "catalog \<Rightarrow> int \<Rightarrow> int \<Rightarrow> int list \<Rightarrow> (int \<times> string) list" where
  "month_labels t base lastMonth [] = []"
| "month_labels t base lastMonth (dms # ds) =
     (let m = getMonth utc_zone dms
      in if m \<noteq> lastMonth then (week_col base dms, t (MONTH_KEYS ! nat m) None) # month_labels t base m ds
         else month_labels t base lastMonth ds)"

definition buildWindow :: "catalog \<Rightarrow> int list \<Rightarrow> Gran \<Rightarrow> int \<Rightarrow> Built" where
  "buildWindow t timestamps gran winStart =
     (let winEnd = addWindows gran winStart 1;
          counts = window_counts gran winStart timestamps;
          base = startOfWeek winStart;
          cells = (case gran of
              DayWindow \<Rightarrow> map (\<lambda>h. \<lparr>hc_col = h, hc_row = 0, hc_count = nullish (counts (winStart + h * HOUR_MS)) 0\<rparr>) [0..23]
            | WeekWindow \<Rightarrow> map (\<lambda>i. \<lparr>hc_col = i, hc_row = 0, hc_count = nullish (counts (winStart + i * DAY_MS)) 0\<rparr>) [0..6]
            | _ \<Rightarrow> map (calendar_cell counts base) (days_between winStart winEnd))
      in \<lparr>bu_cells = cells,
          bu_maxCount = foldl (\<lambda>m c. max m (hc_count c)) 0 cells,
          bu_total = foldl (\<lambda>n c. n + hc_count c) 0 cells,
          bu_top = (case gran of
              DayWindow \<Rightarrow> map (\<lambda>h. (h, fmtHour t h)) [0, 6, 12, 18]
            | WeekWindow \<Rightarrow> map (\<lambda>i. (i, t (WEEKDAY_KEYS ! nat i) None)) [0..6]
            | MonthWindow \<Rightarrow> []
            | YearWindow \<Rightarrow> month_labels t base (-1) (days_between winStart winEnd)),
          bu_left = (case gran of
              MonthWindow \<Rightarrow> map (\<lambda>r. (r, t (WEEKDAY_KEYS ! nat r) None)) [1, 3, 5]
            | YearWindow \<Rightarrow> map (\<lambda>r. (r, t (WEEKDAY_KEYS ! nat r) None)) [1, 3, 5]
            | _ \<Rightarrow> [])\<rparr>)"

subsection \<open>Days of a window\<close>

lemma utc_ok: "zone_ok utc_zone"
  by (simp add: zone_ok_def utc_zone_def DAY_MS_def)

lemma midnight_utc [simp]: "midnight utc_zone n = DAY_MS * n"
  by (simp add: midnight_def utc_zone_def)

lemma local_day_utc [simp]: "local_day utc_zone t = t div DAY_MS"
  by (simp add: local_day_def utc_zone_def)

lemma day_pos [simp]: "0 < DAY_MS" "DAY_MS \<noteq> 0"
  by (simp_all add: DAY_MS_def)

lemma mult_le_div_iff:
  fixes d :: int
  assumes "0 < d"
  shows "d * a \<le> t \<longleftrightarrow> a \<le> t div d"
proof
  assume "d * a \<le> t"
  then have "d * a div d \<le> t div d" by (rule zdiv_mono1) (rule assms)
  then show "a \<le> t div d" using assms by simp
next
  assume "a \<le> t div d"
  then have "d * a \<le> d * (t div d)" using assms by simp
  also have "\<dots> \<le> t" using assms mult_div_mod_eq[of d t] pos_mod_sign[OF assms, of t] by linarith
  finally show "d * a \<le> t" .
qed

lemma days_iff: "DAY_MS * a \<le> t \<longleftrightarrow> a \<le> t div DAY_MS" "t < DAY_MS * b \<longleftrightarrow> t div DAY_MS < b"
proof -
  show "DAY_MS * a \<le> t \<longleftrightarrow> a \<le> t div DAY_MS" by (rule mult_le_div_iff) (rule day_pos)
  show "t < DAY_MS * b \<longleftrightarrow> t div DAY_MS < b" using mult_le_div_iff[OF day_pos(1), of b t] by linarith
qed

text \<open>The first day of the window a day is in, and the first day after a window.\<close>

definition first_day :: "Gran \<Rightarrow> int \<Rightarrow> int" where
  "first_day gran n =
     (case civil n of (y, m, d) \<Rightarrow>
        (case gran of DayWindow \<Rightarrow> n | WeekWindow \<Rightarrow> n - (n + 4) mod 7 | MonthWindow \<Rightarrow> day_number y m 1
         | YearWindow \<Rightarrow> day_number y 0 1))"

definition next_day :: "Gran \<Rightarrow> int \<Rightarrow> int" where
  "next_day gran n =
     (case civil n of (y, m, d) \<Rightarrow>
        (case gran of DayWindow \<Rightarrow> n + 1 | WeekWindow \<Rightarrow> n + 7 | MonthWindow \<Rightarrow> day_number y (m + 1) 1
         | YearWindow \<Rightarrow> day_number (y + 1) 0 1))"

text \<open>Days whose year is not one of 0 to 99, which \<open>Date.UTC\<close> takes for 1900 to 1999.\<close>

definition fine_day :: "int \<Rightarrow> bool" where
  "fine_day n \<longleftrightarrow> year_fine (fst (civil n))"

lemma civil_utc:
  assumes "civil (t div DAY_MS) = (y, m, d)"
  shows "getFullYear utc_zone t = y" "getMonth utc_zone t = m" "getDate utc_zone t = d"
  by (simp_all add: getFullYear_def getMonth_def getDate_def assms)

lemma startOfDay_day: "fine_day (t div DAY_MS) \<Longrightarrow> startOfDay t = DAY_MS * (t div DAY_MS)"
  using day_number_getters(1)[of utc_zone t]
  by (simp add: startOfDay_def fine_day_def new_Date_fine getFullYear_def)

lemma getDay_utc: "getDay utc_zone t = (t div DAY_MS + 4) mod 7"
  by (simp add: getDay_def)

lemma startOfWeek_day:
  "fine_day (t div DAY_MS) \<Longrightarrow> startOfWeek t = DAY_MS * first_day WeekWindow (t div DAY_MS)"
  by (simp add: startOfWeek_def startOfDay_day getDay_utc first_day_def algebra_simps split: prod.splits)

lemma windowStartOf_day:
  assumes "fine_day (t div DAY_MS)"
  shows "windowStartOf gran t = DAY_MS * first_day gran (t div DAY_MS)"
proof -
  obtain y m d where c: "civil (t div DAY_MS) = (y, m, d)" by (metis surj_pair)
  then have "year_fine y" using assms by (simp add: fine_day_def)
  then show ?thesis using startOfWeek_day[OF assms] startOfDay_day[OF assms] c
    by (cases gran) (simp_all add: windowStartOf_def first_day_def startOfMonth_def startOfYear_def civil_utc[OF c]
      new_Date_fine)
qed

lemma first_in_month: "civil n = (y, m, d) \<Longrightarrow> day_number y m 1 = n - (d - 1) \<and> 1 \<le> d \<and> d \<le> month_len y m"
  using day_number_civil[of n y m d] day_number_add[of y m 1 "d - 1"] by (auto simp: valid_civil_def)

lemma next_month: "day_number y (m + 1) 1 = day_number y m 1 + month_len (y + m div 12) (m mod 12)"
  using day_number_next_month[of y m] day_number_add[of y "m + 1" 0 1] day_number_add[of y m 1 "month_len (y + m div 12) (m mod 12) - 1"]
  by simp

lemma year_first: "day_number y 0 1 = before_year y - EPOCH"
  by (simp add: day_number_valid before_month_def)

lemma year_bounds: "civil n = (y, m, d) \<Longrightarrow> before_year y - EPOCH \<le> n \<and> n < before_year (y + 1) - EPOCH"
  using year_of_bounds[of "n + EPOCH"] by (auto simp: civil_def Let_def split: prod.splits)

text \<open>A window is a run of days: those that have its first day.\<close>

lemma first_le: "first_day gran n \<le> n"
proof -
  obtain y m d where c: "civil n = (y, m, d)" by (metis surj_pair)
  show ?thesis using first_in_month[OF c] year_bounds[OF c] year_first[of y]
    by (cases gran) (simp_all add: first_day_def c)
qed

lemma civil_first: "civil n = (y, m, d) \<Longrightarrow> civil (day_number y m 1) = (y, m, 1) \<and> civil (day_number y 0 1) = (y, 0, 1)"
proof -
  assume c: "civil n = (y, m, d)"
  have v: "valid_civil y m d" using day_number_civil[OF c] by simp
  have "valid_civil y m 1" using v by (auto simp: valid_civil_def)
  moreover have "valid_civil y 0 1" using month_len_bounds[of 0 y] by (simp add: valid_civil_def)
  ultimately show ?thesis using civil_day_number by blast
qed

lemma next_gt: "n < next_day gran (first_day gran n)"
proof -
  obtain y m d where c: "civil n = (y, m, d)" by (metis surj_pair)
  have r: "0 \<le> m" "m < 12" using day_number_civil[OF c] by (auto simp: valid_civil_def)
  obtain y' m' d' where c': "civil (first_day WeekWindow n) = (y', m', d')" by (metis surj_pair)
  show ?thesis
  proof (cases gran)
    case DayWindow
    then show ?thesis using c by (simp add: first_day_def next_day_def)
  next
    case WeekWindow
    then show ?thesis using c' c by (simp add: first_day_def next_day_def)
  next
    case MonthWindow
    then show ?thesis using first_in_month[OF c] next_month[of y m] r civil_first[OF c] c
      by (simp add: first_day_def next_day_def)
  next
    case YearWindow
    then show ?thesis using year_bounds[OF c] year_first[of "y + 1"] civil_first[OF c] c
      by (simp add: first_day_def next_day_def)
  qed
qed

lemma first_unique:
  assumes k: "first_day gran n \<le> k" "k < next_day gran (first_day gran n)"
  shows "first_day gran k = first_day gran n"
proof -
  obtain y m d where c: "civil n = (y, m, d)" by (metis surj_pair)
  have v: "0 \<le> m" "m < 12" using day_number_civil[OF c] by (auto simp: valid_civil_def)
  obtain y' m' d' where c': "civil k = (y', m', d')" by (metis surj_pair)
  show ?thesis
  proof (cases gran)
    case DayWindow
    then show ?thesis using k c c' by (simp add: first_day_def next_day_def)
  next
    case WeekWindow
    obtain y2 m2 d2 where c2: "civil (first_day WeekWindow n) = (y2, m2, d2)" by (metis surj_pair)
    define a where "a = n - (n + 4) mod 7"
    have a: "first_day WeekWindow n = a" using c by (simp add: first_day_def a_def)
    have "(a + 4) mod 7 = 0" unfolding a_def by presburger
    moreover have "a \<le> k" "k < a + 7" using k c2 WeekWindow a by (simp_all add: next_day_def)
    ultimately have "k - (k + 4) mod 7 = a" by presburger
    then show ?thesis using c' WeekWindow a by (simp add: first_day_def)
  next
    case MonthWindow
    define j where "j = k - day_number y m 1"
    have "0 \<le> j" "j < month_len y m"
      using k c civil_first[OF c] next_month[of y m] v MonthWindow by (simp_all add: first_day_def next_day_def j_def)
    then have "valid_civil y m (1 + j)" using v by (simp add: valid_civil_def)
    moreover have "k = day_number y m (1 + j)" using day_number_add[of y m 1 j] by (simp add: j_def)
    ultimately have "civil k = (y, m, 1 + j)" using civil_day_number by simp
    then show ?thesis using c MonthWindow by (simp add: first_day_def)
  next
    case YearWindow
    have "before_year y - EPOCH \<le> k" "k < before_year (y + 1) - EPOCH"
      using k c civil_first[OF c] year_first YearWindow by (simp_all add: first_day_def next_day_def)
    then have "y' = y" using year_bounds[OF c'] year_unique[of y' "k + EPOCH" y] by simp
    then show ?thesis using c c' YearWindow by (simp add: first_day_def)
  qed
qed

lemma fine_recent: "- 365 \<le> n \<Longrightarrow> fine_day n \<and> 1969 \<le> fst (civil n)"
proof -
  assume n: "- 365 \<le> n"
  obtain y m d where c: "civil n = (y, m, d)" by (metis surj_pair)
  have "1969 \<le> y"
  proof (rule ccontr)
    assume "\<not> 1969 \<le> y"
    then have "before_year (y + 1) \<le> before_year 1969" using before_year_mono[of "y + 1" 1969] by simp
    moreover have "before_year 1969 = 718797" by (simp add: before_year_def)
    ultimately show False using year_bounds[OF c] n by (simp add: EPOCH_def)
  qed
  then show ?thesis by (simp add: c fine_day_def year_fine_def)
qed

lemma first_recent: "0 \<le> n \<Longrightarrow> - 6 \<le> first_day gran n"
proof -
  assume n: "0 \<le> n"
  obtain y m d where c: "civil n = (y, m, d)" by (metis surj_pair)
  have y: "1970 \<le> y"
  proof (rule ccontr)
    assume "\<not> 1970 \<le> y"
    then have "before_year (y + 1) \<le> before_year 1970" using before_year_mono[of "y + 1" 1970] by simp
    moreover have "before_year 1970 = 719162" by (simp add: before_year_def)
    ultimately show False using year_bounds[OF c] n by (simp add: EPOCH_def)
  qed
  then have b: "0 \<le> before_year y - EPOCH" using before_year_mono[of 1970 y] by (simp add: before_year_def EPOCH_def)
  have v: "valid_civil y m 1" "0 \<le> m" "m < 12"
    using day_number_civil[OF c] by (auto simp: valid_civil_def)
  have "0 \<le> before_month y m" using before_month_bounds[OF v(1)] by simp
  then have "0 \<le> day_number y m 1" using b v by (simp add: day_number_valid)
  then show ?thesis using b year_first[of y] n c pos_mod_bound[of 7 "n + 4"]
    by (cases gran) (simp_all add: first_day_def)
qed

lemma addWindows_day:
  assumes "- 6 \<le> a"
  shows "addWindows gran (DAY_MS * a) 1 = DAY_MS * next_day gran a"
proof -
  obtain y m d where c: "civil a = (y, m, d)" by (metis surj_pair)
  have y: "1969 \<le> y" using fine_recent[of a] assms c by simp
  then have "year_fine y" "year_fine (y + 1)" by (simp_all add: year_fine_def)
  moreover have "getFullYear utc_zone (DAY_MS * a) = y" "getMonth utc_zone (DAY_MS * a) = m"
    using civil_utc[of "DAY_MS * a" y m d] c by simp_all
  ultimately show ?thesis
    by (cases gran) (simp_all add: addWindows_def next_day_def c new_Date_fine algebra_simps)
qed

text \<open>So a window is the time from its first day to the day after it.\<close>

lemma window_of:
  assumes "0 \<le> anchor"
  shows "\<exists>a b. windowStartOf gran anchor = DAY_MS * a \<and> addWindows gran (DAY_MS * a) 1 = DAY_MS * b \<and>
    - 6 \<le> a \<and> a < b \<and> first_day gran a = a \<and> b = next_day gran a \<and> a \<le> anchor div DAY_MS \<and> anchor div DAY_MS < b"
proof -
  let ?n = "anchor div DAY_MS"
  have n: "0 \<le> ?n" using assms by (simp add: DAY_MS_def)
  have "first_day gran (first_day gran ?n) = first_day gran ?n"
    by (rule first_unique) (use first_le[of gran ?n] next_gt[of ?n gran] in auto)
  moreover have "windowStartOf gran anchor = DAY_MS * first_day gran ?n"
    using fine_recent[of ?n] n by (intro windowStartOf_day) simp
  ultimately show ?thesis
    using addWindows_day[OF first_recent[OF n]] first_recent[OF n, of gran] first_le[of gran ?n] next_gt[of ?n gran]
    by (intro exI[of _ "first_day gran ?n"] exI[of _ "next_day gran (first_day gran ?n)"]) auto
qed

subsection \<open>Every change is in one cell\<close>

lemma counts_filter:
  "nullish (window_counts gran w ts k) 0 =
    length (filter (\<lambda>t. w \<le> t \<and> t < addWindows gran w 1 \<and> keyOf gran w t = k) ts)"
proof -
  let ?f = "\<lambda>counts t. if t < w \<or> t \<ge> addWindows gran w 1 then counts
         else (let k = keyOf gran w t in counts(k \<mapsto> nullish (counts k) 0 + 1))"
  have "nullish (foldl ?f m ts k) 0 = nullish (m k) 0 +
      length (filter (\<lambda>t. w \<le> t \<and> t < addWindows gran w 1 \<and> keyOf gran w t = k) ts)" for m :: "int \<Rightarrow> nat option"
    by (induction ts arbitrary: m) (auto simp: Let_def nullish_def)
  then show ?thesis by (simp add: window_counts_def nullish_def)
qed

lemma parts_sum:
  assumes "distinct ps" "\<And>t. P t \<Longrightarrow> f t \<in> set ps"
  shows "sum_list (map (\<lambda>p. length (filter (\<lambda>t. P t \<and> f t = p) ts)) ps) = length (filter P ts)"
proof (induction ts)
  case (Cons t ts)
  have "sum_list (map (\<lambda>p. length (filter (\<lambda>t. P t \<and> f t = p) (t # ts))) ps) =
      sum_list (map (\<lambda>p. (if P t \<and> f t = p then 1 else 0) + length (filter (\<lambda>t. P t \<and> f t = p) ts)) ps)"
    by (intro arg_cong[where f = sum_list] map_cong) auto
  also have "\<dots> = sum_list (map (\<lambda>p. if P t \<and> f t = p then 1 else 0) ps) + length (filter P ts)"
    by (simp add: sum_list_addf Cons)
  also have "sum_list (map (\<lambda>p. if P t \<and> f t = p then 1 else 0) ps) = (if P t then 1 else 0 :: nat)"
  proof (cases "P t")
    case True
    then show ?thesis using assms(1) assms(2)[OF True]
      by (simp add: sum_list_distinct_conv_sum_set sum.delta')
  qed simp
  finally show ?case by simp
qed simp

text \<open>The cell a time belongs to: its hour of the day, its day of the week, its week and weekday.\<close>

definition cell_of :: "Gran \<Rightarrow> int \<Rightarrow> int \<Rightarrow> int \<times> int" where
  "cell_of gran w t =
     (case gran of
        DayWindow \<Rightarrow> ((t - w) div HOUR_MS, 0)
      | WeekWindow \<Rightarrow> ((t - w) div DAY_MS, 0)
      | _ \<Rightarrow> ((first_day WeekWindow (t div DAY_MS) - first_day WeekWindow (w div DAY_MS)) div 7,
              (t div DAY_MS + 4) mod 7))"

definition cell_pos :: "heat_cell \<Rightarrow> int \<times> int" where
  "cell_pos c = (hc_col c, hc_row c)"

definition cells_exact :: "Gran \<Rightarrow> int \<Rightarrow> int list \<Rightarrow> heat_cell list \<Rightarrow> bool" where
  "cells_exact gran w ts cells \<longleftrightarrow>
     distinct (map cell_pos cells) \<and>
     (\<forall>c\<in>set cells. hc_count c =
       length (filter (\<lambda>t. w \<le> t \<and> t < addWindows gran w 1 \<and> cell_of gran w t = cell_pos c) ts)) \<and>
     (\<forall>t. w \<le> t \<longrightarrow> t < addWindows gran w 1 \<longrightarrow> cell_of gran w t \<in> set (map cell_pos cells))"

lemma cells_exactI:
  assumes xs: "distinct xs" "inj_on p (set xs)"
    and g: "\<And>t. w \<le> t \<Longrightarrow> t < addWindows gran w 1 \<Longrightarrow> g t \<in> set xs \<and> cell_of gran w t = p (g t)"
    and key: "\<And>t x. w \<le> t \<Longrightarrow> t < addWindows gran w 1 \<Longrightarrow> x \<in> set xs \<Longrightarrow> keyOf gran w t = k x \<longleftrightarrow> g t = x"
  shows "cells_exact gran w ts
    (map (\<lambda>x. \<lparr>hc_col = fst (p x), hc_row = snd (p x), hc_count = nullish (window_counts gran w ts (k x)) 0\<rparr>) xs)"
proof -
  let ?cells = "map (\<lambda>x. \<lparr>hc_col = fst (p x), hc_row = snd (p x), hc_count = nullish (window_counts gran w ts (k x)) 0\<rparr>) xs"
  have pos: "map cell_pos ?cells = map p xs" by (simp add: cell_pos_def)
  have "keyOf gran w t = k x \<longleftrightarrow> cell_of gran w t = p x"
    if "w \<le> t" "t < addWindows gran w 1" "x \<in> set xs" for t x
    using key[OF that] g[OF that(1,2)] that(3) xs(2) by (auto dest: inj_onD)
  then have "filter (\<lambda>t. w \<le> t \<and> t < addWindows gran w 1 \<and> keyOf gran w t = k x) ts =
      filter (\<lambda>t. w \<le> t \<and> t < addWindows gran w 1 \<and> cell_of gran w t = p x) ts" if "x \<in> set xs" for x
    using that by (intro filter_cong) auto
  then have "\<forall>c\<in>set ?cells. hc_count c =
      length (filter (\<lambda>t. w \<le> t \<and> t < addWindows gran w 1 \<and> cell_of gran w t = cell_pos c) ts)"
    by (simp add: counts_filter cell_pos_def)
  moreover have "distinct (map cell_pos ?cells)" unfolding pos using xs by (simp add: distinct_map)
  moreover have "\<forall>t. w \<le> t \<longrightarrow> t < addWindows gran w 1 \<longrightarrow> cell_of gran w t \<in> set (map cell_pos ?cells)"
    unfolding pos using g by simp
  ultimately show ?thesis unfolding cells_exact_def by blast
qed

lemma days_between_days: "days_between (DAY_MS * a) (DAY_MS * b) = map (\<lambda>n. DAY_MS * n) [a..b - 1]"
proof (induction "nat (b - a)" arbitrary: a)
  case 0
  then show ?case by (subst days_between.simps) simp
next
  case (Suc n)
  then have "days_between (DAY_MS * (a + 1)) (DAY_MS * b) = map (\<lambda>n. DAY_MS * n) [a + 1..b - 1]" by simp
  moreover have "DAY_MS * a + DAY_MS = DAY_MS * (a + 1)" by (simp add: algebra_simps)
  ultimately show ?case using Suc(2) by (subst days_between.simps, subst upto.simps) simp
qed

definition day_pos :: "int \<Rightarrow> int \<Rightarrow> int \<times> int" where
  "day_pos a n = ((first_day WeekWindow n - first_day WeekWindow a) div 7, (n + 4) mod 7)"

lemma week_start: "first_day WeekWindow n = n - (n + 4) mod 7"
  by (simp add: first_day_def split: prod.splits)

lemma day_pos_inj: "day_pos a m = day_pos a n \<Longrightarrow> m = n"
proof -
  assume eq: "day_pos a m = day_pos a n"
  define A where "A = first_day WeekWindow a"
  define q1 q2 r where "q1 = (m + 4) div 7" and "q2 = (n + 4) div 7" and "r = (m + 4) mod 7"
  have m: "m = 7 * q1 + r - 4" unfolding q1_def r_def by simp
  have r: "(n + 4) mod 7 = r" using eq by (simp add: day_pos_def r_def)
  have n: "n = 7 * q2 + r - 4" unfolding q2_def r[symmetric] by simp
  have "(7 * q1 + (- 4 - A)) div 7 = (7 * q2 + (- 4 - A)) div 7"
    using eq r unfolding day_pos_def week_start A_def[symmetric] r_def[symmetric] by (simp add: m n)
  then have "q1 + (- 4 - A) div 7 = q2 + (- 4 - A) div 7" by (simp add: div_add1_eq)
  then show "m = n" by (simp add: m n)
qed

lemma js_round_int: "js_round (of_int k) = k"
proof -
  have "js_round (of_int k) = \<lfloor>of_int k + 1 / 2 :: rat\<rfloor>" by (simp add: js_round_def)
  also have "\<dots> = k" by (rule floor_unique) simp_all
  finally show ?thesis .
qed

lemma week_col_day:
  assumes "- 6 \<le> a" "- 6 \<le> n"
  shows "week_col (startOfWeek (DAY_MS * a)) (DAY_MS * n) = (first_day WeekWindow n - first_day WeekWindow a) div 7"
proof -
  define j where "j = (first_day WeekWindow n - first_day WeekWindow a) div 7"
  have "first_day WeekWindow n - first_day WeekWindow a = 7 * j" unfolding j_def week_start by presburger
  moreover have "startOfWeek (DAY_MS * n) = DAY_MS * first_day WeekWindow n"
      "startOfWeek (DAY_MS * a) = DAY_MS * first_day WeekWindow a"
    using startOfWeek_day[of "DAY_MS * n"] startOfWeek_day[of "DAY_MS * a"] fine_recent[of n] fine_recent[of a] assms
    by simp_all
  ultimately have "startOfWeek (DAY_MS * n) - startOfWeek (DAY_MS * a) = 7 * DAY_MS * j" by (simp add: algebra_simps)
  then have "of_int (startOfWeek (DAY_MS * n) - startOfWeek (DAY_MS * a)) / of_int (7 * DAY_MS) = (of_int j :: rat)"
    by simp
  then show ?thesis unfolding week_col_def j_def[symmetric] by (simp only: js_round_int)
qed

lemma upto_mem: "x \<in> set [i..j] \<longleftrightarrow> i \<le> x \<and> x \<le> (j :: int)"
  by simp

lemma div_in: "0 < (d :: int) \<Longrightarrow> w \<le> t \<Longrightarrow> t < w + n * d \<Longrightarrow> 0 \<le> (t - w) div d \<and> (t - w) div d \<le> n - 1"
  using mult_le_div_iff[of d n "t - w"] by (simp add: pos_imp_zdiv_nonneg_iff mult.commute not_le[symmetric])

lemma day_cells:
  assumes "addWindows DayWindow w 1 = w + DAY_MS"
  shows "cells_exact DayWindow w ts
    (map (\<lambda>h. \<lparr>hc_col = h, hc_row = 0, hc_count = nullish (window_counts DayWindow w ts (w + h * HOUR_MS)) 0\<rparr>) [0..23])"
proof -
  have e: "w + DAY_MS = w + 24 * HOUR_MS" and h: "0 < HOUR_MS" by (simp_all add: DAY_MS_def HOUR_MS_def)
  have "cells_exact DayWindow w ts (map (\<lambda>x. \<lparr>hc_col = fst (x, 0 :: int), hc_row = snd (x, 0 :: int),
      hc_count = nullish (window_counts DayWindow w ts (w + x * HOUR_MS)) 0\<rparr>) [0..23])"
  proof (rule cells_exactI[where g = "\<lambda>t. (t - w) div HOUR_MS" and p = "\<lambda>x. (x, 0)"])
    fix t assume t: "w \<le> t" "t < addWindows DayWindow w 1"
    show "(t - w) div HOUR_MS \<in> set [0..23] \<and> cell_of DayWindow w t = ((t - w) div HOUR_MS, 0)"
      using div_in[of HOUR_MS w t 24] t h assms e unfolding upto_mem by (simp add: cell_of_def)
    show "keyOf DayWindow w t = w + x * HOUR_MS \<longleftrightarrow> (t - w) div HOUR_MS = x" for x
      using h by (auto simp: keyOf_def)
  qed (simp_all only: distinct_upto, simp add: inj_on_def)
  then show ?thesis by (simp only: fst_conv snd_conv)
qed

lemma week_cells:
  assumes w: "w = DAY_MS * a" "- 6 \<le> a"
  shows "cells_exact WeekWindow w ts
    (map (\<lambda>i. \<lparr>hc_col = i, hc_row = 0, hc_count = nullish (window_counts WeekWindow w ts (w + i * DAY_MS)) 0\<rparr>) [0..6])"
proof -
  have e: "addWindows WeekWindow w 1 = w + 7 * DAY_MS" by (simp add: addWindows_def)
  have "cells_exact WeekWindow w ts (map (\<lambda>x. \<lparr>hc_col = fst (x, 0 :: int), hc_row = snd (x, 0 :: int),
      hc_count = nullish (window_counts WeekWindow w ts (w + x * DAY_MS)) 0\<rparr>) [0..6])"
  proof (rule cells_exactI[where g = "\<lambda>t. (t - w) div DAY_MS" and p = "\<lambda>x. (x, 0)"])
    fix t assume t: "w \<le> t" "t < addWindows WeekWindow w 1"
    show "(t - w) div DAY_MS \<in> set [0..6] \<and> cell_of WeekWindow w t = ((t - w) div DAY_MS, 0)"
      using div_in[of DAY_MS w t 7] t e unfolding upto_mem by (simp add: cell_of_def)
    have d: "t div DAY_MS = a + (t - w) div DAY_MS"
      using div_mult_self1[of DAY_MS "t - w" a] by (simp add: w algebra_simps)
    have "0 \<le> (t - w) div DAY_MS" using t(1) by (simp add: pos_imp_zdiv_nonneg_iff)
    then have "keyOf WeekWindow w t = DAY_MS * (t div DAY_MS)"
      using startOfDay_day[of t] fine_recent[of "t div DAY_MS"] w d by (simp add: keyOf_def)
    also have "\<dots> = w + (t - w) div DAY_MS * DAY_MS" by (simp add: d w algebra_simps)
    finally show "keyOf WeekWindow w t = w + x * DAY_MS \<longleftrightarrow> (t - w) div DAY_MS = x" for x by auto
  qed (simp_all only: distinct_upto, simp add: inj_on_def)
  then show ?thesis by (simp only: fst_conv snd_conv)
qed

lemma calendar_cells:
  assumes g: "gran = MonthWindow \<or> gran = YearWindow"
    and w: "- 6 \<le> a" "addWindows gran (DAY_MS * a) 1 = DAY_MS * b"
  defines "w \<equiv> DAY_MS * a"
  shows "cells_exact gran w ts
    (map (calendar_cell (window_counts gran w ts) (startOfWeek w)) (days_between w (DAY_MS * b)))"
proof -
  let ?c = "\<lambda>n. \<lparr>hc_col = fst (day_pos a n), hc_row = snd (day_pos a n),
      hc_count = nullish (window_counts gran w ts (DAY_MS * n)) 0\<rparr>"
  have "calendar_cell (window_counts gran w ts) (startOfWeek w) (DAY_MS * n) = ?c n" if "a \<le> n" for n
    using week_col_day[OF w(1), of n] startOfDay_day[of "DAY_MS * n"] fine_recent[of n] that w(1)
    by (simp add: calendar_cell_def w_def day_pos_def getDay_utc)
  then have cells: "map (calendar_cell (window_counts gran w ts) (startOfWeek w)) (days_between w (DAY_MS * b)) =
      map ?c [a..b - 1]"
    by (simp add: w_def days_between_days)
  show ?thesis unfolding cells
  proof (rule cells_exactI[where g = "\<lambda>t. t div DAY_MS"])
    show "inj_on (day_pos a) (set [a..b - 1])" by (rule inj_onI) (rule day_pos_inj)
    fix t assume t: "w \<le> t" "t < addWindows gran w 1"
    have n: "a \<le> t div DAY_MS" "t div DAY_MS \<le> b - 1"
      using div_in[of DAY_MS w t "b - a"] t w(2) div_mult_self1[of DAY_MS "t - w" a]
      by (simp_all add: w_def algebra_simps)
    then show "t div DAY_MS \<in> set [a..b - 1] \<and> cell_of gran w t = day_pos a (t div DAY_MS)"
      using g unfolding upto_mem by (auto simp: cell_of_def day_pos_def w_def)
    have "keyOf gran w t = DAY_MS * (t div DAY_MS)"
      using g startOfDay_day[of t] fine_recent[of "t div DAY_MS"] n(1) w(1) by (auto simp: keyOf_def)
    then show "keyOf gran w t = DAY_MS * x \<longleftrightarrow> t div DAY_MS = x" for x by auto
  qed simp
qed

lemma built_cells:
  fixes gran :: Gran
  assumes "0 \<le> anchor"
  defines "w \<equiv> windowStartOf gran anchor"
  shows "cells_exact gran w ts (bu_cells (buildWindow tr ts gran w))"
proof -
  obtain a b where ab: "w = DAY_MS * a" "addWindows gran (DAY_MS * a) 1 = DAY_MS * b" "- 6 \<le> a"
    using window_of[OF assms(1), of gran] by (auto simp: w_def)
  show ?thesis
  proof (cases gran)
    case DayWindow
    then show ?thesis using day_cells[of w ts] by (simp add: buildWindow_def Let_def addWindows_def)
  next
    case WeekWindow
    then show ?thesis using week_cells[OF ab(1,3), of ts] by (simp add: buildWindow_def Let_def)
  next
    case MonthWindow
    then show ?thesis using calendar_cells[OF _ ab(3,2), of ts] ab by (simp add: buildWindow_def Let_def)
  next
    case YearWindow
    then show ?thesis using calendar_cells[OF _ ab(3,2), of ts] ab by (simp add: buildWindow_def Let_def)
  qed
qed

lemma foldl_sum: "foldl (\<lambda>n c. n + f c) (n :: nat) cs = n + sum_list (map f cs)"
  by (induction cs arbitrary: n) simp_all

lemma built_total: "bu_total (buildWindow tr ts gran w) = sum_list (map hc_count (bu_cells (buildWindow tr ts gran w)))"
  by (simp add: buildWindow_def Let_def foldl_sum)

text \<open>
  C32. In a window around any moment since 1970 the cells have different places, every change of the
  window has its place among them, each cell counts exactly the changes of its hour, its day of the week
  or its day of the calendar, and the total is the number of changes in the window.
\<close>

theorem heat_map_counts:
  fixes gran :: Gran and tr :: catalog and ts :: "int list"
  assumes "0 \<le> anchor"
  defines "w \<equiv> windowStartOf gran anchor"
  defines "inside \<equiv> \<lambda>t. w \<le> t \<and> t < addWindows gran w 1"
  defines "b \<equiv> buildWindow tr ts gran w"
  shows "inside anchor \<and> distinct (map cell_pos (bu_cells b)) \<and>
    (\<forall>c\<in>set (bu_cells b). hc_count c = length (filter (\<lambda>t. inside t \<and> cell_of gran w t = cell_pos c) ts)) \<and>
    (\<forall>t. inside t \<longrightarrow> cell_of gran w t \<in> cell_pos ` set (bu_cells b)) \<and>
    bu_total b = length (filter inside ts)"
proof -
  have ex: "cells_exact gran w ts (bu_cells b)" unfolding b_def w_def by (rule built_cells[OF assms(1)])
  obtain a e where "w = DAY_MS * a" "addWindows gran w 1 = DAY_MS * e" "a \<le> anchor div DAY_MS" "anchor div DAY_MS < e"
    using window_of[OF assms(1), of gran] by (auto simp: w_def)
  moreover from this have "DAY_MS * a \<le> anchor" "anchor < DAY_MS * e" by (simp_all add: days_iff)
  ultimately have "inside anchor" by (simp add: inside_def)
  moreover have "bu_total b = length (filter inside ts)"
  proof -
    have "map hc_count (bu_cells b) =
        map (\<lambda>p. length (filter (\<lambda>t. inside t \<and> cell_of gran w t = p) ts)) (map cell_pos (bu_cells b))"
      using ex by (simp add: cells_exact_def inside_def)
    then show ?thesis
      using parts_sum[of "map cell_pos (bu_cells b)" inside "cell_of gran w" ts] ex
      by (simp only: built_total b_def) (simp add: cells_exact_def inside_def)
  qed
  ultimately show ?thesis using ex unfolding cells_exact_def inside_def by auto
qed

subsection \<open>The line of windows\<close>

lemma day_number_ge: "0 \<le> k \<Longrightarrow> k \<le> 12 \<Longrightarrow> before_year y - EPOCH \<le> day_number y k 1"
proof -
  assume k: "0 \<le> k" "k \<le> 12"
  have m: "0 \<le> k mod 12" "k mod 12 < 12" by simp_all
  have "valid_civil (y + k div 12) (k mod 12) 1"
    using month_len_bounds[OF m, of "y + k div 12"] m by (simp add: valid_civil_def)
  then have "0 \<le> before_month (y + k div 12) (k mod 12)" using before_month_bounds by simp
  moreover have "before_year y \<le> before_year (y + k div 12)"
  proof -
    have "0 \<le> k div 12" using k(1) by (simp add: pos_imp_zdiv_nonneg_iff)
    then show ?thesis using before_year_mono[of y "y + k div 12"] by simp
  qed
  ultimately show ?thesis by (simp add: day_number_def Let_def)
qed

lemma addWindows_gt: "w < addWindows gran w 1"
proof -
  obtain y m d where c: "civil (w div DAY_MS) = (y, m, d)" by (metis surj_pair)
  have v: "0 \<le> m" "m < 12" using day_number_civil[OF c] by (auto simp: valid_civil_def)
  have "w div DAY_MS < day_number y (m + 1) 1"
    using first_in_month[OF c] next_month[of y m] v by simp
  then have same: "w < DAY_MS * day_number y (m + 1) 1" by (simp add: days_iff)
  have late: "w < DAY_MS * day_number Y k 1" if "y + 1 \<le> Y" "0 \<le> k" "k \<le> 12" for Y k
    using year_bounds[OF c] day_number_ge[OF that(2,3), of Y] before_year_mono[OF that(1)] that(1) by (simp add: days_iff)
  show ?thesis using same late[of "1900 + y"] late[of "y + 1"] late[of "1900 + (y + 1)"] v
    by (cases gran) (auto simp: addWindows_def new_Date_def civil_utc[OF c] DAY_MS_def)
qed

function heat_windows :: "Gran \<Rightarrow> int list \<Rightarrow> int \<Rightarrow> int \<Rightarrow> (int \<times> nat) list" where
  "heat_windows gran timestamps w maxWin =
     (if w \<le> maxWin
      then (w, length (filter (\<lambda>t. t \<ge> w \<and> t < addWindows gran w 1) timestamps))
             # heat_windows gran timestamps (addWindows gran w 1) maxWin
      else [])"
  by auto
termination
  by (relation "measure (\<lambda>(gran, ts, w, maxWin). nat (maxWin + 1 - w))")
    (use addWindows_gt in \<open>auto simp: nat_less_iff intro: nat_mono_iff[THEN iffD2]\<close>)

declare heat_windows.simps [simp del]

definition clamp_window :: "Gran \<Rightarrow> int \<Rightarrow> int \<Rightarrow> int \<Rightarrow> int" where
  "clamp_window gran createdMs lastMs anchorMs =
     min (windowStartOf gran lastMs) (max (windowStartOf gran createdMs) (windowStartOf gran anchorMs))"

lemma window_start_cases:
  assumes "0 \<le> t"
  shows "\<exists>a. windowStartOf gran t = DAY_MS * a \<and> - 6 \<le> a \<and> first_day gran a = a"
  using window_of[OF assms, of gran] by blast

text \<open>Windows do not overlap: a window that starts after another starts after its end.\<close>

lemma next_window:
  assumes "- 6 \<le> a" "first_day gran a = a" "first_day gran b = b" "a < b"
  shows "next_day gran a \<le> b"
proof (rule ccontr)
  assume "\<not> next_day gran a \<le> b"
  then have "first_day gran b = first_day gran a"
    using assms by (intro first_unique) simp_all
  then show False using assms by simp
qed

lemma first_next:
  assumes "- 6 \<le> a" "first_day gran a = a"
  shows "first_day gran (next_day gran a) = next_day gran a" "- 6 \<le> next_day gran a" "a < next_day gran a"
proof -
  show less: "a < next_day gran a" using next_gt[of a gran] assms(2) by simp
  then show "- 6 \<le> next_day gran a" using assms(1) by simp
  show "first_day gran (next_day gran a) = next_day gran a"
  proof (rule ccontr)
    let ?b = "next_day gran a" and ?c = "first_day gran (next_day gran a)"
    assume "?c \<noteq> ?b"
    then have c: "?c < ?b" using first_le[of gran ?b] by simp
    have cc: "first_day gran ?c = ?c"
      by (rule first_unique) (use first_le[of gran ?b] next_gt[of ?b gran] in auto)
    show False
    proof (cases "?c \<le> a")
      case True
      then have "first_day gran a = ?c" using next_gt[of ?b gran] less by (intro first_unique) simp_all
      then have "?c = a" using assms(2) by simp
      then show False using next_gt[of ?b gran] by simp
    next
      case False
      then have "first_day gran ?c = first_day gran a" using c assms(2) by (intro first_unique) simp_all
      then show False using cc False assms(2) by simp
    qed
  qed
qed

text \<open>The windows from \<open>a\<close> on: each starts where the one before it ends, and none is left out.\<close>

definition chained :: "Gran \<Rightarrow> int list \<Rightarrow> bool" where
  "chained gran ws \<longleftrightarrow> (\<forall>i. Suc i < length ws \<longrightarrow> ws ! Suc i = addWindows gran (ws ! i) 1)"

lemma chained_Cons: "chained gran (w # ws) \<longleftrightarrow> (ws \<noteq> [] \<longrightarrow> hd ws = addWindows gran w 1) \<and> chained gran ws"
  by (cases ws) (auto simp: chained_def nth_Cons split: nat.splits)

lemma filter_parts:
  fixes lo mid hi :: int
  assumes "lo < mid" "mid \<le> hi"
  shows "length (filter (\<lambda>t. lo \<le> t \<and> t < mid) ts) + length (filter (\<lambda>t. mid \<le> t \<and> t < hi) ts) =
    length (filter (\<lambda>t. lo \<le> t \<and> t < hi) ts)"
  using assms by (induction ts) auto

lemma heat_windows_run:
  assumes "- 6 \<le> a" "first_day gran a = a" "first_day gran b = b" "a \<le> b"
  shows "(let ws = heat_windows gran ts (DAY_MS * a) (DAY_MS * b) in
    ws \<noteq> [] \<and> fst (hd ws) = DAY_MS * a \<and> fst (last ws) = DAY_MS * b \<and> chained gran (map fst ws) \<and>
    (\<forall>c. first_day gran c = c \<longrightarrow> a \<le> c \<longrightarrow> c \<le> b \<longrightarrow> DAY_MS * c \<in> fst ` set ws) \<and>
    sum_list (map snd ws) = length (filter (\<lambda>t. DAY_MS * a \<le> t \<and> t < addWindows gran (DAY_MS * b) 1) ts))"
  using assms
proof (induction "nat (b - a)" arbitrary: a rule: less_induct)
  case less
  define n where "n = next_day gran a"
  note n = first_next[OF less(2,3), folded n_def]
  have add: "addWindows gran (DAY_MS * a) 1 = DAY_MS * n" using addWindows_day[OF less(2)] by (simp add: n_def)
  have here: "heat_windows gran ts (DAY_MS * a) (DAY_MS * b) =
      (DAY_MS * a, length (filter (\<lambda>t. DAY_MS * a \<le> t \<and> t < DAY_MS * n) ts)) # heat_windows gran ts (DAY_MS * n) (DAY_MS * b)"
    using less(5) by (subst heat_windows.simps) (simp add: add)
  show ?case
  proof (cases "a = b")
    case True
    have "heat_windows gran ts (DAY_MS * n) (DAY_MS * b) = []"
      using n(3) True by (subst heat_windows.simps) simp
    then show ?thesis using here True add by (auto simp: chained_def Let_def)
  next
    case False
    then have nb: "n \<le> b" using next_window[OF less(2,3,4)] less(5) by (simp add: n_def)
    have IH: "let ws = heat_windows gran ts (DAY_MS * n) (DAY_MS * b) in
      ws \<noteq> [] \<and> fst (hd ws) = DAY_MS * n \<and> fst (last ws) = DAY_MS * b \<and> chained gran (map fst ws) \<and>
      (\<forall>c. first_day gran c = c \<longrightarrow> n \<le> c \<longrightarrow> c \<le> b \<longrightarrow> DAY_MS * c \<in> fst ` set ws) \<and>
      sum_list (map snd ws) = length (filter (\<lambda>t. DAY_MS * n \<le> t \<and> t < addWindows gran (DAY_MS * b) 1) ts)"
      by (rule less(1)) (use n nb less(4) in auto)
    have inside: "DAY_MS * c \<in> fst ` set (heat_windows gran ts (DAY_MS * a) (DAY_MS * b))"
      if c: "first_day gran c = c" "a \<le> c" "c \<le> b" for c
    proof (cases "a = c")
      case True
      then show ?thesis unfolding here by simp
    next
      case False
      then have "n \<le> c" using next_window[OF less(2,3) c(1)] c(2) by (simp add: n_def)
      then show ?thesis using IH c unfolding here by (auto simp: Let_def)
    qed
    have "DAY_MS * n \<le> DAY_MS * b" using nb by simp
    then have le: "DAY_MS * n \<le> addWindows gran (DAY_MS * b) 1" using addWindows_gt[of "DAY_MS * b" gran] by linarith
    have "DAY_MS * a < DAY_MS * n" using n(3) by simp
    then have "length (filter (\<lambda>t. DAY_MS * a \<le> t \<and> t < DAY_MS * n) ts) +
        length (filter (\<lambda>t. DAY_MS * n \<le> t \<and> t < addWindows gran (DAY_MS * b) 1) ts) =
        length (filter (\<lambda>t. DAY_MS * a \<le> t \<and> t < addWindows gran (DAY_MS * b) 1) ts)"
      using le by (rule filter_parts)
    then show ?thesis using IH inside by (simp add: here Let_def chained_Cons add hd_map)
  qed
qed

lemma dot_window:
  assumes "- 6 \<le> a" "first_day gran a = a" "s \<in> fst ` set (heat_windows gran ts (DAY_MS * a) hi)"
  shows "DAY_MS * a \<le> s \<and> s \<le> hi \<and> (\<exists>n. s = DAY_MS * n \<and> first_day gran n = n)"
  using assms
proof (induction "nat (hi - DAY_MS * a)" arbitrary: a rule: less_induct)
  case less
  define n where "n = next_day gran a"
  note n = first_next[OF less(2,3), folded n_def]
  have add: "addWindows gran (DAY_MS * a) 1 = DAY_MS * n" using addWindows_day[OF less(2)] by (simp add: n_def)
  have le: "DAY_MS * a \<le> hi" using less(4) by (subst (asm) heat_windows.simps) (auto split: if_splits)
  consider "s = DAY_MS * a" | "s \<in> fst ` set (heat_windows gran ts (DAY_MS * n) hi)"
    using less(4) le by (subst (asm) heat_windows.simps) (auto simp: add)
  then show ?case
  proof cases
    case 1
    then show ?thesis using le less(3) by auto
  next
    case 2
    have lt: "DAY_MS * a < DAY_MS * n" using n(3) by simp
    have "DAY_MS * n \<le> hi" using 2 by (subst (asm) heat_windows.simps) (auto split: if_splits)
    then have "nat (hi - DAY_MS * n) < nat (hi - DAY_MS * a)" using lt by linarith
    then have "DAY_MS * n \<le> s \<and> s \<le> hi \<and> (\<exists>n. s = DAY_MS * n \<and> first_day gran n = n)"
      by (rule less(1)) (use n 2 in auto)
    then show ?thesis using lt by auto
  qed
qed

subsection \<open>The chart\<close>

text \<open>
  The state is the granularity and the anchor, which the toggle and a click on a dot set. A missing or
  unreadable end of the span is the clock; \<open>parse\<close> is \<open>Date.parse\<close>.
\<close>

record activity_report =
  ar_timestamps :: "string option list"
  ar_createdOn :: "string option"
  ar_lastChange :: "string option"

record heat_state =
  hs_gran :: Gran
  hs_anchor :: int

definition report_ms :: "(string \<Rightarrow> int) \<Rightarrow> int \<Rightarrow> string option \<Rightarrow> int" where
  "report_ms parse now s = (if truthy s then parse (the s) else now)"

definition timestamps_of :: "(string \<Rightarrow> int option) \<Rightarrow> activity_report \<Rightarrow> int list" where
  "timestamps_of parse r = List.map_filter (\<lambda>s. if truthy s then parse (the s) else None) (ar_timestamps r)"

definition recent_changes :: "int \<Rightarrow> int list \<Rightarrow> nat \<times> nat" where
  "recent_changes now timestamps =
     (length (filter (\<lambda>t. t \<ge> startOfDay now - DAY_MS) timestamps), length (filter (\<lambda>t. t \<ge> startOfWeek now) timestamps))"

definition heat_init :: "int \<Rightarrow> heat_state" where
  "heat_init lastMs = \<lparr>hs_gran = YearWindow, hs_anchor = lastMs\<rparr>"

datatype heat_event = SetGran "Gran option" | ClickDot int

fun heat_step :: "heat_event \<Rightarrow> heat_state \<Rightarrow> heat_state" where
  "heat_step (SetGran g) s = (case g of None \<Rightarrow> s | Some g \<Rightarrow> s\<lparr>hs_gran := g\<rparr>)"
| "heat_step (ClickDot start) s = s\<lparr>hs_anchor := start\<rparr>"

definition level :: "nat \<Rightarrow> nat \<Rightarrow> nat" where
  "level most n =
     (if n = 0 \<or> most = 0 then 0 else max 1 (min 4 (nat \<lceil>of_nat n / of_nat most * (4 :: rat)\<rceil>)))"

definition tile_width :: "Gran \<Rightarrow> rat" where
  "tile_width gran = (case gran of DayWindow \<Rightarrow> 14 | WeekWindow \<Rightarrow> 28 | MonthWindow \<Rightarrow> 18 | YearWindow \<Rightarrow> 13)"

definition heightOf :: "Gran \<Rightarrow> nat \<Rightarrow> nat \<Rightarrow> rat" where
  "heightOf gran maxCount n =
     (if n = 0 \<or> maxCount = 0 then 0
      else max (tile_width gran * (28 / 100)) (of_nat n / of_nat maxCount * (tile_width gran * (22 / 10))))"

type_synonym point = "rat \<times> rat"

definition proj :: "Gran \<Rightarrow> int \<Rightarrow> int \<Rightarrow> point" where
  "proj gran col row = (of_int (col - row) * (tile_width gran / 2), of_int (col + row) * (tile_width gran / 2 / 2))"

text \<open>The corners of a tile's floor and of its top: back, right, front, left.\<close>

definition corners :: "Gran \<Rightarrow> nat \<Rightarrow> heat_cell \<Rightarrow> point list \<times> point list" where
  "corners gran maxCount c =
     (case proj gran (hc_col c) (hc_row c) of (cx, cy) \<Rightarrow>
        (let tw = tile_width gran; th = tw / 2; h = heightOf gran maxCount (hc_count c);
             base = [(cx, cy - th / 2), (cx + tw / 2, cy), (cx, cy + th / 2), (cx - tw / 2, cy)]
         in (base, map (\<lambda>(x, y). (x, y - h)) base)))"

text \<open>The faces of a cell, each with the colour step of its count: one tile, or the left, the right and the top of a bar.\<close>

definition faces_of :: "Gran \<Rightarrow> nat \<Rightarrow> heat_cell \<Rightarrow> (nat \<times> point list) list" where
  "faces_of gran maxCount c =
     (case corners gran maxCount c of (f, u) \<Rightarrow>
        (let k = level maxCount (hc_count c)
         in if heightOf gran maxCount (hc_count c) = 0 then [(k, f)]
            else [(k, [f ! 3, f ! 2, u ! 2, u ! 3]), (k, [f ! 2, f ! 1, u ! 1, u ! 2]), (k, u)]))"

definition cmp_depth :: "heat_cell \<Rightarrow> heat_cell \<Rightarrow> int" where
  "cmp_depth a b =
     (let d = hc_col a + hc_row a - (hc_col b + hc_row b) in if d \<noteq> 0 then d else hc_row a - hc_row b)"

definition ordered_cells :: "heat_cell list \<Rightarrow> heat_cell list" where
  "ordered_cells cells = js_sort cmp_depth cells"

definition label_points :: "(string \<Rightarrow> rat) \<Rightarrow> Gran \<Rightarrow> Built \<Rightarrow> point list" where
  "label_points text_length gran b =
     (let tw = tile_width gran; fontSize = max 7 (tw * (42 / 100))
      in concat (map (\<lambda>(col, text). case proj gran col 0 of (cx, cy) \<Rightarrow>
             (let y = cy - tw / 2 / 2 - fontSize * (6 / 10)
              in [(cx, y), (cx + text_length text * fontSize * (6 / 10), y)])) (bu_top b)) @
         concat (map (\<lambda>(row, text). case proj gran 0 row of (cx, cy) \<Rightarrow>
             (let x = cx - tw * (7 / 10); y = cy + fontSize * (35 / 100)
              in [(x, y), (x - text_length text * fontSize * (6 / 10), y)])) (bu_left b)))"

text \<open>The viewBox (left, top, width, height) and the natural size of the picture, if there are cells.\<close>

definition svg_box :: "(string \<Rightarrow> rat) \<Rightarrow> Gran \<Rightarrow> Built \<Rightarrow> ((rat \<times> rat \<times> rat \<times> rat) \<times> rat \<times> rat) option" where
  "svg_box text_length gran b =
     (if bu_cells b = [] then None
      else let pts = concat (map (\<lambda>c. case corners gran (bu_maxCount b) c of (f, u) \<Rightarrow> f @ u) (ordered_cells (bu_cells b)))
                     @ label_points text_length gran b;
               minX = Min (set (map fst pts)); maxX = Max (set (map fst pts));
               minY = Min (set (map snd pts)); maxY = Max (set (map snd pts));
               pad = tile_width gran; w = maxX - minX + pad * 2; hgt = maxY - minY + pad * 2;
               larger = max w hgt;
               scale = (if larger > 1200 then 1200 / larger else if larger < 800 then 800 / larger else 1)
           in Some ((minX - pad, minY - pad, w, hgt), w * scale, hgt * scale))"

text \<open>The height and width of the drawn chart in a pane of a measured size.\<close>

definition chart_size :: "(rat \<times> rat) option \<Rightarrow> rat \<Rightarrow> bool \<Rightarrow> rat \<times> rat \<Rightarrow> rat \<times> rat" where
  "chart_size svg scale fit avail =
     (case avail of (aw, ah) \<Rightarrow>
        (let aspect = (case svg of None \<Rightarrow> 1 | Some (w, h) \<Rightarrow> w / h);
             fillH = (if ah > 0 then ah else case svg of None \<Rightarrow> 0 | Some (w, h) \<Rightarrow> h) * scale;
             chartH = (if fit \<and> aw > 0 then max (min fillH (aw / aspect)) (min fillH FIT_MIN_H) else fillH)
         in (chartH * aspect, chartH)))"

lemma level_range: "level most n \<le> 4" "level most n = 0 \<longleftrightarrow> n = 0 \<or> most = 0" "0 < n \<Longrightarrow> level n n = 4"
  by (simp_all add: level_def)

text \<open>In \<open>fit\<close> mode a chart is wider than the pane only at the least height.\<close>

lemma fit_fits:
  assumes "chart_size (Some (w, h)) scale True (aw, ah) = (cw, ch)" "0 < aw" "0 < w" "0 < h"
  shows "cw \<le> aw \<or> ch \<le> FIT_MIN_H"
proof -
  let ?fill = "(if ah > 0 then ah else h) * scale" and ?asp = "w / h"
  have ch: "ch = max (min ?fill (aw / ?asp)) (min ?fill FIT_MIN_H)" and cw: "cw = ch * ?asp"
    using assms(1,2) by (auto simp: chart_size_def Let_def)
  show ?thesis
  proof (cases "ch \<le> FIT_MIN_H")
    case False
    then have "ch \<le> aw / ?asp" unfolding ch by (simp add: max_def min_def split: if_splits)
    then have "ch * ?asp \<le> aw" using assms(3,4) by (simp add: field_simps)
    then show ?thesis using cw by simp
  qed simp
qed

text \<open>
  For a design created at or after 1970 and last changed no earlier, the dots are the windows from
  the one of its creation to the one of its last change, each starting where the one before it ends;
  their counts add up to the changes in that span; the window on screen is one of the dots, whatever
  the anchor; and a click on a dot brings its window on screen.
\<close>

theorem heat_line_tiles:
  fixes gran :: Gran and ts :: "int list"
  assumes "0 \<le> created" "created \<le> lastMs" "0 \<le> anchor"
  defines "lo \<equiv> windowStartOf gran created" and "hi \<equiv> windowStartOf gran lastMs"
  defines "ws \<equiv> heat_windows gran ts lo hi"
  shows "ws \<noteq> [] \<and> fst (hd ws) = lo \<and> fst (last ws) = hi \<and> chained gran (map fst ws) \<and>
    sum_list (map snd ws) = length (filter (\<lambda>t. lo \<le> t \<and> t < addWindows gran hi 1) ts) \<and>
    clamp_window gran created lastMs anchor \<in> fst ` set ws \<and>
    (\<forall>s\<in>fst ` set ws. clamp_window gran created lastMs s = s)"
proof -
  have starts: "\<exists>a. windowStartOf gran t = DAY_MS * a \<and> - 6 \<le> a \<and> first_day gran a = a" if "0 \<le> t" for t
    using window_start_cases[OF that] .
  obtain a where a: "lo = DAY_MS * a" "- 6 \<le> a" "first_day gran a = a" using starts[OF assms(1)] by (auto simp: lo_def)
  obtain b where b: "hi = DAY_MS * b" "- 6 \<le> b" "first_day gran b = b"
    using starts[of lastMs] assms(1,2) by (auto simp: hi_def)
  obtain c where c: "windowStartOf gran anchor = DAY_MS * c" "- 6 \<le> c" "first_day gran c = c"
    using starts[OF assms(3)] by auto
  have ab: "a \<le> b"
  proof (rule ccontr)
    assume "\<not> a \<le> b"
    then have "next_day gran b \<le> a" using next_window[OF b(2,3) a(3)] by simp
    moreover obtain e where "addWindows gran hi 1 = DAY_MS * e" "e = next_day gran b" "lastMs div DAY_MS < e"
      using window_of[of lastMs gran] assms(1,2) b(1) by (auto simp: hi_def)
    moreover have "a \<le> created div DAY_MS" using window_of[OF assms(1), of gran] a(1) by (auto simp: lo_def)
    ultimately show False using zdiv_mono1[OF assms(2), of DAY_MS] by simp
  qed
  note run = heat_windows_run[OF a(2,3) b(3) ab, of ts, folded a(1) b(1), folded ws_def]
  have clamp: "clamp_window gran created lastMs x = DAY_MS * min b (max a n)" if "windowStartOf gran x = DAY_MS * n" for x n
    using a(1) b(1) that by (auto simp: clamp_window_def lo_def hi_def min_def max_def)
  have "first_day gran (min b (max a c)) = min b (max a c)" "a \<le> min b (max a c)" "min b (max a c) \<le> b"
    using a b c ab by (auto simp: min_def max_def)
  then have sel: "clamp_window gran created lastMs anchor \<in> fst ` set ws"
    using run clamp[OF c(1)] by (auto simp: Let_def)
  have "clamp_window gran created lastMs s = s" if s: "s \<in> fst ` set ws" for s
  proof -
    have "lo \<le> s \<and> s \<le> hi \<and> (\<exists>n. s = DAY_MS * n \<and> first_day gran n = n)"
      using dot_window[OF a(2,3)] s by (auto simp: ws_def a(1) b(1))
    then obtain n where n: "s = DAY_MS * n" "first_day gran n = n" "a \<le> n" "n \<le> b" using a(1) b(1) by auto
    then have "windowStartOf gran s = DAY_MS * n"
      using windowStartOf_day[of s gran] fine_recent[of n] a(2) by simp
    then show ?thesis using clamp n by (simp add: min_def max_def)
  qed
  then show ?thesis using run sel by (auto simp: Let_def)
qed

lemma heat_map_counts_witness:
  "(0 :: int) \<le> 86400000 \<and>
   bu_total (buildWindow (\<lambda>k n. k) [86400005, 90000000, 200000000] DayWindow (windowStartOf DayWindow 86400000)) =
     length (filter (\<lambda>t. windowStartOf DayWindow 86400000 \<le> t \<and>
       t < addWindows DayWindow (windowStartOf DayWindow 86400000) 1) [86400005, 90000000, 200000000])"
  using heat_map_counts[of 86400000 DayWindow "\<lambda>k n. k" "[86400005, 90000000, 200000000]"] by simp

lemma heat_line_tiles_witness:
  "(0 :: int) \<le> 0 \<and> (0 :: int) \<le> 200000000 \<and> (0 :: int) \<le> 100000000 \<and>
   heat_windows DayWindow [5, 86400000] (windowStartOf DayWindow 0) (windowStartOf DayWindow 200000000) \<noteq> []"
  using heat_line_tiles[of 0 200000000 100000000 DayWindow "[5, 86400000]"] by simp

end
