(* ===== verification/Production.thy ===== *)
theory Production
  imports Pins FileViewers Calendar
begin

section \<open>Production jobs\<close>

text \<open>
  The client's side of production (\<open>production/*.ts\<close> and \<open>.tsx\<close>, the flow canvas apart): the DTOs,
  what the record of a run shows, the run timeline, the cross-project screen, the text fields that edit
  a name while the job is fetched again behind them, and the button that supplies a document. A call of
  a mutation of \<open>useJobGraphMutations\<close> or \<open>useBatchMutations\<close> is a value; the requests behind
  them are in \<open>QueryWrites\<close>. \<open>Date.parse\<close>, \<open>toISOString\<close> and the catalog are parameters.
\<close>

subsection \<open>Types\<close>

record prod_user =
  pu_id :: string
  pu_name :: "string option"
  pu_email :: "string option"

record prod_doc =
  pd_hubId :: string
  pd_itemId :: string
  pd_name :: string
  pd_kind :: "string option"
  pd_versionId :: string
  pd_versionNumber :: int
  pd_rootComponentVersionId :: "string option"
  pd_dmProjectId :: "string option"

record prod_plan_doc =
  pp_id :: string
  pp_doc :: prod_doc
  pp_addedBy :: prod_user
  pp_addedAt :: string

record prod_placeholder =
  ph_id :: string
  ph_label :: string
  ph_kind :: "string option"
  ph_required :: bool

record prod_result =
  pr_id :: string
  pr_label :: string
  pr_color :: string

record prod_step =
  st_id :: string
  st_kind :: string
  st_num :: int
  st_title :: string
  st_description :: "string option"
  st_x :: rat
  st_y :: rat
  st_results :: "prod_result list"
  st_planDocs :: "prod_plan_doc list"
  st_placeholders :: "prod_placeholder list"
  st_createdAt :: string
  st_updatedAt :: string

record prod_edge =
  pe_id :: string
  pe_from :: string
  pe_fromResultId :: "string option"
  pe_to :: string

record prod_batch_step =
  bs_stepId :: string
  bs_kind :: string
  bs_num :: int
  bs_title :: string
  bs_planDocs :: "prod_plan_doc list"
  bs_placeholders :: "prod_placeholder list"

record prod_fulfillment =
  pf_id :: string
  pf_stepId :: string
  pf_placeholderId :: "string option"
  pf_doc :: prod_doc
  pf_source :: "string option"
  pf_isAsRun :: bool
  pf_suppliedBy :: prod_user
  pf_suppliedAt :: string

record prod_batch =
  ba_id :: string
  ba_num :: int
  ba_name :: string
  ba_kind :: string
  ba_runAt :: string
  ba_status :: string
  ba_steps :: "prod_batch_step list"
  ba_fulfillments :: "prod_fulfillment list"
  ba_refs :: "string list"
  ba_hiddenSteps :: "string list"
  ba_createdBy :: prod_user
  ba_createdAt :: string
  ba_updatedAt :: string

record prod_job =
  jb_id :: string
  jb_num :: int
  jb_projectId :: string
  jb_hubId :: string
  jb_projectName :: string
  jb_name :: string
  jb_description :: "string option"
  jb_steps :: "prod_step list"
  jb_edges :: "prod_edge list"
  jb_batches :: "prod_batch list"
  jb_createdBy :: prod_user
  jb_createdAt :: string
  jb_updatedAt :: string

record prod_caps =
  pc_write :: bool
  pc_moderate :: bool

record job_summary =
  js_id :: string
  js_num :: int
  js_projectId :: string
  js_hubId :: string
  js_projectName :: string
  js_name :: string
  js_description :: "string option"
  js_stepCount :: nat
  js_batchCount :: nat
  js_activeBatchCount :: nat
  js_createdBy :: prod_user
  js_createdAt :: string
  js_updatedAt :: string

record job_list =
  jl_jobs :: "job_summary list"
  jl_capabilities :: prod_caps

record my_production =
  mp_jobs :: "prod_job list"

text \<open>Request payloads.\<close>

record job_draft =
  jd_hubId :: string
  jd_projectName :: string
  jd_name :: string
  jd_description :: "string option"

record job_patch =
  jp_name :: "string option"
  jp_description :: "string option"

record step_draft =
  sd_kind :: "string option"
  sd_title :: string
  sd_description :: "string option"
  sd_x :: "rat option"
  sd_y :: "rat option"

record step_patch =
  sp_title :: "string option"
  sp_description :: "string option"
  sp_x :: "rat option"
  sp_y :: "rat option"

record result_draft =
  rd_label :: string
  rd_color :: "string option"

record result_patch =
  rp_label :: "string option"
  rp_color :: "string option"

record placeholder_draft =
  pld_label :: string
  pld_kind :: "string option"
  pld_required :: "bool option"

record placeholder_patch =
  plp_label :: "string option"
  plp_kind :: "string option"
  plp_required :: "bool option"

record doc_pin =
  dp_hubId :: string
  dp_itemId :: string
  dp_dmProjectId :: string
  dp_name :: string
  dp_kind :: "string option"
  dp_versionId :: "string option"

record fulfill_input = doc_pin +
  fi_stepId :: string
  fi_placeholderId :: "string option"
  fi_source :: "string option"
  fi_isAsRun :: "bool option"

record batch_draft =
  bd_name :: string
  bd_kind :: "string option"
  bd_runAt :: "string option"

record batch_patch =
  bp_name :: "string option"
  bp_kind :: "string option"
  bp_status :: "string option"
  bp_runAt :: "string option"

definition BATCH_KINDS :: "string list" where "BATCH_KINDS = [''prove'', ''production'']"
definition BATCH_STATUSES :: "string list" where "BATCH_STATUSES = [''planned'', ''running'', ''complete'']"
definition STEP_KINDS :: "string list" where "STEP_KINDS = [''step'', ''decision'']"

definition isDecision :: "prod_step \<Rightarrow> bool" where
  "isDecision s = (st_kind s = ''decision'')"

definition jobDisplayId :: "prod_job \<Rightarrow> string" where
  "jobDisplayId j = ''J-'' @ show_int (jb_num j)"

text \<open>The calls of the two bundles of mutations.\<close>

datatype graph_call =
    AddStep step_draft
  | UpdateStep string step_patch
  | RemoveStep string
  | AddEdge string string "string option"
  | RemoveEdge string
  | AddResult string result_draft
  | UpdateResult string string result_patch
  | RemoveResult string string
  | AddPlaceholder string placeholder_draft
  | RemovePlaceholder string string
  | AddPlanDoc string doc_pin
  | RemovePlanDoc string string

datatype batch_call =
    CreateBatch batch_draft
  | UpdateBatch string batch_patch
  | RemoveBatch string
  | AddFulfillment string fulfill_input
  | RemoveFulfillment string string
  | SetStepHidden string string bool
  | AddRef string string
  | RemoveRef string string

definition title_patch :: "string \<Rightarrow> step_patch" where
  "title_patch v = \<lparr>sp_title = Some v, sp_description = None, sp_x = None, sp_y = None\<rparr>"

definition description_patch :: "string \<Rightarrow> step_patch" where
  "description_patch v = \<lparr>sp_title = None, sp_description = Some v, sp_x = None, sp_y = None\<rparr>"

definition position_patch :: "rat \<Rightarrow> rat \<Rightarrow> step_patch" where
  "position_patch x y = \<lparr>sp_title = None, sp_description = None, sp_x = Some x, sp_y = Some y\<rparr>"

definition label_draft :: "string \<Rightarrow> placeholder_draft" where
  "label_draft v = \<lparr>pld_label = v, pld_kind = None, pld_required = None\<rparr>"

subsection \<open>Colours of results\<close>

text \<open>\<open>production/resultcolors.ts\<close>. \<open>dark\<close> is the mode of the theme.\<close>

definition RESULT_COLORS :: "string list" where
  "RESULT_COLORS = [''green'', ''amber'', ''red'', ''blue'', ''violet'', ''teal'', ''grey'']"

definition LIGHT_COLORS :: "string list" where
  "LIGHT_COLORS = [''#2e7d32'', ''#b26a00'', ''#c62828'', ''#0069c0'', ''#6a3fb5'', ''#00796b'', ''#5f6b7a'']"

definition DARK_COLORS :: "string list" where
  "DARK_COLORS = [''#66bb6a'', ''#ffb74d'', ''#ef5350'', ''#4fa3f7'', ''#b085f5'', ''#4db6ac'', ''#9aa5b1'']"

definition resultColor :: "string \<Rightarrow> bool \<Rightarrow> string" where
  "resultColor token dark =
     (let hex = zip RESULT_COLORS (if dark then DARK_COLORS else LIGHT_COLORS)
      in nullish (map_of hex token) (nullish (map_of hex ''grey'') []))"

text \<open>\<open>ResultsEditor\<close>: a new result takes the next colour of the palette.\<close>

definition add_result :: "prod_step \<Rightarrow> string \<Rightarrow> graph_call option" where
  "add_result st draft =
     (let label = js_trim draft in
      if label = [] then None
      else Some (AddResult (st_id st) \<lparr>rd_label = label,
        rd_color = Some (RESULT_COLORS ! (length (st_results st) mod length RESULT_COLORS))\<rparr>))"

definition pick_color :: "prod_step \<Rightarrow> prod_result \<Rightarrow> string \<Rightarrow> graph_call" where
  "pick_color st r color = UpdateResult (st_id st) (pr_id r) \<lparr>rp_label = None, rp_color = Some color\<rparr>"

subsection \<open>The text fields\<close>

text \<open>
  Three ways to edit a name in place. \<open>JobDetail\<close> and \<open>BatchDetail\<close> hold a draft only while the field
  is edited; a step card and a result row copy the name once, when they are mounted; the step editor
  copies it when another step is selected. Each save gives the call to make and what the field holds.
\<close>

definition name_patch :: "string \<Rightarrow> job_patch" where
  "name_patch v = \<lparr>jp_name = Some v, jp_description = None\<rparr>"

definition job_saveName :: "prod_job \<Rightarrow> string option \<Rightarrow> job_patch option \<times> string option" where
  "job_saveName job nameDraft =
     (let trimmed = js_trim (nullish nameDraft [])
      in (if trimmed \<noteq> [] \<and> trimmed \<noteq> jb_name job then Some (name_patch trimmed) else None, None))"

definition job_saveDesc :: "prod_job \<Rightarrow> string option \<Rightarrow> job_patch option \<times> string option" where
  "job_saveDesc job descDraft =
     ((case descDraft of
         None \<Rightarrow> None
       | Some d \<Rightarrow> if d \<noteq> nullish (jb_description job) [] then Some \<lparr>jp_name = None, jp_description = Some d\<rparr> else None),
      None)"

definition batch_saveName :: "prod_batch \<Rightarrow> string option \<Rightarrow> batch_call option \<times> string option" where
  "batch_saveName batch nameDraft =
     (let trimmed = js_trim (nullish nameDraft [])
      in (if trimmed \<noteq> [] \<and> trimmed \<noteq> ba_name batch
          then Some (UpdateBatch (ba_id batch) \<lparr>bp_name = Some trimmed, bp_kind = None, bp_status = None, bp_runAt = None\<rparr>)
          else None, None))"

definition card_saveTitle :: "prod_step \<Rightarrow> string \<Rightarrow> graph_call option \<times> string" where
  "card_saveTitle st title =
     (let trimmed = js_trim title in
      if trimmed \<noteq> [] \<and> trimmed \<noteq> st_title st then (Some (UpdateStep (st_id st) (title_patch trimmed)), title)
      else (None, if trimmed = [] then st_title st else title))"

definition card_saveDesc :: "prod_step \<Rightarrow> string \<Rightarrow> graph_call option" where
  "card_saveDesc st desc =
     (if desc \<noteq> nullish (st_description st) [] then Some (UpdateStep (st_id st) (description_patch desc)) else None)"

definition row_saveLabel :: "prod_step \<Rightarrow> prod_result \<Rightarrow> string \<Rightarrow> graph_call option \<times> string" where
  "row_saveLabel st r label =
     (let trimmed = js_trim label in
      if trimmed \<noteq> [] \<and> trimmed \<noteq> pr_label r
      then (Some (UpdateResult (st_id st) (pr_id r) \<lparr>rp_label = Some trimmed, rp_color = None\<rparr>), label)
      else (None, if trimmed = [] then pr_label r else label))"

text \<open>The step editor: title, description and the new placeholder; \<open>reseed\<close> is its effect.\<close>

record step_editor =
  se_title :: string
  se_desc :: string
  se_placeholder :: string

definition reseed :: "prod_step option \<Rightarrow> step_editor" where
  "reseed st = \<lparr>se_title = nullish (map_option st_title st) [],
     se_desc = nullish (Option.bind st st_description) [], se_placeholder = []\<rparr>"

definition select_step :: "prod_step option \<Rightarrow> prod_step option \<Rightarrow> step_editor \<Rightarrow> step_editor" where
  "select_step old new ed = (if map_option st_id new \<noteq> map_option st_id old then reseed new else ed)"

definition editor_saveTitle :: "prod_step option \<Rightarrow> step_editor \<Rightarrow> graph_call option \<times> step_editor" where
  "editor_saveTitle st ed =
     (case st of
        None \<Rightarrow> (None, ed)
      | Some s \<Rightarrow>
          (let trimmed = js_trim (se_title ed) in
           if trimmed \<noteq> [] \<and> trimmed \<noteq> st_title s then (Some (UpdateStep (st_id s) (title_patch trimmed)), ed)
           else (None, ed\<lparr>se_title := st_title s\<rparr>)))"

definition editor_saveDesc :: "prod_step option \<Rightarrow> step_editor \<Rightarrow> graph_call option" where
  "editor_saveDesc st ed = (case st of None \<Rightarrow> None | Some s \<Rightarrow> card_saveDesc s (se_desc ed))"

definition editor_addPlaceholder :: "prod_step option \<Rightarrow> step_editor \<Rightarrow> graph_call option" where
  "editor_addPlaceholder st ed =
     (case st of
        None \<Rightarrow> None
      | Some s \<Rightarrow> (let label = js_trim (se_placeholder ed) in
          if label = [] then None else Some (AddPlaceholder (st_id s) (label_draft label))))"

text \<open>What happens to a field: it gets the focus, holds another text, loses the focus, or the server's
  name is another one. A field is its step function; its writes are the names it sends.\<close>

datatype field_event = FocusIn | Typed string | Blurred | Arrives string

fun job_field :: "prod_job \<times> string option \<Rightarrow> field_event \<Rightarrow> (prod_job \<times> string option) \<times> string option" where
  "job_field (job, d) FocusIn = ((job, Some (jb_name job)), None)"
| "job_field (job, d) (Typed v) = ((job, Some v), None)"
| "job_field (job, d) (Arrives v) = ((job\<lparr>jb_name := v\<rparr>, d), None)"
| "job_field (job, d) Blurred =
     (case job_saveName job d of (p, d') \<Rightarrow> ((job, d'), Option.bind p jp_name))"

fun written_title :: "graph_call option \<Rightarrow> string option" where
  "written_title (Some (UpdateStep i p)) = sp_title p"
| "written_title _ = None"

fun card_field :: "prod_step \<times> string \<Rightarrow> field_event \<Rightarrow> (prod_step \<times> string) \<times> string option" where
  "card_field (st, v) FocusIn = ((st, v), None)"
| "card_field (st, v) (Typed w) = ((st, w), None)"
| "card_field (st, v) (Arrives w) = ((st\<lparr>st_title := w\<rparr>, v), None)"
| "card_field (st, v) Blurred = (case card_saveTitle st v of (c, v') \<Rightarrow> ((st, v'), written_title c))"

fun field_writes :: "('s \<Rightarrow> field_event \<Rightarrow> 's \<times> string option) \<Rightarrow> 's \<Rightarrow> field_event list \<Rightarrow> string list" where
  "field_writes step s [] = []"
| "field_writes step s (e # es) =
     (case step s e of (s', w) \<Rightarrow> (case w of None \<Rightarrow> [] | Some n \<Rightarrow> [n]) @ field_writes step s' es)"

subsection \<open>A job and the list of jobs\<close>

text \<open>\<open>JobDetail\<close>: a new step of the list view, and the steps a card can be connected to.\<close>

definition list_addStep :: "prod_job \<Rightarrow> string \<Rightarrow> graph_call option" where
  "list_addStep job newStep =
     (let title = js_trim newStep in
      if title = [] then None
      else Some (AddStep \<lparr>sd_kind = None, sd_title = title, sd_description = None,
        sd_x = Some (40 + of_nat (length (jb_steps job)) * 200), sd_y = Some 120\<rparr>))"

definition stepName :: "prod_job \<Rightarrow> string \<Rightarrow> string" where
  "stepName job i = nullish (map_option st_title (List.find (\<lambda>s. st_id s = i) (jb_steps job))) i"

definition outgoing_of :: "prod_job \<Rightarrow> prod_step \<Rightarrow> prod_edge list" where
  "outgoing_of job st = filter (\<lambda>e. pe_from e = st_id st) (jb_edges job)"

definition card_candidates :: "prod_step \<Rightarrow> prod_step list \<Rightarrow> prod_edge list \<Rightarrow> prod_step list" where
  "card_candidates st allSteps outgoing =
     (let connected = set (map pe_to outgoing) in
      filter (\<lambda>s. st_id s \<noteq> st_id st \<and> (isDecision st \<or> st_id s \<notin> connected)) allSteps)"

definition branch_edges :: "prod_edge list \<Rightarrow> prod_result \<Rightarrow> prod_edge list" where
  "branch_edges outgoing r = filter (\<lambda>e. pe_fromResultId e = Some (pr_id r)) outgoing"

definition branch_open :: "prod_step list \<Rightarrow> prod_edge list \<Rightarrow> prod_step list" where
  "branch_open candidates edges = filter (\<lambda>s. st_id s \<notin> set (map pe_to edges)) candidates"

definition card_connect :: "prod_step \<Rightarrow> string \<Rightarrow> graph_call option" where
  "card_connect st to' = (if to' = [] then None else Some (AddEdge (st_id st) to' None))"

definition branch_connect :: "prod_step \<Rightarrow> prod_result \<Rightarrow> string \<Rightarrow> graph_call option" where
  "branch_connect st r to' = (if to' = [] then None else Some (AddEdge (st_id st) to' (Some (pr_id r))))"

definition card_addPlaceholder :: "prod_step \<Rightarrow> string \<Rightarrow> graph_call option" where
  "card_addPlaceholder st placeholder =
     (if js_trim placeholder = [] then None else Some (AddPlaceholder (st_id st) (label_draft (js_trim placeholder))))"

definition job_canDelete :: "bool \<Rightarrow> string \<Rightarrow> prod_job \<Rightarrow> bool" where
  "job_canDelete canModerate myId job = (canModerate \<or> pu_id (jb_createdBy job) = myId)"

definition job_ref_of :: "prod_job \<Rightarrow> job_ref" where
  "job_ref_of job = jobRefFromJob (jb_hubId job) (jb_projectId job) (jb_projectName job) (jb_id job) (jb_name job)"

definition job_pin_target :: "prod_job \<Rightarrow> local_pin_target" where
  "job_pin_target job =
     \<lparr>lp_ref = encodeJobRef (job_ref_of job), lp_kind = ''job'', lp_name = jb_name job,
      lp_projectId = jb_projectId job, lp_projectName = Some (jb_projectName job)\<rparr>"

definition batch_pin_target :: "job_ref \<Rightarrow> prod_batch \<Rightarrow> local_pin_target" where
  "batch_pin_target jr batch =
     \<lparr>lp_ref = encodeBatchRef (batchRefFromBatch jr (ba_id batch) (ba_name batch)), lp_kind = ''batch'',
      lp_name = ba_name batch, lp_projectId = jr_projectId jr, lp_projectName = Some (jr_projectName jr)\<rparr>"

text \<open>\<open>JobList\<close> and \<open>ProductionApp\<close>: the form of a new job, and which job is open. \<open>latch\<close> is the
  effect that runs when the list or the selection changes.\<close>

definition job_submit :: "string \<Rightarrow> string \<Rightarrow> string \<Rightarrow> job_draft option" where
  "job_submit hub projectName name =
     (let trimmed = js_trim name in
      if trimmed = [] then None
      else Some \<lparr>jd_hubId = hub, jd_projectName = projectName, jd_name = trimmed, jd_description = None\<rparr>)"

definition selected_job :: "job_summary list \<Rightarrow> string option \<Rightarrow> job_summary option" where
  "selected_job jobs selectedId = List.find (\<lambda>j. Some (js_id j) = selectedId) jobs"

definition latch :: "job_summary list \<Rightarrow> string option \<Rightarrow> string option" where
  "latch jobs selectedId =
     (if selected_job jobs selectedId = None \<and> jobs \<noteq> [] then Some (js_id (hd jobs)) else selectedId)"

text \<open>\<open>ProductionRefDialog\<close>: the token and the label of a picked job or batch.\<close>

definition pickJob :: "string \<Rightarrow> string \<Rightarrow> string \<Rightarrow> job_summary \<Rightarrow> string \<times> string" where
  "pickJob hub projectId projectName j =
     (encodeJobRef \<lparr>jr_hubId = hub, jr_projectId = projectId, jr_projectName = projectName,
        jr_jobId = js_id j, jr_jobName = js_name j\<rparr>, js_name j)"

definition pickBatch :: "string \<Rightarrow> string \<Rightarrow> string \<Rightarrow> job_summary \<Rightarrow> string \<Rightarrow> string \<Rightarrow> string \<times> string" where
  "pickBatch hub projectId projectName j batchId batchName =
     (encodeBatchRef \<lparr>jr_hubId = hub, jr_projectId = projectId, jr_projectName = projectName,
        jr_jobId = js_id j, jr_jobName = js_name j, br_batchId = batchId, br_batchName = batchName\<rparr>, batchName)"

subsection \<open>The record of a run\<close>

definition frozen_slots :: "prod_batch \<Rightarrow> (string \<times> string) list" where
  "frozen_slots batch = concat (map (\<lambda>s. map (\<lambda>p. (bs_stepId s, ph_id p)) (bs_placeholders s)) (ba_steps batch))"

definition slot_filled :: "prod_batch \<Rightarrow> string \<times> string \<Rightarrow> bool" where
  "slot_filled batch p =
     (\<exists>f \<in> set (ba_fulfillments batch). pf_stepId f = fst p \<and> pf_placeholderId f = Some (snd p))"

definition pct_of :: "nat \<Rightarrow> nat \<Rightarrow> int" where
  "pct_of filled n = (if n \<noteq> 0 then js_round (of_nat filled / of_nat n * 100) else 100)"

definition completenessOf :: "prod_batch \<Rightarrow> nat \<times> nat \<times> int" where
  "completenessOf batch =
     (let slots = frozen_slots batch; filled = length (filter (slot_filled batch) slots); n = length slots
      in (filled, n, pct_of filled n))"

text \<open>The bar of \<open>RunCard\<close> and of \<open>BatchDetail\<close>: shown when there are slots, in the colour of success at 100.\<close>

definition progress_color :: "int \<Rightarrow> string" where
  "progress_color p = (if p = 100 then ''success'' else ''primary'')"

definition hiddenCount :: "prod_batch \<Rightarrow> nat" where
  "hiddenCount batch = length (filter (\<lambda>s. bs_stepId s \<in> set (ba_hiddenSteps batch)) (ba_steps batch))"

definition shown_steps :: "bool \<Rightarrow> prod_batch \<Rightarrow> prod_batch_step list" where
  "shown_steps showHidden batch =
     filter (\<lambda>s. \<not> (bs_stepId s \<in> set (ba_hiddenSteps batch) \<and> \<not> showHidden)) (ba_steps batch)"

definition toggle_hidden :: "prod_batch \<Rightarrow> prod_batch_step \<Rightarrow> batch_call" where
  "toggle_hidden batch s = SetStepHidden (ba_id batch) (bs_stepId s) (bs_stepId s \<notin> set (ba_hiddenSteps batch))"

definition fulfillmentFor :: "prod_batch \<Rightarrow> string \<Rightarrow> string \<Rightarrow> prod_fulfillment option" where
  "fulfillmentFor batch stepId placeholderId =
     List.find (\<lambda>f. pf_stepId f = stepId \<and> pf_placeholderId f = Some placeholderId) (ba_fulfillments batch)"

definition asRunForStep :: "prod_batch \<Rightarrow> string \<Rightarrow> prod_fulfillment list" where
  "asRunForStep batch stepId =
     filter (\<lambda>f. pf_stepId f = stepId \<and> (pf_isAsRun f \<or> \<not> truthy (pf_placeholderId f))) (ba_fulfillments batch)"

definition fulfill :: "doc_pin \<Rightarrow> string \<Rightarrow> string option \<Rightarrow> bool option \<Rightarrow> string \<Rightarrow> fulfill_input" where
  "fulfill pin stepId placeholderId isAsRun source =
     doc_pin.extend pin \<lparr>fi_stepId = stepId, fi_placeholderId = placeholderId, fi_source = Some source, fi_isAsRun = isAsRun\<rparr>"

definition supply_slot :: "prod_batch \<Rightarrow> prod_batch_step \<Rightarrow> prod_placeholder \<Rightarrow> doc_pin \<Rightarrow> string \<Rightarrow> batch_call" where
  "supply_slot batch s ph pin source =
     AddFulfillment (ba_id batch) (fulfill pin (bs_stepId s) (Some (ph_id ph)) None source)"

definition add_as_run :: "prod_batch \<Rightarrow> prod_batch_step \<Rightarrow> doc_pin \<Rightarrow> string \<Rightarrow> batch_call" where
  "add_as_run batch s pin source = AddFulfillment (ba_id batch) (fulfill pin (bs_stepId s) None (Some True) source)"

definition batch_canDelete :: "bool \<Rightarrow> string \<Rightarrow> prod_batch \<Rightarrow> bool" where
  "batch_canDelete canModerate myId batch = (canModerate \<or> pu_id (ba_createdBy batch) = myId)"

definition link_doc :: "prod_batch \<Rightarrow> string \<Rightarrow> item option \<Rightarrow> batch_call option" where
  "link_doc batch hub it = map_option (\<lambda>i. AddRef (ba_id batch) (encodeDocRef (docRefFromItem hub i))) it"

text \<open>What the record of a step shows of the supplied documents: the one found for each slot of the
  frozen plan and, unless the step is a decision, the artifacts.\<close>

definition shown_documents :: "prod_batch \<Rightarrow> prod_batch_step \<Rightarrow> prod_fulfillment list" where
  "shown_documents batch s =
     List.map_filter (\<lambda>ph. fulfillmentFor batch (bs_stepId s) (ph_id ph)) (bs_placeholders s) @
     (if bs_kind s = ''decision'' then [] else asRunForStep batch (bs_stepId s))"

subsection \<open>The runs of a job\<close>

text \<open>\<open>BatchesView\<close>: newest first, the selected run or the newest, the instant of a new run.\<close>

definition rail_batches :: "prod_job \<Rightarrow> prod_batch list" where
  "rail_batches job = js_sort (\<lambda>a b. ba_num b - ba_num a) (jb_batches job)"

definition selected_batch :: "prod_job \<Rightarrow> string option \<Rightarrow> prod_batch option" where
  "selected_batch job selectedId =
     (case List.find (\<lambda>b. Some (ba_id b) = selectedId) (rail_batches job) of
        Some b \<Rightarrow> Some b
      | None \<Rightarrow> (case rail_batches job of [] \<Rightarrow> None | b # _ \<Rightarrow> Some b))"

definition runAtRFC :: "zone \<Rightarrow> (date \<Rightarrow> string) \<Rightarrow> date \<Rightarrow> string \<Rightarrow> string option" where
  "runAtRFC z toISOString now runDay =
     map_option (\<lambda>d. if sameDay z d now then toISOString now
        else toISOString (z_utc z (DAY_MS * day_number (getFullYear z d) (getMonth z d) (getDate z d) + 12 * 3600000)))
       (parseDay z runDay)"

definition create_batch :: "bool \<Rightarrow> string \<Rightarrow> string \<Rightarrow> string \<Rightarrow> batch_call option" where
  "create_batch pending name kind runAt =
     (if js_trim name = [] \<or> pending then None
      else Some (CreateBatch \<lparr>bd_name = js_trim name, bd_kind = Some kind, bd_runAt = Some runAt\<rparr>))"

text \<open>\<open>BatchTimeline\<close>: one dot per run, in the order of the instants, on the lane of its kind.\<close>

definition RUN_GAP :: int where "RUN_GAP = 60"
definition LANE_GAP :: int where "LANE_GAP = 34"
definition PAD_X :: int where "PAD_X = 60"
definition PAD_TOP :: int where "PAD_TOP = 20"
definition LABEL_H :: int where "LABEL_H = 56"
definition DOT_R :: int where "DOT_R = 7"
definition LANES :: "string list" where "LANES = [''prove'', ''production'']"

text \<open>A difference with an unreadable date is \<open>NaN\<close>, which \<open>sort\<close> takes for zero.\<close>

definition cmp_runAt :: "(string \<Rightarrow> date option) \<Rightarrow> prod_batch \<Rightarrow> prod_batch \<Rightarrow> int" where
  "cmp_runAt parse a b = (case (parse (ba_runAt a), parse (ba_runAt b)) of (Some x, Some y) \<Rightarrow> x - y | _ \<Rightarrow> 0)"

definition ordered_runs :: "(string \<Rightarrow> date option) \<Rightarrow> prod_batch list \<Rightarrow> prod_batch list" where
  "ordered_runs parse batches = js_sort (cmp_runAt parse) batches"

definition laneY :: "int \<Rightarrow> int" where
  "laneY i = PAD_TOP + i * LANE_GAP + DOT_R"

definition run_y :: "string \<Rightarrow> int" where
  "run_y kind = laneY (if kind = ''production'' then 1 else 0)"

definition run_x :: "nat \<Rightarrow> int" where
  "run_x i = PAD_X + int i * RUN_GAP"

definition timeline_width :: "prod_batch list \<Rightarrow> int" where
  "timeline_width runs = max (PAD_X * 2 + (int (length runs) - 1) * RUN_GAP) 200"

definition timeline_height :: int where
  "timeline_height = laneY (int (length LANES) - 1) + LABEL_H"

definition run_dots :: "(string \<Rightarrow> date option) \<Rightarrow> prod_batch list \<Rightarrow> (string \<times> int \<times> int) list" where
  "run_dots parse batches =
     map (\<lambda>(i, b). (ba_id b, run_x i, run_y (ba_kind b))) (List.enumerate 0 (ordered_runs parse batches))"

subsection \<open>The cross-project screen\<close>

definition ACTIVE_STATUSES :: "string list" where "ACTIVE_STATUSES = [''planned'', ''running'']"

definition is_active_run :: "prod_batch \<Rightarrow> bool" where
  "is_active_run b = (ba_status b \<in> set ACTIVE_STATUSES)"

definition runs_in_flight :: "(string \<Rightarrow> date option) \<Rightarrow> prod_job list \<Rightarrow> (prod_job \<times> prod_batch) list" where
  "runs_in_flight parse jobs =
     js_sort (\<lambda>a b. cmp_runAt parse (snd a) (snd b))
       (concat (map (\<lambda>job. map (Pair job) (filter is_active_run (jb_batches job))) jobs))"

definition activeRuns :: "prod_job \<Rightarrow> nat" where
  "activeRuns job = length (filter is_active_run (jb_batches job))"

definition jobRefOf :: "prod_job \<Rightarrow> job_ref" where
  "jobRefOf job = \<lparr>jr_hubId = jb_hubId job, jr_projectId = jb_projectId job, jr_projectName = jb_projectName job,
     jr_jobId = jb_id job, jr_jobName = jb_name job\<rparr>"

definition batchRefOf :: "prod_job \<Rightarrow> prod_batch \<Rightarrow> batch_ref" where
  "batchRefOf job batch = job_ref.extend (jobRefOf job) \<lparr>br_batchId = ba_id batch, br_batchName = ba_name batch\<rparr>"

subsection \<open>A pinned document\<close>

text \<open>\<open>PinnedDocCard\<close>: its kind, whether the pin is behind the tip, its badges and the tab it opens. What
  the query of the tip holds is its typename and version, once it has answered.\<close>

definition ITEM_KINDS :: "string list" where
  "ITEM_KINDS = [''hub'', ''project'', ''folder'', ''design'', ''configured'', ''drawing'', ''schematic'', ''pcb'',
     ''ecad'', ''unknown'']"

definition normalizeKind :: "string option \<Rightarrow> string" where
  "normalizeKind kind = (case kind of Some k \<Rightarrow> if k \<in> set ITEM_KINDS then k else ''unknown'' | None \<Rightarrow> ''unknown'')"

definition pin_outdated :: "prod_doc \<Rightarrow> int option \<Rightarrow> bool" where
  "pin_outdated doc tipVersion =
     (case tipVersion of None \<Rightarrow> False | Some v \<Rightarrow> v \<noteq> 0 \<and> pd_versionNumber doc \<noteq> 0 \<and> v > pd_versionNumber doc)"

definition pin_kind_of :: "prod_doc \<Rightarrow> string option \<Rightarrow> string" where
  "pin_kind_of doc typename =
     normalizeKind (case kindFromTypename typename of Some k \<Rightarrow> Some k | None \<Rightarrow> pd_kind doc)"

definition pin_badges :: "prod_doc \<Rightarrow> bool \<Rightarrow> int option \<Rightarrow> (string \<times> string) list" where
  "pin_badges doc asRun tipVersion =
     [(if pd_versionNumber doc \<noteq> 0 then show_int (pd_versionNumber doc) else ''?'', ''accent'')] @
     (if asRun then [(''asRun'', ''warn'')] else []) @
     (if pin_outdated doc tipVersion then [(show_int (the tipVersion), ''muted'')] else [])"

definition pin_tab :: "string \<Rightarrow> string option" where
  "pin_tab kind = (if kind \<in> set FUSION_NATIVE_KINDS then None else Some ''preview'')"

subsection \<open>Supplying a document\<close>

text \<open>
  \<open>AttachDocDialog\<close> picks a document of the hub; \<open>DocSourceButton\<close> offers it beside an upload, which
  it follows in the list of upload jobs until the job has ended. Its state is what the component
  holds, the request it awaits, and two records: the uploads that were accepted and the pins that were
  handed to \<open>onPin\<close>, with the job each came from. The button is disabled while a name is shown, so no
  other upload starts then. \<open>trunc\<close> is \<open>truncateGraphemes\<close> with its bound.
\<close>

definition attach_doc :: "string \<Rightarrow> item \<Rightarrow> item option \<Rightarrow> doc_pin option" where
  "attach_doc hub proj it =
     (case it of
        None \<Rightarrow> None
      | Some i \<Rightarrow> if \<not> truthy (it_altId proj) then None
          else Some \<lparr>dp_hubId = hub, dp_itemId = it_id i, dp_dmProjectId = the (it_altId proj), dp_name = it_name i,
            dp_kind = Some (it_kind i), dp_versionId = None\<rparr>)"

definition kindHint :: "string \<Rightarrow> string" where
  "kindHint name =
     (let ext = extOf name in
      if ext \<in> set [''f3d'', ''f3z'', ''wire''] then ''design''
      else if ext \<in> set [''f2d'', ''f2t''] then ''drawing'' else ''unknown'')"

definition unsafe_char :: "char \<Rightarrow> bool" where
  "unsafe_char c = (c \<in> set (utf8 [60, 62, 58, 34, 47, 92, 124, 63, 42]) \<or> (of_char c :: nat) < 32)"

fun squeeze_spaces :: "bool \<Rightarrow> nat \<Rightarrow> string \<Rightarrow> string" where
  "squeeze_spaces seen 0 s = s"
| "squeeze_spaces seen (Suc n) [] = []"
| "squeeze_spaces seen (Suc n) (c # s) =
     (case List.find (startsWith (c # s)) JS_SPACES of
        None \<Rightarrow> c # squeeze_spaces False n s
      | Some w \<Rightarrow> (if seen then [] else '' '') @ squeeze_spaces True n (drop (length w) (c # s)))"

definition folderSafe :: "(string \<Rightarrow> string) \<Rightarrow> string \<Rightarrow> string" where
  "folderSafe trunc name =
     (let cleaned = map (\<lambda>c. if unsafe_char c then CHR '' '' else c) name;
          cleaned = js_trim (squeeze_spaces False (length cleaned) cleaned);
          cleaned = List.rev (dropWhile (\<lambda>c. c = CHR ''.'' \<or> c = CHR '' '') (List.rev cleaned))
      in trunc cleaned)"

record doc_source =
  ds_tracked :: "(string \<times> string \<times> string) option"
  ds_uploadingName :: "string option"
  ds_error :: "string option"
  ds_flight :: "(string \<times> string) option"
  ds_accepted :: "(string \<times> string \<times> string) list"
  ds_pins :: "(string \<times> doc_pin) list"
  ds_browsed :: "doc_pin list"

definition doc_source_init :: doc_source where
  "doc_source_init = \<lparr>ds_tracked = None, ds_uploadingName = None, ds_error = None, ds_flight = None,
     ds_accepted = [], ds_pins = [], ds_browsed = []\<rparr>"

definition upload_folder :: "(string \<Rightarrow> string) \<Rightarrow> string list option \<Rightarrow> string list \<times> bool" where
  "upload_folder trunc folderPath =
     (let path = filter (\<lambda>n. n \<noteq> []) (map (folderSafe trunc) (nullish folderPath [])) in (path, path \<noteq> []))"

definition doUpload :: "nav_state \<Rightarrow> string \<Rightarrow> doc_source \<Rightarrow> doc_source" where
  "doUpload nav file s =
     (case (hubId nav, Option.bind (project nav) it_altId) of
        (Some h, Some a) \<Rightarrow>
          if h = [] \<or> a = [] \<or> ds_uploadingName s \<noteq> None then s
          else s\<lparr>ds_uploadingName := Some file, ds_error := None, ds_flight := Some (h, a)\<rparr>
      | _ \<Rightarrow> s)"

definition upload_accepted :: "string \<Rightarrow> doc_source \<Rightarrow> doc_source" where
  "upload_accepted job s =
     (case ds_flight s of
        None \<Rightarrow> s
      | Some t \<Rightarrow> s\<lparr>ds_flight := None, ds_tracked := Some (job, t), ds_accepted := ds_accepted s @ [(job, t)]\<rparr>)"

definition upload_refused :: "string option \<Rightarrow> string \<Rightarrow> doc_source \<Rightarrow> doc_source" where
  "upload_refused message uploadFailed s =
     (case ds_flight s of
        None \<Rightarrow> s
      | Some t \<Rightarrow> s\<lparr>ds_flight := None, ds_error := Some (nullish message uploadFailed), ds_uploadingName := None\<rparr>)"

definition watch_jobs :: "string \<Rightarrow> upload_job list \<Rightarrow> doc_source \<Rightarrow> doc_source" where
  "watch_jobs uploadFailed jobs s =
     (case ds_tracked s of
        None \<Rightarrow> s
      | Some (jobId, h, a) \<Rightarrow>
          (case List.find (\<lambda>x. uj_id x = jobId) jobs of
             None \<Rightarrow> s
           | Some j \<Rightarrow>
               if uj_status j = ''done'' \<and> truthy (uj_itemId j) then
                 s\<lparr>ds_pins := ds_pins s @ [(jobId, \<lparr>dp_hubId = h, dp_itemId = the (uj_itemId j), dp_dmProjectId = a,
                     dp_name = uj_fileName j, dp_kind = Some (kindHint (uj_fileName j)), dp_versionId = uj_versionId j\<rparr>)],
                   ds_tracked := None, ds_uploadingName := None\<rparr>
               else if uj_status j = ''error'' \<or> uj_status j = ''canceled'' then
                 s\<lparr>ds_error := (if uj_status j = ''error'' then Some (str_or (uj_error j) uploadFailed) else ds_error s),
                   ds_tracked := None, ds_uploadingName := None\<rparr>
               else s))"

datatype doc_source_event =
    FilePicked nav_state string
  | UploadAccepted string
  | UploadRefused "string option"
  | JobsChanged "upload_job list"
  | DocPicked doc_pin
  | SnackClosed

fun doc_source_step :: "string \<Rightarrow> doc_source \<Rightarrow> doc_source_event \<Rightarrow> doc_source" where
  "doc_source_step uploadFailed s (FilePicked nav file) = doUpload nav file s"
| "doc_source_step uploadFailed s (UploadAccepted job) = upload_accepted job s"
| "doc_source_step uploadFailed s (UploadRefused m) = upload_refused m uploadFailed s"
| "doc_source_step uploadFailed s (JobsChanged jobs) = watch_jobs uploadFailed jobs s"
| "doc_source_step uploadFailed s (DocPicked pin) = s\<lparr>ds_browsed := ds_browsed s @ [pin]\<rparr>"
| "doc_source_step uploadFailed s SnackClosed = s\<lparr>ds_error := None\<rparr>"

section \<open>What production shows and sends\<close>

subsection \<open>Completeness\<close>

lemma pct_bounds:
  assumes "f \<le> n"
  shows "0 \<le> pct_of f n" "pct_of f n \<le> 100" "pct_of n n = 100"
proof -
  have r: "0 \<le> (of_nat f / of_nat n * 100 :: rat)" "(of_nat f / of_nat n * 100 :: rat) \<le> 100"
    using assms by (auto simp: divide_le_eq)
  then show "0 \<le> pct_of f n" by (simp add: pct_of_def js_round_def)
  have "\<lfloor>of_nat f / of_nat n * 100 + 1 / 2 :: rat\<rfloor> \<le> \<lfloor>100 + 1 / 2 :: rat\<rfloor>"
    using r by (intro floor_mono) simp
  moreover have "\<lfloor>100 + 1 / 2 :: rat\<rfloor> = 100" by (simp add: floor_eq_iff)
  ultimately show "pct_of f n \<le> 100" by (simp add: pct_of_def js_round_def)
  show "pct_of n n = 100" by (simp add: pct_of_def js_round_def floor_eq_iff)
qed

lemma pct_exact:
  assumes "f \<le> n" "n < 200" "pct_of f n = 100"
  shows "f = n"
proof (rule ccontr)
  assume "f \<noteq> n"
  then have f: "f + 1 \<le> n" using assms(1) by simp
  then have n: "0 < n" by simp
  have "(of_nat f + 1 :: rat) \<le> of_nat n" using f by (metis of_nat_1 of_nat_add of_nat_le_iff)
  moreover have "(of_nat n :: rat) < 200" using assms(2) by (metis of_nat_less_iff of_nat_numeral)
  ultimately have "of_nat f * 100 * 2 < (199 * of_nat n :: rat)" by linarith
  then have "of_nat f / of_nat n * 100 + 1 / 2 < (100 :: rat)" using n by (simp add: field_simps)
  moreover have "pct_of f n = \<lfloor>of_nat f / of_nat n * 100 + 1 / 2 :: rat\<rfloor>" using n by (simp add: pct_of_def js_round_def)
  ultimately show False using assms(3) by linarith
qed

lemma filled_all: "length (filter P xs) = length xs \<longleftrightarrow> (\<forall>x \<in> set xs. P x)"
  by (metis filter_True filter_id_conv length_filter_less less_irrefl_nat)

text \<open>
  The bar of a run: its percentage is between 0 and 100, and is 100 when every slot of the frozen plan
  is supplied. Below 200 slots, 100 means that; from 200 on it does not, as the fraction is rounded.
\<close>

theorem completeness_reads:
  assumes "completenessOf batch = (filled, n, p)"
  shows "filled \<le> n" and "0 \<le> p \<and> p \<le> 100"
    and "filled = n \<longleftrightarrow> (\<forall>x \<in> set (frozen_slots batch). slot_filled batch x)"
    and "filled = n \<Longrightarrow> progress_color p = ''success''"
    and "n < 200 \<Longrightarrow> progress_color p = ''success'' \<Longrightarrow> filled = n"
    and "progress_color (pct_of 199 200) = ''success''"
proof -
  have d: "filled = length (filter (slot_filled batch) (frozen_slots batch))" "n = length (frozen_slots batch)"
    "p = pct_of filled n" using assms by (auto simp: completenessOf_def Let_def)
  show le: "filled \<le> n" by (simp add: d)
  show "0 \<le> p \<and> p \<le> 100" using pct_bounds[OF le] by (simp add: d(3))
  show "filled = n \<longleftrightarrow> (\<forall>x \<in> set (frozen_slots batch). slot_filled batch x)" by (simp add: d filled_all)
  show "filled = n \<Longrightarrow> progress_color p = ''success''" using pct_bounds(3)[OF le] by (simp add: d(3) progress_color_def)
  show "n < 200 \<Longrightarrow> progress_color p = ''success'' \<Longrightarrow> filled = n"
    using pct_exact[OF le] by (simp add: d(3) progress_color_def split: if_splits)
  show "progress_color (pct_of 199 200) = ''success''"
    by (simp add: progress_color_def pct_of_def js_round_def floor_eq_iff)
qed

definition demo_user :: prod_user where "demo_user = \<lparr>pu_id = ''u'', pu_name = None, pu_email = None\<rparr>"

definition demo_batch :: "string \<Rightarrow> string \<Rightarrow> string \<Rightarrow> prod_batch" where
  "demo_batch i runAt status = \<lparr>ba_id = i, ba_num = 1, ba_name = i, ba_kind = ''prove'', ba_runAt = runAt,
     ba_status = status, ba_steps = [\<lparr>bs_stepId = ''s1'', bs_kind = ''step'', bs_num = 1, bs_title = ''Cut'',
       bs_planDocs = [], bs_placeholders = [\<lparr>ph_id = ''p1'', ph_label = ''G-code'', ph_kind = None, ph_required = True\<rparr>]\<rparr>],
     ba_fulfillments = [], ba_refs = [], ba_hiddenSteps = [], ba_createdBy = demo_user, ba_createdAt = [], ba_updatedAt = []\<rparr>"

lemma completeness_reads_witness:
  "completenessOf (demo_batch ''b1'' ''2'' ''running'') = (0, 1, 0) \<and> progress_color 0 \<noteq> ''success''"
proof -
  have c: "completenessOf (demo_batch ''b1'' ''2'' ''running'') = (0, 1, 0)"
    by (simp add: completenessOf_def frozen_slots_def demo_batch_def slot_filled_def pct_of_def js_round_def floor_eq_iff)
  from completeness_reads(5)[OF c] have "progress_color 0 \<noteq> ''success''" by auto
  with c show ?thesis by simp
qed

subsection \<open>Runs in flight\<close>

lemma sort_insert_cong:
  "(\<And>y. y \<in> set ys \<Longrightarrow> c x y = d x y) \<Longrightarrow> sort_insert c x ys = sort_insert d x ys"
  by (induction ys) auto

lemma js_sort_cong:
  "(\<And>x y. x \<in> set xs \<Longrightarrow> y \<in> set xs \<Longrightarrow> c x y = d x y) \<Longrightarrow> js_sort c xs = js_sort d xs"
  by (induction xs) (auto intro!: sort_insert_cong)

definition all_runs :: "prod_job list \<Rightarrow> (prod_job \<times> prod_batch) list" where
  "all_runs jobs = concat (map (\<lambda>job. map (Pair job) (jb_batches job)) jobs)"

definition run_time :: "(string \<Rightarrow> date option) \<Rightarrow> prod_batch \<Rightarrow> date" where
  "run_time parse b = the (parse (ba_runAt b))"

lemma sort_runs:
  assumes "\<forall>x \<in> set xs. parse (ba_runAt (f x)) \<noteq> None"
  shows "js_sort (\<lambda>a b. cmp_runAt parse (f a) (f b)) xs = sort_key (run_time parse \<circ> f) xs"
proof -
  have "js_sort (\<lambda>a b. cmp_runAt parse (f a) (f b)) xs =
        js_sort (\<lambda>a b. (run_time parse \<circ> f) a - (run_time parse \<circ> f) b) xs"
    using assms by (intro js_sort_cong) (auto simp: cmp_runAt_def run_time_def split: option.splits)
  then show ?thesis using js_sort_key[of "run_time parse \<circ> f"] by metis
qed

lemma active_pairs:
  "concat (map (\<lambda>job. map (Pair job) (filter is_active_run (jb_batches job))) jobs)
   = filter (is_active_run \<circ> snd) (all_runs jobs)"
  by (induction jobs) (simp_all add: all_runs_def filter_map comp_def)

text \<open>
  The runs in flight on the cross-project screen are the planned and running runs of all jobs, each
  once, with the job it belongs to, the soonest first; the number beside a job counts its own.
\<close>

theorem runs_in_flight_are:
  assumes "\<forall>r \<in> set (all_runs jobs). parse (ba_runAt (snd r)) \<noteq> None"
  shows "mset (runs_in_flight parse jobs) = mset (filter (\<lambda>r. ba_status (snd r) \<in> {''planned'', ''running''}) (all_runs jobs))"
    and "sorted (map (\<lambda>r. run_time parse (snd r)) (runs_in_flight parse jobs))"
    and "length (runs_in_flight parse jobs) = sum_list (map activeRuns jobs)"
proof -
  have p: "\<forall>r \<in> set (filter (is_active_run \<circ> snd) (all_runs jobs)). parse (ba_runAt (snd r)) \<noteq> None"
    using assms by auto
  have r: "runs_in_flight parse jobs = sort_key (run_time parse \<circ> snd) (filter (is_active_run \<circ> snd) (all_runs jobs))"
    unfolding runs_in_flight_def active_pairs by (rule sort_runs[OF p])
  have a: "(is_active_run \<circ> snd) = (\<lambda>r :: prod_job \<times> prod_batch. ba_status (snd r) \<in> {''planned'', ''running''})"
    by (auto simp: is_active_run_def ACTIVE_STATUSES_def)
  show "mset (runs_in_flight parse jobs) = mset (filter (\<lambda>r. ba_status (snd r) \<in> {''planned'', ''running''}) (all_runs jobs))"
    by (simp add: r a)
  show "sorted (map (\<lambda>r. run_time parse (snd r)) (runs_in_flight parse jobs))"
    using sorted_sort_key[of "run_time parse \<circ> snd"] by (simp add: r comp_def)
  show "length (runs_in_flight parse jobs) = sum_list (map activeRuns jobs)"
    by (simp add: r flip: active_pairs) (simp add: length_concat comp_def activeRuns_def[abs_def])
qed

definition demo_job :: "prod_batch list \<Rightarrow> prod_job" where
  "demo_job bs = \<lparr>jb_id = ''j1'', jb_num = 1, jb_projectId = ''p'', jb_hubId = ''h'', jb_projectName = ''P'', jb_name = ''Bracket'',
     jb_description = None, jb_steps = [], jb_edges = [], jb_batches = bs, jb_createdBy = demo_user,
     jb_createdAt = [], jb_updatedAt = []\<rparr>"

lemma runs_in_flight_are_witness:
  defines "parse \<equiv> (\<lambda>s :: string. Some (int (length s)))"
  shows "length (runs_in_flight parse [demo_job [demo_batch ''b1'' ''22'' ''planned'', demo_batch ''b2'' ''1'' ''complete'']]) = 1"
proof -
  have a: "\<forall>r \<in> set (all_runs [demo_job [demo_batch ''b1'' ''22'' ''planned'', demo_batch ''b2'' ''1'' ''complete'']]).
      parse (ba_runAt (snd r)) \<noteq> None" by (simp add: parse_def)
  show ?thesis using runs_in_flight_are(3)[OF a]
    by (simp add: activeRuns_def demo_job_def is_active_run_def ACTIVE_STATUSES_def demo_batch_def)
qed

subsection \<open>Names edited in place\<close>

lemma field_writes_append:
  "field_writes step s (es @ fs) = field_writes step s es @ field_writes step (foldl (\<lambda>s e. fst (step s e)) s es) fs"
  by (induction step s es rule: field_writes.induct) (auto split: prod.splits)

lemma job_field_arrives:
  "field_writes job_field (job, d) (map Arrives vs) = []"
  "foldl (\<lambda>s e. fst (job_field s e)) (job, d) (map Arrives vs) = (job\<lparr>jb_name := last (jb_name job # vs)\<rparr>, d)"
  by (induction vs arbitrary: job) auto

lemma card_field_arrives:
  "field_writes card_field (st, v) (map Arrives vs) = []"
  "foldl (\<lambda>s e. fst (card_field s e)) (st, v) (map Arrives vs) = (st\<lparr>st_title := last (st_title st # vs)\<rparr>, v)"
  by (induction vs arbitrary: st) auto

text \<open>
  A name field that gets the focus and loses it, with nothing typed, after the server's name has become
  others: the job's field, which copies the name when it gets the focus, sends nothing but a trimmed form of
  the very name it shows; a step card, which copied the title when it was mounted, sends that old title
  whenever the title has changed since, and so undoes the other user's rename.
\<close>

theorem untouched_names:
  shows "field_writes job_field (job, None) (map Arrives vs @ [FocusIn, Blurred]) =
           (let name = last (jb_name job # vs) in if js_trim name = [] \<or> js_trim name = name then [] else [js_trim name])"
    and "field_writes card_field (st, st_title st) (map Arrives vs @ [FocusIn, Blurred]) =
           (let old = js_trim (st_title st) in if old = [] \<or> old = last (st_title st # vs) then [] else [old])"
  by (simp_all add: field_writes_append job_field_arrives card_field_arrives job_saveName_def card_saveTitle_def
      name_patch_def title_patch_def Let_def)

subsection \<open>Uploads of a document\<close>

definition doc_source_inv :: "doc_source \<Rightarrow> bool" where
  "doc_source_inv s =
     ((ds_uploadingName s \<noteq> None \<longleftrightarrow> ds_flight s \<noteq> None \<or> ds_tracked s \<noteq> None) \<and>
      (ds_flight s = None \<or> ds_tracked s = None) \<and>
      (\<forall>j t. ds_tracked s = Some (j, t) \<longrightarrow> (j, t) \<in> set (ds_accepted s)) \<and>
      (\<forall>(j, p) \<in> set (ds_pins s). (j, dp_hubId p, dp_dmProjectId p) \<in> set (ds_accepted s)) \<and>
      (distinct (map fst (ds_accepted s)) \<longrightarrow>
         distinct (map fst (ds_pins s)) \<and> (\<forall>j t. ds_tracked s = Some (j, t) \<longrightarrow> j \<notin> set (map fst (ds_pins s)))))"

lemma accepted_inv:
  assumes i: "doc_source_inv s"
  shows "doc_source_inv (upload_accepted job s)"
proof (cases "ds_flight s")
  case None
  with i show ?thesis by (simp add: upload_accepted_def)
next
  case (Some t)
  have tr: "ds_tracked s = None" and n: "ds_uploadingName s \<noteq> None"
    and p: "\<forall>(j, p) \<in> set (ds_pins s). (j, dp_hubId p, dp_dmProjectId p) \<in> set (ds_accepted s)"
    and d: "distinct (map fst (ds_accepted s)) \<Longrightarrow> distinct (map fst (ds_pins s))"
    using i Some by (auto simp: doc_source_inv_def)
  have "set (map fst (ds_pins s)) \<subseteq> set (map fst (ds_accepted s))" using p by force
  then have "distinct (map fst (ds_accepted s @ [(job, t)])) \<Longrightarrow>
      distinct (map fst (ds_pins s)) \<and> job \<notin> set (map fst (ds_pins s))"
    using d by (simp add: subset_iff del: set_map) blast
  with p n Some show ?thesis unfolding doc_source_inv_def by (simp add: upload_accepted_def) blast
qed

lemma watch_inv: "doc_source_inv s \<Longrightarrow> doc_source_inv (watch_jobs u jobs s)"
  by (auto simp: watch_jobs_def doc_source_inv_def split: option.splits)

lemma doc_source_step_inv: "doc_source_inv s \<Longrightarrow> doc_source_inv (doc_source_step u s e)"
proof (cases e)
  case (FilePicked nav f)
  assume "doc_source_inv s"
  then show ?thesis
    by (auto simp: FilePicked doUpload_def doc_source_inv_def split: option.splits)
next
  case (UploadRefused m)
  assume "doc_source_inv s"
  then show ?thesis
    by (auto simp: UploadRefused upload_refused_def doc_source_inv_def split: option.splits)
qed (simp_all add: accepted_inv watch_inv, simp_all add: doc_source_inv_def)

text \<open>
  C33. Supplying by upload, over any events: the button shows a name exactly while an upload is being sent
  or followed; every pin handed on carries the hub and project captured when its upload was sent; and, the
  server giving each upload an id of its own, no upload is pinned twice.
\<close>

theorem upload_pins_once:
  fixes u :: string and es :: "doc_source_event list"
  defines "s \<equiv> foldl (doc_source_step u) doc_source_init es"
  shows "(ds_uploadingName s \<noteq> None \<longleftrightarrow> ds_flight s \<noteq> None \<or> ds_tracked s \<noteq> None) \<and>
    (\<forall>(j, p) \<in> set (ds_pins s). (j, dp_hubId p, dp_dmProjectId p) \<in> set (ds_accepted s)) \<and>
    (distinct (map fst (ds_accepted s)) \<longrightarrow> distinct (map fst (ds_pins s)))"
proof -
  have "doc_source_inv s" unfolding s_def
    by (induction es rule: rev_induct) (simp_all add: doc_source_step_inv, simp add: doc_source_inv_def doc_source_init_def)
  then show ?thesis by (auto simp: doc_source_inv_def)
qed

definition demo_upload :: upload_job where
  "demo_upload = \<lparr>uj_id = ''7'', uj_fileName = ''a.f3d'', uj_size = 1, uj_bytesSent = 1, uj_status = ''done'', uj_error = None,
     uj_hubId = Some ''h'', uj_projectId = Some ''p'', uj_folderId = None, uj_dmProjectId = Some ''a'', uj_folderPath = [],
     uj_itemId = Some ''i'', uj_versionId = Some ''v'', uj_createdOn = None\<rparr>"

lemma upload_pins_once_witness:
  defines "es \<equiv> [FilePicked (initialState\<lparr>hubId := Some ''h'', project := Some ((mk_item ''p'' ''P'' ''project'' True)\<lparr>it_altId := Some ''a''\<rparr>)\<rparr>) ''a.f3d'',
      UploadAccepted ''7'', JobsChanged [demo_upload]]"
  shows "map fst (ds_pins (foldl (doc_source_step []) doc_source_init es)) = [''7''] \<and>
    distinct (map fst (ds_pins (foldl (doc_source_step []) doc_source_init es)))"
proof -
  have a: "distinct (map fst (ds_accepted (foldl (doc_source_step []) doc_source_init es)))"
    and p: "map fst (ds_pins (foldl (doc_source_step []) doc_source_init es)) = [''7'']"
    by (simp_all add: es_def doUpload_def upload_accepted_def watch_jobs_def doc_source_init_def initialState_def mk_item_def
        demo_upload_def truthy_def)
  show ?thesis using upload_pins_once[of "[]" es] a p by simp
qed

text \<open>An upload that is done without an item, or whose job has left the list, is followed for ever.\<close>

lemma upload_followed_on:
  assumes "ds_tracked s = Some (job, t)"
    and "\<forall>j \<in> set jobs. uj_id j = job \<longrightarrow> uj_status j = ''done'' \<and> \<not> truthy (uj_itemId j)"
  shows "watch_jobs u jobs s = s"
proof (cases "List.find (\<lambda>x. uj_id x = job) jobs")
  case (Some j)
  then have "j \<in> set jobs" "uj_id j = job" by (auto simp: find_Some_iff)
  with assms Some show ?thesis by (auto simp: watch_jobs_def)
qed (use assms in \<open>auto simp: watch_jobs_def\<close>)

lemma upload_done_is_pinned:
  assumes "ds_tracked s = Some (job, h, a)" "List.find (\<lambda>x. uj_id x = job) jobs = Some j"
    and "uj_status j = ''done''" "uj_itemId j = Some i" "i \<noteq> []"
  shows "map fst (ds_pins (watch_jobs u jobs s)) = map fst (ds_pins s) @ [job]"
    and "ds_uploadingName (watch_jobs u jobs s) = None"
  using assms by (auto simp: watch_jobs_def)

end
