(* ===== verification/JobCanvas.thy ===== *)
theory JobCanvas
  imports Production
begin

section \<open>The flow canvas of a job\<close>

text \<open>
  \<open>production/JobCanvas.tsx\<close>: the pan and zoom editor of a job's graph. A coordinate is a
  \<^typ>\<open>rat\<close>. The component is a state with one step per event; React renders between two events, so a
  handler sees the state the last one left. A mouse event over a node reaches the node's handler and then,
  unless that stops it, the viewport's. \<open>jc_calls\<close> is what was given to the mutations, in order; the
  answers come back as events.
\<close>

subsection \<open>Geometry\<close>

definition NODE_W :: rat where "NODE_W = 176"
definition NODE_H :: rat where "NODE_H = 74"
definition PORT_R :: rat where "PORT_R = 7"
definition PAD :: rat where "PAD = 80"
definition GAP :: rat where "GAP = 64"
definition DEC_W :: rat where "DEC_W = 208"
definition DIA_H :: rat where "DIA_H = 60"
definition DEC_ROW_H :: rat where "DEC_ROW_H = 22"
definition DEC_PAD :: rat where "DEC_PAD = 6"
definition DIA_R :: rat where "DIA_R = 14"

lemmas canvas_sizes = NODE_W_def NODE_H_def PORT_R_def PAD_def GAP_def DEC_W_def DIA_H_def DEC_ROW_H_def DEC_PAD_def

definition nodeW :: "prod_step \<Rightarrow> rat" where
  "nodeW st = (if isDecision st then DEC_W else NODE_W)"

definition stripH :: "nat \<Rightarrow> rat" where
  "stripH n = (if n \<noteq> 0 then DEC_PAD * 2 + of_nat n * DEC_ROW_H else 0)"

definition nodeH :: "prod_step \<Rightarrow> rat" where
  "nodeH st = (if isDecision st then DIA_H + stripH (length (st_results st)) else NODE_H)"

definition inPortY :: "prod_step \<Rightarrow> rat" where
  "inPortY st = (if isDecision st then DIA_H / 2 else NODE_H / 2)"

definition resultPortY :: "nat \<Rightarrow> rat" where
  "resultPortY i = DIA_H + DEC_PAD + (of_nat i + 1 / 2) * DEC_ROW_H"

definition clamp_to :: "rat \<Rightarrow> rat \<Rightarrow> rat \<Rightarrow> rat" where
  "clamp_to v lo hi = max lo (min hi v)"

text \<open>A path: its four points, start, two controls and end.\<close>

type_synonym point = "rat \<times> rat"

definition edgePath :: "rat \<Rightarrow> rat \<Rightarrow> rat \<Rightarrow> rat \<Rightarrow> point \<times> point \<times> point \<times> point" where
  "edgePath sx sy ex ey =
     (let cx = max 40 (\<bar>ex - sx\<bar> * (1 / 2)) in ((sx, sy), (sx + cx, sy), (ex - cx, ey), (ex, ey)))"

text \<open>The rhombus: for each vertex the point where its arc starts, the vertex and the point where it ends.
  \<open>hypot\<close> is \<open>Math.hypot\<close>.\<close>

definition diamond_cut :: "(rat \<Rightarrow> rat \<Rightarrow> rat) \<Rightarrow> rat \<Rightarrow> point \<Rightarrow> point \<Rightarrow> point" where
  "diamond_cut hypot r a b =
     (let dx = fst b - fst a; dy = snd b - snd a; t = min (1 / 2) (r / hypot dx dy)
      in (fst a + dx * t, snd a + dy * t))"

definition roundedDiamondPath :: "(rat \<Rightarrow> rat \<Rightarrow> rat) \<Rightarrow> rat \<Rightarrow> rat \<Rightarrow> rat \<Rightarrow> (point \<times> point \<times> point) list" where
  "roundedDiamondPath hypot w h r =
     (let pts = [(w / 2, 0), (w, h / 2), (w / 2, h), (0, h / 2)]
      in map (\<lambda>i. (diamond_cut hypot r (pts ! i) (pts ! ((i + 3) mod 4)), pts ! i,
                   diamond_cut hypot r (pts ! i) (pts ! ((i + 1) mod 4)))) [0..<4])"

record canvas_bounds =
  cb_minX :: rat
  cb_minY :: rat
  cb_w :: rat
  cb_h :: rat

text \<open>\<open>Infinity\<close> as the start of a minimum is the first element.\<close>

definition canvas_bounds_of :: "prod_step list \<Rightarrow> canvas_bounds" where
  "canvas_bounds_of steps =
     (case steps of
        [] \<Rightarrow> \<lparr>cb_minX = 0, cb_minY = 0, cb_w = 600, cb_h = 400\<rparr>
      | s # ss \<Rightarrow>
          (let minX = foldl (\<lambda>a st. min a (st_x st)) (st_x s) ss;
               minY = foldl (\<lambda>a st. min a (st_y st)) (st_y s) ss;
               maxX = foldl (\<lambda>a st. max a (st_x st + nodeW st)) (st_x s + nodeW s) ss;
               maxY = foldl (\<lambda>a st. max a (st_y st + nodeH st)) (st_y s + nodeH s) ss
           in \<lparr>cb_minX = minX - PAD, cb_minY = minY - PAD, cb_w = maxX - minX + PAD * 2, cb_h = maxY - minY + PAD * 2\<rparr>))"

subsection \<open>State\<close>

record canvas_view =
  cv_scale :: rat
  cv_tx :: rat
  cv_ty :: rat

record viewport =
  vp_left :: rat
  vp_top :: rat
  vp_clientWidth :: rat
  vp_clientHeight :: rat

record node_drag =
  nd_id :: string
  nd_startX :: rat
  nd_startY :: rat
  nd_origX :: rat
  nd_origY :: rat
  nd_scale :: rat
  nd_moved :: bool

record drag_pos =
  dg_id :: string
  dg_x :: rat
  dg_y :: rat

record edge_draw =
  ed_from :: string
  ed_fromResultId :: "string option"
  ed_lx :: rat
  ed_ly :: rat

record job_canvas =
  jc_job :: prod_job
  jc_canWrite :: bool
  jc_selected :: "string option"
  jc_vp :: viewport
  jc_view :: canvas_view
  jc_pan :: "(rat \<times> rat) option"
  jc_nodeDrag :: "node_drag option"
  jc_hover :: "string option"
  jc_dragPos :: "drag_pos option"
  jc_edgeDraw :: "edge_draw option"
  jc_renaming :: "string option"
  jc_newDecision :: bool
  jc_calls :: "graph_call list"

definition find_step :: "prod_job \<Rightarrow> string \<Rightarrow> prod_step option" where
  "find_step job i = List.find (\<lambda>s. st_id s = i) (jb_steps job)"

definition pos_with :: "drag_pos option \<Rightarrow> prod_step \<Rightarrow> rat \<times> rat" where
  "pos_with d st = (case d of Some p \<Rightarrow> if dg_id p = st_id st then (dg_x p, dg_y p) else (st_x st, st_y st)
     | None \<Rightarrow> (st_x st, st_y st))"

definition posOf :: "job_canvas \<Rightarrow> prod_step \<Rightarrow> rat \<times> rat" where
  "posOf s st = pos_with (jc_dragPos s) st"

definition canvas_ox :: "job_canvas \<Rightarrow> rat" where
  "canvas_ox s = - cb_minX (canvas_bounds_of (jb_steps (jc_job s)))"

definition canvas_oy :: "job_canvas \<Rightarrow> rat" where
  "canvas_oy s = - cb_minY (canvas_bounds_of (jb_steps (jc_job s)))"

definition fit_view :: "viewport \<Rightarrow> canvas_bounds \<Rightarrow> canvas_view" where
  "fit_view vp b =
     (let scale = clamp_to (min (vp_clientWidth vp / cb_w b) (vp_clientHeight vp / cb_h b)) (3 / 10) (3 / 2)
      in \<lparr>cv_scale = scale, cv_tx = (vp_clientWidth vp - cb_w b * scale) / 2,
          cv_ty = (vp_clientHeight vp - cb_h b * scale) / 2\<rparr>)"

definition fit :: "job_canvas \<Rightarrow> job_canvas" where
  "fit s = s\<lparr>jc_view := fit_view (jc_vp s) (canvas_bounds_of (jb_steps (jc_job s)))\<rparr>"

definition zoomAt :: "rat \<Rightarrow> rat \<Rightarrow> rat \<Rightarrow> canvas_view \<Rightarrow> canvas_view" where
  "zoomAt factor cx cy v =
     (let scale = clamp_to (cv_scale v * factor) (3 / 10) 2; k = scale / cv_scale v
      in \<lparr>cv_scale = scale, cv_tx = cx - (cx - cv_tx v) * k, cv_ty = cy - (cy - cv_ty v) * k\<rparr>)"

definition onWheel :: "bool \<Rightarrow> rat \<Rightarrow> rat \<Rightarrow> job_canvas \<Rightarrow> job_canvas" where
  "onWheel up x y s =
     (if jc_nodeDrag s \<noteq> None \<or> jc_edgeDraw s \<noteq> None then s
      else s\<lparr>jc_view := zoomAt (if up then 112 / 100 else 89 / 100) (x - vp_left (jc_vp s)) (y - vp_top (jc_vp s)) (jc_view s)\<rparr>)"

text \<open>The two zoom buttons.\<close>

definition zoom_button :: "rat \<Rightarrow> job_canvas \<Rightarrow> job_canvas" where
  "zoom_button factor s =
     s\<lparr>jc_view := zoomAt factor (vp_clientWidth (jc_vp s) / 2) (vp_clientHeight (jc_vp s) / 2) (jc_view s)\<rparr>"

definition toLayer :: "viewport \<Rightarrow> canvas_view \<Rightarrow> rat \<Rightarrow> rat \<Rightarrow> rat \<times> rat" where
  "toLayer vp v x y = ((x - vp_left vp - cv_tx v) / cv_scale v, (y - vp_top vp - cv_ty v) / cv_scale v)"

subsection \<open>The mouse\<close>

definition viewport_down :: "rat \<Rightarrow> rat \<Rightarrow> job_canvas \<Rightarrow> job_canvas" where
  "viewport_down x y s = s\<lparr>jc_pan := Some (x, y), jc_selected := None\<rparr>"

definition onMouseMove :: "rat \<Rightarrow> rat \<Rightarrow> job_canvas \<Rightarrow> job_canvas" where
  "onMouseMove x y s =
     (case jc_nodeDrag s of
        Some d \<Rightarrow>
          (let dx = (x - nd_startX d) / nd_scale d; dy = (y - nd_startY d) / nd_scale d
           in s\<lparr>jc_nodeDrag := Some (if \<bar>dx\<bar> > 2 \<or> \<bar>dy\<bar> > 2 then d\<lparr>nd_moved := True\<rparr> else d),
                jc_dragPos := Some \<lparr>dg_id = nd_id d, dg_x = nd_origX d + dx, dg_y = nd_origY d + dy\<rparr>\<rparr>)
      | None \<Rightarrow>
          (case jc_edgeDraw s of
             Some e \<Rightarrow> (case toLayer (jc_vp s) (jc_view s) x y of
                          (lx, ly) \<Rightarrow> s\<lparr>jc_edgeDraw := Some (e\<lparr>ed_lx := lx, ed_ly := ly\<rparr>)\<rparr>)
           | None \<Rightarrow>
               (case jc_pan s of
                  Some (px, py) \<Rightarrow>
                    s\<lparr>jc_pan := Some (x, y),
                      jc_view := (jc_view s)\<lparr>cv_tx := cv_tx (jc_view s) + (x - px), cv_ty := cv_ty (jc_view s) + (y - py)\<rparr>\<rparr>
                | None \<Rightarrow> s)))"

definition end_drag :: "job_canvas \<Rightarrow> job_canvas" where
  "end_drag s =
     (case (jc_nodeDrag s, jc_dragPos s) of
        (Some d, Some p) \<Rightarrow>
          if nd_moved d then s\<lparr>jc_calls := jc_calls s @ [UpdateStep (nd_id d) (position_patch (dg_x p) (dg_y p))]\<rparr>
          else s\<lparr>jc_dragPos := None\<rparr>
      | _ \<Rightarrow> s\<lparr>jc_dragPos := None\<rparr>)"

definition end_edge :: "job_canvas \<Rightarrow> job_canvas" where
  "end_edge s =
     (case jc_edgeDraw s of
        None \<Rightarrow> s
      | Some e \<Rightarrow>
          (let s = (case jc_hover s of
                      Some target \<Rightarrow> if target \<noteq> [] \<and> target \<noteq> ed_from e
                        then s\<lparr>jc_calls := jc_calls s @ [AddEdge (ed_from e) target (ed_fromResultId e)]\<rparr> else s
                    | None \<Rightarrow> s)
           in s\<lparr>jc_edgeDraw := None\<rparr>))"

definition endInteractions :: "job_canvas \<Rightarrow> job_canvas" where
  "endInteractions s = (end_edge (end_drag s))\<lparr>jc_nodeDrag := None, jc_pan := None\<rparr>"

definition handleBodyDown :: "string \<Rightarrow> rat \<Rightarrow> rat \<Rightarrow> job_canvas \<Rightarrow> job_canvas" where
  "handleBodyDown stepId x y s =
     (if \<not> jc_canWrite s then s\<lparr>jc_selected := Some stepId\<rparr>
      else case find_step (jc_job s) stepId of
             None \<Rightarrow> s
           | Some st \<Rightarrow> s\<lparr>jc_nodeDrag := Some \<lparr>nd_id = stepId, nd_startX = x, nd_startY = y,
               nd_origX = fst (posOf s st), nd_origY = snd (posOf s st), nd_scale = cv_scale (jc_view s), nd_moved = False\<rparr>\<rparr>)"

definition handleBodyUp :: "string \<Rightarrow> job_canvas \<Rightarrow> job_canvas" where
  "handleBodyUp stepId s =
     (case jc_nodeDrag s of Some d \<Rightarrow> if nd_moved d then s else s\<lparr>jc_selected := Some stepId\<rparr> | None \<Rightarrow> s)"

definition handlePortDown :: "string \<Rightarrow> string option \<Rightarrow> rat \<Rightarrow> rat \<Rightarrow> job_canvas \<Rightarrow> job_canvas" where
  "handlePortDown stepId resultId x y s =
     (case toLayer (jc_vp s) (jc_view s) x y of
        (lx, ly) \<Rightarrow> s\<lparr>jc_edgeDraw := Some \<lparr>ed_from = stepId, ed_fromResultId = resultId, ed_lx = lx, ed_ly = ly\<rparr>\<rparr>)"

definition handleRenameStart :: "string \<Rightarrow> job_canvas \<Rightarrow> job_canvas" where
  "handleRenameStart stepId s =
     (if \<not> jc_canWrite s then s else s\<lparr>jc_nodeDrag := None, jc_renaming := Some stepId\<rparr>)"

definition handleRenameEnd :: "string \<Rightarrow> string option \<Rightarrow> job_canvas \<Rightarrow> job_canvas" where
  "handleRenameEnd stepId nxt s =
     (let s = s\<lparr>jc_renaming := (if jc_renaming s = Some stepId then None else jc_renaming s)\<rparr> in
      case nxt of
        None \<Rightarrow> s
      | Some n \<Rightarrow>
          (case find_step (jc_job s) stepId of
             None \<Rightarrow> s
           | Some st \<Rightarrow> if js_trim n = [] \<or> js_trim n = st_title st then s
               else s\<lparr>jc_calls := jc_calls s @ [UpdateStep stepId (title_patch (js_trim n))]\<rparr>))"

text \<open>The input of a rename: what it hands to \<open>onEnd\<close> when it loses the focus.\<close>

definition name_input_end :: "bool \<Rightarrow> string \<Rightarrow> string option" where
  "name_input_end escaped draft = (if escaped then None else Some draft)"

definition handleEnter :: "string \<Rightarrow> job_canvas \<Rightarrow> job_canvas" where
  "handleEnter stepId s = s\<lparr>jc_hover := Some stepId\<rparr>"

definition handleLeave :: "string \<Rightarrow> job_canvas \<Rightarrow> job_canvas" where
  "handleLeave stepId s = (if jc_hover s = Some stepId then s\<lparr>jc_hover := None\<rparr> else s)"

subsection \<open>A new node\<close>

text \<open>What \<open>addStep\<close> decides before its request: the node it chains off, with the branch, and the place.\<close>

definition chain_branch :: "prod_job \<Rightarrow> prod_step \<Rightarrow> prod_result option" where
  "chain_branch job from' =
     (if isDecision from'
      then List.find (\<lambda>r. Some (pr_id r) \<notin> set (map pe_fromResultId (filter (\<lambda>e. pe_from e = st_id from') (jb_edges job))))
             (st_results from')
      else None)"

definition index_of_result :: "prod_result list \<Rightarrow> prod_result \<Rightarrow> nat" where
  "index_of_result rs r = length (takeWhile (\<lambda>x. x \<noteq> r) rs)"

definition chain_from :: "job_canvas \<Rightarrow> (prod_step \<times> prod_result option) option" where
  "chain_from s =
     (case Option.bind (jc_selected s) (find_step (jc_job s)) of
        None \<Rightarrow> None
      | Some from' \<Rightarrow>
          (let branch = chain_branch (jc_job s) from'
           in if \<not> isDecision from' \<or> branch \<noteq> None then Some (from', branch) else None))"

definition outY :: "prod_step \<Rightarrow> prod_result option \<Rightarrow> rat" where
  "outY from' branch =
     (case branch of Some r \<Rightarrow> resultPortY (index_of_result (st_results from') r) | None \<Rightarrow> inPortY from')"

definition new_pos :: "job_canvas \<Rightarrow> rat \<times> rat" where
  "new_pos s =
     (let newH = (if jc_newDecision s then DIA_H else NODE_H);
          newW = (if jc_newDecision s then DEC_W else NODE_W);
          newInY = (if jc_newDecision s then DIA_H / 2 else NODE_H / 2)
      in case chain_from s of
           Some (from', branch) \<Rightarrow> (st_x from' + nodeW from' + GAP, st_y from' + outY from' branch - newInY)
         | None \<Rightarrow>
             ((vp_clientWidth (jc_vp s) / 2 - cv_tx (jc_view s)) / cv_scale (jc_view s) - canvas_ox s - newW / 2,
              (vp_clientHeight (jc_vp s) / 2 - cv_ty (jc_view s)) / cv_scale (jc_view s) - canvas_oy s - newH / 2))"

definition canvas_addStep :: "(bool \<Rightarrow> nat \<Rightarrow> string) \<Rightarrow> job_canvas \<Rightarrow> job_canvas" where
  "canvas_addStep newTitle s =
     s\<lparr>jc_calls := jc_calls s @
       [AddStep \<lparr>sd_kind = Some (if jc_newDecision s then ''decision'' else ''step''),
          sd_title = newTitle (jc_newDecision s) (length (jb_steps (jc_job s)) + 1), sd_description = None,
          sd_x = Some (fst (new_pos s)), sd_y = Some (snd (new_pos s))\<rparr>]\<rparr>"

text \<open>Its \<open>onSuccess\<close>, which closes over the node it chained off.\<close>

definition step_created :: "(prod_step \<times> prod_result option) option \<Rightarrow> prod_job \<Rightarrow> job_canvas \<Rightarrow> job_canvas" where
  "step_created chained j s =
     (if jb_steps j = [] then s
      else let created = last (jb_steps j); s = s\<lparr>jc_selected := Some (st_id created)\<rparr> in
        case chained of
          None \<Rightarrow> s
        | Some (from', branch) \<Rightarrow>
            s\<lparr>jc_calls := jc_calls s @ [AddEdge (st_id from') (st_id created) (map_option pr_id branch)]\<rparr>)"

subsection \<open>Nodes and edges\<close>

definition out_ports :: "prod_step \<Rightarrow> (string \<times> rat) list" where
  "out_ports st =
     (if isDecision st then map (\<lambda>(i, r). (pr_id r, resultPortY i)) (List.enumerate 0 (st_results st))
      else [([], NODE_H / 2)])"

text \<open>A \<open>Map\<close> filled in order: the last entry of a key is the one it holds.\<close>

definition anchor :: "prod_step list \<Rightarrow> string \<Rightarrow> prod_step option" where
  "anchor steps i = map_of (List.rev (map (\<lambda>s. (st_id s, s)) steps)) i"

definition port_of :: "prod_step \<Rightarrow> string option \<Rightarrow> rat option" where
  "port_of st r = map_of (List.rev (out_ports st)) (nullish r [])"

record canvas_edge =
  ce_id :: string
  ce_path :: "point \<times> point \<times> point \<times> point"
  ce_branch :: "prod_result option"

definition draw_edge :: "job_canvas \<Rightarrow> prod_edge \<Rightarrow> canvas_edge option" where
  "draw_edge s e =
     (case (anchor (jb_steps (jc_job s)) (pe_from e), anchor (jb_steps (jc_job s)) (pe_to e)) of
        (Some f, Some t) \<Rightarrow>
          (case port_of f (pe_fromResultId e) of
             None \<Rightarrow> None
           | Some fromY \<Rightarrow>
               (let fp = pos_with (jc_dragPos s) f; tp = pos_with (jc_dragPos s) t;
                    branch = (if truthy (pe_fromResultId e)
                      then List.find (\<lambda>r. Some (pr_id r) = pe_fromResultId e) (st_results f) else None)
                in Some \<lparr>ce_id = pe_id e,
                     ce_path = edgePath (fst fp + nodeW f + canvas_ox s) (snd fp + fromY + canvas_oy s)
                       (fst tp + canvas_ox s) (snd tp + inPortY t + canvas_oy s),
                     ce_branch = branch\<rparr>))
      | _ \<Rightarrow> None)"

definition canvas_edges :: "job_canvas \<Rightarrow> canvas_edge list" where
  "canvas_edges s = List.map_filter (draw_edge s) (jb_edges (jc_job s))"

definition edge_stroke :: "bool \<Rightarrow> string \<Rightarrow> canvas_edge \<Rightarrow> string \<times> rat" where
  "edge_stroke dark edgeColor e =
     (case ce_branch e of Some r \<Rightarrow> (resultColor (pr_color r) dark, 9 / 10) | None \<Rightarrow> (edgeColor, 55 / 100))"

text \<open>Where a node is: on the layer, and on the screen, relative to the viewport.\<close>

definition node_left_top :: "job_canvas \<Rightarrow> prod_step \<Rightarrow> rat \<times> rat" where
  "node_left_top s st = (fst (posOf s st) + canvas_ox s, snd (posOf s st) + canvas_oy s)"

definition to_screen :: "canvas_view \<Rightarrow> rat \<times> rat \<Rightarrow> rat \<times> rat" where
  "to_screen v p = (cv_tx v + cv_scale v * fst p, cv_ty v + cv_scale v * snd p)"

definition on_screen :: "job_canvas \<Rightarrow> prod_step \<Rightarrow> rat \<times> rat" where
  "on_screen s st = to_screen (jc_view s) (node_left_top s st)"

subsection \<open>Events\<close>

text \<open>Answers: a fetched job takes the place of the old one; the move of a node is settled after the job
  of its answer, if there is one, has arrived. Ports, the palette and the add button exist only for who can
  write, and a rename ends only where one is going on.\<close>

datatype canvas_event =
    ViewportDown rat rat
  | BodyDown string rat rat
  | PortDown string "string option" rat rat
  | MouseMove rat rat
  | MouseUp "string option"
  | MouseLeft
  | Wheel bool rat rat
  | ZoomIn
  | ZoomOut
  | Fit
  | Resized viewport
  | NodeEntered string
  | NodeLeft string
  | RenameStart string
  | RenameEnd string "string option"
  | NewKind bool
  | AddClicked "bool \<Rightarrow> nat \<Rightarrow> string"
  | JobArrives prod_job
  | MoveSettled string
  | StepCreated "(prod_step \<times> prod_result option) option" prod_job
  | EditorClosed

fun canvas_step :: "job_canvas \<Rightarrow> canvas_event \<Rightarrow> job_canvas" where
  "canvas_step s (ViewportDown x y) = viewport_down x y s"
| "canvas_step s (BodyDown i x y) = handleBodyDown i x y s"
| "canvas_step s (PortDown i r x y) = (if jc_canWrite s then handlePortDown i r x y s else s)"
| "canvas_step s (MouseMove x y) = onMouseMove x y s"
| "canvas_step s (MouseUp over) = endInteractions (case over of Some i \<Rightarrow> handleBodyUp i s | None \<Rightarrow> s)"
| "canvas_step s MouseLeft = endInteractions s"
| "canvas_step s (Wheel up x y) = onWheel up x y s"
| "canvas_step s ZoomIn = zoom_button (12 / 10) s"
| "canvas_step s ZoomOut = zoom_button (83 / 100) s"
| "canvas_step s Fit = fit s"
| "canvas_step s (Resized vp) = fit (s\<lparr>jc_vp := vp\<rparr>)"
| "canvas_step s (NodeEntered i) = handleEnter i s"
| "canvas_step s (NodeLeft i) = handleLeave i s"
| "canvas_step s (RenameStart i) = handleRenameStart i s"
| "canvas_step s (RenameEnd i n) = (if jc_renaming s = Some i then handleRenameEnd i n s else s)"
| "canvas_step s (NewKind d) = s\<lparr>jc_newDecision := d\<rparr>"
| "canvas_step s (AddClicked f) = (if jc_canWrite s then canvas_addStep f s else s)"
| "canvas_step s (JobArrives j) = s\<lparr>jc_job := j\<rparr>"
| "canvas_step s (MoveSettled i) =
     s\<lparr>jc_dragPos := (case jc_dragPos s of Some p \<Rightarrow> if dg_id p = i then None else Some p | None \<Rightarrow> None)\<rparr>"
| "canvas_step s (StepCreated c j) = (if jc_canWrite s then step_created c j s else s)"
| "canvas_step s EditorClosed = s\<lparr>jc_selected := None\<rparr>"

definition canvas_init :: "viewport \<Rightarrow> bool \<Rightarrow> prod_job \<Rightarrow> job_canvas" where
  "canvas_init vp cw job = fit \<lparr>jc_job = job, jc_canWrite = cw, jc_selected = None, jc_vp = vp,
     jc_view = \<lparr>cv_scale = 1, cv_tx = 0, cv_ty = 0\<rparr>, jc_pan = None, jc_nodeDrag = None, jc_hover = None,
     jc_dragPos = None, jc_edgeDraw = None, jc_renaming = None, jc_newDecision = False, jc_calls = []\<rparr>"

abbreviation canvas_run :: "job_canvas \<Rightarrow> canvas_event list \<Rightarrow> job_canvas" where
  "canvas_run \<equiv> foldl canvas_step"

section \<open>What the canvas does\<close>

subsection \<open>The scale, and the point under the cursor\<close>

definition scale_ok :: "job_canvas \<Rightarrow> bool" where
  "scale_ok s = (3 / 10 \<le> cv_scale (jc_view s) \<and> cv_scale (jc_view s) \<le> 2)"

lemma clamp_range: "lo \<le> hi \<Longrightarrow> lo \<le> clamp_to v lo hi \<and> clamp_to v lo hi \<le> hi"
  by (simp add: clamp_to_def)

lemma fit_scale_ok: "scale_ok (fit s)"
proof -
  have "3 / 10 \<le> clamp_to v (3 / 10) (3 / 2)" "clamp_to v (3 / 10) (3 / 2) \<le> 2" for v
    using clamp_range[of "3 / 10" "3 / 2" v] by linarith+
  then show ?thesis by (simp only: scale_ok_def fit_def fit_view_def Let_def) simp
qed

lemma zoom_scale_ok: "3 / 10 \<le> cv_scale (zoomAt f x y v) \<and> cv_scale (zoomAt f x y v) \<le> 2"
  using clamp_range[of "3 / 10" 2] by (simp add: zoomAt_def Let_def)

lemmas canvas_handlers = viewport_down_def handleBodyDown_def handlePortDown_def onMouseMove_def endInteractions_def
  end_edge_def end_drag_def handleBodyUp_def handleRenameStart_def handleRenameEnd_def handleEnter_def handleLeave_def
  canvas_addStep_def step_created_def onWheel_def zoom_button_def

text \<open>Only the wheel, the buttons, the fit and a pan touch the view, and a pan not its scale.\<close>

lemma view_kept [simp]:
  "jc_view (end_drag s) = jc_view s" "jc_view (end_edge s) = jc_view s" "jc_view (handleBodyUp i s) = jc_view s"
  "jc_view (handleBodyDown i x y s) = jc_view s" "jc_view (handlePortDown i r x y s) = jc_view s"
  "jc_view (handleRenameStart i s) = jc_view s" "jc_view (handleRenameEnd i n s) = jc_view s"
  "jc_view (step_created c j s) = jc_view s" "jc_view (handleLeave i s) = jc_view s"
  by (simp_all add: canvas_handlers Let_def split: option.splits prod.splits)

lemma move_scale [simp]: "cv_scale (jc_view (onMouseMove x y s)) = cv_scale (jc_view s)"
  by (simp add: onMouseMove_def Let_def split: option.splits prod.splits)

lemma canvas_step_scale: "scale_ok s \<Longrightarrow> scale_ok (canvas_step s e)"
proof (cases e)
  case Fit
  then show ?thesis using fit_scale_ok[of s] by simp
next
  case (Resized vp)
  then show ?thesis using fit_scale_ok[of "s\<lparr>jc_vp := vp\<rparr>"] by simp
next
  case (Wheel up x y)
  assume "scale_ok s"
  then show ?thesis using zoom_scale_ok by (simp add: Wheel scale_ok_def onWheel_def)
next
  case (MouseUp over)
  assume "scale_ok s"
  then show ?thesis by (cases over) (simp_all add: MouseUp scale_ok_def endInteractions_def)
qed (use zoom_scale_ok in \<open>simp_all add: scale_ok_def zoom_button_def viewport_down_def endInteractions_def handleEnter_def
    canvas_addStep_def\<close>)

lemma canvas_run_scale: "scale_ok (canvas_run (canvas_init vp cw job) es)"
  by (induction es rule: rev_induct) (simp_all add: canvas_init_def fit_scale_ok canvas_step_scale)

lemma zoom_point:
  assumes "0 < cv_scale v"
  shows "toLayer vp (zoomAt f (x - vp_left vp) (y - vp_top vp) v) x y = toLayer vp v x y"
proof -
  have "0 < cv_scale (zoomAt f (x - vp_left vp) (y - vp_top vp) v)"
    using zoom_scale_ok[of f "x - vp_left vp" "y - vp_top vp" v] by linarith
  then show ?thesis using assms by (simp add: toLayer_def zoomAt_def Let_def field_simps)
qed

text \<open>
  C40. Whatever happened before, a turn of the wheel leaves under the cursor the point of the graph that was
  there, and the zoom stays between 30% and 200%.
\<close>

theorem wheel_keeps_point:
  fixes vp :: viewport and cw :: bool and job :: prod_job and es :: "canvas_event list"
  defines "s \<equiv> canvas_run (canvas_init vp cw job) es"
  shows "toLayer (jc_vp s) (jc_view (canvas_step s (Wheel up x y))) x y = toLayer (jc_vp s) (jc_view s) x y \<and>
    3 / 10 \<le> cv_scale (jc_view s) \<and> cv_scale (jc_view s) \<le> 2"
proof -
  have r: "3 / 10 \<le> cv_scale (jc_view s) \<and> cv_scale (jc_view s) \<le> 2"
    using canvas_run_scale by (auto simp: s_def scale_ok_def)
  then have "0 < cv_scale (jc_view s)" by linarith
  then have "toLayer (jc_vp s) (jc_view (canvas_step s (Wheel up x y))) x y = toLayer (jc_vp s) (jc_view s) x y"
    by (simp add: onWheel_def zoom_point)
  with r show ?thesis by blast
qed

subsection \<open>Readers\<close>

definition reader_inv :: "job_canvas \<Rightarrow> bool" where
  "reader_inv s = (\<not> jc_canWrite s \<and> jc_calls s = [] \<and> jc_nodeDrag s = None \<and> jc_edgeDraw s = None \<and> jc_renaming s = None)"

lemma reader_step: "reader_inv s \<Longrightarrow> reader_inv (canvas_step s e)"
  by (cases e) (auto simp: reader_inv_def canvas_handlers fit_def split: option.splits prod.splits)

text \<open>On the canvas of a user who can only read, no sequence of events makes a request.\<close>

theorem reader_sends_nothing:
  "jc_calls (canvas_run (canvas_init vp False job) es) = []"
proof -
  have "reader_inv (canvas_run (canvas_init vp False job) es)"
    by (induction es rule: rev_induct)
      (simp_all add: reader_step, simp add: reader_inv_def canvas_init_def fit_def)
  then show ?thesis by (simp add: reader_inv_def)
qed

subsection \<open>The bounds and the fit\<close>

lemma foldl_min: "foldl (\<lambda>a st. min a (f st)) m ss \<le> (m :: rat)" "st \<in> set ss \<Longrightarrow> foldl (\<lambda>a st. min a (f st)) m ss \<le> f st"
proof -
  show a: "foldl (\<lambda>a st. min a (f st)) m ss \<le> m" for m ss
    by (induction ss arbitrary: m) (simp, metis foldl_Cons min.cobounded1 order_trans)
  show "st \<in> set ss \<Longrightarrow> foldl (\<lambda>a st. min a (f st)) m ss \<le> f st"
  proof (induction ss arbitrary: m)
    case (Cons t ss)
    then show ?case using a[of "min m (f t)"] by (auto intro: order_trans)
  qed simp
qed

lemma foldl_max: "(m :: rat) \<le> foldl (\<lambda>a st. max a (f st)) m ss" "st \<in> set ss \<Longrightarrow> f st \<le> foldl (\<lambda>a st. max a (f st)) m ss"
proof -
  show a: "m \<le> foldl (\<lambda>a st. max a (f st)) m ss" for m ss
    by (induction ss arbitrary: m) (simp, metis foldl_Cons max.cobounded1 order_trans)
  show "st \<in> set ss \<Longrightarrow> f st \<le> foldl (\<lambda>a st. max a (f st)) m ss"
  proof (induction ss arbitrary: m)
    case (Cons t ss)
    then show ?case using a[of "max m (f t)"] by (auto intro: order_trans)
  qed simp
qed

lemma bounds_hold:
  assumes "st \<in> set steps" and "b = canvas_bounds_of steps"
  shows "cb_minX b + PAD \<le> st_x st" "st_x st + nodeW st + PAD \<le> cb_minX b + cb_w b"
    and "cb_minY b + PAD \<le> st_y st" "st_y st + nodeH st + PAD \<le> cb_minY b + cb_h b"
proof -
  obtain s ss where e: "steps = s # ss" using assms(1) by (cases steps) auto
  have m: "st = s \<or> st \<in> set ss" using assms(1) e by auto
  have "foldl (\<lambda>a st. min a (st_x st)) (st_x s) ss \<le> st_x st" "foldl (\<lambda>a st. min a (st_y st)) (st_y s) ss \<le> st_y st"
    using m foldl_min by auto
  moreover have "st_x st + nodeW st \<le> foldl (\<lambda>a st. max a (st_x st + nodeW st)) (st_x s + nodeW s) ss"
    "st_y st + nodeH st \<le> foldl (\<lambda>a st. max a (st_y st + nodeH st)) (st_y s + nodeH s) ss"
    using m foldl_max[where f = "\<lambda>st. st_x st + nodeW st"] foldl_max[where f = "\<lambda>st. st_y st + nodeH st"] by auto
  ultimately show "cb_minX b + PAD \<le> st_x st" "st_x st + nodeW st + PAD \<le> cb_minX b + cb_w b"
    "cb_minY b + PAD \<le> st_y st" "st_y st + nodeH st + PAD \<le> cb_minY b + cb_h b"
    by (simp_all add: assms(2) e canvas_bounds_of_def Let_def)
qed

lemma nodeH_pos: "0 < nodeH st"
  by (simp add: nodeH_def stripH_def canvas_sizes)

lemma nodeW_pos: "0 < nodeW st"
  by (simp add: nodeW_def canvas_sizes)

text \<open>An interval of the layer, centred by the fit, at a scale at which the layer fits.\<close>

lemma centred:
  fixes k :: rat
  assumes "0 < k" "k * w \<le> c" "0 \<le> a" "a + l \<le> w"
  shows "0 \<le> (c - w * k) / 2 + k * a" "(c - w * k) / 2 + k * a + k * l \<le> c"
proof -
  have "0 \<le> k * a" using assms by simp
  with assms show "0 \<le> (c - w * k) / 2 + k * a" by (simp add: algebra_simps)
  have "k * (a + l) \<le> k * w" using assms by (intro mult_left_mono) auto
  then have "k * a + k * l \<le> w * k" by (simp add: distrib_left mult.commute)
  moreover have "w * k \<le> c" using assms(2) by (simp add: mult.commute)
  ultimately show "(c - w * k) / 2 + k * a + k * l \<le> c" by (simp add: field_simps)
qed

text \<open>
  After a fit every node is wholly inside the viewport, unless that would take a zoom below 30%.
\<close>

theorem fit_shows_all:
  assumes "st \<in> set (jb_steps (jc_job s))" and "jc_dragPos s = None"
    and "3 / 10 \<le> vp_clientWidth (jc_vp s) / cb_w (canvas_bounds_of (jb_steps (jc_job s)))"
    and "3 / 10 \<le> vp_clientHeight (jc_vp s) / cb_h (canvas_bounds_of (jb_steps (jc_job s)))"
  shows "0 \<le> fst (on_screen (fit s) st)" and "0 \<le> snd (on_screen (fit s) st)"
    and "fst (on_screen (fit s) st) + cv_scale (jc_view (fit s)) * nodeW st \<le> vp_clientWidth (jc_vp s)"
    and "snd (on_screen (fit s) st) + cv_scale (jc_view (fit s)) * nodeH st \<le> vp_clientHeight (jc_vp s)"
proof -
  define b where "b = canvas_bounds_of (jb_steps (jc_job s))"
  define k where "k = cv_scale (jc_view (fit s))"
  note h = bounds_hold[OF assms(1) b_def]
  have pos: "0 < cb_w b" "0 < cb_h b" using h nodeW_pos[of st] nodeH_pos[of st] by (auto simp: PAD_def)
  have k0: "0 < k" using fit_scale_ok[of s] by (simp add: scale_ok_def k_def)
  have "k \<le> vp_clientWidth (jc_vp s) / cb_w b" "k \<le> vp_clientHeight (jc_vp s) / cb_h b"
    using assms(3,4) by (auto simp: k_def fit_def fit_view_def Let_def clamp_to_def b_def)
  then have kw: "k * cb_w b \<le> vp_clientWidth (jc_vp s)" "k * cb_h b \<le> vp_clientHeight (jc_vp s)"
    using pos by (simp_all add: pos_le_divide_eq)
  have x: "fst (on_screen (fit s) st) = (vp_clientWidth (jc_vp s) - cb_w b * k) / 2 + k * (st_x st - cb_minX b)"
    and y: "snd (on_screen (fit s) st) = (vp_clientHeight (jc_vp s) - cb_h b * k) / 2 + k * (st_y st - cb_minY b)"
    using assms(2) by (simp_all add: on_screen_def to_screen_def node_left_top_def posOf_def pos_with_def canvas_ox_def
        canvas_oy_def b_def k_def fit_def fit_view_def Let_def)
  have cx: "0 \<le> st_x st - cb_minX b" "st_x st - cb_minX b + nodeW st \<le> cb_w b" using h by (auto simp: PAD_def)
  have cy: "0 \<le> st_y st - cb_minY b" "st_y st - cb_minY b + nodeH st \<le> cb_h b" using h by (auto simp: PAD_def)
  show "0 \<le> fst (on_screen (fit s) st)" "0 \<le> snd (on_screen (fit s) st)"
    "fst (on_screen (fit s) st) + cv_scale (jc_view (fit s)) * nodeW st \<le> vp_clientWidth (jc_vp s)"
    "snd (on_screen (fit s) st) + cv_scale (jc_view (fit s)) * nodeH st \<le> vp_clientHeight (jc_vp s)"
    unfolding x y k_def[symmetric] using centred[OF k0 kw(1) cx] centred[OF k0 kw(2) cy] by blast+
qed

subsection \<open>A chained node\<close>

lemma anchor_in:
  assumes "distinct (map st_id steps)" "st \<in> set steps"
  shows "anchor steps (st_id st) = Some st"
proof -
  have d: "distinct (map fst (map (\<lambda>s. (st_id s, s)) steps))" using assms(1) by (simp add: comp_def)
  have "anchor steps (st_id st) = map_of (map (\<lambda>s. (st_id s, s)) steps) (st_id st)"
    unfolding anchor_def map_of_rev_distinct[OF d] ..
  also have "... = Some st" using assms by (intro map_of_is_SomeI) (auto simp: comp_def)
  finally show ?thesis .
qed

lemma index_of_result: "r \<in> set rs \<Longrightarrow> index_of_result rs r < length rs \<and> rs ! index_of_result rs r = r"
  by (induction rs) (auto simp: index_of_result_def)

lemma port_of_result:
  assumes d: "isDecision st" "distinct (map pr_id (st_results st))" and r: "r \<in> set (st_results st)"
  shows "port_of st (Some (pr_id r)) = Some (resultPortY (index_of_result (st_results st) r))"
proof -
  define xs where "xs = out_ports st"
  have k: "map fst xs = map pr_id (st_results st)"
    unfolding xs_def out_ports_def using d(1) by (simp add: comp_def split_def flip: map_map[of pr_id snd, unfolded comp_def])
  have "(pr_id r, resultPortY (index_of_result (st_results st) r)) \<in> set xs"
    unfolding xs_def out_ports_def using d(1) index_of_result[OF r]
    by (force simp: in_set_enumerate_eq)
  moreover have "distinct (map fst xs)" using k d(2) by simp
  ultimately show ?thesis
    unfolding port_of_def xs_def[symmetric] by (simp add: map_of_rev_distinct map_of_is_SomeI)
qed

lemma chain_branch_in: "chain_branch job f = Some r \<Longrightarrow> isDecision f \<and> r \<in> set (st_results f)"
  by (auto simp: chain_branch_def find_Some_iff split: if_splits)

lemma chain_port:
  assumes "chain_from s = Some (f, br)" "distinct (map pr_id (st_results f))"
  shows "port_of f (map_option pr_id br) = Some (outY f br)"
proof (cases br)
  case (Some r)
  have c: "chain_branch (jc_job s) f = Some r" using assms(1) Some by (auto simp: chain_from_def Let_def split: option.splits if_splits)
  show ?thesis using port_of_result[of f r] chain_branch_in[OF c] assms(2) by (simp add: Some outY_def)
next
  case None
  then have "\<not> isDecision f" using assms(1) by (auto simp: chain_from_def Let_def split: option.splits if_splits)
  then show ?thesis by (simp add: None outY_def port_of_def out_ports_def inPortY_def)
qed

text \<open>
  A node added from a selected one lands to its right, and when the job that has it and its edge
  arrives, that edge is drawn level across the gap: it starts at the port it leaves from, the branch's if
  the selected node is a decision, and ends at the height of the new node's port.
\<close>

theorem chained_edge_is_level:
  assumes f: "chain_from s = Some (f, br)" "distinct (map pr_id (st_results f))"
    and j: "jb_steps j = jb_steps (jc_job s) @ [c]" "distinct (map st_id (jb_steps j))"
    and c: "st_x c = fst (new_pos s)" "st_y c = snd (new_pos s)" "isDecision c \<longleftrightarrow> jc_newDecision s"
    and e: "pe_from e = st_id f" "pe_to e = st_id c" "pe_fromResultId e = map_option pr_id br"
    and d: "jc_dragPos s = None"
  shows "\<exists>ce x y. draw_edge (canvas_step s (JobArrives j)) e = Some ce \<and> ce_path ce = edgePath x y (x + GAP) y"
proof -
  have "f \<in> set (jb_steps (jc_job s))"
    using f(1) by (auto simp: chain_from_def find_step_def Let_def find_Some_iff bind_eq_Some_conv split: option.splits if_splits)
  then have af: "anchor (jb_steps j) (st_id f) = Some f" and ac: "anchor (jb_steps j) (st_id c) = Some c"
    using j by (auto intro!: anchor_in)
  have p: "port_of f (pe_fromResultId e) = Some (outY f br)" unfolding e(3) by (rule chain_port[OF f])
  have xy: "st_x c = st_x f + nodeW f + GAP" "st_y c = st_y f + outY f br - inPortY c"
    using c f(1) by (auto simp: new_pos_def inPortY_def)
  let ?s = "canvas_step s (JobArrives j)"
  let ?x = "st_x f + nodeW f + canvas_ox ?s"
  let ?y = "st_y f + outY f br + canvas_oy ?s"
  have ends: "st_x c + canvas_ox ?s = ?x + GAP" "st_y c + inPortY c + canvas_oy ?s = ?y" by (simp_all add: xy)
  have "map_option ce_path (draw_edge ?s e) =
      Some (edgePath ?x ?y (st_x c + canvas_ox ?s) (st_y c + inPortY c + canvas_oy ?s))"
    using d by (simp add: draw_edge_def e(1,2) af ac p pos_with_def Let_def)
  then have "map_option ce_path (draw_edge ?s e) = Some (edgePath ?x ?y (?x + GAP) ?y)" unfolding ends .
  then show ?thesis by auto
qed

definition demo_step :: "string \<Rightarrow> string \<Rightarrow> rat \<Rightarrow> rat \<Rightarrow> prod_result list \<Rightarrow> prod_step" where
  "demo_step i k x y rs = \<lparr>st_id = i, st_kind = k, st_num = 1, st_title = i, st_description = None, st_x = x, st_y = y,
     st_results = rs, st_planDocs = [], st_placeholders = [], st_createdAt = [], st_updatedAt = []\<rparr>"

definition demo_canvas :: "prod_step list \<Rightarrow> job_canvas" where
  "demo_canvas ss = \<lparr>jc_job = (demo_job [])\<lparr>jb_steps := ss\<rparr>, jc_canWrite = True, jc_selected = Some ''s1'',
     jc_vp = \<lparr>vp_left = 0, vp_top = 0, vp_clientWidth = 1000, vp_clientHeight = 500\<rparr>,
     jc_view = \<lparr>cv_scale = 1, cv_tx = 0, cv_ty = 0\<rparr>, jc_pan = None, jc_nodeDrag = None, jc_hover = None,
     jc_dragPos = None, jc_edgeDraw = None, jc_renaming = None, jc_newDecision = False, jc_calls = []\<rparr>"

lemma chained_edge_is_level_witness:
  defines "f \<equiv> demo_step ''s1'' ''decision'' 0 0 [\<lparr>pr_id = ''r1'', pr_label = ''ok'', pr_color = ''green''\<rparr>]"
    and "c \<equiv> demo_step ''s2'' ''step'' 272 40 []"
  shows "\<exists>ce x y. draw_edge (canvas_step (demo_canvas [f]) (JobArrives ((demo_job [])\<lparr>jb_steps := [f, c]\<rparr>)))
      \<lparr>pe_id = ''e1'', pe_from = ''s1'', pe_fromResultId = Some ''r1'', pe_to = ''s2''\<rparr> = Some ce
    \<and> ce_path ce = edgePath x y (x + GAP) y"
proof -
  let ?r = "\<lparr>pr_id = ''r1'', pr_label = ''ok'', pr_color = ''green''\<rparr>"
  have f: "chain_from (demo_canvas [f]) = Some (f, Some ?r)"
    by (simp add: chain_from_def demo_canvas_def find_step_def f_def demo_step_def isDecision_def chain_branch_def demo_job_def Let_def)
  have n: "new_pos (demo_canvas [f]) = (272, 40)"
    unfolding new_pos_def f by (simp add: outY_def index_of_result_def resultPortY_def canvas_sizes nodeW_def f_def demo_step_def
        isDecision_def demo_canvas_def)
  show ?thesis
    by (rule chained_edge_is_level[OF f, where c = c])
      (use n in \<open>simp_all add: f_def c_def demo_step_def demo_canvas_def demo_job_def isDecision_def\<close>)
qed

lemma fit_shows_all_witness:
  defines "s \<equiv> demo_canvas [demo_step ''s1'' ''step'' 0 0 []]"
  shows "0 \<le> fst (on_screen (fit s) (demo_step ''s1'' ''step'' 0 0 [])) \<and>
    snd (on_screen (fit s) (demo_step ''s1'' ''step'' 0 0 [])) +
      cv_scale (jc_view (fit s)) * nodeH (demo_step ''s1'' ''step'' 0 0 []) \<le> 500"
proof -
  have a: "demo_step ''s1'' ''step'' 0 0 [] \<in> set (jb_steps (jc_job s))" "jc_dragPos s = None"
    "3 / 10 \<le> vp_clientWidth (jc_vp s) / cb_w (canvas_bounds_of (jb_steps (jc_job s)))"
    "3 / 10 \<le> vp_clientHeight (jc_vp s) / cb_h (canvas_bounds_of (jb_steps (jc_job s)))"
    by (simp_all add: s_def demo_canvas_def canvas_bounds_of_def demo_step_def nodeW_def nodeH_def isDecision_def canvas_sizes)
  have h: "vp_clientHeight (jc_vp s) = 500" by (simp add: s_def demo_canvas_def)
  show ?thesis using fit_shows_all(1,4)[OF a] by (simp add: h)
qed

subsection \<open>Dragging a node\<close>

definition drag_far :: "node_drag \<Rightarrow> rat \<times> rat \<Rightarrow> bool" where
  "drag_far d m = (\<bar>(fst m - nd_startX d) / nd_scale d\<bar> > 2 \<or> \<bar>(snd m - nd_startY d) / nd_scale d\<bar> > 2)"

definition drag_at :: "node_drag \<Rightarrow> rat \<times> rat \<Rightarrow> drag_pos" where
  "drag_at d m = \<lparr>dg_id = nd_id d, dg_x = nd_origX d + (fst m - nd_startX d) / nd_scale d,
     dg_y = nd_origY d + (snd m - nd_startY d) / nd_scale d\<rparr>"

abbreviation mouse_moves :: "(rat \<times> rat) list \<Rightarrow> canvas_event list" where
  "mouse_moves \<equiv> map (\<lambda>m. MouseMove (fst m) (snd m))"

lemma drag_moves:
  assumes "jc_nodeDrag s = Some d" "nd_moved d = False"
  shows "canvas_run s (mouse_moves ms) =
    s\<lparr>jc_nodeDrag := Some (d\<lparr>nd_moved := (\<exists>m \<in> set ms. drag_far d m)\<rparr>),
      jc_dragPos := (if ms = [] then jc_dragPos s else Some (drag_at d (last ms)))\<rparr>"
proof (induction ms rule: rev_induct)
  case Nil
  then show ?case using assms by (cases d) simp
next
  case (snoc m ms)
  then show ?case by (auto simp: onMouseMove_def drag_far_def drag_at_def Let_def)
qed

lemma find_step_id: "find_step job i = Some st \<Longrightarrow> st_id st = i"
  by (auto simp: find_step_def find_Some_iff)

text \<open>
  Dragging a node of a graph that is at rest. While the mouse moves, the node is drawn where the pointer
  has taken it and every other node stays where it is; after the release, which asks for the move and only
  for that, it is still there. When the job with the new position has arrived, every node is drawn moved by
  the change of the top left corner of the bounds, at the scale of the view: the picture stands still exactly
  when that corner does. And when the mouse leaves the canvas before, the node is drawn at its old place.
\<close>

theorem dragged_node_lands:
  fixes s :: job_canvas and x y :: rat and st :: prod_step and ms :: "(rat \<times> rat) list" and j :: prod_job and over :: "string option"
  defines "s1 \<equiv> canvas_run s (BodyDown (st_id st) x y # mouse_moves ms)"
  defines "s2 \<equiv> canvas_step s1 (MouseUp over)"
  defines "p \<equiv> (st_x st + (fst (last ms) - x) / cv_scale (jc_view s), st_y st + (snd (last ms) - y) / cv_scale (jc_view s))"
  defines "s3 \<equiv> canvas_run s2 [JobArrives j, MoveSettled (st_id st)]"
  defines "b \<equiv> canvas_bounds_of (jb_steps (jc_job s))" and "b' \<equiv> canvas_bounds_of (jb_steps j)"
  assumes s: "jc_canWrite s" "jc_nodeDrag s = None" "jc_edgeDraw s = None" "jc_dragPos s = None" "0 < cv_scale (jc_view s)"
    and st: "find_step (jc_job s) (st_id st) = Some st"
    and ms: "ms \<noteq> []" "\<exists>m \<in> set ms. \<bar>(fst m - x) / cv_scale (jc_view s)\<bar> > 2"
    and j: "jb_steps j = map (\<lambda>t. if st_id t = st_id st then t\<lparr>st_x := fst p, st_y := snd p\<rparr> else t) (jb_steps (jc_job s))"
  shows "on_screen s1 st = (fst (on_screen s st) + (fst (last ms) - x), snd (on_screen s st) + (snd (last ms) - y))"
    and "st_id t \<noteq> st_id st \<Longrightarrow> on_screen s1 t = on_screen s t"
    and "jc_calls s2 = jc_calls s @ [UpdateStep (st_id st) (position_patch (fst p) (snd p))]"
    and "on_screen s2 st = on_screen s1 st"
    and "on_screen s3 (st\<lparr>st_x := fst p, st_y := snd p\<rparr>) =
           (fst (on_screen s1 st) + cv_scale (jc_view s) * (cb_minX b - cb_minX b'),
            snd (on_screen s1 st) + cv_scale (jc_view s) * (cb_minY b - cb_minY b'))"
    and "st_id t \<noteq> st_id st \<Longrightarrow> on_screen s3 t =
           (fst (on_screen s t) + cv_scale (jc_view s) * (cb_minX b - cb_minX b'),
            snd (on_screen s t) + cv_scale (jc_view s) * (cb_minY b - cb_minY b'))"
    and "on_screen (canvas_step s2 MouseLeft) st = on_screen s st"
proof -
  define k where "k = cv_scale (jc_view s)"
  define d where "d = \<lparr>nd_id = st_id st, nd_startX = x, nd_startY = y, nd_origX = st_x st, nd_origY = st_y st,
    nd_scale = k, nd_moved = False\<rparr>"
  have k: "k \<noteq> 0" using s(5) by (simp add: k_def)
  have m: "\<exists>m \<in> set ms. drag_far d m" using ms(2) by (auto simp: drag_far_def d_def k_def)
  have at: "drag_at d (last ms) = \<lparr>dg_id = st_id st, dg_x = fst p, dg_y = snd p\<rparr>"
    by (simp add: drag_at_def d_def p_def k_def)
  have "canvas_step s (BodyDown (st_id st) x y) = s\<lparr>jc_nodeDrag := Some d\<rparr>"
    using s st by (simp add: handleBodyDown_def posOf_def pos_with_def d_def k_def)
  then have s1: "s1 = s\<lparr>jc_nodeDrag := Some (d\<lparr>nd_moved := True\<rparr>), jc_dragPos := Some \<lparr>dg_id = st_id st, dg_x = fst p, dg_y = snd p\<rparr>\<rparr>"
    unfolding s1_def using drag_moves[of "s\<lparr>jc_nodeDrag := Some d\<rparr>" d ms] m ms(1)
    by (simp add: at) (simp add: d_def)
  have up: "(case over of Some i \<Rightarrow> handleBodyUp i s1 | None \<Rightarrow> s1) = s1"
    by (simp add: s1 handleBodyUp_def split: option.splits)
  have s2: "s2 = s1\<lparr>jc_calls := jc_calls s @ [UpdateStep (st_id st) (position_patch (fst p) (snd p))], jc_nodeDrag := None, jc_pan := None\<rparr>"
    unfolding s2_def using s by (simp add: up) (simp add: s1 endInteractions_def end_drag_def end_edge_def d_def)
  note scr = on_screen_def to_screen_def node_left_top_def posOf_def pos_with_def canvas_ox_def canvas_oy_def
  show o1: "on_screen s1 st = (fst (on_screen s st) + (fst (last ms) - x), snd (on_screen s st) + (snd (last ms) - y))"
    using k s(4) by (simp add: scr s1) (simp add: p_def k_def field_simps)
  show "st_id t \<noteq> st_id st \<Longrightarrow> on_screen s1 t = on_screen s t"
    using s(4) by (simp add: scr s1)
  show "jc_calls s2 = jc_calls s @ [UpdateStep (st_id st) (position_patch (fst p) (snd p))]" by (simp add: s2)
  show "on_screen s2 st = on_screen s1 st" by (simp add: scr s2)
  show "on_screen (canvas_step s2 MouseLeft) st = on_screen s st"
    using s by (simp add: scr s2 s1 endInteractions_def end_drag_def end_edge_def)
  have s3: "s3 = s2\<lparr>jc_job := j, jc_dragPos := None\<rparr>" by (simp add: s3_def s2 s1)
  show "on_screen s3 (st\<lparr>st_x := fst p, st_y := snd p\<rparr>) =
           (fst (on_screen s1 st) + cv_scale (jc_view s) * (cb_minX b - cb_minX b'),
            snd (on_screen s1 st) + cv_scale (jc_view s) * (cb_minY b - cb_minY b'))"
    by (simp add: scr s3 s2 s1 b_def b'_def algebra_simps)
  show "st_id t \<noteq> st_id st \<Longrightarrow> on_screen s3 t =
           (fst (on_screen s t) + cv_scale (jc_view s) * (cb_minX b - cb_minX b'),
            snd (on_screen s t) + cv_scale (jc_view s) * (cb_minY b - cb_minY b'))"
    using s(4) by (simp add: scr s3 s2 s1 b_def b'_def algebra_simps)
qed

text \<open>The leftmost of two nodes is dragged 100 to the left: it ends up where it was, and the other one moves.\<close>

lemma dragged_node_lands_witness:
  defines "a \<equiv> demo_step ''s1'' ''step'' 0 0 []" and "b \<equiv> demo_step ''s2'' ''step'' 300 0 []"
  defines "s \<equiv> demo_canvas [a, b]" and "a' \<equiv> a\<lparr>st_x := - 100, st_y := 0\<rparr>"
  defines "s3 \<equiv> canvas_run s [BodyDown ''s1'' 10 10, MouseMove (- 90) 10, MouseUp None,
      JobArrives ((demo_job [])\<lparr>jb_steps := [a', b]\<rparr>), MoveSettled ''s1'']"
  shows "on_screen s3 a' = on_screen s a \<and> on_screen s3 b = (fst (on_screen s b) + 100, snd (on_screen s b))"
proof -
  have i: "st_id a = ''s1''" "st_id b \<noteq> st_id a" "st_x a = 0" "st_y a = 0" by (simp_all add: a_def b_def demo_step_def)
  have k: "cv_scale (jc_view s) = 1" by (simp add: s_def demo_canvas_def)
  have h: "jc_canWrite s" "jc_nodeDrag s = None" "jc_edgeDraw s = None" "jc_dragPos s = None" "0 < cv_scale (jc_view s)"
    "find_step (jc_job s) (st_id a) = Some a"
    by (simp_all add: s_def demo_canvas_def find_step_def)
  have m: "[(- 90, 10)] \<noteq> ([] :: (rat \<times> rat) list)" "\<exists>m \<in> set [(- 90, 10 :: rat)]. \<bar>(fst m - 10) / cv_scale (jc_view s)\<bar> > 2"
    by (simp_all add: k)
  have steps: "jb_steps (jc_job s) = [a, b]" by (simp add: s_def demo_canvas_def)
  have j: "jb_steps ((demo_job [])\<lparr>jb_steps := [a', b]\<rparr>) =
      map (\<lambda>t. if st_id t = st_id a then
         t\<lparr>st_x := fst (st_x a + (fst (last [(- 90, 10)]) - 10) / cv_scale (jc_view s), st_y a + (snd (last [(- 90, 10)]) - 10) / cv_scale (jc_view s)),
           st_y := snd (st_x a + (fst (last [(- 90, 10)]) - 10) / cv_scale (jc_view s), st_y a + (snd (last [(- 90, 10)]) - 10) / cv_scale (jc_view s))\<rparr> else t)
       (jb_steps (jc_job s))"
    using i by (simp add: steps k a'_def)
  have bounds: "cb_minX (canvas_bounds_of [a, b]) = - 80" "cb_minX (canvas_bounds_of [a', b]) = - 180"
    "cb_minY (canvas_bounds_of [a, b]) = - 80" "cb_minY (canvas_bounds_of [a', b]) = - 80"
    by (simp_all add: a'_def a_def b_def demo_step_def canvas_bounds_of_def canvas_sizes)
  note l1 = dragged_node_lands(1)[OF h m j] and l5 = dragged_node_lands(5)[where over = None, OF h m j]
    and l6 = dragged_node_lands(6)[where over = None, OF h m j i(2)]
  have "on_screen s3 a' = on_screen s a"
    using l1 l5 by (simp add: s3_def i k steps bounds a'_def[symmetric] cong: if_cong)
  moreover have "on_screen s3 b = (fst (on_screen s b) + 100, snd (on_screen s b))"
    using l6 by (simp add: s3_def i k steps bounds)
  ultimately show ?thesis ..
qed

end
