(* ===== verification/TaskScreens.thy ===== *)
theory TaskScreens
  imports TaskCache Quota JsText
begin

section \<open>The screens of the tasks\<close>

text \<open>
  The dialogs and lists around a task: the form of \<open>tasks/TaskEditDialog.tsx\<close> as a state machine
  whose save is a request to the store of \<open>TaskStore\<close>, \<open>tasks/TaskDetails.tsx\<close>,
  \<open>tasks/TasksScreen.tsx\<close> (filters and groups), \<open>tasks/TasksApp.tsx\<close>, \<open>tasks/TaskListView.tsx\<close>,
  \<open>tasks/QuickTaskDialog.tsx\<close>, \<open>tasks/AttachTaskDialog.tsx\<close>, \<open>tasks/TaskViewDialog.tsx\<close> and
  \<open>tasks/chips.tsx\<close>, and the state of the board. Translated labels, \<open>localeCompare\<close>, \<open>foldSearch\<close> and the formatting of dates
  are parameters. That a text field stops typing at its \<open>maxLength\<close> is not modelled.
\<close>

subsection \<open>Chips\<close>

definition STATUS_COLOR :: "string \<Rightarrow> string option" where
  "STATUS_COLOR = map_of [(''todo'', ''default''), (''inprogress'', ''info''), (''blocked'', ''warning''), (''done'', ''success'')]"

definition PRIORITY_COLOR :: "string \<Rightarrow> string option" where
  "PRIORITY_COLOR = map_of [(''low'', ''default''), (''medium'', ''info''), (''high'', ''warning''), (''urgent'', ''error'')]"

definition dot_palette :: "string \<Rightarrow> string option" where
  "dot_palette = map_of [(''low'', ''text.disabled''), (''medium'', ''info.main''), (''high'', ''warning.main''),
     (''urgent'', ''error.main'')]"

text \<open>\<open>new Date(day + 'Thh:mm:ss')\<close>, a local time; a text that is no day gives no date.\<close>

definition local_time :: "zone \<Rightarrow> string \<Rightarrow> int \<Rightarrow> date option" where
  "local_time z day secs = map_option (\<lambda>n. z_utc z (DAY_MS * n + 1000 * secs)) (go_parse_day day)"

definition fmtDue :: "zone \<Rightarrow> date \<Rightarrow> (bool \<Rightarrow> date \<Rightarrow> string) \<Rightarrow> string \<Rightarrow> string" where
  "fmtDue z now toLocale due =
     (if due = [] then []
      else case local_time z due 0 of
        None \<Rightarrow> due
      | Some d \<Rightarrow> let sameYear = (getFullYear z d = getFullYear z now) in toLocale (\<not> sameYear) d)"

definition isOverdue :: "zone \<Rightarrow> date \<Rightarrow> string option \<Rightarrow> string \<Rightarrow> bool" where
  "isOverdue z now due status =
     (if \<not> truthy due \<or> status = ''done'' then False
      else case local_time z (nullish due []) 86399 of None \<Rightarrow> False | Some d \<Rightarrow> d < now)"

definition taskDisplayId :: "task \<Rightarrow> string" where
  "taskDisplayId t = ''T-'' @ show_int (tk_num t)"

subsection \<open>The form\<close>

record chat_member =
  cm_userId :: string
  cm_name :: string
  cm_email :: "string option"
  cm_role :: string

record task_form =
  tf_title :: string
  tf_description :: string
  tf_status :: string
  tf_priority :: string
  tf_dueDate :: string
  tf_assigneeId :: string
  tf_startDate :: string
  tf_endDate :: string
  tf_milestone :: bool
  tf_progress :: int
  tf_stage :: string
  tf_dependsOn :: "string list"

definition opt_get :: "('a \<Rightarrow> 'b option) \<Rightarrow> 'a option \<Rightarrow> 'b \<Rightarrow> 'b" where
  "opt_get field t d = nullish (Option.bind t field) d"

definition seed_form :: "task option \<Rightarrow> task_form" where
  "seed_form t =
     \<lparr>tf_title = opt_get (Some \<circ> tk_title) t [], tf_description = opt_get tk_description t [],
      tf_status = opt_get (Some \<circ> tk_status) t ''todo'', tf_priority = opt_get (Some \<circ> tk_priority) t ''medium'',
      tf_dueDate = opt_get tk_dueDate t [], tf_assigneeId = opt_get (map_option tu_id \<circ> tk_assignee) t [],
      tf_startDate = opt_get tk_startDate t [], tf_endDate = opt_get tk_endDate t [],
      tf_milestone = opt_get tk_milestone t False, tf_progress = opt_get tk_progress t 0,
      tf_stage = opt_get tk_stage t [], tf_dependsOn = opt_get (Some \<circ> tk_dependsOn) t []\<rparr>"

definition extraAssignee :: "chat_member list \<Rightarrow> task option \<Rightarrow> task_user option" where
  "extraAssignee members t =
     (case Option.bind t tk_assignee of
        None \<Rightarrow> None
      | Some u \<Rightarrow> if \<exists>m\<in>set members. cm_userId m = tu_id u then None else Some u)"

text \<open>\<open>[...new Set(xs)]\<close>: each value at its first place.\<close>

definition distinct_first :: "'a list \<Rightarrow> 'a list" where
  "distinct_first xs = List.rev (remdups (List.rev xs))"

definition stageOptions :: "task list \<Rightarrow> string list" where
  "stageOptions projectTasks = distinct_first (map (\<lambda>t. nullish (tk_stage t) []) (filter (\<lambda>t. truthy (tk_stage t)) projectTasks))"

definition depOptions :: "task list \<Rightarrow> task option \<Rightarrow> task list" where
  "depOptions projectTasks task = filter (\<lambda>t. Some (tk_id t) \<noteq> map_option tk_id task) projectTasks"

definition depLabel :: "task list \<Rightarrow> string \<Rightarrow> string" where
  "depLabel projectTasks i =
     (case List.find (\<lambda>x. tk_id x = i) projectTasks of
        Some t \<Rightarrow> taskDisplayId t @ '' '' @ tk_title t
      | None \<Rightarrow> i)"

definition effEnd :: "task_form \<Rightarrow> string" where
  "effEnd f = (if tf_milestone f \<and> tf_startDate f \<noteq> [] then tf_startDate f else tf_endDate f)"

definition oneSided :: "task_form \<Rightarrow> bool" where
  "oneSided f = ((tf_startDate f \<noteq> []) \<noteq> (effEnd f \<noteq> []))"

definition badOrder :: "task_form \<Rightarrow> bool" where
  "badOrder f = (tf_startDate f \<noteq> [] \<and> effEnd f \<noteq> [] \<and> effEnd f < tf_startDate f)"

definition scheduled :: "task_form \<Rightarrow> bool" where
  "scheduled f = (tf_startDate f \<noteq> [] \<and> effEnd f \<noteq> [])"

definition resolveAssignee :: "chat_member list \<Rightarrow> task option \<Rightarrow> string \<Rightarrow> task_user option" where
  "resolveAssignee members t assigneeId =
     (if assigneeId = [] then None
      else case List.find (\<lambda>mm. cm_userId mm = assigneeId) members of
        Some m \<Rightarrow> Some \<lparr>tu_id = cm_userId m, tu_name = Some (cm_name m), tu_email = cm_email m\<rparr>
      | None \<Rightarrow>
          if map_option tu_id (extraAssignee members t) = Some assigneeId then extraAssignee members t
          else Some \<lparr>tu_id = assigneeId, tu_name = None, tu_email = None\<rparr>)"

definition save_patch :: "chat_member list \<Rightarrow> task \<Rightarrow> task_form \<Rightarrow> task_patch" where
  "save_patch members task f =
     (let assignee = resolveAssignee members (Some task) (tf_assigneeId f)
      in no_patch\<lparr>tp_title := Some (tf_title f), tp_description := Some (tf_description f),
           tp_status := Some (tf_status f), tp_priority := Some (tf_priority f),
           tp_dueDate := (if tf_dueDate f \<noteq> [] then Some (tf_dueDate f) else None),
           tp_clearDueDate := (if tf_dueDate f \<noteq> [] then None else Some True),
           tp_assignee := assignee, tp_clearAssignee := (if assignee \<noteq> None then None else Some True),
           tp_startDate := (if scheduled f then Some (tf_startDate f) else None),
           tp_endDate := (if scheduled f then Some (effEnd f) else None),
           tp_milestone := (if scheduled f then Some (tf_milestone f) else None),
           tp_clearSchedule := (if scheduled f then None else Some True),
           tp_progress := Some (tf_progress f), tp_stage := Some (tf_stage f),
           tp_dependsOn := Some (tf_dependsOn f)\<rparr>)"

definition save_draft :: "chat_member list \<Rightarrow> string \<Rightarrow> string \<Rightarrow> task_form \<Rightarrow> task_draft" where
  "save_draft members hub projectName f =
     \<lparr>td_hubId = hub, td_projectName = projectName, td_title = tf_title f, td_description = Some (tf_description f),
      td_status = Some (tf_status f), td_priority = Some (tf_priority f), td_dueDate = Some (tf_dueDate f),
      td_assignee = resolveAssignee members None (tf_assigneeId f), td_docRefs = None,
      td_startDate = (if scheduled f then Some (tf_startDate f) else None),
      td_endDate = (if scheduled f then Some (effEnd f) else None), td_progress = Some (tf_progress f),
      td_milestone = (if scheduled f then Some (tf_milestone f) else None),
      td_dependsOn = Some (tf_dependsOn f), td_stage = Some (tf_stage f)\<rparr>"

definition task_save :: "chat_member list \<Rightarrow> string \<Rightarrow> string \<Rightarrow> task option \<Rightarrow> task_form \<Rightarrow> task_write" where
  "task_save members hub projectName task f =
     (case task of
        Some t \<Rightarrow> TaskUpdate (tk_id t) (save_patch members t f)
      | None \<Rightarrow> TaskCreate (save_draft members hub projectName f))"

definition save_disabled :: "bool \<Rightarrow> task_form \<Rightarrow> bool" where
  "save_disabled pending f = (pending \<or> js_trim (tf_title f) = [] \<or> oneSided f \<or> badOrder f)"

text \<open>
  What the controls do; a date field gives a day or, cleared, nothing. The end field and the slider
  are off for a milestone, the milestone switch without a start; \<open>FOpen\<close> is the dialog opened again.
\<close>

datatype form_event =
    FTitle string
  | FDescription string
  | FStatus string
  | FPriority string
  | FDue "date option"
  | FAssignee string
  | FStart "date option"
  | FEnd "date option"
  | FMilestone bool
  | FProgress int
  | FStage string
  | FDependsOn "string list"
  | FOpen "task option"

definition picked_day :: "zone \<Rightarrow> date option \<Rightarrow> string" where
  "picked_day z d = (case d of None \<Rightarrow> [] | Some t \<Rightarrow> fmtDay z t)"

definition shown_end :: "task_form \<Rightarrow> string" where
  "shown_end f = (if tf_milestone f then tf_startDate f else tf_endDate f)"

fun form_step :: "zone \<Rightarrow> form_event \<Rightarrow> task_form \<Rightarrow> task_form" where
  "form_step z (FTitle s) f = f\<lparr>tf_title := s\<rparr>"
| "form_step z (FDescription s) f = f\<lparr>tf_description := s\<rparr>"
| "form_step z (FStatus s) f = (if s \<in> set STATUSES then f\<lparr>tf_status := s\<rparr> else f)"
| "form_step z (FPriority p) f = (if p \<in> set PRIORITIES then f\<lparr>tf_priority := p\<rparr> else f)"
| "form_step z (FDue d) f = f\<lparr>tf_dueDate := picked_day z d\<rparr>"
| "form_step z (FAssignee i) f = f\<lparr>tf_assigneeId := i\<rparr>"
| "form_step z (FStart d) f = f\<lparr>tf_startDate := picked_day z d\<rparr>"
| "form_step z (FEnd d) f = (if tf_milestone f then f else f\<lparr>tf_endDate := picked_day z d\<rparr>)"
| "form_step z (FMilestone b) f = (if tf_startDate f = [] then f else f\<lparr>tf_milestone := b\<rparr>)"
| "form_step z (FProgress n) f = (if tf_milestone f \<or> n < 0 \<or> 100 < n then f else f\<lparr>tf_progress := n\<rparr>)"
| "form_step z (FStage s) f = f\<lparr>tf_stage := s\<rparr>"
| "form_step z (FDependsOn ds) f = f\<lparr>tf_dependsOn := ds\<rparr>"
| "form_step z (FOpen t) f = seed_form t"


subsection \<open>The quick dialog\<close>

definition quick_create :: "bool \<Rightarrow> string \<Rightarrow> string \<Rightarrow> string \<Rightarrow> string \<Rightarrow> task_write option" where
  "quick_create pending hub projectName title description =
     (if js_trim title = [] \<or> pending then None
      else Some (TaskCreate \<lparr>td_hubId = hub, td_projectName = projectName, td_title = title,
        td_description = Some description, td_status = None, td_priority = None, td_dueDate = None,
        td_assignee = None, td_docRefs = None, td_startDate = None, td_endDate = None, td_progress = None,
        td_milestone = None, td_dependsOn = None, td_stage = None\<rparr>))"

subsection \<open>The details of a task\<close>

definition taskRefFromTask :: "task \<Rightarrow> task_ref" where
  "taskRefFromTask t =
     \<lparr>tkr_hubId = tk_hubId t, tkr_projectId = tk_projectId t, tkr_taskId = tk_id t, tkr_title = tk_title t\<rparr>"

definition task_pin_target :: "task \<Rightarrow> local_pin_target" where
  "task_pin_target t =
     \<lparr>lp_ref = encodeTaskRef (taskRefFromTask t), lp_kind = ''task'', lp_name = tk_title t,
      lp_projectId = tk_projectId t, lp_projectName = Some (tk_projectName t)\<rparr>"

definition docRefs_patch :: "string list \<Rightarrow> task_patch" where
  "docRefs_patch rs = no_patch\<lparr>tp_docRefs := Some rs\<rparr>"

definition addRefToken :: "task \<Rightarrow> string \<Rightarrow> task_write option" where
  "addRefToken t token =
     (if token \<in> set (tk_docRefs t) then None
      else Some (TaskUpdate (tk_id t) (docRefs_patch (tk_docRefs t @ [token]))))"

definition removeDoc :: "task \<Rightarrow> string \<Rightarrow> task_write" where
  "removeDoc t ref = TaskUpdate (tk_id t) (docRefs_patch (filter (\<lambda>r. r \<noteq> ref) (tk_docRefs t)))"

definition attach_picked_doc :: "task \<Rightarrow> string \<Rightarrow> item option \<Rightarrow> task_write option" where
  "attach_picked_doc t hub it =
     (case it of None \<Rightarrow> None | Some i \<Rightarrow> addRefToken t (encodeDocRef (docRefFromItem hub i)))"

definition attach_board :: "task \<Rightarrow> whiteboard \<Rightarrow> task_write option" where
  "attach_board t b = addRefToken t (encodeWhiteboardRef (whiteboardRefFromBoard b))"

definition details_canWrite :: "task_caps option \<Rightarrow> bool" where
  "details_canWrite caps = (case caps of Some c \<Rightarrow> tc_write c | None \<Rightarrow> True)"

definition details_canDelete :: "task_caps option \<Rightarrow> string option \<Rightarrow> task \<Rightarrow> bool" where
  "details_canDelete caps me t =
     ((case caps of Some c \<Rightarrow> tc_moderate c | None \<Rightarrow> False) \<or> (me \<noteq> None \<and> me = Some (tu_id (tk_createdBy t))))"

definition confirmDelete :: "bool \<Rightarrow> task \<Rightarrow> task_write option" where
  "confirmDelete confirmed t = (if confirmed then Some (TaskRemove (tk_id t)) else None)"

definition MIDDOT :: string where "MIDDOT = utf8 [32, 194, 183, 32]"
definition ARROW :: string where "ARROW = utf8 [32, 226, 134, 146, 32]"

definition user_text :: "task_user \<Rightarrow> string option" where
  "user_text u = (if truthy (tu_name u) then tu_name u else tu_email u)"

definition dependsOn_text :: "task \<Rightarrow> string option" where
  "dependsOn_text t =
     (if tk_dependsOn t = [] then None
      else Some (join_with '', '' (map (\<lambda>i. ''T-'' @ (if startsWith i ''t'' then drop 1 i else i)) (tk_dependsOn t))))"

definition due_text :: "zone \<Rightarrow> date \<Rightarrow> (bool \<Rightarrow> date \<Rightarrow> string) \<Rightarrow> string \<Rightarrow> task \<Rightarrow> string option" where
  "due_text z now toLocale overdueSuffix t =
     (if truthy (tk_dueDate t)
      then Some (fmtDue z now toLocale (nullish (tk_dueDate t) []) @
             (if isOverdue z now (tk_dueDate t) (tk_status t) then '' '' @ overdueSuffix else []))
      else None)"

definition schedule_text :: "zone \<Rightarrow> date \<Rightarrow> (bool \<Rightarrow> date \<Rightarrow> string) \<Rightarrow> string \<Rightarrow> task \<Rightarrow> string option" where
  "schedule_text z now toLocale milestoneSuffix t =
     (if truthy (tk_startDate t) \<and> truthy (tk_endDate t)
      then Some (fmtDue z now toLocale (nullish (tk_startDate t) []) @ ARROW @
             fmtDue z now toLocale (nullish (tk_endDate t) []) @
             (if tk_milestone t = Some True then '' '' @ milestoneSuffix else []) @
             (if truthy (tk_stage t) then MIDDOT @ nullish (tk_stage t) [] else []) @
             (if tk_milestone t \<noteq> Some True \<and> nullish (tk_progress t) 0 > 0
              then MIDDOT @ show_int (nullish (tk_progress t) 0) @ ''%'' else []))
      else None)"

text \<open>A row of the table is left out when its value is missing or empty.\<close>

definition shown_rows :: "(string \<times> string option) list \<Rightarrow> (string \<times> string) list" where
  "shown_rows rows = List.map_filter (\<lambda>(label, v). if truthy v then Some (label, nullish v []) else None) rows"

datatype task_view = ShowTask task | TaskSpinner | TaskGone | TaskTrouble string | TaskUnavailable

definition view_task :: "task option \<Rightarrow> bool \<Rightarrow> (js_error \<times> string) option \<Rightarrow> task_view" where
  "view_task data isLoading err =
     (case data of
        Some t \<Rightarrow> ShowTask t
      | None \<Rightarrow> if isLoading then TaskSpinner
          else case err of
            None \<Rightarrow> TaskUnavailable
          | Some (ApiErr a, msg) \<Rightarrow> if ae_status a = 404 then TaskGone else TaskTrouble msg
          | Some (OtherErr, msg) \<Rightarrow> TaskTrouble msg)"

subsection \<open>Lists\<close>

definition by_newest :: "task \<Rightarrow> task \<Rightarrow> int" where
  "by_newest a b = tk_num b - tk_num a"

definition list_sorted :: "task list \<Rightarrow> task list" where
  "list_sorted tasks = js_sort by_newest tasks"

definition list_selected :: "task list \<Rightarrow> string option \<Rightarrow> task option" where
  "list_selected tasks selectedId = List.find (\<lambda>t. Some (tk_id t) = selectedId) tasks"

definition row_meta ::
    "(string \<Rightarrow> string) \<Rightarrow> (string \<Rightarrow> string) \<Rightarrow> (string \<Rightarrow> string) \<Rightarrow> bool \<Rightarrow> task \<Rightarrow> string" where
  "row_meta statusLabel dueLabel due showProject t =
     join_with MIDDOT (map (\<lambda>x. nullish x []) (filter truthy
       [Some (taskDisplayId t), Some (if showProject then tk_projectName t else statusLabel (tk_status t)),
        (case tk_assignee t of None \<Rightarrow> None | Some u \<Rightarrow> user_text u),
        (if truthy (tk_dueDate t) then Some (dueLabel (due (nullish (tk_dueDate t) []))) else None)]))"

definition attach_list :: "(string \<Rightarrow> string) \<Rightarrow> string \<Rightarrow> task list option \<Rightarrow> task list" where
  "attach_list foldSearch search data =
     (let q = foldSearch (js_trim search)
      in js_sort by_newest (filter (\<lambda>t. q = [] \<or> str_includes (foldSearch (tk_title t)) q) (nullish data [])))"

subsection \<open>The screen over all projects\<close>

record task_filter =
  fl_search :: string
  fl_status :: string
  fl_priority :: string
  fl_projectId :: string

definition filter_init :: task_filter where
  "filter_init = \<lparr>fl_search = [], fl_status = ''open'', fl_priority = ''all'', fl_projectId = ''all''\<rparr>"

definition shown_task_p :: "(string \<Rightarrow> string) \<Rightarrow> task_filter \<Rightarrow> task \<Rightarrow> bool" where
  "shown_task_p foldSearch fl t =
     (let q = foldSearch (js_trim (fl_search fl))
      in if (if fl_status fl = ''open'' then tk_status t = ''done''
             else fl_status fl \<noteq> ''all'' \<and> tk_status t \<noteq> fl_status fl) then False
         else if fl_priority fl \<noteq> ''all'' \<and> tk_priority t \<noteq> fl_priority fl then False
         else if fl_projectId fl \<noteq> ''all'' \<and> tk_projectId t \<noteq> fl_projectId fl then False
         else if q \<noteq> [] \<and> \<not> str_includes (foldSearch (tk_title t @ utf8 [10] @ nullish (tk_description t) [])) q
         then False
         else True)"

definition filtered_tasks :: "(string \<Rightarrow> string) \<Rightarrow> task_filter \<Rightarrow> task list \<Rightarrow> task list" where
  "filtered_tasks foldSearch fl tasks = filter (shown_task_p foldSearch fl) tasks"

text \<open>A \<open>Map\<close> as its entries in the order of insertion.\<close>

definition project_options :: "(string \<Rightarrow> string \<Rightarrow> int) \<Rightarrow> task list \<Rightarrow> (string \<times> string) list" where
  "project_options localeCompare tasks =
     js_sort (\<lambda>a b. localeCompare (snd a) (snd b))
       (foldl (\<lambda>seen t. if tk_projectId t \<in> fst ` set seen then seen else seen @ [(tk_projectId t, tk_projectName t)])
         [] tasks)"

record task_group =
  tg_name :: string
  tg_tasks :: "task list"

definition group_add :: "(string \<times> task_group) list \<Rightarrow> task \<Rightarrow> (string \<times> task_group) list" where
  "group_add m t =
     (if tk_projectId t \<in> fst ` set m
      then map (\<lambda>(i, g). (i, if i = tk_projectId t then g\<lparr>tg_tasks := tg_tasks g @ [t]\<rparr> else g)) m
      else m @ [(tk_projectId t, \<lparr>tg_name = tk_projectName t, tg_tasks = [t]\<rparr>)])"

definition task_groups :: "(string \<Rightarrow> string \<Rightarrow> int) \<Rightarrow> task list \<Rightarrow> task_group list" where
  "task_groups localeCompare filtered =
     (let m = foldl group_add [] filtered;
          m = map (\<lambda>(i, g). (i, g\<lparr>tg_tasks := js_sort by_newest (tg_tasks g)\<rparr>)) m
      in js_sort (\<lambda>a b. localeCompare (tg_name a) (tg_name b)) (map snd m))"

definition taskKey :: "task \<Rightarrow> string" where
  "taskKey t = tk_projectId t @ ''::'' @ tk_id t"

definition screen_selected :: "task list \<Rightarrow> string option \<Rightarrow> task option" where
  "screen_selected filtered selectedKey = List.find (\<lambda>t. Some (taskKey t) = selectedKey) filtered"

text \<open>The tab of a project: its view, the selection, the create dialog and the unit of the Gantt chart.\<close>

record tasks_app =
  app_view :: string
  app_selectedId :: "string option"
  app_createOpen :: bool
  app_ganttUnit :: time_unit

datatype tasks_app_event =
    AppView "string option"
  | AppSelect "string option"
  | AppCreate
  | AppCreateClose
  | AppSaved task
  | AppUnit time_unit

definition tasks_app_init :: tasks_app where
  "tasks_app_init = \<lparr>app_view = ''list'', app_selectedId = None, app_createOpen = False, app_ganttUnit = UWeek\<rparr>"

fun tasks_app_step :: "task_caps option \<Rightarrow> tasks_app_event \<Rightarrow> tasks_app \<Rightarrow> tasks_app" where
  "tasks_app_step caps (AppView v) s = (if truthy v then s\<lparr>app_view := nullish v []\<rparr> else s)"
| "tasks_app_step caps (AppSelect i) s = s\<lparr>app_selectedId := i\<rparr>"
| "tasks_app_step caps AppCreate s =
     (if (case caps of Some c \<Rightarrow> tc_write c | None \<Rightarrow> False) then s\<lparr>app_createOpen := True\<rparr> else s)"
| "tasks_app_step caps AppCreateClose s = s\<lparr>app_createOpen := False\<rparr>"
| "tasks_app_step caps (AppSaved t) s = s\<lparr>app_selectedId := Some (tk_id t)\<rparr>"
| "tasks_app_step caps (AppUnit u) s = s\<lparr>app_ganttUnit := u\<rparr>"

subsection \<open>The board around its drop handler\<close>

text \<open>
  \<open>tasks/TaskKanban.tsx\<close>: the card that is dragged, the column under it and the open card; the drop
  itself is \<^const>\<open>handleDragEnd\<close>. The hits of the drag library are parameters.
\<close>

record kanban =
  kb_activeId :: "string option"
  kb_overColumn :: "string option"
  kb_openTaskId :: "string option"

definition collisionDetection :: "'a list \<Rightarrow> 'a list \<Rightarrow> 'a list" where
  "collisionDetection pointerWithin rectIntersection =
     (let pointer = pointerWithin in if length pointer > 0 then pointer else rectIntersection)"

datatype kanban_event =
    KDragStart string
  | KDragOver "string option"
  | KDragEnd
  | KDragCancel
  | KOpen string
  | KClose

definition kanban_init :: kanban where
  "kanban_init = \<lparr>kb_activeId = None, kb_overColumn = None, kb_openTaskId = None\<rparr>"

fun kanban_step :: "task list \<Rightarrow> kanban_event \<Rightarrow> kanban \<Rightarrow> kanban" where
  "kanban_step tasks (KDragStart i) s = s\<lparr>kb_activeId := Some i\<rparr>"
| "kanban_step tasks (KDragOver i) s = s\<lparr>kb_overColumn := Option.bind i (columnOf tasks)\<rparr>"
| "kanban_step tasks KDragEnd s = s\<lparr>kb_activeId := None, kb_overColumn := None\<rparr>"
| "kanban_step tasks KDragCancel s = s\<lparr>kb_activeId := None, kb_overColumn := None\<rparr>"
| "kanban_step tasks (KOpen i) s = s\<lparr>kb_openTaskId := Some i\<rparr>"
| "kanban_step tasks KClose s = s\<lparr>kb_openTaskId := None\<rparr>"

definition kanban_activeTask :: "task list \<Rightarrow> kanban \<Rightarrow> task option" where
  "kanban_activeTask tasks s =
     (if truthy (kb_activeId s) then List.find (\<lambda>t. Some (tk_id t) = kb_activeId s) tasks else None)"

definition column_lit :: "kanban \<Rightarrow> string \<Rightarrow> bool" where
  "column_lit s status = (kb_activeId s \<noteq> None \<and> kb_overColumn s = Some status)"

record card_face =
  cf_title :: string
  cf_struck :: bool
  cf_id :: string
  cf_due :: "(string \<times> bool) option"
  cf_assigneeName :: string

definition card_face_of :: "zone \<Rightarrow> date \<Rightarrow> (bool \<Rightarrow> date \<Rightarrow> string) \<Rightarrow> task \<Rightarrow> card_face" where
  "card_face_of z now toLocale t =
     (let overdue = isOverdue z now (tk_dueDate t) (tk_status t)
      in \<lparr>cf_title = tk_title t, cf_struck = (tk_status t = ''done''), cf_id = taskDisplayId t,
          cf_due = (if truthy (tk_dueDate t) then Some (fmtDue z now toLocale (nullish (tk_dueDate t) []), overdue) else None),
          cf_assigneeName = nullish (Option.bind (tk_assignee t) user_text) []\<rparr>)"

subsection \<open>Trimming twice\<close>

lemma strip_start_done:
  "length s \<le> n \<Longrightarrow> [] \<notin> set ws \<Longrightarrow> List.find (startsWith (strip_start ws n s)) ws = None"
proof (induction n arbitrary: s)
  case 0
  then show ?case by (auto simp: find_None_iff startsWith_iff)
next
  case (Suc n)
  show ?case
  proof (cases "List.find (startsWith s) ws")
    case (Some w)
    then have "w \<in> set ws" using find_Some_in by fastforce
    then have "w \<noteq> []" using Suc.prems by auto
    then have "length (drop (length w) s) \<le> n" using Suc.prems(1) by (cases w) auto
    then show ?thesis using Suc.IH Suc.prems(2) Some by simp
  qed simp
qed

lemma strip_start_id: "List.find (startsWith s) ws = None \<Longrightarrow> strip_start ws n s = s"
  by (cases n) simp_all

lemma strip_start_suffix: "\<exists>p. s = p @ strip_start ws n s"
proof (induction n arbitrary: s)
  case (Suc n)
  show ?case
  proof (cases "List.find (startsWith s) ws")
    case (Some w)
    obtain p where "drop (length w) s = p @ strip_start ws n (drop (length w) s)" using Suc.IH by blast
    then have "s = (take (length w) s @ p) @ strip_start ws n (drop (length w) s)"
      by (metis append_assoc append_take_drop_id)
    then have "\<exists>q. s = q @ strip_start ws n (drop (length w) s)" by (rule exI)
    then show ?thesis by (simp only: strip_start.simps Some option.case)
  qed simp
qed simp

lemma trim_twice:
  assumes ne: "[] \<notin> set ws"
  shows "trim_spaces ws (trim_spaces ws s) = trim_spaces ws s"
proof -
  define t where "t = strip_start ws (length s) s"
  define r where "r = List.rev (strip_start (map List.rev ws) (length t) (List.rev t))"
  have r: "trim_spaces ws s = r" by (simp add: trim_spaces_def t_def r_def Let_def)
  obtain q where "List.rev t = q @ List.rev r" using strip_start_suffix unfolding r_def rev_rev_ident by blast
  then have t: "t = r @ List.rev q" by (metis rev_append rev_rev_ident)
  have "List.find (startsWith t) ws = None" unfolding t_def by (rule strip_start_done) (simp_all add: ne)
  then have front: "List.find (startsWith r) ws = None"
    unfolding t find_None_iff by (auto simp: startsWith_iff)
  have rear: "List.find (startsWith (List.rev r)) (map List.rev ws) = None"
    unfolding r_def rev_rev_ident by (rule strip_start_done) (use ne in auto)
  show ?thesis
    unfolding r by (simp add: trim_spaces_def Let_def strip_start_id[OF front] strip_start_id[OF rear])
qed

lemma go_trim_twice [simp]: "go_trim (go_trim s) = go_trim s"
  unfolding go_trim_def by (rule trim_twice) (auto simp: GO_SPACES_def SPACES_def utf8_def)

text \<open>A text that begins and ends with printable ASCII characters stays as it is.\<close>

definition plain_char :: "char \<Rightarrow> bool" where
  "plain_char c = (32 < (of_char c :: nat) \<and> (of_char c :: nat) < 128)"

lemma spaces_not_plain:
  "\<forall>w\<in>set GO_SPACES \<union> set JS_SPACES. w \<noteq> [] \<and> \<not> plain_char (hd w) \<and> \<not> plain_char (last w)"
  by (auto simp: GO_SPACES_def JS_SPACES_def SPACES_def utf8_def plain_char_def)

lemma no_space_start: "s = [] \<or> plain_char (hd s) \<Longrightarrow> \<forall>w\<in>set ws. w \<noteq> [] \<and> \<not> plain_char (hd w) \<Longrightarrow>
    List.find (startsWith s) ws = None"
  by (cases s) (auto simp: find_None_iff startsWith_iff, metis hd_append2 list.sel(1))

lemma plain_trim:
  assumes "s = [] \<or> plain_char (hd s) \<and> plain_char (last s)"
  shows "go_trim s = s" "js_trim s = s"
proof -
  have "trim_spaces ws s = s" if ws: "\<forall>w\<in>set ws. w \<noteq> [] \<and> \<not> plain_char (hd w) \<and> \<not> plain_char (last w)" for ws
  proof -
    have "List.find (startsWith s) ws = None" "List.find (startsWith (List.rev s)) (map List.rev ws) = None"
      by (rule no_space_start; use assms ws in \<open>force simp: hd_rev\<close>)+
    then show ?thesis by (simp add: trim_spaces_def Let_def strip_start_id)
  qed
  then show "go_trim s = s" "js_trim s = s" using spaces_not_plain by (simp_all add: go_trim_def js_trim_def)
qed

lemma normalize_snoc:
  "normalizeDependsOn (ds @ [d]) =
     (if go_trim d \<noteq> [] \<and> go_trim d \<notin> set (normalizeDependsOn ds)
      then normalizeDependsOn ds @ [go_trim d] else normalizeDependsOn ds)"
  by (simp add: normalizeDependsOn_def Let_def)

lemma normalize_clean:
  "distinct (normalizeDependsOn ds) \<and> (\<forall>d\<in>set (normalizeDependsOn ds). go_trim d = d \<and> d \<noteq> [])"
proof (induction ds rule: rev_induct)
  case Nil
  then show ?case by (simp add: normalizeDependsOn_def)
next
  case (snoc d ds)
  then show ?case by (auto simp: normalize_snoc)
qed

lemma normalize_id: "distinct ds \<Longrightarrow> \<forall>d\<in>set ds. go_trim d = d \<and> d \<noteq> [] \<Longrightarrow> normalizeDependsOn ds = ds"
proof (induction ds rule: rev_induct)
  case Nil
  then show ?case by (simp add: normalizeDependsOn_def)
next
  case (snoc d ds)
  then show ?case by (simp add: normalize_snoc)
qed

lemma normalize_twice [simp]: "normalizeDependsOn (normalizeDependsOn ds) = normalizeDependsOn ds"
  using normalize_clean by (intro normalize_id) auto

subsection \<open>A saved form opens again as it was saved\<close>

definition saved_form :: "task_form \<Rightarrow> task_form" where
  "saved_form f = f\<lparr>tf_title := go_trim (tf_title f), tf_startDate := (if scheduled f then tf_startDate f else []),
     tf_endDate := (if scheduled f then effEnd f else []), tf_milestone := (scheduled f \<and> tf_milestone f),
     tf_stage := go_trim (tf_stage f), tf_dependsOn := normalizeDependsOn (tf_dependsOn f)\<rparr>"

lemma resolve_id: "map_option tu_id (resolveAssignee members t i) = (if i = [] then None else Some i)"
proof (cases "List.find (\<lambda>mm. cm_userId mm = i) members")
  case (Some m)
  then have "cm_userId m = i" by (simp add: find_Some_iff) blast
  then show ?thesis by (simp add: resolveAssignee_def Some)
qed (auto simp: resolveAssignee_def)

lemma resolve_again:
  assumes "tk_assignee u = resolveAssignee members t i" "i \<noteq> []"
  shows "resolveAssignee members (Some u) i = resolveAssignee members t i"
proof (cases "List.find (\<lambda>mm. cm_userId mm = i) members")
  case None
  then have no: "\<not> (\<exists>m\<in>set members. cm_userId m = i)" by (simp add: find_None_iff)
  obtain a where a: "tk_assignee u = Some a" "tu_id a = i"
    using resolve_id[of members t i] assms by (cases "resolveAssignee members t i") auto
  then have "extraAssignee members (Some u) = Some a" using no by (simp add: extraAssignee_def)
  then show ?thesis using a assms None by (simp add: resolveAssignee_def)
qed (simp add: resolveAssignee_def assms)

lemma patched_save:
  "patched now ts (save_patch members t f) t0 =
     t0\<lparr>tk_title := go_trim (tf_title f), tk_description := opt_text (tf_description f), tk_status := tf_status f,
       tk_priority := tf_priority f, tk_dueDate := opt_text (tf_dueDate f),
       tk_assignee := resolveAssignee members (Some t) (tf_assigneeId f),
       tk_rank := (if tf_status f \<noteq> tk_status t0
         then maxRankInStatus (map (\<lambda>u. if tk_id u = tk_id t0 then u\<lparr>tk_status := tf_status f\<rparr> else u) ts) (tf_status f) + 1024
         else tk_rank t0),
       tk_startDate := opt_text (tf_startDate (saved_form f)), tk_endDate := opt_text (tf_endDate (saved_form f)),
       tk_progress := Some (tf_progress f), tk_milestone := Some (tf_milestone (saved_form f)),
       tk_dependsOn := normalizeDependsOn (tf_dependsOn f), tk_stage := opt_text (go_trim (tf_stage f)),
       tk_updatedAt := now\<rparr>"
  by (cases "resolveAssignee members (Some t) (tf_assigneeId f)")
    (simp_all add: patched_def save_patch_def saved_form_def no_patch_def Let_def opt_text_def effEnd_def scheduled_def)

lemma opt_text_get [simp]: "nullish (opt_text s) [] = s" "nullish (opt_text s) ''todo'' = (if s = [] then ''todo'' else s)"
  by (simp_all add: opt_text_def)

lemma seed_saved:
  "seed_form (Some (taskDTO pid pf (patched now ts (save_patch members t f) t0))) = saved_form f"
proof -
  have a: "nullish (map_option tu_id (resolveAssignee members (Some t) (tf_assigneeId f))) [] = tf_assigneeId f"
    by (simp add: resolve_id)
  have d: "nullish (opt_text s) [] = s" for s by simp
  show ?thesis
    unfolding patched_save
    by (rule task_form.equality) (simp_all add: seed_form_def opt_get_def taskDTO_def saved_form_def a d)
qed

lemma Update_saved:
  assumes "Update saved now pf i p = Inr (pf', u)"
  obtains t where "findTask (pf_tasks pf) i = Some t" "u = patched now (pf_tasks pf) p t"
    "pf' = pf\<lparr>pf_tasks := replace_task u (pf_tasks pf)\<rparr>"
    "task_fields_ok u (nullish (tp_docRefs p) (tk_docRefs t))"
    "tp_dependsOn p \<noteq> None \<longrightarrow> validateDependsOn (pf_tasks pf) (tk_id t) (tk_dependsOn u)"
  using assms by (auto simp: Update_def Let_def split: option.splits if_splits)

lemma find_replaced:
  assumes "findTask ts i = Some t" "tk_id u = tk_id t"
  shows "findTask (replace_task u ts) i = Some u"
proof -
  have i: "tk_id t = i" using findTask_in[OF assms(1)] by simp
  have "List.find (\<lambda>v. tk_id v = i) (map (\<lambda>v. if tk_id v = tk_id u then u else v) ts) = Some u"
    if "List.find (\<lambda>v. tk_id v = i) ts = Some t" for ts
    using that by (induction ts) (auto simp: assms(2) i split: if_splits)
  then show ?thesis using assms(1) by (simp add: findTask_def replace_task_def)
qed

text \<open>A task of the file may be saved with dependencies it has: they close no cycle.\<close>

lemma sub_deps_valid:
  assumes ok: "file_ok pf" and u: "findTask (pf_tasks pf) i = Some u"
    and ds: "set ds \<subseteq> set (tk_dependsOn u)" "length ds \<le> MaxDependsOn"
  shows "validateDependsOn (pf_tasks pf) i ds"
proof -
  have uin: "u \<in> set (pf_tasks pf)" "tk_id u = i" using findTask_in[OF u] by auto
  have edge: "(i, d) \<in> dep_rel (pf_tasks pf)" if "d \<in> set (tk_dependsOn u)" for d
    using uin that by (auto simp: dep_rel_def)
  have no: "(d, i) \<notin> (dep_rel (pf_tasks pf))\<^sup>*" if "d \<in> set (tk_dependsOn u)" for d
    using file_okD(3)[OF ok] rtrancl_into_trancl2[OF edge[OF that]] by (auto simp: acyclic_def)
  have ex: "findTask (pf_tasks pf) d \<noteq> None" if "d \<in> set (tk_dependsOn u)" for d
    using file_okD(5)[OF ok uin(1)] that by (auto simp: findTask_None)
  have "d \<noteq> i" if "d \<in> set (tk_dependsOn u)" for d using no[OF that] by auto
  then show ?thesis
    using ds no ex by (auto simp: validateDependsOn_def list_all_iff dependsOnCycle_iff[OF file_ids[OF ok]])
qed

lemmas own_deps_valid = sub_deps_valid[OF _ _ subset_refl]

lemma saved_form_stable: "saved_form (saved_form f) = saved_form f"
  by (simp add: saved_form_def scheduled_def effEnd_def)

text \<open>
  C34. A saved form opens again as it was saved: when the store accepts the edit of a task, the dialog
  opened on its answer shows the fields as sent - the title and stage trimmed, the dependencies trimmed
  and without repetition, no schedule if it was not complete - and saving that again, with the same
  roster, is accepted and changes nothing but the time of the update.
\<close>

theorem saved_form_reopens:
  fixes pid :: string and pf' :: task_file and u :: task
  assumes ok: "file_ok pf"
    and first: "Update saved now pf (tk_id t) (save_patch members t f) = Inr (pf', u)"
  defines "reopened \<equiv> taskDTO pid pf' u"
  shows "findTask (pf_tasks pf') (tk_id t) = Some u \<and> seed_form (Some reopened) = saved_form f \<and>
    (\<exists>pf''. Update True later pf' (tk_id t) (save_patch members reopened (seed_form (Some reopened))) =
       Inr (pf'', u\<lparr>tk_updatedAt := later\<rparr>))"
proof -
  from first obtain t0 where t0: "findTask (pf_tasks pf) (tk_id t) = Some t0"
    and u: "u = patched now (pf_tasks pf) (save_patch members t f) t0"
    and pf': "pf' = pf\<lparr>pf_tasks := replace_task u (pf_tasks pf)\<rparr>"
    and fields: "task_fields_ok u (nullish (tp_docRefs (save_patch members t f)) (tk_docRefs t0))"
    and deps: "tp_dependsOn (save_patch members t f) \<noteq> None \<longrightarrow>
      validateDependsOn (pf_tasks pf) (tk_id t0) (tk_dependsOn u)"
    by (rule Update_saved)
  have id0: "tk_id t0 = tk_id t" using findTask_in[OF t0] by simp
  have idu: "tk_id u = tk_id t0" by (simp add: u patched_save)
  have found: "findTask (pf_tasks pf') (tk_id t) = Some u"
    by (simp add: pf' find_replaced[OF t0 idu])
  have seed: "seed_form (Some reopened) = saved_form f" unfolding reopened_def u by (rule seed_saved)
  have ok': "file_ok pf'" using Update_ok[OF ok, of saved now "tk_id t" "save_patch members t f"]
    by (simp add: kept_def first)
  have n: "length (tk_dependsOn u) \<le> MaxDependsOn"
    using deps by (simp add: save_patch_def no_patch_def Let_def validateDependsOn_def)
  have same_docs: "tk_docRefs u = tk_docRefs t0" by (simp add: u patched_save)
  have no_docs: "tp_docRefs (save_patch members x g) = None" for x g
    by (simp add: save_patch_def no_patch_def Let_def)
  have fields': "task_fields_ok u (tk_docRefs u)" using fields by (simp add: no_docs same_docs)
  have aid: "tf_assigneeId (saved_form f) = tf_assigneeId f" by (simp add: saved_form_def)
  have asg: "resolveAssignee members (Some reopened) (tf_assigneeId f) = tk_assignee u"
  proof (cases "tf_assigneeId f = []")
    case False
    have "tk_assignee reopened = resolveAssignee members (Some t) (tf_assigneeId f)"
      by (simp add: reopened_def taskDTO_def u patched_save)
    from resolve_again[OF this False] show ?thesis by (simp add: u patched_save)
  qed (simp add: resolveAssignee_def u patched_save)
  have again: "patched later (pf_tasks pf') (save_patch members reopened (saved_form f)) u = u\<lparr>tk_updatedAt := later\<rparr>"
    by (rule task.equality)
      (simp_all add: patched_save aid asg saved_form_stable, simp_all add: u patched_save saved_form_def)
  have "Update True later pf' (tk_id t) (save_patch members reopened (saved_form f)) =
      Inr (pf'\<lparr>pf_tasks := replace_task (u\<lparr>tk_updatedAt := later\<rparr>) (pf_tasks pf')\<rparr>, u\<lparr>tk_updatedAt := later\<rparr>)"
    using fields' own_deps_valid[OF ok' found n] found idu id0
    by (simp add: Update_def again Let_def no_docs task_fields_ok_def)
  with found show ?thesis unfolding seed by blast
qed

definition form_file :: task_file where
  "form_file = (let t = \<lparr>tk_id = ''t1'', tk_num = 1, tk_projectId = [], tk_hubId = [], tk_projectName = [],
       tk_title = ''a'', tk_description = None, tk_status = ''todo'', tk_priority = ''high'', tk_dueDate = None,
       tk_assignee = None, tk_createdBy = sample_user, tk_createdAt = ''x'', tk_updatedAt = ''x'',
       tk_docRefs = [], tk_rank = 1024, tk_startDate = None, tk_endDate = None, tk_progress = Some 0,
       tk_milestone = Some False, tk_dependsOn = [], tk_stage = None\<rparr>
     in \<lparr>pf_hubId = ''h'', pf_projectName = ''P'', pf_nextTaskId = 3,
         pf_tasks = [t, t\<lparr>tk_id := ''t2'', tk_num := 2, tk_rank := 2048\<rparr>]\<rparr>)"

definition form_task :: task where
  "form_task = taskDTO ''p'' form_file (pf_tasks form_file ! 1)"

definition form_evs :: "form_event list" where
  "form_evs = [FTitle ''b'', FStart (Some 1771100000000), FMilestone True, FAssignee ''u'', FDependsOn [''t1'', ''t1'']]"

definition form_edit :: task_form where
  "form_edit = fold (form_step summer_zone) form_evs (seed_form (Some form_task))"

lemma form_file_ok: "file_ok form_file"
proof -
  have n: "''t1'' = ''t'' @ show_int 1" "''t2'' = ''t'' @ show_int 2" by code_simp+
  have "dep_rel (pf_tasks form_file) = {}" by (auto simp: form_file_def Let_def dep_rel_def)
  then have "acyclic (dep_rel (pf_tasks form_file))" by (simp add: acyclic_def)
  then show ?thesis
    by (intro file_okI) (auto simp: form_file_def Let_def n)
qed

subsection \<open>What the dialog lets through\<close>

definition date_text_ok :: "string \<Rightarrow> bool" where
  "date_text_ok s = (s = [] \<or> go_parse_day s \<noteq> None)"

definition form_ok :: "task_form \<Rightarrow> bool" where
  "form_ok f = (validStatus (tf_status f) \<and> validPriority (tf_priority f) \<and> date_text_ok (tf_dueDate f) \<and>
     date_text_ok (tf_startDate f) \<and> date_text_ok (tf_endDate f) \<and> 0 \<le> tf_progress f \<and> tf_progress f \<le> 100)"

definition picked_ok :: "zone \<Rightarrow> date option \<Rightarrow> bool" where
  "picked_ok z d = (case d of None \<Rightarrow> True | Some t \<Rightarrow> day_ok (local_day z t))"

fun form_event_ok :: "zone \<Rightarrow> form_event \<Rightarrow> bool" where
  "form_event_ok z (FDue d) = picked_ok z d"
| "form_event_ok z (FStart d) = picked_ok z d"
| "form_event_ok z (FEnd d) = picked_ok z d"
| "form_event_ok z (FOpen t) = (case t of None \<Rightarrow> True | Some t \<Rightarrow> task_fields_ok t (tk_docRefs t))"
| "form_event_ok z _ = True"

lemma no_date_ok [simp]: "date_text_ok []"
  by (simp add: date_text_ok_def)

lemma picked_text: "zone_ok z \<Longrightarrow> picked_ok z d \<Longrightarrow> date_text_ok (picked_day z d)"
  by (cases d) (simp_all add: date_text_ok_def picked_day_def picked_ok_def fmtDay_text_of go_parse_text)

lemma seed_ok: "form_event_ok z (FOpen t) \<Longrightarrow> form_ok (seed_form t)"
  by (cases t) (auto simp: form_ok_def seed_form_def opt_get_def validStatus_def validPriority_def STATUSES_def
      PRIORITIES_def date_text_ok_def task_fields_ok_def validateFields_def)

lemma form_step_ok: "zone_ok z \<Longrightarrow> form_event_ok z e \<Longrightarrow> form_ok f \<Longrightarrow> form_ok (form_step z e f)"
proof (cases e)
  case (FOpen t)
  then show "form_event_ok z e \<Longrightarrow> form_ok (form_step z e f)" using seed_ok[of z t] by simp
next
  case (FMilestone b)
  then show "form_ok f \<Longrightarrow> form_ok (form_step z e f)" by (simp add: form_ok_def)
qed (simp_all add: form_ok_def picked_text validStatus_def validPriority_def)

lemma form_run_ok:
  "zone_ok z \<Longrightarrow> list_all (form_event_ok z) evs \<Longrightarrow> form_ok f \<Longrightarrow> form_ok (fold (form_step z) evs f)"
  by (induction evs arbitrary: f) (simp_all add: form_step_ok)

definition over_limits :: "task_form \<Rightarrow> bool" where
  "over_limits f = (go_trim (tf_title f) = [] \<or> MaxTitleRunes < rune_count (go_trim (tf_title f)) \<or>
     MaxDescRunes < rune_count (tf_description f) \<or> MaxStageRunes < rune_count (go_trim (tf_stage f)))"

lemma saved_fields:
  assumes "form_ok f" "\<not> save_disabled False f" "length docs \<le> MaxDocRefs" "list_all ref_ok docs"
  shows "validateFields (go_trim (tf_title f)) (tf_description f) (tf_status f) (tf_priority f) (tf_dueDate f) docs
      \<lparr>sf_start = tf_startDate (saved_form f), sf_end = tf_endDate (saved_form f), sf_progress = tf_progress f,
       sf_milestone = tf_milestone (saved_form f), sf_stage = go_trim (tf_stage f)\<rparr> \<longleftrightarrow> \<not> over_limits f"
  using assms
  by (auto simp: validateFields_def over_limits_def form_ok_def save_disabled_def oneSided_def badOrder_def
      scheduled_def saved_form_def date_text_ok_def effEnd_def not_le)

lemma Update_refusal:
  assumes ok: "form_ok f" and enabled: "\<not> save_disabled False f"
    and t0: "findTask (pf_tasks pf) (tk_id t) = Some t0" "length (tk_docRefs t0) \<le> MaxDocRefs" "list_all ref_ok (tk_docRefs t0)"
  shows "Update True now pf (tk_id t) (save_patch members t f) = Inl e \<longleftrightarrow>
      e = ErrInvalid \<and> (over_limits f \<or> \<not> validateDependsOn (pf_tasks pf) (tk_id t) (normalizeDependsOn (tf_dependsOn f)))"
proof -
  have i: "tk_id t0 = tk_id t" using findTask_in[OF t0(1)] by simp
  let ?u = "patched now (pf_tasks pf) (save_patch members t f) t0"
  have p: "tp_docRefs (save_patch members t f) = None" "tp_dependsOn (save_patch members t f) \<noteq> None"
    by (simp_all add: save_patch_def no_patch_def Let_def)
  have u: "tk_dependsOn ?u = normalizeDependsOn (tf_dependsOn f)" by (simp add: patched_save)
  have "task_fields_ok ?u (tk_docRefs t0) \<longleftrightarrow> \<not> over_limits f"
    using saved_fields[OF ok enabled t0(2,3)] by (simp add: task_fields_ok_def patched_save)
  then show ?thesis using p u by (auto simp: Update_def t0(1) Let_def i)
qed

lemma Create_refusal:
  assumes ok: "form_ok f" and enabled: "\<not> save_disabled False f"
  shows "Create True now by' pf (save_draft members hub pname f) = Inl e \<longleftrightarrow>
      e = ErrInvalid \<and> (over_limits f \<or> MaxTasksPerProject \<le> length (pf_tasks pf) \<or>
        \<not> validateDependsOn (pf_tasks pf) [] (normalizeDependsOn (tf_dependsOn f)))"
proof -
  have v: "validateFields (go_trim (tf_title f)) (tf_description f) (tf_status f) (tf_priority f) (tf_dueDate f) []
      \<lparr>sf_start = tf_startDate (saved_form f), sf_end = tf_endDate (saved_form f), sf_progress = tf_progress f,
       sf_milestone = tf_milestone (saved_form f), sf_stage = go_trim (tf_stage f)\<rparr> \<longleftrightarrow> \<not> over_limits f"
    by (rule saved_fields[OF ok enabled]) simp_all
  have n: "str_or (Some (tf_status f)) ''todo'' = tf_status f" "str_or (Some (tf_priority f)) ''medium'' = tf_priority f"
    using ok by (auto simp: form_ok_def validStatus_def validPriority_def STATUSES_def PRIORITIES_def)
  have sched: "nullish (td_startDate (save_draft members hub pname f)) [] = tf_startDate (saved_form f)"
    "nullish (td_milestone (save_draft members hub pname f)) False = tf_milestone (saved_form f)"
    "(if tf_milestone (saved_form f) \<and> tf_startDate (saved_form f) \<noteq> [] then tf_startDate (saved_form f)
      else nullish (td_endDate (save_draft members hub pname f)) []) = tf_endDate (saved_form f)"
    by (auto simp: save_draft_def saved_form_def effEnd_def scheduled_def)
  have rest: "td_title (save_draft members hub pname f) = tf_title f" "td_description (save_draft members hub pname f) = Some (tf_description f)"
    "td_status (save_draft members hub pname f) = Some (tf_status f)" "td_priority (save_draft members hub pname f) = Some (tf_priority f)"
    "td_dueDate (save_draft members hub pname f) = Some (tf_dueDate f)" "td_docRefs (save_draft members hub pname f) = None"
    "td_progress (save_draft members hub pname f) = Some (tf_progress f)" "td_dependsOn (save_draft members hub pname f) = Some (tf_dependsOn f)"
    "td_stage (save_draft members hub pname f) = Some (tf_stage f)" by (simp_all add: save_draft_def)
  show ?thesis
    unfolding Create_def sched rest Let_def nullish_simps n v by auto
qed

text \<open>
  C35. The dialog is no stricter and hardly laxer than the store. Whatever is done in it, starting from a
  valid task or a new one, when Save is enabled the store refuses the edit only for what the dialog does
  not look at: a title that is blank for Go, the lengths of the texts, and dependencies that are too
  many, unknown or close a cycle; and a new task only for these or a full project.
\<close>

theorem savable_form_accepted:
  fixes opened :: "task option"
  assumes z: "zone_ok z" and opened: "form_event_ok z (FOpen opened)" and evs: "list_all (form_event_ok z) evs"
  defines "f \<equiv> fold (form_step z) evs (seed_form opened)"
  assumes enabled: "\<not> save_disabled False f"
    and t0: "findTask (pf_tasks pf) (tk_id t) = Some t0" "length (tk_docRefs t0) \<le> MaxDocRefs" "list_all ref_ok (tk_docRefs t0)"
  shows "(Update True now pf (tk_id t) (save_patch members t f) = Inl e \<longleftrightarrow>
      e = ErrInvalid \<and> (over_limits f \<or> \<not> validateDependsOn (pf_tasks pf) (tk_id t) (normalizeDependsOn (tf_dependsOn f)))) \<and>
    (Create True now by' pf (save_draft members hub pname f) = Inl e \<longleftrightarrow>
      e = ErrInvalid \<and> (over_limits f \<or> MaxTasksPerProject \<le> length (pf_tasks pf) \<or>
        \<not> validateDependsOn (pf_tasks pf) [] (normalizeDependsOn (tf_dependsOn f))))"
proof (rule conjI)
  have ok: "form_ok f" unfolding f_def by (rule form_run_ok[OF z evs seed_ok[OF opened]])
  show "Update True now pf (tk_id t) (save_patch members t f) = Inl e \<longleftrightarrow>
      e = ErrInvalid \<and> (over_limits f \<or> \<not> validateDependsOn (pf_tasks pf) (tk_id t) (normalizeDependsOn (tf_dependsOn f)))"
    by (rule Update_refusal[OF ok enabled t0])
  show "Create True now by' pf (save_draft members hub pname f) = Inl e \<longleftrightarrow>
      e = ErrInvalid \<and> (over_limits f \<or> MaxTasksPerProject \<le> length (pf_tasks pf) \<or>
        \<not> validateDependsOn (pf_tasks pf) [] (normalizeDependsOn (tf_dependsOn f)))"
    by (rule Create_refusal[OF ok enabled])
qed

lemma form_edit_fields:
  "picked_day summer_zone (Some 1771100000000) = ''2026-02-14''" "picked_ok summer_zone (Some 1771100000000)"
proof -
  have "text_of (local_day summer_zone 1771100000000) = ''2026-02-14''"
    by (simp add: text_of_def sample_day day_text_def) code_simp
  then show "picked_day summer_zone (Some 1771100000000) = ''2026-02-14''"
    by (simp add: picked_day_def fmtDay_text_of[OF summer_zone_ok])
qed (simp add: picked_ok_def day_ok_def sample_day)

lemma form_edit_eq:
  "form_edit = (seed_form (Some form_task))\<lparr>tf_title := ''b'', tf_startDate := ''2026-02-14'', tf_milestone := True,
     tf_assigneeId := ''u'', tf_dependsOn := [''t1'', ''t1'']\<rparr>"
  by (simp add: form_edit_def form_evs_def form_edit_fields)

lemma form_sample:
  "tk_id form_task = ''t2''"
  "findTask (pf_tasks form_file) ''t2'' = Some (pf_tasks form_file ! 1)" "tk_docRefs (pf_tasks form_file ! 1) = []"
  "form_event_ok summer_zone (FOpen (Some form_task))" "list_all (form_event_ok summer_zone) form_evs"
  "\<not> save_disabled False form_edit" "\<not> over_limits form_edit"
  "validateDependsOn (pf_tasks form_file) ''t2'' (normalizeDependsOn (tf_dependsOn form_edit))"
proof -
  have trims: "go_trim ''b'' = ''b''" "go_trim [] = []" "go_trim ''t1'' = ''t1''" "js_trim ''b'' = ''b''"
    by (simp_all add: plain_trim plain_char_def)
  have runes: "rune_count ''b'' = 1" "rune_count [] = 0" "rune_count ''a'' = 1" by (simp_all add: rune_count_def)
  note fields = form_edit_eq seed_form_def opt_get_def form_task_def taskDTO_def form_file_def Let_def
  show "tk_id form_task = ''t2''" by (simp add: fields)
  show "findTask (pf_tasks form_file) ''t2'' = Some (pf_tasks form_file ! 1)" "tk_docRefs (pf_tasks form_file ! 1) = []"
    by (simp_all add: findTask_def form_file_def Let_def)
  show "form_event_ok summer_zone (FOpen (Some form_task))"
    by (simp add: fields task_fields_ok_def validateFields_def runes validStatus_def validPriority_def STATUSES_def
        PRIORITIES_def MaxTitleRunes_def)
  show "list_all (form_event_ok summer_zone) form_evs" by (simp add: form_evs_def form_edit_fields)
  show "\<not> save_disabled False form_edit"
    by (simp add: fields save_disabled_def trims oneSided_def badOrder_def effEnd_def)
  show "\<not> over_limits form_edit" by (simp add: fields over_limits_def trims runes MaxTitleRunes_def)
  have "normalizeDependsOn (tf_dependsOn form_edit) = [''t1'']" by (simp add: fields normalizeDependsOn_def trims)
  then show "validateDependsOn (pf_tasks form_file) ''t2'' (normalizeDependsOn (tf_dependsOn form_edit))"
    by (simp add: validateDependsOn_def MaxDependsOn_def form_file_def findTask_def dependsOnCycle_def Let_def)
qed

theorem savable_form_accepted_witness:
  "\<nexists>e. Update True ''now'' form_file ''t2'' (save_patch [] form_task form_edit) = Inl e"
  using savable_form_accepted[OF summer_zone_ok form_sample(4,5), where pf = form_file and t = form_task] form_sample
  by (simp add: form_edit_def)

lemma form_edit_ok: "form_ok form_edit"
  unfolding form_edit_def by (rule form_run_ok[OF summer_zone_ok form_sample(5) seed_ok[OF form_sample(4)]])

theorem saved_form_reopens_witness:
  "\<exists>pf' u. Update True ''now'' form_file ''t2'' (save_patch [] form_task form_edit) = Inr (pf', u) \<and>
     tk_title u = ''b'' \<and> seed_form (Some (taskDTO ''p'' pf' u)) = saved_form form_edit \<and>
     (\<exists>pf''. Update True ''later'' pf' ''t2''
        (save_patch [] (taskDTO ''p'' pf' u) (seed_form (Some (taskDTO ''p'' pf' u)))) =
        Inr (pf'', u\<lparr>tk_updatedAt := ''later''\<rparr>))"
proof -
  have "Update True ''now'' form_file (tk_id form_task) (save_patch [] form_task form_edit) \<noteq> Inl e" for e
    using Update_refusal[OF form_edit_ok form_sample(6), where pf = form_file and t = form_task] form_sample by simp
  then obtain pf' u where
    first: "Update True ''now'' form_file (tk_id form_task) (save_patch [] form_task form_edit) = Inr (pf', u)"
    by (metis sumE surj_pair)
  then obtain t where "u = patched ''now'' (pf_tasks form_file) (save_patch [] form_task form_edit) t"
    by (rule Update_saved)
  then have b: "tk_title u = ''b''" by (simp add: patched_save form_edit_eq plain_trim plain_char_def)
  note run = saved_form_reopens[OF form_file_ok first]
  show ?thesis using run[of "''p''" "''later''"] first b by (auto simp: form_sample(1))
qed

subsection \<open>A milestone whose start was cleared\<close>

fun gives_start :: "form_event \<Rightarrow> bool" where
  "gives_start (FStart d) = (d \<noteq> None)"
| "gives_start (FOpen t) = True"
| "gives_start e = False"

text \<open>
  When the start of a milestone is cleared, both date fields are empty, but Save stays disabled
  whatever else is done in the form: the end kept behind the milestone makes the schedule one-sided, and
  the end field and the switch are off, so only a new start makes the form savable again.
\<close>

theorem cleared_milestone_stuck:
  fixes z :: zone and f :: task_form
  assumes "tf_milestone f" "tf_endDate f \<noteq> []" "\<not> list_ex gives_start evs"
  defines "g \<equiv> fold (form_step z) evs (form_step z (FStart None) f)"
  shows "tf_startDate g = [] \<and> shown_end g = [] \<and> save_disabled pending g"
proof -
  have step: "tf_milestone (form_step z e h) \<and> tf_endDate (form_step z e h) = tf_endDate f \<and> tf_startDate (form_step z e h) = []"
    if "tf_milestone h \<and> tf_endDate h = tf_endDate f \<and> tf_startDate h = []" "\<not> gives_start e" for e h
    using that by (cases e) (simp_all add: picked_day_def)
  have "tf_milestone (fold (form_step z) evs h) \<and> tf_endDate (fold (form_step z) evs h) = tf_endDate f \<and>
      tf_startDate (fold (form_step z) evs h) = []"
    if "tf_milestone h \<and> tf_endDate h = tf_endDate f \<and> tf_startDate h = []" for h
    using assms(3) that by (induction evs arbitrary: h) (simp_all add: step)
  from this[of "form_step z (FStart None) f"] assms(1,2) show ?thesis
    by (simp add: g_def picked_day_def shown_end_def save_disabled_def oneSided_def effEnd_def)
qed

theorem cleared_milestone_stuck_witness:
  "save_disabled False (fold (form_step summer_zone) [FEnd None, FMilestone False, FTitle ''x'']
     (form_step summer_zone (FStart None)
       ((seed_form (Some form_task))\<lparr>tf_startDate := ''2026-02-14'', tf_endDate := ''2026-02-14'', tf_milestone := True\<rparr>)))"
proof -
  let ?f = "(seed_form (Some form_task))\<lparr>tf_startDate := ''2026-02-14'', tf_endDate := ''2026-02-14'', tf_milestone := True\<rparr>"
  have "tf_milestone ?f" "tf_endDate ?f \<noteq> []" "\<not> list_ex gives_start [FEnd None, FMilestone False, FTitle ''x'']" by simp_all
  from cleared_milestone_stuck[OF this, of summer_zone False] show ?thesis by blast
qed

subsection \<open>The groups of the screen\<close>

interpretation newest: comparator by_newest
  by unfold_locales (auto simp: by_newest_def)

lemma distinct_first_snoc:
  "distinct_first (xs @ [x]) = (if x \<in> set xs then distinct_first xs else distinct_first xs @ [x])"
  by (simp add: distinct_first_def)

lemma set_distinct_first [simp]: "set (distinct_first xs) = set xs"
  by (simp add: distinct_first_def)

lemma distinct_distinct_first [simp]: "distinct (distinct_first xs)"
  by (simp add: distinct_first_def)

definition group_of :: "task list \<Rightarrow> string \<Rightarrow> task_group" where
  "group_of ts p = (let of_p = filter (\<lambda>t. tk_projectId t = p) ts
     in \<lparr>tg_name = tk_projectName (hd of_p), tg_tasks = of_p\<rparr>)"

lemma group_of_snoc:
  "group_of (ts @ [t]) p =
     (if p = tk_projectId t
      then (if p \<in> tk_projectId ` set ts then (group_of ts p)\<lparr>tg_tasks := tg_tasks (group_of ts p) @ [t]\<rparr>
            else \<lparr>tg_name = tk_projectName t, tg_tasks = [t]\<rparr>)
      else group_of ts p)"
proof (cases "p \<in> tk_projectId ` set ts")
  case True
  then have "filter (\<lambda>t. tk_projectId t = p) ts \<noteq> []" by (auto simp: filter_empty_conv)
  with True show ?thesis by (cases "p = tk_projectId t") (simp_all add: group_of_def Let_def)
next
  case False
  then have "filter (\<lambda>t. tk_projectId t = p) ts = []" by (auto simp: filter_empty_conv)
  with False show ?thesis by (cases "p = tk_projectId t") (simp_all add: group_of_def Let_def)
qed

lemma groups_built:
  "foldl group_add [] ts = map (\<lambda>p. (p, group_of ts p)) (distinct_first (map tk_projectId ts))"
proof (induction ts rule: rev_induct)
  case Nil
  then show ?case by (simp add: distinct_first_def)
next
  case (snoc t ts)
  have old: "map (\<lambda>p. (p, group_of (ts @ [t]) p)) (distinct_first (map tk_projectId ts)) =
      map (\<lambda>p. (p, if p = tk_projectId t then (group_of ts p)\<lparr>tg_tasks := tg_tasks (group_of ts p) @ [t]\<rparr> else group_of ts p))
        (distinct_first (map tk_projectId ts))"
  proof (rule map_cong[OF refl])
    fix p assume "p \<in> set (distinct_first (map tk_projectId ts))"
    then have "p \<in> tk_projectId ` set ts" by simp
    then show "(p, group_of (ts @ [t]) p) =
        (p, if p = tk_projectId t then (group_of ts p)\<lparr>tg_tasks := tg_tasks (group_of ts p) @ [t]\<rparr> else group_of ts p)"
      by (cases "p = tk_projectId t") (simp_all add: group_of_snoc)
  qed
  let ?M = "map (\<lambda>p. (p, group_of ts p)) (distinct_first (map tk_projectId ts))"
  have keys: "fst ` set ?M = tk_projectId ` set ts" by (simp add: image_image)
  have step: "foldl group_add [] (ts @ [t]) = group_add ?M t" by (simp add: snoc)
  show ?case
  proof (cases "tk_projectId t \<in> tk_projectId ` set ts")
    case True
    then have first: "distinct_first (map tk_projectId (ts @ [t])) = distinct_first (map tk_projectId ts)"
      by (simp add: distinct_first_snoc)
    show ?thesis unfolding step first old unfolding group_add_def keys using True by simp
  next
    case False
    then have same: "map (\<lambda>p. (p, group_of (ts @ [t]) p)) (distinct_first (map tk_projectId ts)) = ?M"
    proof (intro map_cong refl)
      fix p assume "p \<in> set (distinct_first (map tk_projectId ts))"
      then have "p \<in> tk_projectId ` set ts" by simp
      with False have "p \<noteq> tk_projectId t" by blast
      then show "(p, group_of (ts @ [t]) p) = (p, group_of ts p)" by (simp add: group_of_snoc)
    qed
    from False have first: "distinct_first (map tk_projectId (ts @ [t])) =
        distinct_first (map tk_projectId ts) @ [tk_projectId t]"
      by (simp add: distinct_first_snoc)
    have "map (\<lambda>p. (p, group_of (ts @ [t]) p)) (distinct_first (map tk_projectId (ts @ [t]))) =
        ?M @ [(tk_projectId t, group_of (ts @ [t]) (tk_projectId t))]"
      unfolding first map_append[of _ "distinct_first _"] same list.map by (rule refl)
    moreover have "group_of (ts @ [t]) (tk_projectId t) = \<lparr>tg_name = tk_projectName t, tg_tasks = [t]\<rparr>"
      using False by (simp add: group_of_snoc)
    ultimately show ?thesis unfolding step unfolding group_add_def keys using False by (simp only: if_False)
  qed
qed

lemma mset_split:
  "distinct ps \<Longrightarrow> set (map k ts) \<subseteq> set ps \<Longrightarrow> mset (concat (map (\<lambda>p. filter (\<lambda>t. k t = p) ts) ps)) = mset ts"
proof (induction ps arbitrary: ts)
  case (Cons p ps)
  let ?rest = "filter (\<lambda>t. k t \<noteq> p) ts"
  have eq: "map (\<lambda>q. filter (\<lambda>t. k t = q) ts) ps = map (\<lambda>q. filter (\<lambda>t. k t = q) ?rest) ps"
  proof (rule map_cong[OF refl])
    fix q assume "q \<in> set ps"
    then have "q \<noteq> p" using Cons.prems(1) by auto
    then show "filter (\<lambda>t. k t = q) ts = filter (\<lambda>t. k t = q) ?rest"
      unfolding filter_filter by (intro filter_cong) auto
  qed
  have "mset (concat (map (\<lambda>q. filter (\<lambda>t. k t = q) ?rest) ps)) = mset ?rest"
    by (rule Cons.IH) (use Cons.prems in auto)
  then have "mset (concat (map (\<lambda>q. filter (\<lambda>t. k t = q) ts) (p # ps))) =
      mset (filter (\<lambda>t. k t = p) ts) + mset ?rest"
    unfolding list.map concat.simps mset_append eq by (rule arg_cong)
  then show ?case by (simp only: mset_filter multiset_partition[symmetric])
qed simp

lemma mset_concat_cong: "mset xs = mset ys \<Longrightarrow> mset (concat xs) = mset (concat ys)"
  by (simp add: mset_concat) (metis mset_map sum_mset_sum_list)

text \<open>
  C36. The screen shows every task that passes its filters in exactly one place: the groups together hold
  these tasks, each as often as it is there; a group is never empty, holds the tasks of one project,
  newest number first, and no other group holds tasks of that project; the groups are in the order of
  the names. A task stands in the list exactly if its status, priority, project and text are asked for.
\<close>

theorem groups_hold_the_filtered:
  fixes tasks :: "task list" and fl :: task_filter and foldSearch :: "string \<Rightarrow> string"
  assumes lc: "comparator localeCompare"
  defines "gs \<equiv> task_groups localeCompare (filtered_tasks foldSearch fl tasks)"
  shows "mset (concat (map tg_tasks gs)) = mset (filter (shown_task_p foldSearch fl) tasks) \<and>
    distinct (map (\<lambda>g. tk_projectId (hd (tg_tasks g))) gs) \<and>
    (\<forall>g \<in> set gs. tg_tasks g \<noteq> [] \<and> sorted_wrt (\<lambda>a b. tk_num b \<le> tk_num a) (tg_tasks g) \<and>
      tg_tasks g = js_sort by_newest (filter (\<lambda>t. shown_task_p foldSearch fl t \<and>
        tk_projectId t = tk_projectId (hd (tg_tasks g))) tasks)) \<and>
    sorted_wrt (\<lambda>g h. localeCompare (tg_name g) (tg_name h) \<le> 0) gs"
proof -
  define ts where "ts = filter (shown_task_p foldSearch fl) tasks"
  define ps where "ps = distinct_first (map tk_projectId ts)"
  define grp where "grp = (\<lambda>p. (group_of ts p)\<lparr>tg_tasks := js_sort by_newest (tg_tasks (group_of ts p))\<rparr>)"
  let ?cmp = "\<lambda>a b. localeCompare (tg_name a) (tg_name b)"
  have gs: "gs = js_sort ?cmp (map grp ps)"
    by (simp add: gs_def task_groups_def filtered_tasks_def ts_def[symmetric] groups_built ps_def grp_def comp_def)
  have perm: "mset gs = mset (map grp ps)" by (simp add: gs)
  have tasks_of: "tg_tasks (grp p) = js_sort by_newest (filter (\<lambda>t. tk_projectId t = p) ts)" for p
    by (simp add: grp_def group_of_def Let_def)
  have ne: "tg_tasks (grp p) \<noteq> []" if "p \<in> set ps" for p
    using that by (auto simp: tasks_of ps_def filter_empty_conv)
  have pid: "tk_projectId (hd (tg_tasks (grp p))) = p" if "p \<in> set ps" for p
    using hd_in_set[OF ne[OF that]] by (simp add: tasks_of)
  have "mset (concat (map tg_tasks gs)) = mset (concat (map tg_tasks (map grp ps)))"
    by (rule mset_concat_cong) (use perm in \<open>metis mset_map\<close>)
  also have "\<dots> = mset (concat (map (\<lambda>p. filter (\<lambda>t. tk_projectId t = p) ts) ps))"
    by (induction ps) (simp_all add: tasks_of)
  also have "\<dots> = mset ts" by (rule mset_split) (auto simp: ps_def)
  finally have all: "mset (concat (map tg_tasks gs)) = mset (filter (shown_task_p foldSearch fl) tasks)" by (simp add: ts_def)
  have "mset (map (\<lambda>g. tk_projectId (hd (tg_tasks g))) gs) = mset (map (\<lambda>g. tk_projectId (hd (tg_tasks g))) (map grp ps))"
    using perm by (metis mset_map)
  also have "map (\<lambda>g. tk_projectId (hd (tg_tasks g))) (map grp ps) = ps"
    using pid by (simp add: comp_def map_idI)
  finally have once: "distinct (map (\<lambda>g. tk_projectId (hd (tg_tasks g))) gs)"
    using mset_eq_imp_distinct_iff ps_def distinct_distinct_first by blast
  have each: "tg_tasks g \<noteq> [] \<and> sorted_wrt (\<lambda>a b. tk_num b \<le> tk_num a) (tg_tasks g) \<and>
      tg_tasks g = js_sort by_newest (filter (\<lambda>t. shown_task_p foldSearch fl t \<and>
        tk_projectId t = tk_projectId (hd (tg_tasks g))) tasks)" if gin: "g \<in> set gs" for g
  proof -
    obtain p where p: "p \<in> set ps" "g = grp p" using gin by (auto simp: gs)
    have "sorted_wrt (\<lambda>a b. by_newest a b \<le> 0) (tg_tasks g)" unfolding p(2) tasks_of by (rule newest.sorted_sort)
    then have "sorted_wrt (\<lambda>a b. tk_num b \<le> tk_num a) (tg_tasks g)" by (simp add: by_newest_def)
    moreover have "filter (\<lambda>t. tk_projectId t = p) ts =
        filter (\<lambda>t. shown_task_p foldSearch fl t \<and> tk_projectId t = p) tasks"
      unfolding ts_def filter_filter by (rule filter_cong) auto
    ultimately show ?thesis using ne[OF p(1)] pid[OF p(1)] p(2) tasks_of by simp
  qed
  have names: "comparator ?cmp" using lc by (simp add: comparator_def)
  have "sorted_wrt (\<lambda>g h. localeCompare (tg_name g) (tg_name h) \<le> 0) gs"
    unfolding gs by (rule comparator.sorted_sort[OF names])
  with all once each show ?thesis by blast
qed

theorem groups_hold_the_filtered_witness:
  "map (map tk_id \<circ> tg_tasks) (task_groups (\<lambda>a b. int (length a) - int (length b))
     (filtered_tasks id filter_init (pf_tasks form_file))) = [[''t2'', ''t1'']] \<and>
   sorted_wrt (\<lambda>g h. int (length (tg_name g)) - int (length (tg_name h)) \<le> 0)
     (task_groups (\<lambda>a b. int (length a) - int (length b)) (filtered_tasks id filter_init (pf_tasks form_file)))"
proof -
  have "comparator (\<lambda>a b :: string. int (length a) - int (length b))" by unfold_locales auto
  note run = groups_hold_the_filtered[OF this, of id filter_init "pf_tasks form_file"]
  have "js_trim [] = []" by (simp add: plain_trim)
  then show ?thesis
    using run by (simp add: task_groups_def filtered_tasks_def shown_task_p_def filter_init_def form_file_def
        group_add_def by_newest_def Let_def)
qed

subsection \<open>Attachments\<close>

text \<open>
  What is attached is attached once, and removing it again leaves the references as they were: the
  requests of the details and the store's answer together.
\<close>

lemma attach_detach:
  assumes w: "addRefToken t token = Some (TaskUpdate (tk_id t) p)"
    and a: "Update saved now pf (tk_id t) p = Inr (pf', u)" and tok: "go_trim token = token" "token \<noteq> []"
    and clean: "normalizeDocRefs (tk_docRefs t) = tk_docRefs t"
  shows "tk_docRefs u = tk_docRefs t @ [token]" "addRefToken u token = None"
    "removeDoc u token = TaskUpdate (tk_id u) (docRefs_patch (tk_docRefs t))"
proof -
  have p: "p = docRefs_patch (tk_docRefs t @ [token])" and new: "token \<notin> set (tk_docRefs t)"
    using w by (auto simp: addRefToken_def split: if_splits)
  from a obtain t0 where u: "u = patched now (pf_tasks pf) p t0" by (rule Update_saved)
  show d: "tk_docRefs u = tk_docRefs t @ [token]"
    using clean tok by (simp add: u p patched_def docRefs_patch_def no_patch_def Let_def normalizeDocRefs_def)
  show "addRefToken u token = None" by (simp add: addRefToken_def d)
  have "filter (\<lambda>r. r \<noteq> token) (tk_docRefs t) = tk_docRefs t"
    using new by (auto intro!: filter_True)
  then show "removeDoc u token = TaskUpdate (tk_id u) (docRefs_patch (tk_docRefs t))"
    by (simp add: removeDoc_def d)
qed

text \<open>The star of a task is kept under its title: after a rename the task is not pinned any more.\<close>

lemma renamed_task_unpinned:
  assumes "valid_task (taskRefFromTask t)" "valid_task (taskRefFromTask u)" "tk_title t \<noteq> []" "tk_title u \<noteq> []"
    "tk_title t \<noteq> tk_title u"
  shows "lp_ref (task_pin_target t) \<noteq> lp_ref (task_pin_target u)"
proof
  assume "lp_ref (task_pin_target t) = lp_ref (task_pin_target u)"
  then have "shown_task (taskRefFromTask t) = shown_task (taskRefFromTask u)"
    using parse_encode_task[OF assms(1)] parse_encode_task[OF assms(2)] by (simp add: task_pin_target_def)
  then have "tkr_title (shown_task (taskRefFromTask t)) = tkr_title (shown_task (taskRefFromTask u))" by simp
  then show False using assms(3-5) by (simp add: shown_task_def taskRefFromTask_def)
qed

end
