(* ===== verification/GanttView.thy ===== *)
theory GanttView
  imports GanttDrag TaskScreens
begin

section \<open>The Gantt chart on the screen\<close>

text \<open>
  \<open>tasks/gantt/TaskGantt.tsx\<close> with \<open>GanttBar.tsx\<close>, \<open>GanttArrows.tsx\<close>, \<open>GanttGrid.tsx\<close>,
  \<open>GanttHeader.tsx\<close> and \<open>BacklogRail.tsx\<close>: where bars, arrows, lines and labels are drawn, and the page
  as a state machine of presses, moves, releases and clicks around the drag of \<open>GanttDrag\<close>. The browser
  clicks the element on which the primary button was pressed and released. Text measurement, the
  segmentation into graphemes, labels and date formats are parameters. A bar of an invalid day, which
  the store refuses, has no rectangle here.
\<close>

subsection \<open>Rectangles, with the drag in flight\<close>

definition LABEL_W :: int where "LABEL_W = 230"
definition GANTT_HEADER_H :: int where "GANTT_HEADER_H = 44"
definition HANDLE_W :: int where "HANDLE_W = 7"

definition drag_action :: "gantt_drag option \<Rightarrow> string \<Rightarrow> bool" where
  "drag_action drag a = (case drag of None \<Rightarrow> False | Some d \<Rightarrow> gd_action d = a)"

definition stageShiftPx :: "gantt_scale \<Rightarrow> gantt_drag option \<Rightarrow> rat" where
  "stageShiftPx sc drag =
     (if drag_action drag ''stageMove'' \<and> nullish (Option.bind drag gd_shiftDays) 0 \<noteq> 0
      then of_int (nullish (Option.bind drag gd_shiftDays) 0) * dayWidth sc else 0)"

definition stageShiftIds :: "gantt_drag option \<Rightarrow> string list" where
  "stageShiftIds drag =
     (if drag_action drag ''stageMove'' then nullish (Option.bind drag gd_stageTaskIds) [] else [])"

definition preview_range :: "zone \<Rightarrow> gantt_drag option \<Rightarrow> gantt_row \<Rightarrow> task \<Rightarrow> date option \<times> date option" where
  "preview_range z drag row t =
     (case drag of
        None \<Rightarrow> (gr_start row, gr_end row)
      | Some d \<Rightarrow>
          if gd_taskId d = Some (tk_id t) \<and> truthy (gd_startDate d) \<and> truthy (gd_endDate d)
          then (parseDay z (nullish (gd_startDate d) []), parseDay z (nullish (gd_endDate d) []))
          else (gr_start row, gr_end row))"

definition shift_rect :: "rat \<Rightarrow> bar_rect \<Rightarrow> bar_rect" where
  "shift_rect dx r = r\<lparr>br_x1 := br_x1 r + dx, br_x2 := br_x2 r + dx\<rparr>"

definition row_rect :: "zone \<Rightarrow> gantt_scale \<Rightarrow> gantt_drag option \<Rightarrow> nat \<times> gantt_row \<Rightarrow> (string \<times> bar_rect) option" where
  "row_rect z sc drag e =
     (case e of (i, row) \<Rightarrow>
        (case gr_task row of
           None \<Rightarrow> None
         | Some t \<Rightarrow>
             if gr_kind row \<noteq> ''task'' then None
             else case preview_range z drag row t of
               (Some s, Some e) \<Rightarrow>
                 (let r = barRect z sc s e i
                  in Some (tk_id t, if tk_id t \<in> set (stageShiftIds drag) then shift_rect (stageShiftPx sc drag) r else r))
             | _ \<Rightarrow> None))"

definition rects :: "zone \<Rightarrow> gantt_scale \<Rightarrow> gantt_row list \<Rightarrow> gantt_drag option \<Rightarrow> string \<Rightarrow> bar_rect option" where
  "rects z sc rows drag =
     map_of (List.rev (List.map_filter (row_rect z sc drag) (zip [0..<length rows] rows)))"

definition stage_rect :: "zone \<Rightarrow> gantt_scale \<Rightarrow> gantt_drag option \<Rightarrow> nat \<Rightarrow> gantt_row \<Rightarrow> bar_rect option" where
  "stage_rect z sc drag i row =
     (case (gr_start row, gr_end row) of
        (Some s, Some e) \<Rightarrow>
          (let r = barRect z sc s e i
           in Some (if drag_action drag ''stageMove'' \<and> Option.bind drag gd_stage = gr_stage row
                    then shift_rect (stageShiftPx sc drag) r else r))
      | _ \<Rightarrow> None)"

definition bodyH :: "gantt_row list \<Rightarrow> int" where
  "bodyH rows = int (max (length rows) 1) * ROW_H"

definition today_scroll :: "gantt_scale \<Rightarrow> date \<Rightarrow> rat \<Rightarrow> rat" where
  "today_scroll sc now clientWidth = max 0 (of_int LABEL_W + dateToX sc now - clientWidth / 2)"

definition zoomToFit :: "zone \<Rightarrow> task list \<Rightarrow> rat \<Rightarrow> time_unit" where
  "zoomToFit z tasks clientWidth = unitToFit z tasks (max 200 (clientWidth - of_int LABEL_W))"

definition bar_progress :: "gantt_drag option \<Rightarrow> task \<Rightarrow> int" where
  "bar_progress drag t =
     (case drag of
        Some d \<Rightarrow> (if gd_taskId d = Some (tk_id t) \<and> gd_action d = ''progress'' then nullish (gd_progress d) (row_progress t)
                 else row_progress t)
      | None \<Rightarrow> row_progress t)"

definition bar_dueX :: "zone \<Rightarrow> gantt_scale \<Rightarrow> task \<Rightarrow> rat option" where
  "bar_dueX z sc t =
     (if truthy (tk_dueDate t)
      then map_option (\<lambda>d. dateToX sc (addDays z d 1)) (parseDay z (nullish (tk_dueDate t) [])) else None)"

definition bar_overdue :: "task \<Rightarrow> bool" where
  "bar_overdue t = (truthy (tk_dueDate t) \<and> tk_status t \<noteq> ''done'' \<and> truthy (tk_endDate t) \<and>
     nullish (tk_endDate t) [] > nullish (tk_dueDate t) [])"

definition bar_selected :: "gantt_drag option \<Rightarrow> task \<Rightarrow> bool" where
  "bar_selected drag t =
     (drag_action drag ''link'' \<and> Option.bind drag gd_linkTargetId = Some (tk_id t))"

text \<open>The line from the bar a dependency is dragged from to the pointer, and the ghost of a backlog task.\<close>

definition link_line :: "(string \<Rightarrow> bar_rect option) \<Rightarrow> gantt_drag option \<Rightarrow> (rat \<times> rat \<times> rat \<times> rat) option" where
  "link_line rs drag =
     (case drag of
        None \<Rightarrow> None
      | Some d \<Rightarrow>
          if gd_action d = ''link'' \<and> truthy (gd_linkFromId d)
          then map_option (\<lambda>r. (br_x2 r, br_mid r, gd_pointerX d, gd_pointerY d)) (rs (nullish (gd_linkFromId d) []))
          else None)"

definition ghost_rect :: "zone \<Rightarrow> gantt_scale \<Rightarrow> gantt_drag option \<Rightarrow> (rat \<times> rat \<times> rat \<times> rat) option" where
  "ghost_rect z sc drag =
     (case drag of
        None \<Rightarrow> None
      | Some d \<Rightarrow>
          if gd_action d = ''schedule'' \<and> gd_moved d \<and> truthy (gd_startDate d) \<and> truthy (gd_endDate d)
          then case (parseDay z (nullish (gd_startDate d) []), parseDay z (nullish (gd_endDate d) [])) of
              (Some s, Some e) \<Rightarrow>
                Some (dateToX sc s, gd_pointerY d - of_int BAR_H / 2, dateToX sc (addDays z e 1) - dateToX sc s, of_int BAR_H)
            | _ \<Rightarrow> None
          else None)"

subsection \<open>Arrows\<close>

record arrow =
  ar_key :: string
  ar_fromId :: string
  ar_toId :: string
  ar_from :: bar_rect
  ar_to :: bar_rect

record arrow_hit =
  ah_fromId :: string
  ah_toId :: string
  ah_x :: rat
  ah_y :: rat

definition task_arrows :: "(string \<Rightarrow> bar_rect option) \<Rightarrow> task \<Rightarrow> arrow list" where
  "task_arrows rs t =
     (case rs (tk_id t) of
        None \<Rightarrow> []
      | Some to \<Rightarrow> List.map_filter (\<lambda>dep. map_option (\<lambda>from. \<lparr>ar_key = dep @ ''->'' @ tk_id t, ar_fromId = dep,
          ar_toId = tk_id t, ar_from = from, ar_to = to\<rparr>) (rs dep)) (tk_dependsOn t))"

definition arrows :: "task list \<Rightarrow> (string \<Rightarrow> bar_rect option) \<Rightarrow> arrow list" where
  "arrows tasks rs = concat (map (task_arrows rs) tasks)"

definition arrow_shape :: "arrow \<Rightarrow> path_cmd list \<times> (rat \<times> rat) list" where
  "arrow_shape a = (dependencyPath (ar_from a) (ar_to a), arrowHead (ar_to a))"

definition hit_of :: "arrow \<Rightarrow> rat \<times> rat \<Rightarrow> arrow_hit" where
  "hit_of a p = \<lparr>ah_fromId = ar_fromId a, ah_toId = ar_toId a, ah_x = fst p, ah_y = snd p\<rparr>"

definition removeDependency ::
    "task list \<Rightarrow> arrow_hit option \<Rightarrow> task_list option \<Rightarrow> task_list option \<times> drag_request option" where
  "removeDependency tasks arrowMenu cur =
     (case arrowMenu of
        None \<Rightarrow> (cur, None)
      | Some hit \<Rightarrow>
          (case List.find (\<lambda>t. tk_id t = ah_toId hit) tasks of
             None \<Rightarrow> (cur, None)
           | Some target \<Rightarrow>
               (let dependsOn = filter (\<lambda>i. i \<noteq> ah_fromId hit) (tk_dependsOn target)
                in (patch_cache (tk_id target) (\<lambda>t. t\<lparr>tk_dependsOn := dependsOn\<rparr>) cur,
                    Some (UpdateTask (tk_id target) (no_patch\<lparr>tp_dependsOn := Some dependsOn\<rparr>))))))"

definition menu_label :: "task list \<Rightarrow> string \<Rightarrow> string" where
  "menu_label tasks i =
     (case List.find (\<lambda>x. tk_id x = i) tasks of Some t \<Rightarrow> taskDisplayId t | None \<Rightarrow> i)"

subsection \<open>The shape of a bar\<close>

definition statusBarColor :: "string \<Rightarrow> string" where
  "statusBarColor status =
     (if status = ''inprogress'' then ''info.main'' else if status = ''blocked'' then ''warning.main''
      else if status = ''done'' then ''success.main'' else ''text.secondary'')"

definition bar_stroke :: "bool \<Rightarrow> bool \<Rightarrow> string \<Rightarrow> string" where
  "bar_stroke overdue sel color =
     (if overdue then ''error.main'' else if sel then ''primary.main'' else color)"

definition bar_w :: "bar_rect \<Rightarrow> rat" where
  "bar_w r = max 2 (br_x2 r - br_x1 r)"

definition bar_progW :: "bar_rect \<Rightarrow> int \<Rightarrow> rat" where
  "bar_progW r n = of_int (min 100 (max 0 n)) / 100 * bar_w r"

definition milestone_path :: "bar_rect \<Rightarrow> (rat \<times> rat) list" where
  "milestone_path rect =
     (let cx = (br_x1 rect + br_x2 rect) / 2; r = br_h rect / 2
      in [(cx, br_mid rect - r), (cx + r, br_mid rect), (cx, br_mid rect + r), (cx - r, br_mid rect)])"

text \<open>The handles: at the ends (\<open>x\<close>, \<open>y\<close>, width, height), the corners of the progress handle, the link circle.\<close>

definition showHandles :: "bool \<Rightarrow> bool \<Rightarrow> bool \<Rightarrow> bool" where
  "showHandles writable hover dragging = (writable \<and> (hover \<or> dragging))"

definition resize_handles :: "bar_rect \<Rightarrow> (rat \<times> rat \<times> rat \<times> rat) \<times> (rat \<times> rat \<times> rat \<times> rat)" where
  "resize_handles r =
     ((br_x1 r, br_y r, of_int HANDLE_W, br_h r), (br_x2 r - of_int HANDLE_W, br_y r, of_int HANDLE_W, br_h r))"

definition progress_handle :: "bar_rect \<Rightarrow> int \<Rightarrow> (rat \<times> rat) list" where
  "progress_handle r n =
     (let progW = bar_progW r n
      in [(br_x1 r + progW, br_y r + br_h r), (br_x1 r + progW - 5, br_y r + br_h r + 7),
          (br_x1 r + progW + 5, br_y r + br_h r + 7)])"

definition link_handle :: "bar_rect \<Rightarrow> rat \<times> rat \<times> rat" where
  "link_handle r = (br_x2 r + 8, br_mid r, 5)"

definition due_flag :: "rat \<Rightarrow> bar_rect \<Rightarrow> (rat \<times> rat) list \<times> (rat \<times> rat) list" where
  "due_flag x r =
     ([(x, br_y r - 3), (x, br_y r + br_h r + 3)], [(x, br_y r - 3), (x + 7, br_y r), (x, br_y r + 3)])"

text \<open>The bar of a stage: \<open>x\<close>, \<open>y\<close>, width, height, the width of the progress and its two teeth.\<close>

definition stage_shape :: "bar_rect \<Rightarrow> int \<Rightarrow> (rat \<times> rat \<times> rat \<times> rat) \<times> rat \<times> (rat \<times> rat) list \<times> (rat \<times> rat) list" where
  "stage_shape r n =
     (let h = 10; y = br_y r + 2
      in ((br_x1 r, y, bar_w r, h), bar_progW r n,
          [(br_x1 r, y + h), (br_x1 r, y + h + 5), (br_x1 r + 6, y + h)],
          [(br_x2 r, y + h), (br_x2 r, y + h + 5), (br_x2 r - 6, y + h)]))"

text \<open>The label: the binary search for the cut.\<close>

definition ELL :: string where "ELL = utf8 [226, 128, 166]"

function cut_search :: "(nat \<Rightarrow> bool) \<Rightarrow> nat \<Rightarrow> nat \<Rightarrow> nat" where
  "cut_search fits lo hi =
     (if lo < hi
      then (let mid = (lo + hi + 1) div 2
            in if fits mid then cut_search fits mid hi else cut_search fits lo (mid - 1))
      else lo)"
  by pat_completeness auto
termination cut_search by (relation "measure (\<lambda>(fits, lo, hi). hi - lo)") auto

declare cut_search.simps [simp del]

definition truncate_label :: "(string \<Rightarrow> rat) \<Rightarrow> (string \<Rightarrow> string list) \<Rightarrow> string \<Rightarrow> rat \<Rightarrow> string" where
  "truncate_label msr graphemeSplit s px =
     (if msr s \<le> px then s
      else let parts = graphemeSplit s;
               lo = cut_search (\<lambda>mid. msr (concat (take mid parts) @ ELL) \<le> px) 0 (length parts)
           in if lo = 0 then [] else concat (take lo parts) @ ELL)"

definition bar_label :: "(string \<Rightarrow> rat) \<Rightarrow> (string \<Rightarrow> string list) \<Rightarrow> string \<Rightarrow> bar_rect \<Rightarrow> (rat \<times> rat \<times> string) option" where
  "bar_label msr graphemeSplit title r =
     (if bar_w r > 54
      then Some (br_x1 r + 6, br_mid r, truncate_label msr graphemeSplit title (bar_w r - 12)) else None)"

subsection \<open>Grid and header\<close>

definition grid_height :: "nat \<Rightarrow> int" where
  "grid_height rowCount = int (max 1 rowCount) * ROW_H"

definition showToday :: "gantt_scale \<Rightarrow> date \<Rightarrow> rat option" where
  "showToday sc now =
     (let todayX = dateToX sc now in if todayX > 0 \<and> todayX < of_int (gs_width sc) then Some todayX else None)"

text \<open>The shaded stretches, \<open>x\<close> and width.\<close>

definition weekend_shades :: "zone \<Rightarrow> gantt_scale \<Rightarrow> (rat \<times> rat) list" where
  "weekend_shades z sc =
     (let w = of_int (gs_colWidth sc)
      in case gs_unit sc of
        UMonth \<Rightarrow> []
      | UDay \<Rightarrow> map (\<lambda>(i, c). (of_nat i * w, w)) (filter (\<lambda>(i, c). isWeekend z (gc_start c)) (zip [0..<length (gs_cols sc)] (gs_cols sc)))
      | UWeek \<Rightarrow> map (\<lambda>i. ((of_nat i + 1) * w - w * 2 / 7, w * 2 / 7)) [0..<length (gs_cols sc)])"

definition column_lines :: "gantt_scale \<Rightarrow> int list" where
  "column_lines sc = map (\<lambda>i. int i * gs_colWidth sc) [0..<length (gs_cols sc)]"

definition row_lines :: "nat \<Rightarrow> int list" where
  "row_lines rowCount = map (\<lambda>i. int i * ROW_H) [0..<rowCount + 1]"

definition band_text :: "bool \<Rightarrow> header_band \<Rightarrow> rat \<times> rat \<times> string" where
  "band_text upper b =
     (let bandH = of_int GANTT_HEADER_H / 2
      in (of_int (hb_x b) + of_int (hb_w b) / 2, (if upper then bandH / 2 else bandH + bandH / 2),
          if \<not> upper \<or> hb_w b > 60 then hb_label b else []))"

definition today_cap :: "rat \<Rightarrow> rat \<times> rat \<times> rat \<times> rat" where
  "today_cap todayX = (todayX - 17, of_int GANTT_HEADER_H - 15, 34, 13)"

subsection \<open>The rail and the hover card\<close>

definition backlog_sorted :: "task list \<Rightarrow> task list" where
  "backlog_sorted tasks = js_sort by_newest tasks"

definition backlog_meta :: "(string \<Rightarrow> string) \<Rightarrow> (string \<Rightarrow> string) \<Rightarrow> task \<Rightarrow> string" where
  "backlog_meta dueLabel due t =
     join_with MIDDOT (map (\<lambda>x. nullish x []) (filter truthy
       [Some (taskDisplayId t), (case tk_assignee t of None \<Rightarrow> None | Some u \<Rightarrow> user_text u),
        (if truthy (tk_dueDate t) then Some (dueLabel (due (nullish (tk_dueDate t) []))) else None)]))"

definition hover_left :: "bar_rect \<Rightarrow> rat \<Rightarrow> rat" where
  "hover_left r chartWidth = (let w = 240 in min (max 4 (br_x2 r + 10)) (max 4 (chartWidth - w - 4)))"

definition hover_top :: "bar_rect \<Rightarrow> rat" where
  "hover_top r = max 2 (br_y r - 6)"

definition fmtRange :: "zone \<Rightarrow> (date option \<Rightarrow> string) \<Rightarrow> task \<Rightarrow> string" where
  "fmtRange z toLocale t =
     (if \<not> truthy (tk_startDate t) \<or> \<not> truthy (tk_endDate t) then []
      else toLocale (parseDay z (start_text t)) @ ARROW @ toLocale (parseDay z (end_text t)))"

record hover_labels =
  hl_span :: "string \<Rightarrow> int option \<Rightarrow> string"
  hl_milestone :: string
  hl_progress :: "int \<Rightarrow> string"
  hl_deps :: "nat \<Rightarrow> string"
  hl_due :: "string \<Rightarrow> string"

definition hover_lines :: "zone \<Rightarrow> (date option \<Rightarrow> string) \<Rightarrow> hover_labels \<Rightarrow> task \<Rightarrow> string list" where
  "hover_lines z toLocale tr t =
     map (\<lambda>x. nullish x []) (filter truthy
       [Some (hl_span tr (fmtRange z toLocale t) (durationDays z t)),
        Some (if tk_milestone t = Some True then hl_milestone tr else hl_progress tr (row_progress t)),
        Option.bind (tk_assignee t) user_text,
        (if tk_dependsOn t \<noteq> [] then Some (hl_deps tr (length (tk_dependsOn t))) else None),
        (if truthy (tk_dueDate t) then Some (hl_due tr (nullish (tk_dueDate t) [])) else None)])"

subsection \<open>The page\<close>

datatype gantt_target =
    OnBar string string
  | OnStage string
  | OnBacklog string
  | OnArrow arrow_hit
  | OnTaskLabel string
  | OnStageLabel string
  | OnNothing

record gantt_view =
  gv_collapsed :: "string set"
  gv_openTaskId :: "string option"
  gv_arrowMenu :: "arrow_hit option"
  gv_hovered :: "(task \<times> bar_rect) option"
  gv_drag :: drag_state
  gv_pressed :: "gantt_target option"

definition gantt_view_init :: gantt_view where
  "gantt_view_init = \<lparr>gv_collapsed = {}, gv_openTaskId = None, gv_arrowMenu = None, gv_hovered = None,
     gv_drag = idle, gv_pressed = None\<rparr>"

definition toggleStage :: "string \<Rightarrow> string set \<Rightarrow> string set" where
  "toggleStage stage cur = (if stage \<in> cur then cur - {stage} else insert stage cur)"

definition stage_ids :: "gantt_row list \<Rightarrow> string \<Rightarrow> string list" where
  "stage_ids rows stage =
     (case List.find (\<lambda>r. gr_kind r = ''stage'' \<and> gr_stage r = Some stage) rows of
        None \<Rightarrow> []
      | Some r \<Rightarrow> map tk_id (nullish (gr_tasks r) []))"

text \<open>A press: the body and the handles of a bar, a stage, a row of the rail.\<close>

definition press ::
    "zone \<Rightarrow> bool \<Rightarrow> drag_page \<Rightarrow> task list \<Rightarrow> gantt_target \<Rightarrow> int \<Rightarrow> rat \<times> rat \<Rightarrow> gantt_view \<Rightarrow> drag_state" where
  "press z writable pg tasks tgt button p s =
     (case tgt of
        OnBar i action \<Rightarrow>
          (case List.find (\<lambda>t. tk_id t = i) tasks of
             None \<Rightarrow> gv_drag s
           | Some t \<Rightarrow> startBarDrag writable pg button p t action (gv_drag s))
      | OnStage stage \<Rightarrow>
          startStageDrag writable pg button p stage (stage_ids (rowModel z tasks (gv_collapsed s)) stage) (gv_drag s)
      | OnBacklog i \<Rightarrow>
          (case List.find (\<lambda>t. tk_id t = i) tasks of
             None \<Rightarrow> gv_drag s
           | Some t \<Rightarrow> if writable then startBacklogDrag writable pg button p t (gv_drag s) else gv_drag s)
      | _ \<Rightarrow> gv_drag s)"

text \<open>The \<open>onClick\<close> of an element; the handles of a bar have none.\<close>

definition clicked :: "bool \<Rightarrow> gantt_target \<Rightarrow> gantt_view \<Rightarrow> gantt_view" where
  "clicked writable tgt s =
     (case tgt of
        OnBar i action \<Rightarrow> if action = ''move'' then s\<lparr>gv_openTaskId := Some i\<rparr> else s
      | OnStage stage \<Rightarrow> s\<lparr>gv_collapsed := toggleStage stage (gv_collapsed s)\<rparr>
      | OnBacklog i \<Rightarrow> s\<lparr>gv_openTaskId := Some i\<rparr>
      | OnArrow hit \<Rightarrow> if writable then s\<lparr>gv_arrowMenu := Some hit\<rparr> else s
      | OnTaskLabel i \<Rightarrow> s\<lparr>gv_openTaskId := Some i\<rparr>
      | OnStageLabel stage \<Rightarrow> s\<lparr>gv_collapsed := toggleStage stage (gv_collapsed s)\<rparr>
      | OnNothing \<Rightarrow> s)"

datatype gantt_event =
    GDown gantt_target int "rat \<times> rat"
  | GMove "rat \<times> rat"
  | GUp gantt_target "rat \<times> rat"
  | GKey string
  | GHover string bool
  | GRemove
  | GMenuClose
  | GDialogClose

text \<open>The environment of the page; the tasks shown are those of the cache.\<close>

record gantt_env =
  ge_zone :: zone
  ge_scale :: gantt_scale
  ge_page :: drag_page
  ge_writable :: bool

type_synonym gantt_world = "gantt_view \<times> task_list option \<times> drag_request list"

definition shown_tasks :: "task_list option \<Rightarrow> task list" where
  "shown_tasks cur = (case cur of None \<Rightarrow> [] | Some l \<Rightarrow> tl_tasks l)"

definition and_request :: "drag_request list \<Rightarrow> drag_request option \<Rightarrow> drag_request list" where
  "and_request rs r = rs @ (case r of None \<Rightarrow> [] | Some x \<Rightarrow> [x])"

text \<open>The release of the window's listener, then the click of the browser.\<close>

definition release :: "gantt_env \<Rightarrow> rat \<times> rat \<Rightarrow> gantt_world \<Rightarrow> gantt_world" where
  "release env p w =
     (case w of (s, cur, reqs) \<Rightarrow>
        (case onUp (ge_page env) p (gv_drag s) of
           (st, NoEnd) \<Rightarrow> (s\<lparr>gv_drag := st\<rparr>, cur, reqs)
         | (st, Clicked i) \<Rightarrow> (s\<lparr>gv_drag := st, gv_openTaskId := Some i\<rparr>, cur, reqs)
         | (st, Finished d) \<Rightarrow>
             (case commit (ge_zone env) (shown_tasks cur) d cur of
                (cur', r) \<Rightarrow> (s\<lparr>gv_drag := st\<rparr>, cur', and_request reqs r))))"

fun gantt_step :: "gantt_env \<Rightarrow> gantt_event \<Rightarrow> gantt_world \<Rightarrow> gantt_world" where
  "gantt_step env (GDown tgt button p) (s, cur, reqs) =
     (s\<lparr>gv_drag := press (ge_zone env) (ge_writable env) (ge_page env) (shown_tasks cur) tgt button p s,
        gv_pressed := (if button = 0 then Some tgt else gv_pressed s)\<rparr>, cur, reqs)"
| "gantt_step env (GMove p) (s, cur, reqs) =
     (s\<lparr>gv_drag := onMove (ge_zone env) (ge_scale env) (ge_page env) p (gv_drag s)\<rparr>, cur, reqs)"
| "gantt_step env (GUp tgt p) (s, cur, reqs) =
     (case release env p (s, cur, reqs) of
        (s', rest) \<Rightarrow> ((if gv_pressed s = Some tgt then clicked (ge_writable env) tgt s' else s')\<lparr>gv_pressed := None\<rparr>, rest))"
| "gantt_step env (GKey k) (s, cur, reqs) =
     (s\<lparr>gv_drag := (if ds_drag (gv_drag s) = None then gv_drag s else onKey k (gv_drag s))\<rparr>, cur, reqs)"
| "gantt_step env (GHover i on) (s, cur, reqs) =
     (s\<lparr>gv_hovered :=
        (if on \<and> ds_drag (gv_drag s) = None
         then (case (List.find (\<lambda>t. tk_id t = i) (shown_tasks cur),
                     rects (ge_zone env) (ge_scale env) (rowModel (ge_zone env) (shown_tasks cur) (gv_collapsed s)) None i) of
                 (Some t, Some r) \<Rightarrow> Some (t, r)
               | _ \<Rightarrow> None)
         else None)\<rparr>, cur, reqs)"
| "gantt_step env GRemove (s, cur, reqs) =
     (case removeDependency (shown_tasks cur) (gv_arrowMenu s) cur of
        (cur', r) \<Rightarrow> (s\<lparr>gv_arrowMenu := None\<rparr>, cur', and_request reqs r))"
| "gantt_step env GMenuClose (s, cur, reqs) = (s\<lparr>gv_arrowMenu := None\<rparr>, cur, reqs)"
| "gantt_step env GDialogClose (s, cur, reqs) = (s\<lparr>gv_openTaskId := None\<rparr>, cur, reqs)"

definition gantt_run :: "gantt_env \<Rightarrow> gantt_event list \<Rightarrow> gantt_world \<Rightarrow> gantt_world" where
  "gantt_run env evs w = fold (gantt_step env) evs w"

subsection \<open>A label fits its bar\<close>

lemma cut_search_steps:
  "\<not> lo < hi \<Longrightarrow> cut_search fits lo hi = lo"
  "lo < hi \<Longrightarrow> fits ((lo + hi + 1) div 2) \<Longrightarrow> cut_search fits lo hi = cut_search fits ((lo + hi + 1) div 2) hi"
  "lo < hi \<Longrightarrow> \<not> fits ((lo + hi + 1) div 2) \<Longrightarrow> cut_search fits lo hi = cut_search fits lo ((lo + hi + 1) div 2 - 1)"
  by (subst cut_search.simps, simp add: Let_def)+

text \<open>What the search finds fits, or it found nothing; if less fits whenever more does, it is the longest.\<close>

lemma mid_between: "(lo :: nat) < hi \<Longrightarrow> lo < (lo + hi + 1) div 2 \<and> (lo + hi + 1) div 2 \<le> hi"
  by auto

lemma cut_search_fits:
  "lo \<le> hi \<Longrightarrow> lo \<le> cut_search fits lo hi \<and> cut_search fits lo hi \<le> hi \<and>
    (fits (cut_search fits lo hi) \<or> cut_search fits lo hi = lo)"
proof (induction "hi - lo" arbitrary: lo hi rule: less_induct)
  case less
  let ?mid = "(lo + hi + 1) div 2"
  consider "\<not> lo < hi" | "lo < hi" "fits ?mid" | "lo < hi" "\<not> fits ?mid" by blast
  then show ?case
  proof cases
    case 1
    then show ?thesis using less.prems by (simp add: cut_search_steps(1))
  next
    case 2
    note m = mid_between[OF 2(1)]
    have "hi - ?mid < hi - lo" "?mid \<le> hi" using m by linarith+
    from less.hyps[OF this] have "?mid \<le> cut_search fits ?mid hi" "cut_search fits ?mid hi \<le> hi" "fits (cut_search fits ?mid hi)"
      using 2(2) by metis+
    then show ?thesis unfolding cut_search_steps(2)[where fits = fits, OF 2] using m by simp
  next
    case 3
    note m = mid_between[OF 3(1)]
    have "?mid - 1 - lo < hi - lo" "lo \<le> ?mid - 1" using m by linarith+
    from less.hyps[OF this] show ?thesis unfolding cut_search_steps(3)[where fits = fits, OF 3] using m
      by (meson diff_le_self le_trans)
  qed
qed

lemma cut_search_longest:
  assumes mono: "\<And>m n. m \<le> n \<Longrightarrow> fits n \<Longrightarrow> fits m"
  shows "lo \<le> hi \<Longrightarrow> cut_search fits lo hi < n \<Longrightarrow> n \<le> hi \<Longrightarrow> \<not> fits n"
proof (induction "hi - lo" arbitrary: lo hi rule: less_induct)
  case less
  let ?mid = "(lo + hi + 1) div 2"
  consider "\<not> lo < hi" | "lo < hi" "fits ?mid" | "lo < hi" "\<not> fits ?mid" by blast
  then show ?case
  proof cases
    case 1
    then show ?thesis using less.prems by (simp add: cut_search_steps(1))
  next
    case 2
    note m = mid_between[OF 2(1)]
    have "hi - ?mid < hi - lo" "?mid \<le> hi" using m by linarith+
    from less.hyps[OF this] show ?thesis using less.prems(2,3) unfolding cut_search_steps(2)[where fits = fits, OF 2] by blast
  next
    case 3
    note m = mid_between[OF 3(1)]
    have d: "?mid - 1 - lo < hi - lo" "lo \<le> ?mid - 1" using m by linarith+
    show ?thesis
    proof (cases "n \<le> ?mid - 1")
      case True
      with less.hyps[OF d] show ?thesis using less.prems(2) unfolding cut_search_steps(3)[where fits = fits, OF 3] by blast
    next
      case False
      then have "?mid \<le> n" using m by linarith
      then show ?thesis using mono 3(2) by blast
    qed
  qed
qed


definition letters :: "string \<Rightarrow> string list" where
  "letters s = map (\<lambda>c. [c]) s"

lemma letters_cut: "length (concat (take n (letters s)) @ ELL) = min (length s) n + 3"
  by (simp add: letters_def take_map length_concat comp_def ELL_def utf8_def sum_list_triv)


subsection \<open>Each task on one row\<close>

definition row_task :: "gantt_row \<Rightarrow> task option" where
  "row_task r = (if gr_kind r = ''task'' then gr_task r else None)"

definition row_tasks :: "gantt_row list \<Rightarrow> task list" where
  "row_tasks rows = List.map_filter row_task rows"

lemma row_tasks_simps [simp]:
  "row_tasks [] = []" "row_tasks (r # rs) = (case row_task r of None \<Rightarrow> [] | Some t \<Rightarrow> [t]) @ row_tasks rs"
  "row_tasks (xs @ ys) = row_tasks xs @ row_tasks ys"
  by (auto simp: row_tasks_def List.map_filter_def split: option.splits)

lemma row_tasks_concat: "row_tasks (concat xss) = concat (map row_tasks xss)"
  by (induction xss) simp_all

lemma row_task_of [simp]: "row_task (taskRow z t) = Some t"
  by (simp add: row_task_def taskRow_def)

lemma row_tasks_of [simp]: "row_tasks (map (taskRow z) ts) = ts"
  by (induction ts) simp_all

lemma stage_split_groups:
  "stage_split ts = (group_by stage_name id (filter (\<lambda>t. stage_name t \<noteq> []) ts), filter (\<lambda>t. stage_name t = []) ts)"
  unfolding stage_split_def by (induction ts rule: rev_induct) (simp_all split: prod.splits)

lemma block_tasks: "row_tasks (snd (stage_block z C e)) = (if fst e \<in> C then [] else js_sort cmp_schedule (snd e))"
  by (simp add: stage_block_def Let_def row_task_def)

lemma mset_push_open:
  "mset (concat (map (\<lambda>e. if fst e \<in> C then [] else snd e) (map_push m k v))) =
     (if k \<in> C then {#} else {#v#}) + mset (concat (map (\<lambda>e. if fst e \<in> C then [] else snd e) m))"
  by (induction m k v rule: map_push.induct) auto

lemma mset_group_open:
  "mset (concat (map (\<lambda>e. if fst e \<in> C then [] else snd e) (group_by k id xs))) = mset (filter (\<lambda>x. k x \<notin> C) xs)"
  by (induction xs rule: rev_induct) (simp_all add: mset_push_open)

lemma rows_hold_tasks:
  "mset (row_tasks (rowModel z tasks C)) =
     mset (filter (\<lambda>t. isScheduled t \<and> (stage_name t = [] \<or> stage_name t \<notin> C)) tasks)"
proof -
  define sch where "sch = filter isScheduled tasks"
  let ?staged = "filter (\<lambda>t. stage_name t \<noteq> []) sch" and ?loose = "filter (\<lambda>t. stage_name t = []) sch"
  let ?blocks = "map (stage_block z C) (group_by stage_name id ?staged) @
      map (\<lambda>t. (start_text t, [taskRow z t])) (js_sort cmp_schedule ?loose)"
  have "rowModel z tasks C = concat (map snd (js_sort cmp_block ?blocks))"
    by (simp add: rowModel_def sch_def[symmetric] stage_split_groups)
  then have "mset (row_tasks (rowModel z tasks C)) = mset (concat (map (row_tasks \<circ> snd) (js_sort cmp_block ?blocks)))"
    by (simp add: row_tasks_concat)
  also have "\<dots> = mset (concat (map (row_tasks \<circ> snd) ?blocks))"
    by (rule mset_concat_cong) (simp only: mset_map mset_js_sort)
  also have "\<dots> = mset (concat (map (\<lambda>e. row_tasks (snd (stage_block z C e))) (group_by stage_name id ?staged))) +
      mset (concat (map (\<lambda>t. [t]) (js_sort cmp_schedule ?loose)))"
    by (simp add: comp_def)
  also have "mset (concat (map (\<lambda>e. row_tasks (snd (stage_block z C e))) (group_by stage_name id ?staged))) =
      mset (concat (map (\<lambda>e. if fst e \<in> C then [] else snd e) (group_by stage_name id ?staged)))"
    unfolding block_tasks mset_concat_map by (intro arg_cong[of _ _ sum_mset] image_mset_cong) simp
  also have "\<dots> = mset (filter (\<lambda>t. stage_name t \<notin> C) ?staged)" by (rule mset_group_open)
  also have "mset (concat (map (\<lambda>t. [t]) (js_sort cmp_schedule ?loose))) = mset ?loose" by simp
  also have "mset (filter (\<lambda>t. stage_name t \<notin> C) ?staged) + mset ?loose =
      mset (filter (\<lambda>t. stage_name t = [] \<or> stage_name t \<notin> C) sch)"
    unfolding filter_filter by (induction sch) auto
  finally show ?thesis by (simp add: sch_def conj_commute)
qed

lemma rows_distinct:
  assumes "distinct (map tk_id tasks)"
  shows "distinct (map tk_id (row_tasks (rowModel z tasks C)))"
proof -
  have "mset (map tk_id (row_tasks (rowModel z tasks C))) =
      mset (map tk_id (filter (\<lambda>t. isScheduled t \<and> (stage_name t = [] \<or> stage_name t \<notin> C)) tasks))"
    by (simp only: mset_map rows_hold_tasks)
  moreover have "distinct (map tk_id (filter (\<lambda>t. isScheduled t \<and> (stage_name t = [] \<or> stage_name t \<notin> C)) tasks))"
    using assms by (rule distinct_map_filter)
  ultimately show ?thesis using mset_eq_imp_distinct_iff by blast
qed

lemma row_is_taskRow: "r \<in> set (rowModel z tasks C) \<Longrightarrow> gr_task r = Some t \<Longrightarrow> r = taskRow z t"
  by (auto simp: rowModel_def stage_split_groups stage_block_def taskRow_def Let_def split: if_splits)

subsection \<open>What the drag shows is what is committed\<close>

lemma set_map_filter: "x \<in> set (List.map_filter f xs) \<longleftrightarrow> (\<exists>e \<in> set xs. f e = Some x)"
  by (induction xs) (auto simp: List.map_filter_simps split: option.splits)

lemma entry_keys:
  "map_option fst (row_rect z sc drag (i, row)) = Some k \<Longrightarrow> map_option tk_id (row_task row) = Some k"
  by (auto simp: row_rect_def row_task_def Let_def split: option.splits prod.splits if_splits)

lemma entries_distinct:
  assumes "distinct (map tk_id (row_tasks (map snd ers)))"
  shows "distinct (map fst (List.map_filter (row_rect z sc drag) ers)) \<and>
    fst ` set (List.map_filter (row_rect z sc drag) ers) \<subseteq> tk_id ` set (row_tasks (map snd ers))"
  using assms
proof (induction ers)
  case Nil
  then show ?case by (simp add: List.map_filter_def)
next
  case (Cons e ers)
  obtain i row where e: "e = (i, row)" by (cases e)
  have IH: "distinct (map fst (List.map_filter (row_rect z sc drag) ers))"
    "fst ` set (List.map_filter (row_rect z sc drag) ers) \<subseteq> tk_id ` set (row_tasks (map snd ers))"
    using Cons by (auto split: option.splits)
  have more: "tk_id ` set (row_tasks (map snd ers)) \<subseteq> tk_id ` set (row_tasks (map snd (e # ers)))" by auto
  show ?case
  proof (cases "row_rect z sc drag e")
    case None
    then have eq: "List.map_filter (row_rect z sc drag) (e # ers) = List.map_filter (row_rect z sc drag) ers"
      by (simp add: List.map_filter_simps)
    show ?thesis unfolding eq using IH(1) subset_trans[OF IH(2) more] by (rule conjI)
  next
    case (Some kr)
    then obtain t where t: "row_task row = Some t" "tk_id t = fst kr"
      using entry_keys[of z sc drag i row "fst kr"] e by auto
    then have "fst kr \<notin> tk_id ` set (row_tasks (map snd ers))" using Cons.prems e by auto
    then have "fst kr \<notin> fst ` set (List.map_filter (row_rect z sc drag) ers)" using IH(2) by blast
    moreover have "List.map_filter (row_rect z sc drag) (e # ers) = kr # List.map_filter (row_rect z sc drag) ers"
      using Some by (simp add: List.map_filter_simps)
    moreover have "fst kr \<in> tk_id ` set (row_tasks (map snd (e # ers)))" using t e by simp
    ultimately show ?thesis using IH more by (simp only: list.map distinct.simps list.set image_insert set_map) blast
  qed
qed

text \<open>With different ids, a task has the rectangle of its row.\<close>

lemma rects_of_row:
  assumes "distinct (map tk_id (row_tasks rows))"
  shows "rects z sc rows drag k = Some r \<longleftrightarrow> (\<exists>i < length rows. row_rect z sc drag (i, rows ! i) = Some (k, r))"
proof -
  let ?es = "zip [0..<length rows] rows"
  let ?entries = "List.map_filter (row_rect z sc drag) ?es"
  have snd: "map snd ?es = rows" by simp
  have d: "distinct (map fst ?entries)" using entries_distinct[of ?es] assms snd by simp
  then have "rects z sc rows drag k = Some r \<longleftrightarrow> (k, r) \<in> set ?entries"
    by (simp add: rects_def map_of_rev_distinct)
  also have "\<dots> \<longleftrightarrow> (\<exists>e \<in> set ?es. row_rect z sc drag e = Some (k, r))"
    by (simp only: set_map_filter)
  also have "\<dots> \<longleftrightarrow> (\<exists>i < length rows. row_rect z sc drag (i, rows ! i) = Some (k, r))"
  proof
    show "\<exists>e \<in> set ?es. row_rect z sc drag e = Some (k, r)" if ex: "\<exists>i < length rows. row_rect z sc drag (i, rows ! i) = Some (k, r)"
    proof -
      obtain i where i: "i < length rows" "row_rect z sc drag (i, rows ! i) = Some (k, r)" using ex by blast
      have "?es ! i = (i, rows ! i)" "i < length ?es" using i(1) by simp_all
      then have "(i, rows ! i) \<in> set ?es" by (metis nth_mem)
      then show ?thesis using i(2) by blast
    qed
    show "\<exists>i < length rows. row_rect z sc drag (i, rows ! i) = Some (k, r)" if ex: "\<exists>e \<in> set ?es. row_rect z sc drag e = Some (k, r)"
    proof -
      obtain e where e: "e \<in> set ?es" "row_rect z sc drag e = Some (k, r)" using ex by blast
      then obtain i where "i < length rows" "e = (i, rows ! i)" by (auto simp: in_set_zip)
      then show ?thesis using e(2) by blast
    qed
  qed
  finally show ?thesis .
qed

lemma plain_drag: "gd_action d \<noteq> ''stageMove'' \<Longrightarrow> stageShiftIds (Some d) = []"
  by (simp add: stageShiftIds_def drag_action_def)

lemma opt_ext: "(\<And>r. x = Some r \<longleftrightarrow> y = Some r) \<Longrightarrow> x = y"
  by (cases x; cases y) auto

lemma row_rect_other:
  assumes "gd_action d \<noteq> ''stageMove''" "gd_taskId d = Some i" "k \<noteq> i"
  shows "row_rect z sc (Some d) (n, row) = Some (k, r) \<longleftrightarrow> row_rect z sc None (n, row) = Some (k, r)"
  using assms
  by (auto simp: row_rect_def plain_drag preview_range_def stageShiftIds_def drag_action_def Let_def
      split: option.splits if_splits)


text \<open>The sample task moved by two days.\<close>

definition moved_drag :: gantt_drag where
  "moved_drag = no_drag\<lparr>gd_action := ''move'', gd_taskId := Some ''a'', gd_startDate := Some (text_of 20500),
     gd_endDate := Some (text_of 20506), gd_moved := True\<rparr>"

lemma sample_row: "\<exists>i < length (rowModel z gantt_sample {}). gr_task (rowModel z gantt_sample {} ! i) = Some (hd gantt_sample)"
proof -
  have "isScheduled (hd gantt_sample)" "stage_name (hd gantt_sample) = []"
    by (simp_all add: isScheduled_def gantt_sample_def Tasks.sample_task_def stage_name_def plain_trim)
  then have "hd gantt_sample \<in># mset (row_tasks (rowModel z gantt_sample {}))"
    by (simp add: rows_hold_tasks gantt_sample_def)
  then show ?thesis by (auto simp: row_tasks_def set_map_filter row_task_def split: if_splits) (metis in_set_conv_nth)
qed


subsection \<open>Removing an arrow\<close>

lemma map_filter_dropped:
  "\<forall>i b. f i = Some b \<longrightarrow> g b = i \<Longrightarrow>
     List.map_filter f (filter (\<lambda>i. i \<noteq> x) ds) = filter (\<lambda>b. g b \<noteq> x) (List.map_filter f ds)"
  by (induction ds) (auto simp: List.map_filter_simps split: option.splits)

lemma arrows_one:
  "task_arrows rs (t\<lparr>tk_dependsOn := filter (\<lambda>i. i \<noteq> x) (tk_dependsOn t)\<rparr>) =
     filter (\<lambda>b. ar_fromId b \<noteq> x) (task_arrows rs t)"
  by (cases "rs (tk_id t)") (auto simp: task_arrows_def intro!: map_filter_dropped)

lemma arrow_to: "b \<in> set (task_arrows rs t) \<Longrightarrow> ar_toId b = tk_id t"
  by (auto simp: task_arrows_def set_map_filter split: option.splits)

lemma arrow_source: "a \<in> set (arrows tasks rs) \<Longrightarrow> \<exists>t \<in> set tasks. ar_toId a = tk_id t \<and> ar_fromId a \<in> set (tk_dependsOn t)"
  by (auto simp: arrows_def task_arrows_def set_map_filter split: option.splits)

lemma arrows_removed:
  assumes "distinct (map tk_id tasks)" "target \<in> set tasks"
  shows "arrows (map (\<lambda>t. if tk_id t = tk_id target
        then t\<lparr>tk_dependsOn := filter (\<lambda>i. i \<noteq> frm) (tk_dependsOn target)\<rparr> else t) tasks) rs =
      filter (\<lambda>b. \<not> (ar_fromId b = frm \<and> ar_toId b = tk_id target)) (arrows tasks rs)"
proof -
  have one: "task_arrows rs (if tk_id t = tk_id target
        then t\<lparr>tk_dependsOn := filter (\<lambda>i. i \<noteq> frm) (tk_dependsOn target)\<rparr> else t) =
      filter (\<lambda>b. \<not> (ar_fromId b = frm \<and> ar_toId b = tk_id target)) (task_arrows rs t)" if "t \<in> set tasks" for t
  proof (cases "tk_id t = tk_id target")
    case True
    then have "t = target" using assms that by (auto simp: distinct_map dest: inj_onD)
    then show ?thesis by (simp add: arrows_one) (rule filter_cong[OF refl], auto dest: arrow_to)
  next
    case False
    then show ?thesis by (auto intro!: filter_True[symmetric] dest: arrow_to)
  qed
  show ?thesis
    unfolding arrows_def filter_concat map_map comp_def by (intro arg_cong[of _ _ concat] map_cong refl one)
qed

lemma patched_deps:
  "patched now ts (no_patch\<lparr>tp_dependsOn := Some ds\<rparr>) t =
     t\<lparr>tk_description := opt_text (nullish (tk_description t) []), tk_dueDate := opt_text (nullish (tk_dueDate t) []),
       tk_startDate := opt_text (nullish (tk_startDate t) []),
       tk_endDate := opt_text (if tk_milestone t = Some True \<and> nullish (tk_startDate t) [] \<noteq> []
         then nullish (tk_startDate t) [] else nullish (tk_endDate t) []),
       tk_progress := Some (nullish (tk_progress t) 0), tk_milestone := Some (tk_milestone t = Some True),
       tk_dependsOn := normalizeDependsOn ds, tk_stage := opt_text (nullish (tk_stage t) []), tk_updatedAt := now\<rparr>"
  by (rule task.equality) (simp_all add: patched_def no_patch_def Let_def)

text \<open>The store takes fewer dependencies of a valid task.\<close>

lemma Update_fewer_deps:
  fixes t :: task and frm :: string
  assumes ok: "file_ok pf" and t: "findTask (pf_tasks pf) i = Some t" and valid: "task_fields_ok t (tk_docRefs t)"
    and deps: "normalizeDependsOn (tk_dependsOn t) = tk_dependsOn t" "length (tk_dependsOn t) \<le> MaxDependsOn"
  defines "p \<equiv> no_patch\<lparr>tp_dependsOn := Some (filter (\<lambda>j. j \<noteq> frm) (tk_dependsOn t))\<rparr>"
  shows "\<exists>pf' u. Update True now pf i p = Inr (pf', u) \<and> tk_dependsOn u = filter (\<lambda>j. j \<noteq> frm) (tk_dependsOn t)"
proof -
  let ?ds = "filter (\<lambda>j. j \<noteq> frm) (tk_dependsOn t)"
  let ?u = "patched now (pf_tasks pf) p t"
  have i: "tk_id t = i" using findTask_in[OF t] by simp
  have clean: "distinct (tk_dependsOn t)" "\<forall>d \<in> set (tk_dependsOn t). go_trim d = d \<and> d \<noteq> []"
    using normalize_clean[of "tk_dependsOn t"] deps(1) by auto
  have ds: "normalizeDependsOn ?ds = ?ds" by (rule normalize_id) (use clean in auto)
  have u: "tk_dependsOn ?u = ?ds" by (simp add: p_def patched_def no_patch_def Let_def ds)
  have len: "length ?ds \<le> MaxDependsOn" using deps(2) length_filter_le le_trans by blast
  have v: "validateDependsOn (pf_tasks pf) i ?ds" by (rule sub_deps_valid[OF ok t _ len]) auto
  let ?st = "nullish (tk_startDate t) []" and ?en = "nullish (tk_endDate t) []"
  have m: "tk_milestone t = Some True \<longrightarrow> ?en = ?st"
    using valid unfolding task_fields_ok_def validateFields_def schedule_fields.select_convs by blast
  have e: "(if tk_milestone t = Some True \<and> ?st \<noteq> [] then ?st else ?en) = ?en"
    using m by metis
  have same: "tk_title ?u = tk_title t" "nullish (tk_description ?u) [] = nullish (tk_description t) []"
    "tk_status ?u = tk_status t" "tk_priority ?u = tk_priority t" "nullish (tk_dueDate ?u) [] = nullish (tk_dueDate t) []"
    "nullish (tk_startDate ?u) [] = ?st" "nullish (tk_endDate ?u) [] = ?en"
    "nullish (tk_progress ?u) 0 = nullish (tk_progress t) 0" "(tk_milestone ?u = Some True) = (tk_milestone t = Some True)"
    "nullish (tk_stage ?u) [] = nullish (tk_stage t) []"
    unfolding p_def patched_deps by (simp_all add: e)
  have "task_fields_ok ?u (tk_docRefs t)"
    using valid unfolding task_fields_ok_def same .
  then have "Update True now pf i p = Inr (pf\<lparr>pf_tasks := replace_task ?u (pf_tasks pf)\<rparr>, ?u)"
    using t v u i by (simp add: Update_def Let_def p_def no_patch_def)
  then show ?thesis using u by blast
qed

text \<open>
  C38. Removing an arrow of the chart takes exactly that arrow away: the cached tasks then have all other
  arrows between the same rectangles, in the same order, and the store, holding the same valid task,
  accepts the request and ends with the same dependencies.
\<close>

theorem arrow_removed:
  fixes l :: task_list and a :: arrow and pos :: "rat \<times> rat"
  assumes ids: "distinct (map tk_id (tl_tasks l))" and a: "a \<in> set (arrows (tl_tasks l) rs)"
    and srv: "file_ok pf" "findTask (pf_tasks pf) (ar_toId a) = Some t" "task_fields_ok t (tk_docRefs t)"
    "normalizeDependsOn (tk_dependsOn t) = tk_dependsOn t" "length (tk_dependsOn t) \<le> MaxDependsOn"
    and c: "findTask (tl_tasks l) (ar_toId a) = Some c" "tk_dependsOn c = tk_dependsOn t"
  defines "after \<equiv> removeDependency (tl_tasks l) (Some (hit_of a pos)) (Some l)"
  shows "arrows (shown_tasks (fst after)) rs =
      filter (\<lambda>b. \<not> (ar_fromId b = ar_fromId a \<and> ar_toId b = ar_toId a)) (arrows (tl_tasks l) rs) \<and>
    (\<exists>p pf' u c'. snd after = Some (UpdateTask (ar_toId a) p) \<and> Update True now pf (ar_toId a) p = Inr (pf', u) \<and>
      findTask (shown_tasks (fst after)) (ar_toId a) = Some c' \<and> tk_dependsOn u = tk_dependsOn c')"
proof -
  obtain target where t: "target \<in> set (tl_tasks l)" "ar_toId a = tk_id target" using arrow_source[OF a] by blast
  have f: "List.find (\<lambda>u. tk_id u = ar_toId a) (tl_tasks l) = Some target"
    using findTask_iff[OF ids, of "tk_id target" target] t by (simp add: findTask_def)
  let ?deps = "filter (\<lambda>i. i \<noteq> ar_fromId a) (tk_dependsOn target)"
  have after: "after = (Some (l\<lparr>tl_tasks := map (\<lambda>u. if tk_id u = tk_id target
        then u\<lparr>tk_dependsOn := ?deps\<rparr> else u) (tl_tasks l)\<rparr>),
      Some (UpdateTask (tk_id target) (no_patch\<lparr>tp_dependsOn := Some ?deps\<rparr>)))"
    by (simp add: after_def removeDependency_def hit_of_def f patch_cache_def Let_def)
  have gone: "arrows (shown_tasks (fst after)) rs =
      filter (\<lambda>b. \<not> (ar_fromId b = ar_fromId a \<and> ar_toId b = ar_toId a)) (arrows (tl_tasks l) rs)"
    using arrows_removed[OF ids t(1), of "ar_fromId a" rs] by (simp add: after shown_tasks_def t(2))
  have "target = c" using f c(1) by (simp add: findTask_def)
  then have deps: "?deps = filter (\<lambda>j. j \<noteq> ar_fromId a) (tk_dependsOn t)" using c(2) by simp
  obtain pf' u where u: "Update True now pf (ar_toId a) (no_patch\<lparr>tp_dependsOn := Some ?deps\<rparr>) = Inr (pf', u)"
    "tk_dependsOn u = ?deps"
    using Update_fewer_deps[OF srv(1,2,3,4,5), of now "ar_fromId a"] unfolding deps by blast
  have "findTask (shown_tasks (fst after)) (ar_toId a) = Some (target\<lparr>tk_dependsOn := ?deps\<rparr>)"
  proof -
    have "List.find (\<lambda>u. tk_id u = tk_id target) (map (\<lambda>u. if tk_id u = tk_id target
        then u\<lparr>tk_dependsOn := ?deps\<rparr> else u) us) = Some (target\<lparr>tk_dependsOn := ?deps\<rparr>)"
      if "List.find (\<lambda>u. tk_id u = tk_id target) us = Some target" for us
      using that by (induction us) (auto split: if_splits)
    then show ?thesis using f by (simp add: after shown_tasks_def findTask_def t(2))
  qed
  then have "\<exists>p pf' u c'. snd after = Some (UpdateTask (ar_toId a) p) \<and> Update True now pf (ar_toId a) p = Inr (pf', u) \<and>
      findTask (shown_tasks (fst after)) (ar_toId a) = Some c' \<and> tk_dependsOn u = tk_dependsOn c'"
    using u by (auto simp: after t(2))
  with gone show ?thesis by blast
qed



definition dep_file :: task_file where
  "dep_file = form_file\<lparr>pf_tasks := map (\<lambda>t. if tk_id t = ''t2'' then t\<lparr>tk_dependsOn := [''t1'']\<rparr> else t) (pf_tasks form_file)\<rparr>"

definition dep_list :: task_list where
  "dep_list = \<lparr>tl_tasks = pf_tasks dep_file, tl_capabilities = \<lparr>tc_write = True, tc_moderate = True\<rparr>\<rparr>"

definition one_rect :: "string \<Rightarrow> bar_rect option" where
  "one_rect i = Some (barRect summer_zone sample_scale (midnight summer_zone 20500) (midnight summer_zone 20506) 0)"

lemma dep_file_ok: "file_ok dep_file"
proof -
  have "dep_rel (pf_tasks dep_file) \<subseteq> {(''t2'', ''t1'')}"
    by (auto simp: dep_file_def form_file_def Let_def dep_rel_def)
  moreover have "acyclic {(''t2'', ''t1'')}" by (simp add: acyclic_def trancl_insert)
  ultimately have "acyclic (dep_rel (pf_tasks dep_file))" by (rule acyclic_subset[rotated])
  moreover have "''t1'' = ''t'' @ show_int 1" "''t2'' = ''t'' @ show_int 2" by code_simp+
  ultimately show ?thesis by (intro file_okI) (auto simp: dep_file_def form_file_def Let_def)
qed

lemma arrow_removed_witness:
  "\<exists>pf' u. arrows (tl_tasks dep_list) one_rect \<noteq> [] \<and>
     arrows (shown_tasks (fst (removeDependency (tl_tasks dep_list)
       (Some (hit_of (hd (arrows (tl_tasks dep_list) one_rect)) (0, 0))) (Some dep_list)))) one_rect = [] \<and>
     Update True ''now'' dep_file ''t2'' (no_patch\<lparr>tp_dependsOn := Some []\<rparr>) = Inr (pf', u)"
proof -
  let ?t = "pf_tasks dep_file ! 1"
  obtain a where a: "arrows (tl_tasks dep_list) one_rect = [a]" and ends: "ar_toId a = ''t2''" "ar_fromId a = ''t1''"
    by (simp add: arrows_def task_arrows_def dep_list_def dep_file_def form_file_def Let_def one_rect_def
        List.map_filter_simps)
  have t: "distinct (map tk_id (tl_tasks dep_list))" "findTask (pf_tasks dep_file) (ar_toId a) = Some ?t"
    "findTask (tl_tasks dep_list) (ar_toId a) = Some ?t" "tk_dependsOn ?t = [''t1'']"
    by (simp_all add: ends dep_list_def dep_file_def form_file_def Let_def findTask_def)
  have ok: "task_fields_ok ?t (tk_docRefs ?t)"
    by (simp add: dep_file_def form_file_def Let_def task_fields_ok_def validateFields_def validStatus_def validPriority_def
        STATUSES_def PRIORITIES_def MaxTitleRunes_def rune_count_def)
  have norm: "normalizeDependsOn (tk_dependsOn ?t) = tk_dependsOn ?t" "length (tk_dependsOn ?t) \<le> MaxDependsOn"
    unfolding t(4) by (simp_all add: normalizeDependsOn_def plain_trim plain_char_def MaxDependsOn_def)
  have "a \<in> set (arrows (tl_tasks dep_list) one_rect)" by (simp add: a)
  note out = arrow_removed[OF t(1) this dep_file_ok t(2) ok norm t(3) refl, of "(0, 0)" "''now''"]
  have "snd (removeDependency (tl_tasks dep_list) (Some (hit_of a (0, 0))) (Some dep_list)) =
      Some (UpdateTask ''t2'' (no_patch\<lparr>tp_dependsOn := Some []\<rparr>))"
    by (simp add: removeDependency_def hit_of_def ends dep_list_def dep_file_def form_file_def Let_def)
  with out show ?thesis unfolding a ends by (auto simp: ends)
qed

subsection \<open>A drag is also a click\<close>

lemma run_moves:
  "\<exists>st. gantt_run env (map GMove ps) (s, cur, reqs) = (s\<lparr>gv_drag := st\<rparr>, cur, reqs)"
proof (induction ps arbitrary: s)
  case Nil
  show ?case by (intro exI[of _ "gv_drag s"]) (simp add: gantt_run_def)
next
  case (Cons p ps)
  let ?s = "s\<lparr>gv_drag := onMove (ge_zone env) (ge_scale env) (ge_page env) p (gv_drag s)\<rparr>"
  obtain st where "gantt_run env (map GMove ps) (?s, cur, reqs) = (?s\<lparr>gv_drag := st\<rparr>, cur, reqs)"
    using Cons by blast
  then show ?case by (intro exI[of _ st]) (simp add: gantt_run_def)
qed

text \<open>
  A bar that was dragged and released over itself is moved and opened: the release commits the drag to
  the cache and sends its request, and the click that the browser reports for the same press then opens the
  dialog of the task as well.
\<close>

theorem drag_is_also_click:
  assumes held: "gantt_run env (GDown (OnBar i ''move'') 0 p # map GMove ps) (s, cur, reqs) = (s1, cur1, reqs1)"
    and up: "onUp (ge_page env) q (gv_drag s1) = (st', Finished d)"
    and written: "commit (ge_zone env) (shown_tasks cur) d cur = (cur', Some r)"
  shows "\<exists>s'. gantt_run env (GDown (OnBar i ''move'') 0 p # map GMove ps @ [GUp (OnBar i ''move'') q]) (s, cur, reqs) =
      (s', cur', reqs @ [r]) \<and> gv_openTaskId s' = Some i \<and> gv_drag s' = st'"
proof -
  let ?s0 = "s\<lparr>gv_drag := press (ge_zone env) (ge_writable env) (ge_page env) (shown_tasks cur) (OnBar i ''move'') 0 p s,
      gv_pressed := Some (OnBar i ''move'')\<rparr>"
  obtain st where m: "gantt_run env (map GMove ps) (?s0, cur, reqs) = (?s0\<lparr>gv_drag := st\<rparr>, cur, reqs)"
    using run_moves by blast
  have "gantt_run env (GDown (OnBar i ''move'') 0 p # map GMove ps) (s, cur, reqs) = (?s0\<lparr>gv_drag := st\<rparr>, cur, reqs)"
    using m by (simp add: gantt_run_def)
  then have s1: "s1 = ?s0\<lparr>gv_drag := st\<rparr>" "cur1 = cur" "reqs1 = reqs" using held by simp_all
  have split: "gantt_run env (GDown (OnBar i ''move'') 0 p # map GMove ps @ [GUp (OnBar i ''move'') q]) (s, cur, reqs) =
      gantt_step env (GUp (OnBar i ''move'') q) (s1, cur1, reqs1)"
    using held by (simp add: gantt_run_def)
  show ?thesis unfolding split s1(2,3) using up written
    by (simp add: s1(1) release_def clicked_def and_request_def)
qed

definition sample_env :: gantt_env where
  "sample_env = \<lparr>ge_zone = summer_zone, ge_scale = sample_scale, ge_page = sample_page, ge_writable = True\<rparr>"

lemma drag_is_also_click_witness:
  "let l = \<lparr>tl_tasks = gantt_sample, tl_capabilities = \<lparr>tc_write = True, tc_moderate = True\<rparr>\<rparr> in
   \<exists>s' cur' r. gantt_run sample_env [GDown (OnBar ''a'' ''move'') 0 (0, 0), GMove (73, 0), GUp (OnBar ''a'' ''move'') (73, 0)]
       (gantt_view_init, Some l, []) = (s', cur', [r]) \<and> gv_openTaskId s' = Some ''a''"
proof -
  let ?l = "\<lparr>tl_tasks = gantt_sample, tl_capabilities = \<lparr>tc_write = True, tc_moderate = True\<rparr>\<rparr>"
  obtain s1 cur1 reqs1 where held:
    "gantt_run sample_env (GDown (OnBar ''a'' ''move'') 0 (0, 0) # map GMove [(73, 0)]) (gantt_view_init, Some ?l, []) =
       (s1, cur1, reqs1)" by (metis prod_cases3)
  have t: "List.find (\<lambda>t. tk_id t = ''a'') gantt_sample = Some (hd gantt_sample)" "tk_id (hd gantt_sample) = ''a''"
    "List.find (\<lambda>t. Some (tk_id t) = Some ''a'') gantt_sample = Some (hd gantt_sample)"
    "tk_startDate (hd gantt_sample) = Some (text_of 20498)" "tk_endDate (hd gantt_sample) = Some (text_of 20504)"
    by (simp_all add: gantt_sample_def Tasks.sample_task_def)
  have days: "shiftDate summer_zone (Some (text_of 20498)) 2 = Some (text_of 20500)"
    "shiftDate summer_zone (Some (text_of 20504)) 2 = Some (text_of 20506)" "text_of 20500 \<noteq> text_of 20498"
    using sample_days by (simp_all add: shiftDate_text summer_zone_ok text_of_eq)
  have drag: "gv_drag s1 = onMove summer_zone sample_scale sample_page (73, 0)
      (startBarDrag True sample_page 0 (0, 0) (hd gantt_sample) ''move'' idle)"
    using held by (auto simp: gantt_run_def sample_env_def gantt_view_init_def press_def shown_tasks_def t)
  obtain d where d: "onUp sample_page (73, 0) (gv_drag s1) = (idle, Finished d)" "gd_action d = ''move''"
    "gd_taskId d = Some ''a''" "gd_startDate d = Some (text_of 20500)" "gd_endDate d = Some (text_of 20506)"
    unfolding drag by (simp add: startBarDrag_def begin_drag_def onMove_def Let_def no_drag_def preview_def onUp_def
        DRAG_THRESHOLD_PX_def sample_page_def sample_snap t days)
  obtain cur' r where c: "commit (ge_zone sample_env) (shown_tasks (Some ?l)) d (Some ?l) = (cur', Some r)"
    by (simp add: commit_def Let_def d shown_tasks_def t days)
  have up: "onUp (ge_page sample_env) (73, 0) (gv_drag s1) = (idle, Finished d)" using d(1) by (simp add: sample_env_def)
  from drag_is_also_click[OF held up c] show ?thesis unfolding Let_def by auto
qed

text \<open>
  A reader changes nothing on the chart: whatever the presses, moves, keys and clicks, no drag begins,
  the menu of an arrow never opens, the cached tasks stay as they are and no request is sent.
\<close>

theorem reader_changes_nothing:
  assumes "\<not> ge_writable env"
  shows "\<exists>s'. gantt_run env evs (gantt_view_init, cur, []) = (s', cur, []) \<and> gv_drag s' = idle \<and> gv_arrowMenu s' = None"
proof -
  have step: "\<exists>s'. gantt_step env e (s, cur, []) = (s', cur, []) \<and> gv_drag s' = idle \<and> gv_arrowMenu s' = None"
    if "gv_drag s = idle" "gv_arrowMenu s = None" for e s
    using that assms
    by (cases e) (auto simp: press_def startBarDrag_def startStageDrag_def begin_drag_def onMove_def onUp_def idle_def
        release_def clicked_def removeDependency_def and_request_def split: gantt_target.splits option.splits)
  have "\<exists>s'. gantt_run env evs (s, cur, []) = (s', cur, []) \<and> gv_drag s' = idle \<and> gv_arrowMenu s' = None"
    if "gv_drag s = idle" "gv_arrowMenu s = None" for s
    using that
  proof (induction evs arbitrary: s)
    case (Cons e evs)
    obtain s1 where s1: "gantt_step env e (s, cur, []) = (s1, cur, [])" "gv_drag s1 = idle" "gv_arrowMenu s1 = None"
      using step[OF Cons.prems] by blast
    show ?case using Cons.IH[OF s1(2,3)] by (simp add: gantt_run_def s1(1))
  qed (simp add: gantt_run_def)
  from this[of gantt_view_init] show ?thesis by (simp add: gantt_view_init_def)
qed

lemma reader_changes_nothing_witness:
  "\<exists>s'. gantt_run (sample_env\<lparr>ge_writable := False\<rparr>) [GDown (OnBar ''a'' ''move'') 0 (0, 0), GMove (73, 0),
       GUp (OnBar ''a'' ''move'') (73, 0), GRemove] (gantt_view_init, None, []) = (s', None, [])"
  using reader_changes_nothing[of "sample_env\<lparr>ge_writable := False\<rparr>"
      "[GDown (OnBar ''a'' ''move'') 0 (0, 0), GMove (73, 0), GUp (OnBar ''a'' ''move'') (73, 0), GRemove]" None]
  by (auto simp: sample_env_def)

end
