(* ===== verification/Spec2Isabelle.thy ===== *)
theory Spec2Isabelle
  imports RefTokens Nav WbSync ChatCache GanttDrag HistoryProps HubKeys ApiRoutes
    FileViewers Uploads FusionActions Pins Wiki QueryHooks TaskStore QueryWrites TaskCache Heatmap
    Production JobCanvas TaskScreens GanttView
begin

text \<open>
  FusionOnPremServer is a team server for Autodesk Fusion hubs: a Go program that talks to Autodesk's
  services and keeps the team's own data (tasks, production jobs, chat, whiteboards, pins), and a
  single-page web application in TypeScript, \<open>src/web/src\<close>, which is what its users see. This
  development models the logic of the web application, and the parts of the server it has a contract
  with (the room of a whiteboard, the task store, the hub slug, the pins, the route table).
  Paths below are relative to \<open>src/web/src\<close> unless they start with \<open>src/\<close>.

  \<^bold>\<open>How the parts interact.\<close> \<open>state/nav.tsx\<close> holds where the user is; every other screen reads it, its
  permalink is the address bar, and the reference cards of chat, wiki and tasks jump by its actions.
  \<open>api/client.ts\<close> turns an operation into a request to the server and a response into data, an error
  or a gate reaction, and feeds the quota store. Live data arrives as streams of events: the chat
  stream is folded into the query cache by \<open>chat/cache.ts\<close>, the stream of a whiteboard into the
  editor's document by \<open>whiteboards/useBoardSync.ts\<close>, against the room on the server. The task board
  and the Gantt chart edit the cached tasks optimistically and send a patch. The calendar functions
  of \<open>fmt/dates.ts\<close> are shared by tasks and by the history timeline.

  \<^bold>\<open>The theories.\<close>
  \<^item> \<open>JsPrelude\<close>, \<open>JsUrl\<close>, \<open>JsNumber\<close>: the JavaScript operators and library functions the sources use.
    The locale \<open>comparator\<close> is the contract of a function given to \<open>sort\<close>; each comparator of the
    program interprets it.
  \<^item> \<open>TokenScan\<close>, \<open>RefTokens\<close>: the \<open>fls:\<close> pseudo-URLs. The loop over the matches of a regular
    expression once, and the codecs of \<open>components/*card/*ref.ts\<close> and \<open>notifications/mentions.ts\<close>,
    each an interpretation of the codec contract \<open>token_family\<close>: a text assembled from runs and cards
    is split into them again, and no split loses a character.
  \<^item> \<open>ApiTypes\<close>, \<open>NavUrl\<close>, \<open>Nav\<close>: the DTOs, the navigation state, its reducer, its permalink and the
    browser history (\<open>state/nav.tsx\<close>, \<open>state/navUrl.ts\<close>, \<open>state/dmDeepLink.ts\<close>, \<open>state/goto.ts\<close>).
    A permalink round trip, the invariants of the reducer, and the agreement of the address bar with
    the state over any sequence of actions and of back and forward moves (\<open>nav_step\<close>).
  \<^item> \<open>WbProtocol\<close>, \<open>WbRoom\<close>, \<open>WbSync\<close>: the patch protocol of a whiteboard, the room on the server
    (\<open>src/whiteboards/room.go\<close>, \<open>patch.go\<close>) and the hook of a client. What the room broadcasts is what
    it did; a viewer shows the board as it was at the revision it holds, whatever frames are lost,
    doubled or reordered (an inductive relation of room and viewer together); an editor keeps its
    unsent work over failed sends.
  \<^item> \<open>ChatTyping\<close>, \<open>ChatCache\<close>: typing pings, and every event of the chat stream on the cached
    timelines, threads, channels and unread summaries, with the optimistic send.
  \<^item> \<open>Calendar\<close>, \<open>DayText\<close>: dates over the Gregorian calendar and an explicit time zone, and the
    correspondence of a day with its \<open>YYYY-MM-DD\<close> text.
  \<^item> \<open>Tasks\<close>, \<open>Gantt\<close>, \<open>GanttScale\<close>, \<open>GanttDrag\<close>: the board with its drop handler, the chart's
    geometry, its columns and conversions, and the drag state machine with the optimistic shift, which
    is compared with \<open>ShiftTasks\<close> of \<open>src/tasks/store.go\<close>.
  \<^item> \<open>History\<close>, \<open>HistoryProps\<close>: the version timeline, bucketing and geometry.
  \<^item> \<open>Quota\<close>, \<open>HubKeys\<close>: the throttle store and the retry rule, the hub-scoped storage keys.
  \<^item> \<open>ApiHttp\<close>, \<open>ApiRoutes\<close>: requests and responses, every endpoint of the \<open>api\<close> object and the
    route table of \<open>src/server/routes.go\<close>: each request the client can send has a route.
  \<^item> \<open>JsText\<close>, \<open>FileViewers\<close>: the viewer of an uploaded file and the g-code tokenizer of
    \<open>components/viewers\<close>, which ends on every line.
  \<^item> \<open>Uploads\<close>: the upload dialog, the upload loop, the job list and the window's drag-and-drop of
    \<open>state/uploads.tsx\<close>: no file is lost or sent twice, and the drop overlay always goes away.
  \<^item> \<open>FusionActions\<close>: Open, Insert and archives of \<open>state/fusionActions.tsx\<close>: one action per document,
    and every wait comes to an end.
  \<^item> \<open>Pins\<close>: the stars of \<open>state/pins.ts\<close>, the store of \<open>src/pins/pins.go\<close> and the pins dialog: a pin
    reopens what it was put on.
  \<^item> \<open>Wiki\<close>: the drafts of \<open>wiki/draftStore.ts\<close> and \<open>useDrafts.ts\<close>, and the handlers of \<open>wiki/WikiApp.tsx\<close>
    with their requests answered at any time: the store stays well formed, closing the editor keeps
    the text, and what a late autosave or answer does.
  \<^item> \<open>QueryHooks\<close>, \<open>QueryWrites\<close>: every hook of \<open>api/queries.ts\<close>, its key, request and rules of fetching,
    and every mutation with what its success does to the query cache. A key names one question, no
    private answer is stored in the browser, polling ends.
  \<^item> \<open>TaskStore\<close>, \<open>TaskCache\<close>: the tasks of a project on the server (\<open>src/tasks/store.go\<close>), with the check
    for dependency cycles, and the client's cache beside it: what is not marked stale is what the server has.
  \<^item> \<open>TaskScreens\<close>: the screens of tasks: the edit form as a state machine, the patch and the draft of its
    Save, the details, the lists, the groups of the cross-project screen. A saved form opens again as
    it was saved; what the form lets through the store takes, but for its stricter limits.
  \<^item> \<open>GanttView\<close>: what the chart draws (bars, arrows, labels, grid, header, rail) and the page as a state
    machine around the drag: during a drag it shows what the release commits.
  \<^item> \<open>Heatmap\<close>: the windows, cells and geometry of \<open>components/ActivityHeatmap.tsx\<close>: every change is
    counted in exactly one cell, and the windows follow each other without gaps.
  \<^item> \<open>Production\<close>: the DTOs of \<open>production/types.ts\<close> and the handlers of its screens, the text fields as
    machines of focus, typing and refetching, and the upload button as one of transfers.
  \<^item> \<open>JobCanvas\<close>: \<open>production/JobCanvas.tsx\<close> as a state machine over its mouse events and the answers of
    its requests: what a drag, a zoom, a fit and a chained node do on the screen.
\<close>

text \<open>
  \<^bold>\<open>Conventions.\<close> A JavaScript string is the list of the bytes of its UTF-8 form; \<open>undefined\<close> and
  \<open>null\<close> are \<^const>\<open>None\<close>; an interface is a record whose fields carry a prefix; a number is an
  \<^typ>\<open>int\<close>, or a \<^typ>\<open>rat\<close> where the source divides (no rounding of floats, except where the source
  calls \<open>Math.round\<close>); a \<open>Date\<close> is its instant in milliseconds; the clock, the time zone, locale
  formatters, \<open>Date.parse\<close>, random numbers and third-party code are parameters. The query cache is
  the map its library documents; a network call is split where the source awaits: a function up to
  the request, and one function per outcome. Names of the sources are kept; a definition that
  stands for an inner block of a function has a name of its own.

  \<^bold>\<open>Bounds.\<close> The only fuel is \<^const>\<open>guardMax\<close>, which is in the source: \<open>buildScale\<close> stops after 8000
  columns, enough for a schedule of 7700 days at any unit, the hypothesis of the theorems on the
  scale; the functions that strip or squeeze white space count down the length of the text, each step of
  theirs taking at least one byte of it. Day texts are compared as texts, which is right for the years 1000 to 9999 (\<open>day_ok\<close>).

  \<^bold>\<open>Not modelled.\<close> Rendering: the React components, styling, animation and charts, which hold little
  state of their own; the text editor of the wiki, the drawing library of the whiteboards; the
  handlers of the Go server other than those named above, its client of Autodesk's services, its
  storage and backups. The manifest lists these parts.
\<close>

end
